(* ===== verification/Prelude.thy ===== *)
theory Prelude
  imports Main "HOL-Library.List_Lexorder" "HOL-Library.Product_Lexorder"
begin

text \<open>
  Shared vocabulary of the development: the machine integers of the Rust source, durations
  and instants, clock readings, Unicode strings, the process-wide state every run control
  touches, and the generic lemmas the component theories use.

  \<^item> A \<open>u64\<close> or \<open>usize\<close> is a \<open>nat\<close> (the product ships for 64-bit targets, so both have
    64 bits). Saturating, wrapping and checked arithmetic is written out below; Rust's
    \<open>saturating_sub\<close> is the truncating subtraction of \<open>nat\<close>.
  \<^item> A \<open>Duration\<close> and an \<open>Instant\<close> are counted in nanoseconds (\<open>nat\<close>);
    \<open>Instant::duration_since\<close> saturates at zero, as \<open>nat\<close> subtraction does.
  \<^item> A Rust string is the list of its Unicode scalar values. \<open>str::len\<close> is the length of its
    UTF-8 encoding; the byte order of UTF-8 strings is the lexicographic order of their
    scalar values.
\<close>

named_theorems guarantee_intros \<open>guarantee lemmas of single operations\<close>

section \<open>Machine integers\<close>

type_synonym u64 = nat
type_synonym usize = nat

definition u64_max :: nat where
  "u64_max = 18446744073709551615"

text \<open>\<open>saturating_add\<close>, \<open>saturating_mul\<close>, \<open>checked_add\<close> and the wrapping
  \<open>fetch_add\<close>/\<open>fetch_sub\<close> of the atomics.\<close>

definition sat_add :: "nat \<Rightarrow> nat \<Rightarrow> nat" where
  "sat_add a b = min (a + b) u64_max"

definition sat_mul :: "nat \<Rightarrow> nat \<Rightarrow> nat" where
  "sat_mul a b = min (a * b) u64_max"

definition checked_add :: "nat \<Rightarrow> nat \<Rightarrow> nat option" where
  "checked_add a b = (if a + b \<le> u64_max then Some (a + b) else None)"

definition wrap_add :: "nat \<Rightarrow> nat \<Rightarrow> nat" where
  "wrap_add a b = (a + b) mod (u64_max + 1)"

definition wrap_sub :: "nat \<Rightarrow> nat \<Rightarrow> nat" where
  "wrap_sub a b = (a + (u64_max + 1) - b) mod (u64_max + 1)"

definition wrap_mul :: "nat \<Rightarrow> nat \<Rightarrow> nat" where
  "wrap_mul a b = (a * b) mod (u64_max + 1)"

lemma u64_max_pos [simp]: "0 < u64_max" "Suc 0 \<le> u64_max"
  by (simp_all add: u64_max_def)

lemma sat_add_le_max [simp]: "sat_add a b \<le> u64_max"
  by (simp add: sat_add_def)

lemma sat_add_le_sum: "sat_add a b \<le> a + b"
  by (simp add: sat_add_def)

lemma sat_add_mono: "a \<le> a' \<Longrightarrow> b \<le> b' \<Longrightarrow> sat_add a b \<le> sat_add a' b'"
  by (auto simp: sat_add_def)

lemma sat_add_ge_left: "a \<le> u64_max \<Longrightarrow> a \<le> sat_add a b"
  by (simp add: sat_add_def)

lemma sat_add_exact: "a + b \<le> u64_max \<Longrightarrow> sat_add a b = a + b"
  by (simp add: sat_add_def)

lemma sat_add_less_max_exact: "sat_add a b < u64_max \<Longrightarrow> sat_add a b = a + b"
  by (auto simp: sat_add_def min_def split: if_splits)

lemma sat_mul_le_max [simp]: "sat_mul a b \<le> u64_max"
  by (simp add: sat_mul_def)

lemma wrap_add_exact [simp]: "a + b \<le> u64_max \<Longrightarrow> wrap_add a b = a + b"
  by (simp add: wrap_add_def)

lemma wrap_add_le_max [simp]: "wrap_add a b \<le> u64_max"
proof -
  have "wrap_add a b < u64_max + 1"
    unfolding wrap_add_def by (rule mod_less_divisor) simp
  then show ?thesis by simp
qed

lemma wrap_sub_le_max [simp]: "wrap_sub a b \<le> u64_max"
proof -
  have "wrap_sub a b < u64_max + 1"
    unfolding wrap_sub_def by (rule mod_less_divisor) simp
  then show ?thesis by simp
qed

lemma wrap_sub_exact: "b \<le> a \<Longrightarrow> a \<le> u64_max \<Longrightarrow> wrap_sub a b = a - b"
proof -
  assume b: "b \<le> a" and a: "a \<le> u64_max"
  then have eq: "a + (u64_max + 1) - b = (a - b) + (u64_max + 1)" by simp
  from a have "a - b < u64_max + 1" by linarith
  then show ?thesis unfolding wrap_sub_def eq mod_add_self2 by (rule mod_less)
qed

text \<open>Taking an increment back restores the counter, also across the wrap-around.\<close>

lemma wrap_sub_wrap_add [simp]: "a \<le> u64_max \<Longrightarrow> wrap_sub (wrap_add a (Suc 0)) (Suc 0) = a"
proof (cases "a = u64_max")
  case True
  then show ?thesis by (simp add: wrap_add_def wrap_sub_def)
next
  case False
  assume "a \<le> u64_max"
  with False have "a + 1 \<le> u64_max" by simp
  then show ?thesis by (simp add: wrap_sub_exact)
qed

lemma wrap_add_Suc_le: "a < l \<Longrightarrow> l \<le> u64_max \<Longrightarrow> wrap_add a (Suc 0) = Suc a"
  by simp

section \<open>Time\<close>

type_synonym duration = nat
type_synonym instant = nat

text \<open>The \<open>i\<close>-th reading of \<open>Instant::now()\<close> an operation makes.\<close>

type_synonym clock = "nat \<Rightarrow> instant"

definition from_millis :: "nat \<Rightarrow> duration" where
  "from_millis n = n * 1000000"

definition from_secs :: "nat \<Rightarrow> duration" where
  "from_secs n = n * 1000000000"

definition as_secs :: "duration \<Rightarrow> u64" where
  "as_secs d = d div 1000000000"

text \<open>\<open>as_millis() as u64\<close>: the cast truncates.\<close>

definition as_millis_u64 :: "duration \<Rightarrow> u64" where
  "as_millis_u64 d = (d div 1000000) mod (u64_max + 1)"

text \<open>The largest \<open>Duration\<close>: \<open>u64::MAX\<close> seconds and 999999999 nanoseconds.\<close>

definition duration_max :: duration where
  "duration_max = u64_max * 1000000000 + 999999999"

definition duration_checked_mul :: "duration \<Rightarrow> nat \<Rightarrow> duration option" where
  "duration_checked_mul d n = (if d * n \<le> duration_max then Some (d * n) else None)"

definition clock_from :: "nat \<Rightarrow> clock \<Rightarrow> clock" where
  "clock_from k clk = (\<lambda>i. clk (i + k))"

lemma clock_from_apply [simp]: "clock_from k clk i = clk (i + k)"
  by (simp add: clock_from_def)

section \<open>Strings\<close>

type_synonym ustring = "nat list"

text \<open>A string literal of the source; every literal there is ASCII.\<close>

definition lit :: "string \<Rightarrow> ustring" where
  "lit s = map of_char s"

definition utf8_char :: "nat \<Rightarrow> nat list" where
  "utf8_char c =
     (if c < 128 then [c]
      else if c < 2048 then [192 + c div 64, 128 + c mod 64]
      else if c < 65536 then [224 + c div 4096, 128 + (c div 64) mod 64, 128 + c mod 64]
      else [240 + c div 262144, 128 + (c div 4096) mod 64, 128 + (c div 64) mod 64, 128 + c mod 64])"

definition len_utf8 :: "nat \<Rightarrow> nat" where
  "len_utf8 c = length (utf8_char c)"

definition as_bytes :: "ustring \<Rightarrow> nat list" where
  "as_bytes s = concat (map utf8_char s)"

definition str_len :: "ustring \<Rightarrow> nat" where
  "str_len s = length (as_bytes s)"

text \<open>\<open>to_string\<close> of an unsigned integer.\<close>

fun decimal :: "nat \<Rightarrow> ustring" where
  "decimal n = (if n < 10 then [48 + n] else decimal (n div 10) @ [48 + n mod 10])"

declare decimal.simps [simp del]

text \<open>\<open>char::is_whitespace\<close>: the Unicode White\_Space property.\<close>

definition is_whitespace :: "nat \<Rightarrow> bool" where
  "is_whitespace c \<longleftrightarrow>
     (9 \<le> c \<and> c \<le> 13) \<or> c = 32 \<or> c = 133 \<or> c = 160 \<or> c = 5760 \<or> (8192 \<le> c \<and> c \<le> 8202) \<or>
     c = 8232 \<or> c = 8233 \<or> c = 8239 \<or> c = 8287 \<or> c = 12288"

definition trim :: "ustring \<Rightarrow> ustring" where
  "trim s = rev (dropWhile is_whitespace (rev (dropWhile is_whitespace s)))"

definition to_ascii_lowercase :: "ustring \<Rightarrow> ustring" where
  "to_ascii_lowercase s = map (\<lambda>c. if 65 \<le> c \<and> c \<le> 90 then c + 32 else c) s"

text \<open>\<open>str::contains\<close> for a string pattern.\<close>

fun starts_with :: "'a list \<Rightarrow> 'a list \<Rightarrow> bool" where
  "starts_with s [] = True"
| "starts_with [] (p # ps) = False"
| "starts_with (c # cs) (p # ps) = (c = p \<and> starts_with cs ps)"

fun str_contains :: "'a list \<Rightarrow> 'a list \<Rightarrow> bool" where
  "str_contains [] p = (p = [])"
| "str_contains (c # cs) p = (starts_with (c # cs) p \<or> str_contains cs p)"

text \<open>\<open>s.char_indices().rev().nth(n - 1)\<close> and the suffix from there, or the whole string.\<close>

definition last_chars :: "nat \<Rightarrow> ustring \<Rightarrow> ustring" where
  "last_chars n s = (if n - 1 < length s then drop (length s - Suc (n - 1)) s else s)"

fun join_strs :: "ustring \<Rightarrow> ustring list \<Rightarrow> ustring" where
  "join_strs sep [] = []"
| "join_strs sep [s] = s"
| "join_strs sep (s # t # ss) = s @ sep @ join_strs sep (t # ss)"

lemma str_len_append [simp]: "str_len (s @ t) = str_len s + str_len t"
  by (simp add: str_len_def as_bytes_def)

lemma str_len_Nil [simp]: "str_len [] = 0"
  by (simp add: str_len_def as_bytes_def)

lemma str_len_Cons [simp]: "str_len (c # s) = len_utf8 c + str_len s"
  by (simp add: str_len_def as_bytes_def len_utf8_def)

lemma length_last_chars: "0 < n \<Longrightarrow> length (last_chars n s) \<le> n"
  by (auto simp: last_chars_def)

lemma last_chars_short: "length s < n \<Longrightarrow> last_chars n s = s"
  by (auto simp: last_chars_def)

lemma trim_id:
  assumes "s \<noteq> []" "\<not> is_whitespace (hd s)" "\<not> is_whitespace (last s)"
  shows "trim s = s"
proof -
  have "dropWhile is_whitespace s = s" using assms(1,2) by (cases s) auto
  moreover have "dropWhile is_whitespace (rev s) = rev s"
    using assms(1,3) by (cases "rev s") (auto simp: last_rev [symmetric] hd_rev)
  ultimately show ?thesis by (simp add: trim_def)
qed

lemma last_trim:
  assumes "trim s \<noteq> []"
  shows "\<not> is_whitespace (last (trim s))"
  using assms hd_dropWhile [of is_whitespace "rev (dropWhile is_whitespace s)"]
  by (simp add: trim_def last_rev)

lemma hd_trim:
  assumes "trim s \<noteq> []"
  shows "\<not> is_whitespace (hd (trim s))"
proof -
  have eq: "dropWhile is_whitespace (trim s) = trim s"
  proof -
    define a where "a = dropWhile is_whitespace s"
    obtain zs where "rev a = zs @ rev (trim s)"
      by (metis a_def rev_rev_ident takeWhile_dropWhile_id trim_def)
    then have a_eq: "a = trim s @ rev zs" by (metis rev_append rev_rev_ident)
    with assms have "a \<noteq> []" and "hd a = hd (trim s)" by auto
    then have "\<not> is_whitespace (hd (trim s))"
      using hd_dropWhile [of is_whitespace s] by (simp add: a_def)
    with assms show ?thesis by (cases "trim s") auto
  qed
  with assms show ?thesis by (metis hd_dropWhile)
qed

lemma trim_idem [simp]: "trim (trim s) = trim s"
proof (cases "trim s = []")
  case True
  have "trim [] = []" by (simp add: trim_def)
  then show ?thesis unfolding True .
next
  case False
  then show ?thesis by (intro trim_id hd_trim last_trim)
qed

section \<open>Stable sorting by a descending key\<close>

text \<open>\<open>slice::sort_by_key(|x| Reverse(key(x)))\<close>: stable, largest key first.\<close>

definition sort_by_reverse_key :: "('a \<Rightarrow> 'k::linorder) \<Rightarrow> 'a list \<Rightarrow> 'a list" where
  "sort_by_reverse_key f xs = rev (sort_key f (rev xs))"

lemma set_sort_by_reverse_key [simp]: "set (sort_by_reverse_key f xs) = set xs"
  by (simp add: sort_by_reverse_key_def)

lemma length_sort_by_reverse_key [simp]: "length (sort_by_reverse_key f xs) = length xs"
  by (simp add: sort_by_reverse_key_def)

lemma sorted_sort_by_reverse_key:
  "sorted_wrt (\<lambda>x y. f y \<le> f x) (sort_by_reverse_key f xs)"
proof -
  have "sorted (map f (sort_key f (rev xs)))" by (rule sorted_sort_key)
  then have "sorted_wrt (\<lambda>x y. f x \<le> f y) (sort_key f (rev xs))"
    by (simp add: sorted_map)
  then show ?thesis by (simp add: sort_by_reverse_key_def sorted_wrt_rev)
qed

section \<open>The process around the run controls\<close>

text \<open>
  What run controls share beyond themselves: the static ledger counter
  (\<open>NEXT_LEDGER_ID\<close>) and the heap cells behind \<open>Arc<AtomicBool>\<close>. A cell is an address;
  two controls share a cancellation flag exactly when they hold the same address
  (\<open>Arc::ptr_eq\<close>).
\<close>

record process =
  next_ledger :: u64
  next_flag :: nat
  flag :: "nat \<Rightarrow> bool"

definition alloc_flag :: "process \<Rightarrow> nat \<times> process" where
  "alloc_flag p = (next_flag p, p\<lparr>next_flag := Suc (next_flag p), flag := (flag p)(next_flag p := False)\<rparr>)"

end
