(* ===== verification/Run_Budget.thy ===== *)
theory Run_Budget
  imports Prelude
begin

text \<open>
  Model of \<open>crates/agent-runtime/src/run_budget.rs\<close>: the stage classes of a run, the budget
  table of the effort tiers, the reserves that protect the terminal stages, and the allowance of
  one stage. \<open>budget_wf\<close> is the well-formedness the run control relies on; every effort tier
  has it.
\<close>

section \<open>Stage classes\<close>

datatype RunStageClass =
    Actor | Conductor | Candidate | Worker | Reviewer | Synthesizer | Repair | Finalizer | Other

definition label_contains :: "ustring \<Rightarrow> string \<Rightarrow> bool" where
  "label_contains label p \<longleftrightarrow> str_contains label (lit p)"

definition from_label :: "ustring \<Rightarrow> RunStageClass" where
  "from_label raw =
     (let label = to_ascii_lowercase raw in
      if label_contains label ''terminal_executor'' \<or> label_contains label ''finalizer''
         \<or> label_contains label ''user_delivery'' \<or> label_contains label ''deliver_to_user''
      then Finalizer
      else if label_contains label ''actor'' then Actor
      else if label_contains label ''repair'' \<or> label_contains label ''recover''
         \<or> label_contains label ''retry'' then Repair
      else if label_contains label ''conductor'' \<or> label_contains label ''planner'' then Conductor
      else if label_contains label ''candidate'' then Candidate
      else if label_contains label ''review'' \<or> label_contains label ''critic'' then Reviewer
      else if label_contains label ''synth'' \<or> label_contains label ''summar''
         \<or> label_contains label ''final'' then Synthesizer
      else if label_contains label ''worker'' then Worker
      else Other)"

fun is_terminal_class :: "RunStageClass \<Rightarrow> bool" where
  "is_terminal_class Reviewer = True"
| "is_terminal_class Synthesizer = True"
| "is_terminal_class Repair = True"
| "is_terminal_class Finalizer = True"
| "is_terminal_class _ = False"

definition is_finalizer :: "RunStageClass \<Rightarrow> bool" where
  "is_finalizer c \<longleftrightarrow> c = Finalizer"

section \<open>Budgets\<close>

record RunStageBudget =
  sb_max_model_calls :: usize
  sb_max_duration :: duration
  sb_terminal :: bool

record RunBudget =
  max_duration :: duration
  model_call_timeout :: duration
  tool_call_timeout :: duration
  initial_model_calls :: usize
  max_model_calls :: usize
  model_calls_per_extension :: usize
  initial_tool_calls :: usize
  max_tool_calls :: usize
  tool_calls_per_extension :: usize
  no_progress_timeout :: duration
  max_identical_actions :: usize
  initial_agent_turns :: usize
  max_agent_turns :: usize
  agent_turns_per_extension :: usize
  max_repair_attempts :: usize
  terminal_model_call_reserve :: usize
  terminal_time_reserve :: duration
  max_total_tokens :: u64
  max_physical_model_attempts :: usize
  terminal_token_reserve :: u64
  terminal_physical_model_attempt_reserve :: usize

definition CONSERVATIVE_TOKENS_PER_PHYSICAL_MODEL_ATTEMPT :: u64 where
  "CONSERVATIVE_TOKENS_PER_PHYSICAL_MODEL_ATTEMPT = 1048576"

definition PHYSICAL_MODEL_ATTEMPTS_PER_LOGICAL_CALL :: usize where
  "PHYSICAL_MODEL_ATTEMPTS_PER_LOGICAL_CALL = 4"

definition default_physical_attempt_budget :: "usize \<Rightarrow> usize" where
  "default_physical_attempt_budget calls = sat_mul calls PHYSICAL_MODEL_ATTEMPTS_PER_LOGICAL_CALL"

definition default_total_token_budget :: "usize \<Rightarrow> u64" where
  "default_total_token_budget calls =
     sat_mul (default_physical_attempt_budget calls) CONSERVATIVE_TOKENS_PER_PHYSICAL_MODEL_ATTEMPT"

definition default_terminal_physical_attempt_reserve :: "usize \<Rightarrow> usize" where
  "default_terminal_physical_attempt_reserve calls =
     sat_mul calls PHYSICAL_MODEL_ATTEMPTS_PER_LOGICAL_CALL"

definition default_terminal_token_reserve :: "usize \<Rightarrow> u64" where
  "default_terminal_token_reserve calls =
     sat_mul (default_terminal_physical_attempt_reserve calls)
       CONSERVATIVE_TOKENS_PER_PHYSICAL_MODEL_ATTEMPT"

definition for_effort :: "ustring \<Rightarrow> RunBudget" where
  "for_effort raw =
     (let effort = (if raw = lit ''auto'' then lit ''default''
                    else if raw = lit ''pro'' then lit ''high'' else raw) in
      if effort = lit ''fast'' then
        \<lparr>max_duration = from_secs (5 * 60), model_call_timeout = from_secs (3 * 60),
         tool_call_timeout = from_secs (5 * 60),
         initial_model_calls = 6, max_model_calls = 12, model_calls_per_extension = 3,
         initial_tool_calls = 12, max_tool_calls = 24, tool_calls_per_extension = 6,
         no_progress_timeout = from_secs 90, max_identical_actions = 3,
         initial_agent_turns = 6, max_agent_turns = 12, agent_turns_per_extension = 3,
         max_repair_attempts = 2, terminal_model_call_reserve = 2,
         terminal_time_reserve = from_secs (3 * 60),
         max_total_tokens = default_total_token_budget 12,
         max_physical_model_attempts = default_physical_attempt_budget 12,
         terminal_token_reserve = default_terminal_token_reserve 2,
         terminal_physical_model_attempt_reserve = default_terminal_physical_attempt_reserve 2\<rparr>
      else if effort = lit ''high'' then
        \<lparr>max_duration = from_secs (4 * 60 * 60), model_call_timeout = from_secs (15 * 60),
         tool_call_timeout = from_secs (60 * 60),
         initial_model_calls = 48, max_model_calls = 384, model_calls_per_extension = 48,
         initial_tool_calls = 96, max_tool_calls = 768, tool_calls_per_extension = 96,
         no_progress_timeout = from_secs (5 * 60), max_identical_actions = 4,
         initial_agent_turns = 48, max_agent_turns = 384, agent_turns_per_extension = 48,
         max_repair_attempts = 8, terminal_model_call_reserve = 8,
         terminal_time_reserve = from_secs (15 * 60),
         max_total_tokens = default_total_token_budget 384,
         max_physical_model_attempts = default_physical_attempt_budget 384,
         terminal_token_reserve = default_terminal_token_reserve 8,
         terminal_physical_model_attempt_reserve = default_terminal_physical_attempt_reserve 8\<rparr>
      else if effort = lit ''xhigh'' then
        \<lparr>max_duration = from_secs (6 * 60 * 60), model_call_timeout = from_secs (15 * 60),
         tool_call_timeout = from_secs (60 * 60),
         initial_model_calls = 64, max_model_calls = 512, model_calls_per_extension = 64,
         initial_tool_calls = 128, max_tool_calls = 1024, tool_calls_per_extension = 128,
         no_progress_timeout = from_secs (5 * 60), max_identical_actions = 4,
         initial_agent_turns = 64, max_agent_turns = 512, agent_turns_per_extension = 64,
         max_repair_attempts = 12, terminal_model_call_reserve = 12,
         terminal_time_reserve = from_secs (15 * 60),
         max_total_tokens = default_total_token_budget 512,
         max_physical_model_attempts = default_physical_attempt_budget 512,
         terminal_token_reserve = default_terminal_token_reserve 12,
         terminal_physical_model_attempt_reserve = default_terminal_physical_attempt_reserve 12\<rparr>
      else
        \<lparr>max_duration = from_secs (45 * 60), model_call_timeout = from_secs (5 * 60),
         tool_call_timeout = from_secs (15 * 60),
         initial_model_calls = 18, max_model_calls = 72, model_calls_per_extension = 18,
         initial_tool_calls = 36, max_tool_calls = 144, tool_calls_per_extension = 36,
         no_progress_timeout = from_secs (2 * 60), max_identical_actions = 3,
         initial_agent_turns = 18, max_agent_turns = 72, agent_turns_per_extension = 18,
         max_repair_attempts = 4, terminal_model_call_reserve = 4,
         terminal_time_reserve = from_secs (5 * 60),
         max_total_tokens = default_total_token_budget 72,
         max_physical_model_attempts = default_physical_attempt_budget 72,
         terminal_token_reserve = default_terminal_token_reserve 4,
         terminal_physical_model_attempt_reserve = default_terminal_physical_attempt_reserve 4\<rparr>)"

section \<open>Reserves and stage allowances\<close>

definition finalizer_model_call_reserve :: "RunBudget \<Rightarrow> usize" where
  "finalizer_model_call_reserve b = max (terminal_model_call_reserve b) 1"

definition finalizer_time_reserve :: "RunBudget \<Rightarrow> duration" where
  "finalizer_time_reserve b = terminal_time_reserve b"

definition protected_model_call_reserve :: "RunBudget \<Rightarrow> RunStageClass \<Rightarrow> usize" where
  "protected_model_call_reserve b c =
     (if is_finalizer c then 0
      else if is_terminal_class c then finalizer_model_call_reserve b
      else terminal_model_call_reserve b)"

definition protected_time_reserve :: "RunBudget \<Rightarrow> RunStageClass \<Rightarrow> duration" where
  "protected_time_reserve b c =
     (if is_finalizer c then 0
      else if is_terminal_class c then finalizer_time_reserve b
      else terminal_time_reserve b)"

definition protected_token_reserve :: "RunBudget \<Rightarrow> RunStageClass \<Rightarrow> u64" where
  "protected_token_reserve b c = (if is_finalizer c then 0 else terminal_token_reserve b)"

definition protected_physical_model_attempt_reserve :: "RunBudget \<Rightarrow> RunStageClass \<Rightarrow> usize" where
  "protected_physical_model_attempt_reserve b c =
     (if is_finalizer c then 0 else terminal_physical_model_attempt_reserve b)"

fun stage_call_allowance :: "RunBudget \<Rightarrow> RunStageClass \<Rightarrow> usize \<times> nat" where
  "stage_call_allowance b Actor = (max_model_calls b, 1)"
| "stage_call_allowance b Conductor = (sat_add (max_repair_attempts b) 1, 5)"
| "stage_call_allowance b Candidate = (max (max_model_calls b div 3) 2, 2)"
| "stage_call_allowance b Worker = (max (max_model_calls b div 2) 2, 1)"
| "stage_call_allowance b Reviewer = (sat_add (max_repair_attempts b) 2, 3)"
| "stage_call_allowance b Synthesizer = (sat_add (max_repair_attempts b) 2, 2)"
| "stage_call_allowance b Repair = (max_repair_attempts b, 4)"
| "stage_call_allowance b Finalizer = (finalizer_model_call_reserve b, 1)"
| "stage_call_allowance b Other = (max_model_calls b, 1)"

definition stage_budget :: "RunBudget \<Rightarrow> RunStageClass \<Rightarrow> RunStageBudget" where
  "stage_budget b c =
     (let (calls, divisor) = stage_call_allowance b c in
      \<lparr>sb_max_model_calls = max (min calls (max_model_calls b)) 1,
       sb_max_duration =
         (if is_finalizer c then max (finalizer_time_reserve b) (from_millis 1)
          else max_duration b div divisor),
       sb_terminal = is_terminal_class c\<rparr>)"

section \<open>Well-formed budgets\<close>

definition budget_wf :: "RunBudget \<Rightarrow> bool" where
  "budget_wf b \<longleftrightarrow>
     1 \<le> initial_model_calls b \<and> initial_model_calls b \<le> max_model_calls b \<and>
     1 \<le> initial_tool_calls b \<and> initial_tool_calls b \<le> max_tool_calls b \<and>
     1 \<le> initial_agent_turns b \<and> initial_agent_turns b \<le> max_agent_turns b \<and>
     max_model_calls b < u64_max \<and> max_tool_calls b < u64_max \<and> max_agent_turns b < u64_max \<and>
     max_repair_attempts b < u64_max \<and>
     terminal_model_call_reserve b < max_model_calls b \<and>
     terminal_token_reserve b < max_total_tokens b \<and> max_total_tokens b < u64_max \<and>
     terminal_physical_model_attempt_reserve b < max_physical_model_attempts b \<and>
     max_physical_model_attempts b < u64_max"

lemma is_finalizer_simps [simp]:
  "is_finalizer Finalizer" "c \<noteq> Finalizer \<Longrightarrow> \<not> is_finalizer c"
  by (simp_all add: is_finalizer_def)

lemma is_terminal_class_iff:
  "is_terminal_class c \<longleftrightarrow> c \<in> {Reviewer, Synthesizer, Repair, Finalizer}"
  by (cases c) simp_all

lemmas budget_default_defs =
  default_total_token_budget_def default_physical_attempt_budget_def
  default_terminal_token_reserve_def default_terminal_physical_attempt_reserve_def
  CONSERVATIVE_TOKENS_PER_PHYSICAL_MODEL_ATTEMPT_def
  PHYSICAL_MODEL_ATTEMPTS_PER_LOGICAL_CALL_def sat_mul_def u64_max_def

lemma for_effort_cases:
  "for_effort e \<in> {for_effort (lit ''fast''), for_effort (lit ''high''),
     for_effort (lit ''xhigh''), for_effort (lit ''default'')}"
  by (simp add: for_effort_def lit_def Let_def)

text \<open>Every tier is well formed, whatever label the caller passes.\<close>

lemma for_effort_wf: "budget_wf (for_effort e)"
proof -
  have "budget_wf (for_effort (lit ''fast''))" "budget_wf (for_effort (lit ''high''))"
    "budget_wf (for_effort (lit ''xhigh''))" "budget_wf (for_effort (lit ''default''))"
    by (simp_all add: for_effort_def lit_def budget_wf_def budget_default_defs)
  with for_effort_cases [of e] show ?thesis by auto
qed

lemma stage_budget_calls:
  "1 \<le> sb_max_model_calls (stage_budget b c)"
  "1 \<le> max_model_calls b \<Longrightarrow> sb_max_model_calls (stage_budget b c) \<le> max_model_calls b"
  by (simp_all add: stage_budget_def split: prod.split)

lemma stage_budget_terminal [simp]: "sb_terminal (stage_budget b c) = is_terminal_class c"
  by (simp add: stage_budget_def split: prod.split)

lemma stage_budget_duration:
  "c \<noteq> Finalizer \<Longrightarrow> sb_max_duration (stage_budget b c) \<le> max_duration b"
  by (cases c) (simp_all add: stage_budget_def)

end
