(* ===== verification/Resource_Ledger.thy ===== *)
theory Resource_Ledger
  imports BTree_Map Run_Budget
begin

text \<open>
  Model of \<open>crates/agent-runtime/src/resource_ledger.rs\<close>: the one ledger through which a run
  reserves and settles physical model attempts. A reservation moves tokens into
  \<open>reserved_tokens\<close> of the segment and of the lineage and keeps a pending entry; settling
  removes the entry and books the reported usage (the whole reservation when the usage is
  unknown). SHA-256 (crate \<open>sha2\<close>) and the JSON encoder (crate \<open>serde_json\<close>) are
  parameters.
\<close>

section \<open>Usage records\<close>

definition MAX_RESOURCE_LEDGER_MODELS :: usize where
  "MAX_RESOURCE_LEDGER_MODELS = 32"

definition MAX_PENDING_RESOURCE_ATTEMPTS :: usize where
  "MAX_PENDING_RESOURCE_ATTEMPTS = 64"

definition MAX_RESOURCE_MODEL_KEY_BYTES :: usize where
  "MAX_RESOURCE_MODEL_KEY_BYTES = 128"

definition MAX_PERSISTED_RESOURCE_SNAPSHOT_BYTES :: usize where
  "MAX_PERSISTED_RESOURCE_SNAPSHOT_BYTES = 65536"

definition OTHER_MODELS_KEY :: ustring where
  "OTHER_MODELS_KEY = lit ''__other_models__''"

definition UNKNOWN_MODEL_KEY :: ustring where
  "UNKNOWN_MODEL_KEY = lit ''__unknown_model__''"

datatype ModelUsageSource = SrcProvider | SrcProviderPartial | SrcEstimated | SrcUnknown

record ModelUsageSourceCounts =
  uc_provider :: u64
  uc_provider_partial :: u64
  uc_estimated :: u64
  uc_unknown :: u64

definition counts_default :: ModelUsageSourceCounts where
  "counts_default = \<lparr>uc_provider = 0, uc_provider_partial = 0, uc_estimated = 0, uc_unknown = 0\<rparr>"

definition counts_total :: "ModelUsageSourceCounts \<Rightarrow> u64" where
  "counts_total c =
     sat_add (sat_add (sat_add (uc_provider c) (uc_provider_partial c)) (uc_estimated c)) (uc_unknown c)"

definition least_complete :: "ModelUsageSourceCounts \<Rightarrow> ModelUsageSource option" where
  "least_complete c =
     (if uc_unknown c > 0 then Some SrcUnknown
      else if uc_estimated c > 0 then Some SrcEstimated
      else if uc_provider_partial c > 0 then Some SrcProviderPartial
      else if uc_provider c > 0 then Some SrcProvider
      else None)"

fun counts_record :: "ModelUsageSource \<Rightarrow> ModelUsageSourceCounts \<Rightarrow> ModelUsageSourceCounts" where
  "counts_record SrcProvider c = c\<lparr>uc_provider := sat_add (uc_provider c) 1\<rparr>"
| "counts_record SrcProviderPartial c = c\<lparr>uc_provider_partial := sat_add (uc_provider_partial c) 1\<rparr>"
| "counts_record SrcEstimated c = c\<lparr>uc_estimated := sat_add (uc_estimated c) 1\<rparr>"
| "counts_record SrcUnknown c = c\<lparr>uc_unknown := sat_add (uc_unknown c) 1\<rparr>"

record ModelResourceUsage =
  mu_physical_attempts :: u64
  mu_prompt_tokens :: u64
  mu_completion_tokens :: u64
  mu_total_tokens :: u64
  mu_reserved_tokens :: u64
  mu_usage_sources :: ModelUsageSourceCounts

definition model_usage_default :: ModelResourceUsage where
  "model_usage_default =
     \<lparr>mu_physical_attempts = 0, mu_prompt_tokens = 0, mu_completion_tokens = 0,
      mu_total_tokens = 0, mu_reserved_tokens = 0, mu_usage_sources = counts_default\<rparr>"

record RunResourceUsage =
  ru_physical_attempts :: u64
  ru_prompt_tokens :: u64
  ru_completion_tokens :: u64
  ru_total_tokens :: u64
  ru_reserved_tokens :: u64
  ru_provider_prompt_tokens :: u64
  ru_provider_completion_tokens :: u64
  ru_usage_sources :: ModelUsageSourceCounts
  ru_models :: "(ustring, ModelResourceUsage) btree"

definition run_usage_default :: RunResourceUsage where
  "run_usage_default =
     \<lparr>ru_physical_attempts = 0, ru_prompt_tokens = 0, ru_completion_tokens = 0,
      ru_total_tokens = 0, ru_reserved_tokens = 0, ru_provider_prompt_tokens = 0,
      ru_provider_completion_tokens = 0, ru_usage_sources = counts_default, ru_models = []\<rparr>"

record ModelAttemptUsage =
  au_prompt_tokens :: u64
  au_completion_tokens :: u64
  au_total_tokens :: u64
  au_source :: ModelUsageSource

definition attempt_usage_new :: "u64 \<Rightarrow> u64 \<Rightarrow> u64 \<Rightarrow> ModelUsageSource \<Rightarrow> ModelAttemptUsage" where
  "attempt_usage_new p c t s =
     \<lparr>au_prompt_tokens = p, au_completion_tokens = c, au_total_tokens = t, au_source = s\<rparr>"

definition normalized :: "ModelAttemptUsage \<Rightarrow> ModelAttemptUsage" where
  "normalized u =
     u\<lparr>au_total_tokens := max (au_total_tokens u) (sat_add (au_prompt_tokens u) (au_completion_tokens u))\<rparr>"

text \<open>The usage booked for an attempt whose real usage is not known.\<close>

definition unknown_usage :: "u64 \<Rightarrow> ModelAttemptUsage" where
  "unknown_usage reserved =
     \<lparr>au_prompt_tokens = 0, au_completion_tokens = 0, au_total_tokens = reserved, au_source = SrcUnknown\<rparr>"

record PhysicalModelAttempt =
  pa_ledger_id :: u64
  pa_attempt_id :: u64
  pa_model :: ustring
  pa_reserved_tokens :: u64

record PendingModelAttempt =
  pm_model :: ustring
  pm_reserved_tokens :: u64

record RunResourceSnapshot =
  rs_segment :: RunResourceUsage
  rs_lineage :: RunResourceUsage
  rs_mutation_revision :: u64
  rs_ledger_id :: u64
  rs_next_attempt_id :: u64
  rs_pending_attempts :: "(u64, PendingModelAttempt) btree"

datatype ResourceAdmissionError = ProtectedReserve | ResourceExhausted

record ResourceSettlement =
  st_settled :: bool
  st_exhausted :: bool

record RunResourceLedger =
  lg_mutation_revision :: u64
  lg_ledger_id :: u64
  lg_next_attempt_id :: u64
  lg_segment :: RunResourceUsage
  lg_lineage :: RunResourceUsage
  lg_pending_attempts :: "(u64, PendingModelAttempt) btree"

section \<open>Model keys\<close>

definition hex_digit :: "nat \<Rightarrow> nat" where
  "hex_digit n = (if n < 10 then 48 + n else 87 + n)"

definition hex_byte :: "nat \<Rightarrow> ustring" where
  "hex_byte b = [hex_digit (b div 16), hex_digit (b mod 16)]"

fun take_prefix_bytes :: "nat \<Rightarrow> nat \<Rightarrow> ustring \<Rightarrow> ustring" where
  "take_prefix_bytes limit used [] = []"
| "take_prefix_bytes limit used (c # cs) =
     (if sat_add used (len_utf8 c) > limit then []
      else c # take_prefix_bytes limit (used + len_utf8 c) cs)"

definition bounded_model_identifier :: "(nat list \<Rightarrow> nat list) \<Rightarrow> ustring \<Rightarrow> ustring" where
  "bounded_model_identifier sha256 raw =
     (let model = trim raw in
      if model = [] then UNKNOWN_MODEL_KEY
      else if str_len model \<le> MAX_RESOURCE_MODEL_KEY_BYTES then model
      else
        let digest = sha256 (as_bytes model);
            suffix = concat (map hex_byte (take 8 digest));
            prefix_budget = MAX_RESOURCE_MODEL_KEY_BYTES - (str_len suffix + 1);
            prefix = take_prefix_bytes prefix_budget 0 model
        in prefix @ lit ''#'' @ suffix)"

definition bounded_model_key ::
  "(nat list \<Rightarrow> nat list) \<Rightarrow> (ustring, ModelResourceUsage) btree \<Rightarrow> ustring \<Rightarrow> ustring"
where
  "bounded_model_key sha256 models raw =
     (let model = bounded_model_identifier sha256 raw in
      if bt_contains_key models model then model
      else if model = OTHER_MODELS_KEY \<or> length models \<ge> MAX_RESOURCE_LEDGER_MODELS - 1
      then OTHER_MODELS_KEY else model)"

section \<open>Booking and merging usage\<close>

definition reserve_usage :: "ustring \<Rightarrow> u64 \<Rightarrow> RunResourceUsage \<Rightarrow> RunResourceUsage" where
  "reserve_usage model reserved u =
     u\<lparr>ru_physical_attempts := sat_add (ru_physical_attempts u) 1,
       ru_reserved_tokens := sat_add (ru_reserved_tokens u) reserved,
       ru_models := bt_update_or model_usage_default model
         (\<lambda>m. m\<lparr>mu_physical_attempts := sat_add (mu_physical_attempts m) 1,
                mu_reserved_tokens := sat_add (mu_reserved_tokens m) reserved\<rparr>) (ru_models u)\<rparr>"

definition settle_model_usage :: "u64 \<Rightarrow> ModelAttemptUsage \<Rightarrow> ModelResourceUsage \<Rightarrow> ModelResourceUsage" where
  "settle_model_usage reserved s m =
     m\<lparr>mu_reserved_tokens := mu_reserved_tokens m - reserved,
       mu_prompt_tokens := sat_add (mu_prompt_tokens m) (au_prompt_tokens s),
       mu_completion_tokens := sat_add (mu_completion_tokens m) (au_completion_tokens s),
       mu_total_tokens := sat_add (mu_total_tokens m) (au_total_tokens s),
       mu_usage_sources := counts_record (au_source s) (mu_usage_sources m)\<rparr>"

definition settle_usage ::
  "(nat list \<Rightarrow> nat list) \<Rightarrow> ustring \<Rightarrow> u64 \<Rightarrow> ModelAttemptUsage \<Rightarrow> RunResourceUsage \<Rightarrow> RunResourceUsage"
where
  "settle_usage sha256 model reserved s u =
     (let key = bounded_model_key sha256 (ru_models u) model in
      u\<lparr>ru_reserved_tokens := ru_reserved_tokens u - reserved,
        ru_prompt_tokens := sat_add (ru_prompt_tokens u) (au_prompt_tokens s),
        ru_completion_tokens := sat_add (ru_completion_tokens u) (au_completion_tokens s),
        ru_total_tokens := sat_add (ru_total_tokens u) (au_total_tokens s),
        ru_provider_prompt_tokens :=
          (if au_source s = SrcProvider
           then sat_add (ru_provider_prompt_tokens u) (au_prompt_tokens s)
           else ru_provider_prompt_tokens u),
        ru_provider_completion_tokens :=
          (if au_source s = SrcProvider
           then sat_add (ru_provider_completion_tokens u) (au_completion_tokens s)
           else ru_provider_completion_tokens u),
        ru_usage_sources := counts_record (au_source s) (ru_usage_sources u),
        ru_models := bt_update_or model_usage_default key (settle_model_usage reserved s) (ru_models u)\<rparr>)"

definition merge_counts :: "ModelUsageSourceCounts \<Rightarrow> ModelUsageSourceCounts \<Rightarrow> ModelUsageSourceCounts" where
  "merge_counts t s =
     t\<lparr>uc_provider := sat_add (uc_provider t) (uc_provider s),
       uc_provider_partial := sat_add (uc_provider_partial t) (uc_provider_partial s),
       uc_estimated := sat_add (uc_estimated t) (uc_estimated s),
       uc_unknown := sat_add (uc_unknown t) (uc_unknown s)\<rparr>"

definition merge_model_usage :: "ModelResourceUsage \<Rightarrow> ModelResourceUsage \<Rightarrow> ModelResourceUsage" where
  "merge_model_usage t s =
     t\<lparr>mu_physical_attempts := sat_add (mu_physical_attempts t) (mu_physical_attempts s),
       mu_prompt_tokens := sat_add (mu_prompt_tokens t) (mu_prompt_tokens s),
       mu_completion_tokens := sat_add (mu_completion_tokens t) (mu_completion_tokens s),
       mu_total_tokens := sat_add (mu_total_tokens t) (mu_total_tokens s),
       mu_reserved_tokens := sat_add (mu_reserved_tokens t) (mu_reserved_tokens s),
       mu_usage_sources := merge_counts (mu_usage_sources t) (mu_usage_sources s)\<rparr>"

text \<open>One round of the loop of \<open>bounded_usage\<close>: the bounded map, the overflow usage and
  whether the overflow was used.\<close>

type_synonym bounding = "(ustring, ModelResourceUsage) btree \<times> ModelResourceUsage \<times> bool"

definition bound_model ::
  "(nat list \<Rightarrow> nat list) \<Rightarrow> ustring \<times> ModelResourceUsage \<Rightarrow> bounding \<Rightarrow> bounding"
where
  "bound_model sha256 entry acc =
     (case acc of (bounded, overflow, used) \<Rightarrow>
      let model = bounded_model_identifier sha256 (fst entry) in
      if model = OTHER_MODELS_KEY then (bounded, merge_model_usage overflow (snd entry), True)
      else case bt_get bounded model of
          Some existing \<Rightarrow> (bt_insert model (merge_model_usage existing (snd entry)) bounded, overflow, used)
        | None \<Rightarrow>
            if length bounded < MAX_RESOURCE_LEDGER_MODELS - 1
            then (bt_insert model (snd entry) bounded, overflow, used)
            else (bounded, merge_model_usage overflow (snd entry), True))"

definition bounded_usage :: "(nat list \<Rightarrow> nat list) \<Rightarrow> RunResourceUsage \<Rightarrow> RunResourceUsage" where
  "bounded_usage sha256 u =
     (case fold (bound_model sha256) (ru_models u) ([], model_usage_default, False) of
        (bounded, overflow, used) \<Rightarrow>
          u\<lparr>ru_models := (if used then bt_insert OTHER_MODELS_KEY overflow bounded else bounded)\<rparr>)"

definition merge_models ::
  "(nat list \<Rightarrow> nat list) \<Rightarrow> (ustring, ModelResourceUsage) btree \<Rightarrow> (ustring, ModelResourceUsage) btree
     \<Rightarrow> (ustring, ModelResourceUsage) btree"
where
  "merge_models sha256 source target =
     fold (\<lambda>e t. bt_update_or model_usage_default (bounded_model_key sha256 t (fst e))
        (\<lambda>m. merge_model_usage m (snd e)) t) source target"

definition merge_run_usage ::
  "(nat list \<Rightarrow> nat list) \<Rightarrow> RunResourceUsage \<Rightarrow> RunResourceUsage \<Rightarrow> RunResourceUsage"
where
  "merge_run_usage sha256 t s =
     bounded_usage sha256
       (t\<lparr>ru_physical_attempts := sat_add (ru_physical_attempts t) (ru_physical_attempts s),
          ru_prompt_tokens := sat_add (ru_prompt_tokens t) (ru_prompt_tokens s),
          ru_completion_tokens := sat_add (ru_completion_tokens t) (ru_completion_tokens s),
          ru_total_tokens := sat_add (ru_total_tokens t) (ru_total_tokens s),
          ru_reserved_tokens := sat_add (ru_reserved_tokens t) (ru_reserved_tokens s),
          ru_provider_prompt_tokens :=
            sat_add (ru_provider_prompt_tokens t) (ru_provider_prompt_tokens s),
          ru_provider_completion_tokens :=
            sat_add (ru_provider_completion_tokens t) (ru_provider_completion_tokens s),
          ru_usage_sources := merge_counts (ru_usage_sources t) (ru_usage_sources s),
          ru_models := merge_models sha256 (ru_models s) (ru_models t)\<rparr>)"

section \<open>The ledger\<close>

text \<open>\<open>fetch_update\<close> returns the previous value of the static counter.\<close>

definition next_ledger_id :: "process \<Rightarrow> u64 \<times> process" where
  "next_ledger_id p = (max (next_ledger p) 1, p\<lparr>next_ledger := sat_add (next_ledger p) 1\<rparr>)"

definition bump_mutation_revision :: "RunResourceLedger \<Rightarrow> RunResourceLedger" where
  "bump_mutation_revision l = l\<lparr>lg_mutation_revision := sat_add (lg_mutation_revision l) 1\<rparr>"

definition ledger_new :: "process \<Rightarrow> RunResourceLedger \<times> process" where
  "ledger_new p =
     (case next_ledger_id p of (i, p') \<Rightarrow>
        (\<lparr>lg_mutation_revision = 0, lg_ledger_id = i, lg_next_attempt_id = 1,
          lg_segment = run_usage_default, lg_lineage = run_usage_default,
          lg_pending_attempts = []\<rparr>, p'))"

definition bound_pending :: "(nat list \<Rightarrow> nat list) \<Rightarrow> PendingModelAttempt \<Rightarrow> PendingModelAttempt" where
  "bound_pending sha256 a = a\<lparr>pm_model := bounded_model_identifier sha256 (pm_model a)\<rparr>"

definition ledger_from_snapshot ::
  "(nat list \<Rightarrow> nat list) \<Rightarrow> RunResourceSnapshot \<Rightarrow> process \<Rightarrow> RunResourceLedger \<times> process"
where
  "ledger_from_snapshot sha256 s p =
     (let pending = map (\<lambda>(i, a). (i, bound_pending sha256 a)) (rs_pending_attempts s);
          (i, p') = (if rs_ledger_id s = 0 then next_ledger_id p else (rs_ledger_id s, p))
      in (\<lparr>lg_mutation_revision = rs_mutation_revision s, lg_ledger_id = i,
           lg_next_attempt_id = max (rs_next_attempt_id s) 1,
           lg_segment = bounded_usage sha256 (rs_segment s),
           lg_lineage = bounded_usage sha256 (rs_lineage s),
           lg_pending_attempts = pending\<rparr>, p'))"

definition settle_pending_unknown ::
  "(nat list \<Rightarrow> nat list) \<Rightarrow> PendingModelAttempt \<Rightarrow> RunResourceUsage \<Rightarrow> RunResourceUsage"
where
  "settle_pending_unknown sha256 a u =
     settle_usage sha256 (pm_model a) (pm_reserved_tokens a) (unknown_usage (pm_reserved_tokens a)) u"

definition settle_all_pending_as_unknown ::
  "(nat list \<Rightarrow> nat list) \<Rightarrow> RunResourceLedger \<Rightarrow> RunResourceLedger"
where
  "settle_all_pending_as_unknown sha256 l =
     (let pending = lg_pending_attempts l; l0 = l\<lparr>lg_pending_attempts := []\<rparr> in
      if pending = [] then l0
      else bump_mutation_revision
        (l0\<lparr>lg_segment := fold (settle_pending_unknown sha256) (map snd pending) (lg_segment l),
            lg_lineage := fold (settle_pending_unknown sha256) (map snd pending) (lg_lineage l)\<rparr>))"

definition ledger_from_persisted_snapshot ::
  "(nat list \<Rightarrow> nat list) \<Rightarrow> RunResourceSnapshot \<Rightarrow> process \<Rightarrow> RunResourceLedger \<times> process"
where
  "ledger_from_persisted_snapshot sha256 s p =
     (case ledger_from_snapshot sha256 s p of (l, p') \<Rightarrow> (settle_all_pending_as_unknown sha256 l, p'))"

definition ledger_snapshot :: "RunResourceLedger \<Rightarrow> RunResourceSnapshot" where
  "ledger_snapshot l =
     \<lparr>rs_segment = lg_segment l, rs_lineage = lg_lineage l,
      rs_mutation_revision = lg_mutation_revision l, rs_ledger_id = lg_ledger_id l,
      rs_next_attempt_id = lg_next_attempt_id l, rs_pending_attempts = lg_pending_attempts l\<rparr>"

definition start_new_segment :: "(nat list \<Rightarrow> nat list) \<Rightarrow> RunResourceLedger \<Rightarrow> RunResourceLedger" where
  "start_new_segment sha256 l =
     bump_mutation_revision ((settle_all_pending_as_unknown sha256 l)\<lparr>lg_segment := run_usage_default\<rparr>)"

definition absorb_completed_segment ::
  "(nat list \<Rightarrow> nat list) \<Rightarrow> RunResourceSnapshot \<Rightarrow> RunResourceLedger \<Rightarrow> process \<Rightarrow> RunResourceLedger \<times> process"
where
  "absorb_completed_segment sha256 s l p =
     (case ledger_from_persisted_snapshot sha256 s p of (child, p') \<Rightarrow>
        (bump_mutation_revision
           (l\<lparr>lg_segment := merge_run_usage sha256 (lg_segment l) (lg_segment child),
              lg_lineage := merge_run_usage sha256 (lg_lineage l) (lg_segment child)\<rparr>), p'))"

definition usage_within_bounds :: "RunResourceUsage \<Rightarrow> bool" where
  "usage_within_bounds u \<longleftrightarrow>
     length (ru_models u) \<le> MAX_RESOURCE_LEDGER_MODELS \<and>
     (\<forall>e \<in> set (ru_models u). str_len (fst e) \<le> MAX_RESOURCE_MODEL_KEY_BYTES)"

definition is_within_persistence_bounds ::
  "(RunResourceSnapshot \<Rightarrow> nat option) \<Rightarrow> RunResourceSnapshot \<Rightarrow> bool"
where
  "is_within_persistence_bounds encoded_len s \<longleftrightarrow>
     length (rs_pending_attempts s) \<le> MAX_PENDING_RESOURCE_ATTEMPTS \<and>
     usage_within_bounds (rs_segment s) \<and> usage_within_bounds (rs_lineage s) \<and>
     (\<forall>e \<in> set (rs_pending_attempts s). str_len (pm_model (snd e)) \<le> MAX_RESOURCE_MODEL_KEY_BYTES) \<and>
     (case encoded_len s of None \<Rightarrow> False | Some n \<Rightarrow> n \<le> MAX_PERSISTED_RESOURCE_SNAPSHOT_BYTES)"

section \<open>Reserving and settling\<close>

definition committed_tokens :: "RunResourceUsage \<Rightarrow> u64" where
  "committed_tokens u = sat_add (ru_total_tokens u) (ru_reserved_tokens u)"

text \<open>The admission check of \<open>reserve\<close>: the error it returns, if any.\<close>

definition admission_error ::
  "RunBudget \<Rightarrow> RunStageClass \<Rightarrow> u64 \<Rightarrow> RunResourceLedger \<Rightarrow> ResourceAdmissionError option"
where
  "admission_error b c reserved l =
     (let next_attempt = sat_add (ru_physical_attempts (lg_segment l)) 1;
          next_tokens = sat_add (committed_tokens (lg_segment l)) reserved;
          attempt_limit = max_physical_model_attempts b;
          protected_attempts = protected_physical_model_attempt_reserve b c;
          allowed_attempts = attempt_limit - protected_attempts;
          allowed_tokens = max_total_tokens b - protected_token_reserve b c
      in if (protected_attempts > 0 \<and> next_attempt > allowed_attempts)
            \<or> (protected_token_reserve b c > 0 \<and> next_tokens > allowed_tokens)
         then Some ProtectedReserve
         else if next_attempt > attempt_limit \<or> next_tokens > max_total_tokens b
         then Some ResourceExhausted
         else if length (lg_pending_attempts l) \<ge> MAX_PENDING_RESOURCE_ATTEMPTS
         then Some ResourceExhausted
         else if bt_contains_key (lg_pending_attempts l) (lg_next_attempt_id l)
         then Some ResourceExhausted
         else None)"

definition ledger_reserve ::
  "(nat list \<Rightarrow> nat list) \<Rightarrow> RunBudget \<Rightarrow> RunStageClass \<Rightarrow> ustring \<Rightarrow> u64 \<Rightarrow> u64 \<Rightarrow> RunResourceLedger
     \<Rightarrow> (ResourceAdmissionError + PhysicalModelAttempt) \<times> RunResourceLedger"
where
  "ledger_reserve sha256 b c raw prompt completion l =
     (let reserved = sat_add prompt completion in
      case admission_error b c reserved l of
        Some e \<Rightarrow> (Inl e, l)
      | None \<Rightarrow>
          let attempt_id = lg_next_attempt_id l;
              model = bounded_model_key sha256 (ru_models (lg_lineage l)) raw
          in (Inr \<lparr>pa_ledger_id = lg_ledger_id l, pa_attempt_id = attempt_id, pa_model = model,
                   pa_reserved_tokens = reserved\<rparr>,
              bump_mutation_revision
                (l\<lparr>lg_next_attempt_id := sat_add (lg_next_attempt_id l) 1,
                   lg_pending_attempts :=
                     bt_insert attempt_id \<lparr>pm_model = model, pm_reserved_tokens = reserved\<rparr>
                       (lg_pending_attempts l),
                   lg_segment := reserve_usage model reserved (lg_segment l),
                   lg_lineage := reserve_usage model reserved (lg_lineage l)\<rparr>)))"

definition attempt_usage_or_unknown :: "u64 \<Rightarrow> ModelAttemptUsage option \<Rightarrow> ModelAttemptUsage" where
  "attempt_usage_or_unknown reserved u = (case u of None \<Rightarrow> unknown_usage reserved | Some x \<Rightarrow> normalized x)"

definition not_settled :: ResourceSettlement where
  "not_settled = \<lparr>st_settled = False, st_exhausted = False\<rparr>"

definition ledger_settle ::
  "(nat list \<Rightarrow> nat list) \<Rightarrow> RunBudget \<Rightarrow> PhysicalModelAttempt \<Rightarrow> ModelAttemptUsage option \<Rightarrow> RunResourceLedger
     \<Rightarrow> ResourceSettlement \<times> RunResourceLedger"
where
  "ledger_settle sha256 b a u l =
     (if pa_ledger_id a \<noteq> lg_ledger_id l then (not_settled, l)
      else case bt_get (lg_pending_attempts l) (pa_attempt_id a) of
        None \<Rightarrow> (not_settled, l)
      | Some pending \<Rightarrow>
          let removed = bt_remove (pa_attempt_id a) (lg_pending_attempts l) in
          if pm_model pending \<noteq> pa_model a \<or> pm_reserved_tokens pending \<noteq> pa_reserved_tokens a
          then (not_settled, l\<lparr>lg_pending_attempts := bt_insert (pa_attempt_id a) pending removed\<rparr>)
          else
            let s = attempt_usage_or_unknown (pm_reserved_tokens pending) u;
                l' = bump_mutation_revision
                  (l\<lparr>lg_pending_attempts := removed,
                     lg_segment := settle_usage sha256 (pm_model pending) (pm_reserved_tokens pending) s (lg_segment l),
                     lg_lineage := settle_usage sha256 (pm_model pending) (pm_reserved_tokens pending) s (lg_lineage l)\<rparr>)
            in (\<lparr>st_settled = True, st_exhausted = committed_tokens (lg_segment l') > max_total_tokens b\<rparr>, l'))"

end
