(* ===== verification/Result_Frontier.thy ===== *)
theory Result_Frontier
  imports Prelude "HOL-Library.Multiset"
begin

text \<open>
  Model of \<open>crates/agent-runtime/src/result_frontier.rs\<close>: the candidates a run has produced,
  at most \<open>RESULT_FRONTIER_MAX\<close> of them in guidance order, and the one best known result
  for delivery. The lemmas show that the frontier stays bounded and sorted, holds one candidate
  per stage and content, and that the best known result is never worse than any recorded one.
\<close>

section \<open>Results\<close>

definition RESULT_CONTENT_MAX_CHARS :: nat where
  "RESULT_CONTENT_MAX_CHARS = 24000"

definition RESULT_FRONTIER_MAX :: nat where
  "RESULT_FRONTIER_MAX = 8"

datatype ResultQuality = Draft | Substantive | Grounded | Verified | Synthesized

fun quality_rank :: "ResultQuality \<Rightarrow> nat" where
  "quality_rank Draft = 0"
| "quality_rank Substantive = 1"
| "quality_rank Grounded = 2"
| "quality_rank Verified = 3"
| "quality_rank Synthesized = 4"

text \<open>The derived \<open>Ord\<close>: declaration order.\<close>

instantiation ResultQuality :: linorder
begin

definition less_eq_ResultQuality :: "ResultQuality \<Rightarrow> ResultQuality \<Rightarrow> bool" where
  "less_eq_ResultQuality a b \<longleftrightarrow> quality_rank a \<le> quality_rank b"

definition less_ResultQuality :: "ResultQuality \<Rightarrow> ResultQuality \<Rightarrow> bool" where
  "less_ResultQuality a b \<longleftrightarrow> quality_rank a < quality_rank b"

instance
proof
  fix a b c :: ResultQuality
  show "a \<le> b \<Longrightarrow> b \<le> a \<Longrightarrow> a = b"
    by (cases a; cases b) (simp_all add: less_eq_ResultQuality_def)
qed (auto simp: less_eq_ResultQuality_def less_ResultQuality_def)

end

fun quality_as_str :: "ResultQuality \<Rightarrow> ustring" where
  "quality_as_str Draft = lit ''draft''"
| "quality_as_str Substantive = lit ''substantive''"
| "quality_as_str Grounded = lit ''grounded''"
| "quality_as_str Verified = lit ''verified''"
| "quality_as_str Synthesized = lit ''synthesized''"

record BestKnownResult =
  br_content :: ustring
  br_stage :: ustring
  br_quality :: ResultQuality
  br_evidence_count :: usize
  br_verified :: bool
  br_deliverable :: bool

record ResultFrontier =
  rf_best_known :: "BestKnownResult option"
  rf_candidates :: "BestKnownResult list"

definition frontier_default :: ResultFrontier where
  "frontier_default = \<lparr>rf_best_known = None, rf_candidates = []\<rparr>"

definition frontier_restore :: "BestKnownResult option \<Rightarrow> BestKnownResult list \<Rightarrow> ResultFrontier" where
  "frontier_restore b cs = \<lparr>rf_best_known = b, rf_candidates = cs\<rparr>"

definition bounded_result_content :: "ustring \<Rightarrow> ustring" where
  "bounded_result_content content = last_chars RESULT_CONTENT_MAX_CHARS (trim content)"

definition result_rank :: "BestKnownResult \<Rightarrow> bool \<times> bool \<times> ResultQuality \<times> nat \<times> nat" where
  "result_rank r =
     (br_deliverable r, br_verified r, br_quality r, br_evidence_count r, length (br_content r))"

definition guidance_rank :: "BestKnownResult \<Rightarrow> bool \<times> ResultQuality \<times> nat \<times> bool \<times> nat" where
  "guidance_rank r =
     (br_verified r, br_quality r, br_evidence_count r, br_deliverable r, length (br_content r))"

section \<open>Recording\<close>

definition retain_others :: "BestKnownResult \<Rightarrow> BestKnownResult list \<Rightarrow> BestKnownResult list" where
  "retain_others cand cs =
     filter (\<lambda>r. br_stage r \<noteq> br_stage cand \<or> br_content r \<noteq> br_content cand) cs"

definition beats_best :: "BestKnownResult \<Rightarrow> BestKnownResult option \<Rightarrow> bool" where
  "beats_best cand b = (case b of None \<Rightarrow> True | Some cur \<Rightarrow> result_rank cand > result_rank cur)"

definition frontier_record ::
  "ustring \<Rightarrow> ustring \<Rightarrow> ResultQuality \<Rightarrow> usize \<Rightarrow> bool \<Rightarrow> bool \<Rightarrow> ResultFrontier \<Rightarrow> bool \<times> ResultFrontier"
where
  "frontier_record stg cont q n ver del f =
     (let content = bounded_result_content cont in
      if content = [] then (False, f)
      else
        let cand = \<lparr>br_content = content, br_stage = stg, br_quality = q,
                    br_evidence_count = n, br_verified = ver, br_deliverable = del\<rparr>;
            kept = retain_others cand (rf_candidates f);
            sorted_cands = sort_by_reverse_key guidance_rank (kept @ [cand]);
            cands = take RESULT_FRONTIER_MAX sorted_cands;
            replace = beats_best cand (rf_best_known f)
        in (replace,
            f\<lparr>rf_candidates := cands,
              rf_best_known := (if replace then Some cand else rf_best_known f)\<rparr>))"

definition best_guidance :: "ResultFrontier \<Rightarrow> BestKnownResult option" where
  "best_guidance f = (case rf_candidates f of [] \<Rightarrow> None | r # _ \<Rightarrow> Some r)"

section \<open>The frontier invariant\<close>

definition frontier_wf :: "ResultFrontier \<Rightarrow> bool" where
  "frontier_wf f \<longleftrightarrow>
     length (rf_candidates f) \<le> RESULT_FRONTIER_MAX \<and>
     sorted_wrt (\<lambda>x y. guidance_rank y \<le> guidance_rank x) (rf_candidates f) \<and>
     distinct (map (\<lambda>r. (br_stage r, br_content r)) (rf_candidates f)) \<and>
     (\<forall>r \<in> set (rf_candidates f).
        br_content r \<noteq> [] \<and> length (br_content r) \<le> RESULT_CONTENT_MAX_CHARS) \<and>
     (\<forall>r \<in> set (rf_candidates f).
        \<exists>b. rf_best_known f = Some b \<and> result_rank r \<le> result_rank b)"

lemma frontier_default_wf [simp]: "frontier_wf frontier_default"
  by (simp add: frontier_wf_def frontier_default_def RESULT_FRONTIER_MAX_def)

lemma length_bounded_result_content:
  "length (bounded_result_content s) \<le> RESULT_CONTENT_MAX_CHARS"
  by (simp add: bounded_result_content_def length_last_chars RESULT_CONTENT_MAX_CHARS_def)

lemma sorted_wrt_take: "sorted_wrt P xs \<Longrightarrow> sorted_wrt P (take n xs)"
  by (metis append_take_drop_id sorted_wrt_append)

lemma distinct_map_sort_by_reverse_key:
  "distinct (map g (sort_by_reverse_key f xs)) \<longleftrightarrow> distinct (map g xs)"
proof -
  have "mset (sort_by_reverse_key f xs) = mset xs"
    by (simp add: sort_by_reverse_key_def)
  then have "mset (map g (sort_by_reverse_key f xs)) = mset (map g xs)"
    by (metis mset_map)
  then show ?thesis by (metis mset_eq_imp_distinct_iff)
qed

lemma distinct_retain_others:
  "distinct (map (\<lambda>r. (br_stage r, br_content r)) cs) \<Longrightarrow>
   distinct (map (\<lambda>r. (br_stage r, br_content r)) (retain_others c cs @ [c]))"
  by (auto simp: retain_others_def distinct_map_filter)

lemma set_retain_others: "set (retain_others c cs) \<subseteq> set cs"
  by (auto simp: retain_others_def)

lemma frontier_record_empty:
  "bounded_result_content cont = [] \<Longrightarrow> frontier_record stg cont q n ver del f = (False, f)"
  by (simp add: frontier_record_def)

text \<open>The best result after a recording beats the recorded candidate and every result the
  frontier already knew to be beaten.\<close>

lemma beats_best_upper:
  assumes "\<And>r. r \<in> S \<Longrightarrow> \<exists>b. old = Some b \<and> result_rank r \<le> result_rank b"
    and "r \<in> insert c S"
  shows "\<exists>b. (if beats_best c old then Some c else old) = Some b \<and> result_rank r \<le> result_rank b"
proof (cases old)
  case None
  with assms show ?thesis by (auto simp: beats_best_def)
next
  case (Some b)
  with assms show ?thesis by (cases "r = c") (force simp: beats_best_def)+
qed

lemma frontier_record_wf:
  assumes wf: "frontier_wf f"
  shows "frontier_wf (snd (frontier_record stg cont q n ver del f))"
proof (cases "bounded_result_content cont = []")
  case True
  then show ?thesis using wf by (simp add: frontier_record_empty)
next
  case False
  define c where "c = \<lparr>br_content = bounded_result_content cont, br_stage = stg, br_quality = q,
    br_evidence_count = n, br_verified = ver, br_deliverable = del\<rparr>"
  define xs where "xs = sort_by_reverse_key guidance_rank (retain_others c (rf_candidates f) @ [c])"
  define b where "b = (if beats_best c (rf_best_known f) then Some c else rf_best_known f)"
  have rec: "snd (frontier_record stg cont q n ver del f) =
      f\<lparr>rf_candidates := take RESULT_FRONTIER_MAX xs, rf_best_known := b\<rparr>"
    using False by (simp add: frontier_record_def Let_def c_def xs_def b_def)
  have sub: "set (take RESULT_FRONTIER_MAX xs) \<subseteq> insert c (set (rf_candidates f))"
    using set_take_subset [of RESULT_FRONTIER_MAX xs] set_retain_others [of c "rf_candidates f"]
    by (auto simp: xs_def)
  have "sorted_wrt (\<lambda>x y. guidance_rank y \<le> guidance_rank x) (take RESULT_FRONTIER_MAX xs)"
    unfolding xs_def by (intro sorted_wrt_take sorted_sort_by_reverse_key)
  moreover have "distinct (map (\<lambda>r. (br_stage r, br_content r)) (take RESULT_FRONTIER_MAX xs))"
    using wf unfolding frontier_wf_def xs_def take_map [symmetric]
    by (intro distinct_take iffD2 [OF distinct_map_sort_by_reverse_key] distinct_retain_others) simp
  moreover have "\<forall>r \<in> insert c (set (rf_candidates f)).
      br_content r \<noteq> [] \<and> length (br_content r) \<le> RESULT_CONTENT_MAX_CHARS"
    using wf False length_bounded_result_content by (auto simp: frontier_wf_def c_def)
  then have "\<forall>r \<in> set (take RESULT_FRONTIER_MAX xs).
      br_content r \<noteq> [] \<and> length (br_content r) \<le> RESULT_CONTENT_MAX_CHARS"
    using sub by blast
  moreover have "\<forall>r \<in> insert c (set (rf_candidates f)). \<exists>x. b = Some x \<and> result_rank r \<le> result_rank x"
    unfolding b_def using wf
    by (intro ballI beats_best_upper [of "set (rf_candidates f)"]) (auto simp: frontier_wf_def)
  then have "\<forall>r \<in> set (take RESULT_FRONTIER_MAX xs). \<exists>x. b = Some x \<and> result_rank r \<le> result_rank x"
    using sub by blast
  ultimately show ?thesis
    unfolding rec frontier_wf_def by simp
qed

text \<open>Delivery never regresses: the rank of the best known result only grows.\<close>

lemma frontier_record_best_mono:
  "rf_best_known f = Some b \<Longrightarrow>
   \<exists>b'. rf_best_known (snd (frontier_record stg cont q n ver del f)) = Some b' \<and>
     result_rank b \<le> result_rank b'"
  by (auto simp: frontier_record_def Let_def beats_best_def)

end
