(* ===== verification/Run_Control_State.thy ===== *)
theory Run_Control_State
  imports Run_Budget Resource_Ledger Result_Frontier
begin

text \<open>
  The data of the run control (\<open>crates/agent-runtime/src/control.rs\<close>,
  \<open>control_steer.rs\<close>, \<open>control_progress.rs\<close>): stop reasons, phases, steers, the
  telemetry counters, the state behind the control's mutex and the control itself.

  The atomics of \<open>AgentRunControl\<close> are fields of the control; the two cancellation flags are
  addresses of shared cells in the \<open>process\<close>. Every operation of the later theories runs
  under the control's mutex, so it is one atomic step of the model; \<open>expect\<close> on a poisoned
  mutex is not modelled. The hash behind \<open>fingerprint\<close> (\<open>DefaultHasher\<close>) is a
  parameter \<open>fp\<close> of the operations that use it.
\<close>

section \<open>Vocabulary\<close>

datatype RunStopReason =
    UserCancelled | DeadlineExceeded | ModelCallBudgetExceeded | ToolCallBudgetExceeded
  | TurnBudgetExhausted | ProviderUnavailable | NoProgress | RepeatedAction
  | StageBudgetExhausted | RepairBudgetExhausted | ModelResourceBudgetExceeded

datatype RunContinuationDirective = Continue | CommitTerminalResult | Stop RunStopReason

datatype RunToolCallBatchStart =
    BatchStarted usize usize | BatchSerialRequired | BatchRestartAfterSteer
  | BatchStopped RunStopReason | BatchTerminalCommitted

fun stop_code :: "RunStopReason \<Rightarrow> ustring" where
  "stop_code UserCancelled = lit ''user_cancelled''"
| "stop_code DeadlineExceeded = lit ''deadline_exceeded''"
| "stop_code ModelCallBudgetExceeded = lit ''model_call_budget_exceeded''"
| "stop_code ToolCallBudgetExceeded = lit ''tool_call_budget_exceeded''"
| "stop_code TurnBudgetExhausted = lit ''turn_budget_exhausted''"
| "stop_code ProviderUnavailable = lit ''provider_unavailable''"
| "stop_code NoProgress = lit ''no_progress''"
| "stop_code RepeatedAction = lit ''repeated_action''"
| "stop_code StageBudgetExhausted = lit ''stage_budget_exhausted''"
| "stop_code RepairBudgetExhausted = lit ''repair_budget_exhausted''"
| "stop_code ModelResourceBudgetExceeded = lit ''model_resource_budget_exceeded''"

definition is_user_cancelled :: "RunStopReason \<Rightarrow> bool" where
  "is_user_cancelled r \<longleftrightarrow> r = UserCancelled"

datatype RunPhase = Preparing | Executing | TerminalCommitted

record RunSteer =
  sr_queue_id :: ustring
  sr_epoch :: u64

record RunEpochLease =
  lease_epoch :: u64

datatype RunEpochLeaseOutcome =
    LeaseAcquired RunEpochLease | LeaseRestartAfterSteer | LeaseStopped RunStopReason
  | LeaseTerminalCommitted

datatype 't RunPreparationCommit =
    PrepCommitted 't RunEpochLease | PrepRestartAfterSteer | PrepStopped RunStopReason

datatype 't RunPreparationCheckpoint =
    CheckpointCommitted 't | CheckpointRestartAfterSteer | CheckpointStopped RunStopReason

datatype 't RunStartCheckpoint =
    StartCommitted 't | StartStopped RunStopReason | StartTerminalCommitted

datatype 't RunExecutionStepCommit =
    StepCommitted 't | StepRestartAfterSteer | StepStopped RunStopReason | StepTerminalCommitted

datatype 't RunTerminalCommit =
    TermCommitted 't | TermRestartAfterSteer | TermStopped RunStopReason | TermAlreadyCommitted

datatype 't RunSteerBatchCommit =
    SteersNoPending | SteersCommitted 't "RunSteer list" | SteersStopped RunStopReason

datatype 't RunSteerRequestCommit =
    RequestCommitted 't RunSteer | RequestDuplicate | RequestCapacityReached
  | RequestStopped RunStopReason | RequestTerminalCommitted

datatype RunToolCallStart =
    ToolStarted usize | ToolRestartAfterSteer | ToolStopped RunStopReason | ToolTerminalCommitted

record RunStageUsage =
  su_started_at :: instant
  su_model_calls :: usize

record RunStageUsageSnapshot =
  ss_model_calls :: usize
  ss_elapsed :: duration

text \<open>What \<open>fingerprint\<close> is called on: pairs of strings, and a string with a receipt id.\<close>

datatype hash_key = HashStrs ustring ustring | HashStrU64 ustring u64

type_synonym hasher = "hash_key \<Rightarrow> u64"

section \<open>Telemetry\<close>

record RunTelemetryCounters =
  tl_active_model_call_starts :: "instant list"
  tl_active_tool_call_starts :: "instant list"
  tl_model_wait_ms :: u64
  tl_tool_execution_ms :: u64
  tl_context_compactions :: u64
  tl_rolling_summaries :: u64
  tl_retrieval_ms :: u64
  tl_retrieval_channels :: u64
  tl_retrieval_channel_hits :: u64

record RunTelemetryCountersSnapshot =
  ts_model_wait_ms :: u64
  ts_tool_execution_ms :: u64
  ts_context_compactions :: u64
  ts_rolling_summaries :: u64
  ts_retrieval_ms :: u64
  ts_retrieval_channels :: u64
  ts_retrieval_channel_hits :: u64

definition telemetry_default :: RunTelemetryCounters where
  "telemetry_default =
     \<lparr>tl_active_model_call_starts = [], tl_active_tool_call_starts = [], tl_model_wait_ms = 0,
      tl_tool_execution_ms = 0, tl_context_compactions = 0, tl_rolling_summaries = 0,
      tl_retrieval_ms = 0, tl_retrieval_channels = 0, tl_retrieval_channel_hits = 0\<rparr>"

definition telemetry_restore :: "RunTelemetryCountersSnapshot \<Rightarrow> RunTelemetryCounters" where
  "telemetry_restore s =
     \<lparr>tl_active_model_call_starts = [], tl_active_tool_call_starts = [],
      tl_model_wait_ms = ts_model_wait_ms s, tl_tool_execution_ms = ts_tool_execution_ms s,
      tl_context_compactions = ts_context_compactions s,
      tl_rolling_summaries = ts_rolling_summaries s, tl_retrieval_ms = ts_retrieval_ms s,
      tl_retrieval_channels = ts_retrieval_channels s,
      tl_retrieval_channel_hits = ts_retrieval_channel_hits s\<rparr>"

definition telemetry_snapshot :: "RunTelemetryCounters \<Rightarrow> RunTelemetryCountersSnapshot" where
  "telemetry_snapshot t =
     \<lparr>ts_model_wait_ms = tl_model_wait_ms t, ts_tool_execution_ms = tl_tool_execution_ms t,
      ts_context_compactions = tl_context_compactions t,
      ts_rolling_summaries = tl_rolling_summaries t, ts_retrieval_ms = tl_retrieval_ms t,
      ts_retrieval_channels = tl_retrieval_channels t,
      ts_retrieval_channel_hits = tl_retrieval_channel_hits t\<rparr>"

definition telemetry_absorb ::
  "RunTelemetryCountersSnapshot \<Rightarrow> RunTelemetryCounters \<Rightarrow> RunTelemetryCounters"
where
  "telemetry_absorb s t =
     t\<lparr>tl_model_wait_ms := sat_add (tl_model_wait_ms t) (ts_model_wait_ms s),
       tl_tool_execution_ms := sat_add (tl_tool_execution_ms t) (ts_tool_execution_ms s),
       tl_context_compactions := sat_add (tl_context_compactions t) (ts_context_compactions s),
       tl_rolling_summaries := sat_add (tl_rolling_summaries t) (ts_rolling_summaries s),
       tl_retrieval_ms := sat_add (tl_retrieval_ms t) (ts_retrieval_ms s),
       tl_retrieval_channels := sat_add (tl_retrieval_channels t) (ts_retrieval_channels s),
       tl_retrieval_channel_hits :=
         sat_add (tl_retrieval_channel_hits t) (ts_retrieval_channel_hits s)\<rparr>"

text \<open>The start instants are a \<open>Vec\<close>: pushed and popped at its end.\<close>

definition telemetry_begin_model_call :: "instant \<Rightarrow> RunTelemetryCounters \<Rightarrow> RunTelemetryCounters" where
  "telemetry_begin_model_call now t =
     t\<lparr>tl_active_model_call_starts := tl_active_model_call_starts t @ [now]\<rparr>"

definition telemetry_finish_model_call :: "instant \<Rightarrow> RunTelemetryCounters \<Rightarrow> RunTelemetryCounters" where
  "telemetry_finish_model_call now t =
     (if tl_active_model_call_starts t = [] then t
      else t\<lparr>tl_active_model_call_starts := butlast (tl_active_model_call_starts t),
             tl_model_wait_ms := sat_add (tl_model_wait_ms t)
               (as_millis_u64 (now - last (tl_active_model_call_starts t)))\<rparr>)"

definition telemetry_begin_tool_call :: "instant \<Rightarrow> RunTelemetryCounters \<Rightarrow> RunTelemetryCounters" where
  "telemetry_begin_tool_call now t =
     t\<lparr>tl_active_tool_call_starts := tl_active_tool_call_starts t @ [now]\<rparr>"

definition telemetry_begin_tool_call_batch ::
  "instant \<Rightarrow> usize \<Rightarrow> RunTelemetryCounters \<Rightarrow> RunTelemetryCounters"
where
  "telemetry_begin_tool_call_batch now n t =
     t\<lparr>tl_active_tool_call_starts := tl_active_tool_call_starts t @ replicate n now\<rparr>"

definition telemetry_finish_tool_call :: "instant \<Rightarrow> RunTelemetryCounters \<Rightarrow> RunTelemetryCounters" where
  "telemetry_finish_tool_call now t =
     (if tl_active_tool_call_starts t = [] then t
      else t\<lparr>tl_active_tool_call_starts := butlast (tl_active_tool_call_starts t),
             tl_tool_execution_ms := sat_add (tl_tool_execution_ms t)
               (as_millis_u64 (now - last (tl_active_tool_call_starts t)))\<rparr>)"

definition telemetry_record_context_compaction :: "RunTelemetryCounters \<Rightarrow> RunTelemetryCounters" where
  "telemetry_record_context_compaction t =
     t\<lparr>tl_context_compactions := sat_add (tl_context_compactions t) 1\<rparr>"

definition telemetry_record_rolling_summary :: "RunTelemetryCounters \<Rightarrow> RunTelemetryCounters" where
  "telemetry_record_rolling_summary t =
     t\<lparr>tl_rolling_summaries := sat_add (tl_rolling_summaries t) 1\<rparr>"

definition telemetry_record_retrieval ::
  "u64 \<Rightarrow> u64 \<Rightarrow> u64 \<Rightarrow> RunTelemetryCounters \<Rightarrow> RunTelemetryCounters"
where
  "telemetry_record_retrieval ms channels hits t =
     t\<lparr>tl_retrieval_ms := sat_add (tl_retrieval_ms t) ms,
       tl_retrieval_channels := sat_add (tl_retrieval_channels t) channels,
       tl_retrieval_channel_hits := sat_add (tl_retrieval_channel_hits t) hits\<rparr>"

section \<open>The control\<close>

record RunMutableState =
  started_at :: instant
  last_progress_at :: instant
  stage :: ustring
  detail :: ustring
  partial_output :: ustring
  action_history :: "ustring \<rightharpoonup> u64 \<times> usize"
  recent_actions :: "ustring \<rightharpoonup> u64 list"
  continuation_actions :: "ustring \<rightharpoonup> u64"
  observation_fingerprints :: "u64 set"
  observation_count :: usize
  checkpoint_fingerprints :: "u64 set"
  checkpoint_count :: usize
  goal_delta_fingerprints :: "u64 set"
  goal_delta_count :: usize
  model_extension_goal_delta :: usize
  tool_extension_goal_delta :: usize
  agent_turn_extension_goal_delta :: usize
  model_call_limit :: usize
  tool_call_limit :: usize
  agent_turn_limit :: usize
  budget_extensions :: usize
  stop_reason :: "RunStopReason option"
  active_model_calls :: usize
  active_tool_calls :: usize
  telemetry :: RunTelemetryCounters
  pending_steers :: "RunSteer list"
  applied_steer_epoch :: u64
  phase :: RunPhase
  stage_usage :: "RunStageClass \<rightharpoonup> RunStageUsage"
  results :: ResultFrontier
  resources :: RunResourceLedger

record AgentRunControl =
  budget :: RunBudget
  user_cancelled :: nat
  parent_cancelled :: "nat option"
  model_calls :: usize
  tool_calls :: usize
  agent_turns :: usize
  repair_attempts :: usize
  steer_epoch :: u64
  ctl_state :: RunMutableState

text \<open>Updating the state behind the mutex.\<close>

definition upd :: "(RunMutableState \<Rightarrow> RunMutableState) \<Rightarrow> AgentRunControl \<Rightarrow> AgentRunControl" where
  "upd f c = c\<lparr>ctl_state := f (ctl_state c)\<rparr>"

text \<open>\<open>stop_reason.get_or_insert(reason)\<close>.\<close>

definition or_stop :: "RunStopReason \<Rightarrow> RunMutableState \<Rightarrow> RunMutableState" where
  "or_stop r s = s\<lparr>stop_reason := (case stop_reason s of None \<Rightarrow> Some r | Some x \<Rightarrow> Some x)\<rparr>"

lemma upd_sel [simp]:
  "budget (upd f c) = budget c" "user_cancelled (upd f c) = user_cancelled c"
  "parent_cancelled (upd f c) = parent_cancelled c" "model_calls (upd f c) = model_calls c"
  "tool_calls (upd f c) = tool_calls c" "agent_turns (upd f c) = agent_turns c"
  "repair_attempts (upd f c) = repair_attempts c" "steer_epoch (upd f c) = steer_epoch c"
  "ctl_state (upd f c) = f (ctl_state c)"
  by (simp_all add: upd_def)

lemma stop_reason_or_stop [simp]:
  "stop_reason (or_stop r s) = (case stop_reason s of None \<Rightarrow> Some r | Some x \<Rightarrow> Some x)"
  by (simp add: or_stop_def)

lemma telemetry_roundtrip:
  "telemetry_snapshot (telemetry_restore s) = s"
  by (simp add: telemetry_snapshot_def telemetry_restore_def)

end
