(* ===== verification/Run_Control.thy ===== *)
theory Run_Control
  imports Run_Control_State
begin

text \<open>
  The operations of \<open>AgentRunControl\<close> that meter a run: stopping, model calls, stage model
  calls, agent turns, repair attempts, physical model attempts, progress, observations and
  checkpoints (\<open>control.rs\<close>, \<open>control_resources.rs\<close>, \<open>control_progress.rs\<close>). An
  operation takes the process (for the cancellation flags), the clock readings in the order the
  source makes them, its arguments and the control; it returns its result and the control after
  it. \<open>Err(reason)\<close> is \<open>Inl reason\<close>.
\<close>

section \<open>Stopping\<close>

definition cancellation_requested :: "process \<Rightarrow> AgentRunControl \<Rightarrow> bool" where
  "cancellation_requested p c \<longleftrightarrow>
     flag p (user_cancelled c) \<or>
     (case parent_cancelled c of None \<Rightarrow> False | Some a \<Rightarrow> flag p a)"

definition idle_timeout :: "RunBudget \<Rightarrow> RunMutableState \<Rightarrow> duration" where
  "idle_timeout b s =
     (if active_model_calls s > 0 then model_call_timeout b
      else if active_tool_calls s > 0 then tool_call_timeout b
      else no_progress_timeout b)"

definition refresh_stop_reason ::
  "process \<Rightarrow> instant \<Rightarrow> AgentRunControl \<Rightarrow> RunStopReason option \<times> AgentRunControl"
where
  "refresh_stop_reason p now c =
     (let s = ctl_state c in
      if phase s = TerminalCommitted then (stop_reason s, c)
      else
        let s1 = (if cancellation_requested p c then or_stop UserCancelled s else s);
            s2 = (if stop_reason s1 = None then
                    if now - started_at s1 \<ge> max_duration (budget c)
                    then s1\<lparr>stop_reason := Some DeadlineExceeded\<rparr>
                    else if now - last_progress_at s1 \<ge> idle_timeout (budget c) s1
                    then s1\<lparr>stop_reason := Some NoProgress\<rparr>
                    else s1
                  else s1)
        in (stop_reason s2, c\<lparr>ctl_state := s2\<rparr>))"

definition set_stop_reason :: "RunStopReason \<Rightarrow> AgentRunControl \<Rightarrow> AgentRunControl" where
  "set_stop_reason r c =
     (if phase (ctl_state c) \<noteq> TerminalCommitted then upd (or_stop r) c else c)"

definition request_cancel :: "process \<Rightarrow> AgentRunControl \<Rightarrow> bool \<times> process \<times> AgentRunControl" where
  "request_cancel p c =
     (if phase (ctl_state c) = TerminalCommitted then (False, p, c)
      else (True, p\<lparr>flag := (flag p)(user_cancelled c := True)\<rparr>, upd (or_stop UserCancelled) c))"

definition request_stop :: "RunStopReason \<Rightarrow> AgentRunControl \<Rightarrow> AgentRunControl" where
  "request_stop r c = set_stop_reason r c"

definition control_stop_reason ::
  "process \<Rightarrow> clock \<Rightarrow> AgentRunControl \<Rightarrow> RunStopReason option \<times> AgentRunControl"
where
  "control_stop_reason p clk c = refresh_stop_reason p (clk 0) c"

definition should_stop :: "process \<Rightarrow> clock \<Rightarrow> AgentRunControl \<Rightarrow> bool \<times> AgentRunControl" where
  "should_stop p clk c = (case control_stop_reason p clk c of (r, c') \<Rightarrow> (r \<noteq> None, c'))"

definition continuation_directive ::
  "process \<Rightarrow> clock \<Rightarrow> AgentRunControl \<Rightarrow> RunContinuationDirective \<times> AgentRunControl"
where
  "continuation_directive p clk c =
     (case control_stop_reason p clk c of
        (Some r, c') \<Rightarrow> (Stop r, c')
      | (None, c') \<Rightarrow>
          let s = ctl_state c'; b = budget c';
              remaining_calls = model_call_limit s - model_calls c';
              remaining_turns = agent_turn_limit s - agent_turns c';
              turn_extension_available =
                (agent_turn_limit s < max_agent_turns b
                 \<and> goal_delta_count s > agent_turn_extension_goal_delta s);
              remaining_time = max_duration b - (clk 1 - started_at s)
          in if remaining_calls \<le> terminal_model_call_reserve b
                \<or> (remaining_turns \<le> 1 \<and> \<not> turn_extension_available)
                \<or> remaining_time \<le> terminal_time_reserve b
             then (CommitTerminalResult, c') else (Continue, c'))"

section \<open>Epochs\<close>

definition objective_epoch_matches :: "u64 \<Rightarrow> AgentRunControl \<Rightarrow> bool" where
  "objective_epoch_matches e c \<longleftrightarrow>
     phase (ctl_state c) \<noteq> TerminalCommitted \<and> pending_steers (ctl_state c) = [] \<and>
     applied_steer_epoch (ctl_state c) = e \<and> steer_epoch c = e"

definition execution_epoch_matches :: "u64 \<Rightarrow> AgentRunControl \<Rightarrow> bool" where
  "execution_epoch_matches e c \<longleftrightarrow> phase (ctl_state c) = Executing \<and> objective_epoch_matches e c"

text \<open>The guards of the epoch-bound operations all read: stop first, then the epoch. \<open>at_epoch\<close>
  is the common shape of the \<open>_at\<close> variants with result \<open>Result<Option<T>, RunStopReason>\<close>.\<close>

definition unless_stopped ::
  "process \<Rightarrow> instant \<Rightarrow> (AgentRunControl \<Rightarrow> (RunStopReason + 'a) \<times> AgentRunControl)
     \<Rightarrow> AgentRunControl \<Rightarrow> (RunStopReason + 'a) \<times> AgentRunControl"
where
  "unless_stopped p now body c =
     (case refresh_stop_reason p now c of
        (Some r, c') \<Rightarrow> (Inl r, c')
      | (None, c') \<Rightarrow> body c')"

definition at_epoch ::
  "process \<Rightarrow> instant \<Rightarrow> u64 \<Rightarrow> (AgentRunControl \<Rightarrow> (RunStopReason + 'a) \<times> AgentRunControl)
     \<Rightarrow> AgentRunControl \<Rightarrow> (RunStopReason + 'a option) \<times> AgentRunControl"
where
  "at_epoch p now e body c =
     unless_stopped p now
       (\<lambda>c'. if \<not> objective_epoch_matches e c' then (Inr None, c')
             else case body c' of (r, c'') \<Rightarrow> (map_sum id Some r, c'')) c"

section \<open>Budget extensions\<close>

definition extend_model_budget_if_progressed ::
  "RunBudget \<Rightarrow> usize \<Rightarrow> RunMutableState \<Rightarrow> bool \<times> RunMutableState"
where
  "extend_model_budget_if_progressed b call s =
     (if call > max_model_calls b \<or> goal_delta_count s \<le> model_extension_goal_delta s
      then (False, s)
      else
        let s' = s\<lparr>model_call_limit :=
                     min (sat_add (model_call_limit s) (max (model_calls_per_extension b) 1))
                       (max_model_calls b),
                   model_extension_goal_delta := goal_delta_count s,
                   budget_extensions := sat_add (budget_extensions s) 1\<rparr>
        in (call \<le> model_call_limit s', s'))"

definition extend_tool_budget_if_progressed ::
  "RunBudget \<Rightarrow> usize \<Rightarrow> RunMutableState \<Rightarrow> bool \<times> RunMutableState"
where
  "extend_tool_budget_if_progressed b call s =
     (if call > max_tool_calls b \<or> goal_delta_count s \<le> tool_extension_goal_delta s
      then (False, s)
      else
        let s' = s\<lparr>tool_call_limit :=
                     min (sat_add (tool_call_limit s) (max (tool_calls_per_extension b) 1))
                       (max_tool_calls b),
                   tool_extension_goal_delta := goal_delta_count s,
                   budget_extensions := sat_add (budget_extensions s) 1\<rparr>
        in (call \<le> tool_call_limit s', s'))"

definition extend_agent_turn_budget_if_progressed ::
  "RunBudget \<Rightarrow> usize \<Rightarrow> RunMutableState \<Rightarrow> bool \<times> RunMutableState"
where
  "extend_agent_turn_budget_if_progressed b turn s =
     (if turn > max_agent_turns b \<or> goal_delta_count s \<le> agent_turn_extension_goal_delta s
      then (False, s)
      else
        let s' = s\<lparr>agent_turn_limit :=
                     min (sat_add (agent_turn_limit s) (max (agent_turns_per_extension b) 1))
                       (max_agent_turns b),
                   agent_turn_extension_goal_delta := goal_delta_count s,
                   budget_extensions := sat_add (budget_extensions s) 1\<rparr>
        in (turn \<le> agent_turn_limit s', s'))"

section \<open>Model calls\<close>

definition note_progress :: "ustring \<Rightarrow> ustring \<Rightarrow> instant \<Rightarrow> RunMutableState \<Rightarrow> RunMutableState" where
  "note_progress stg det now s = s\<lparr>stage := stg, detail := det, last_progress_at := now\<rparr>"

text \<open>\<open>fetch_add(1) + 1\<close> wraps in a release build; the counter is taken back when the call is
  refused.\<close>

definition begin_model_call_locked ::
  "clock \<Rightarrow> ustring \<Rightarrow> AgentRunControl \<Rightarrow> (RunStopReason + usize) \<times> AgentRunControl"
where
  "begin_model_call_locked clk stg c =
     (let call = wrap_add (model_calls c) 1;
          c1 = c\<lparr>model_calls := wrap_add (model_calls c) 1\<rparr>;
          s = ctl_state c;
          (refused, s1) =
            (if call > model_call_limit s
             then (case extend_model_budget_if_progressed (budget c) call s of (ok, s1) \<Rightarrow> (\<not> ok, s1))
             else (False, s))
      in if refused
         then (Inl ModelCallBudgetExceeded,
               c1\<lparr>model_calls := wrap_sub (model_calls c1) 1,
                  ctl_state := s1\<lparr>stop_reason := Some ModelCallBudgetExceeded\<rparr>\<rparr>)
         else (Inr call,
               c1\<lparr>ctl_state :=
                   note_progress stg (lit ''model request started'') (clk 1)
                     (s1\<lparr>active_model_calls := sat_add (active_model_calls s1) 1,
                         telemetry := telemetry_begin_model_call (clk 0) (telemetry s1)\<rparr>)\<rparr>))"

definition begin_model_call ::
  "process \<Rightarrow> clock \<Rightarrow> ustring \<Rightarrow> AgentRunControl \<Rightarrow> (RunStopReason + usize) \<times> AgentRunControl"
where
  "begin_model_call p clk stg c =
     unless_stopped p (clk 0) (begin_model_call_locked (clock_from 1 clk) stg) c"

definition begin_model_call_at ::
  "process \<Rightarrow> clock \<Rightarrow> u64 \<Rightarrow> ustring \<Rightarrow> AgentRunControl
     \<Rightarrow> (RunStopReason + usize option) \<times> AgentRunControl"
where
  "begin_model_call_at p clk e stg c =
     at_epoch p (clk 0) e (begin_model_call_locked (clock_from 1 clk) stg) c"

definition stage_reserve_reached :: "RunStageClass \<Rightarrow> instant \<Rightarrow> AgentRunControl \<Rightarrow> bool" where
  "stage_reserve_reached cls now c =
     (let b = budget c; s = ctl_state c;
          remaining = max_duration b - (now - started_at s);
          protected_time = protected_time_reserve b cls;
          protected_calls = protected_model_call_reserve b cls
      in (protected_time > 0 \<and> remaining \<le> protected_time)
         \<or> (protected_calls > 0 \<and>
            model_calls c \<ge> max (model_call_limit s - protected_calls) 1))"

definition begin_stage_model_call_locked ::
  "clock \<Rightarrow> ustring \<Rightarrow> RunStageClass \<Rightarrow> AgentRunControl \<Rightarrow> (RunStopReason + usize) \<times> AgentRunControl"
where
  "begin_stage_model_call_locked clk stg cls c =
     (let sb = stage_budget (budget c) cls; now = clk 0 in
      if stage_reserve_reached cls now c then (Inl StageBudgetExhausted, c)
      else
        let usage = (case stage_usage (ctl_state c) cls of
                       Some u \<Rightarrow> u | None \<Rightarrow> \<lparr>su_started_at = now, su_model_calls = 0\<rparr>);
            c1 = upd (\<lambda>s. s\<lparr>stage_usage := (stage_usage s)(cls \<mapsto> usage)\<rparr>) c
        in if su_model_calls usage \<ge> sb_max_model_calls sb
              \<or> now - su_started_at usage \<ge> sb_max_duration sb
           then (Inl StageBudgetExhausted, c1)
           else
             let usage' = usage\<lparr>su_model_calls := sat_add (su_model_calls usage) 1\<rparr>;
                 c2 = upd (\<lambda>s. s\<lparr>stage_usage := (stage_usage s)(cls \<mapsto> usage')\<rparr>) c
             in case begin_model_call_locked (clock_from 1 clk) stg c2 of
                  (Inr call, c3) \<Rightarrow> (Inr call, c3)
                | (Inl r, c3) \<Rightarrow>
                    (Inl r,
                     upd (\<lambda>s. case stage_usage s cls of
                            None \<Rightarrow> s
                          | Some u \<Rightarrow> s\<lparr>stage_usage := (stage_usage s)
                              (cls \<mapsto> u\<lparr>su_model_calls := su_model_calls u - 1\<rparr>)\<rparr>) c3))"

definition begin_stage_model_call ::
  "process \<Rightarrow> clock \<Rightarrow> ustring \<Rightarrow> RunStageClass \<Rightarrow> AgentRunControl
     \<Rightarrow> (RunStopReason + usize) \<times> AgentRunControl"
where
  "begin_stage_model_call p clk stg cls c =
     unless_stopped p (clk 0) (begin_stage_model_call_locked (clock_from 1 clk) stg cls) c"

definition begin_stage_model_call_at ::
  "process \<Rightarrow> clock \<Rightarrow> u64 \<Rightarrow> ustring \<Rightarrow> RunStageClass \<Rightarrow> AgentRunControl
     \<Rightarrow> (RunStopReason + usize option) \<times> AgentRunControl"
where
  "begin_stage_model_call_at p clk e stg cls c =
     at_epoch p (clk 0) e (begin_stage_model_call_locked (clock_from 1 clk) stg cls) c"

definition stage_should_stop ::
  "process \<Rightarrow> clock \<Rightarrow> RunStageClass \<Rightarrow> AgentRunControl \<Rightarrow> bool \<times> AgentRunControl"
where
  "stage_should_stop p clk cls c =
     (case should_stop p clk c of
        (True, c') \<Rightarrow> (True, c')
      | (False, c') \<Rightarrow>
          let b = budget c'; s = ctl_state c'; sb = stage_budget b cls;
              remaining = max_duration b - (clk 1 - started_at s);
              protected_time = protected_time_reserve b cls
          in ((protected_time > 0 \<and> remaining \<le> protected_time)
              \<or> (case stage_usage s cls of
                   None \<Rightarrow> False
                 | Some u \<Rightarrow> clk 2 - su_started_at u \<ge> sb_max_duration sb), c'))"

definition finish_model_call :: "clock \<Rightarrow> AgentRunControl \<Rightarrow> AgentRunControl" where
  "finish_model_call clk c =
     upd (\<lambda>s. s\<lparr>active_model_calls := active_model_calls s - 1,
               telemetry := telemetry_finish_model_call (clk 0) (telemetry s),
               last_progress_at := clk 1\<rparr>) c"

definition finish_model_call_at ::
  "process \<Rightarrow> clock \<Rightarrow> u64 \<Rightarrow> AgentRunControl \<Rightarrow> bool \<times> AgentRunControl"
where
  "finish_model_call_at p clk e c =
     (let c1 = upd (\<lambda>s. s\<lparr>active_model_calls := active_model_calls s - 1,
                         telemetry := telemetry_finish_model_call (clk 0) (telemetry s)\<rparr>) c
      in if stop_reason (ctl_state c1) \<noteq> None \<or> cancellation_requested p c1
            \<or> \<not> objective_epoch_matches e c1
         then (False, c1)
         else (True, upd (\<lambda>s. s\<lparr>last_progress_at := clk 1\<rparr>) c1))"

section \<open>Agent turns and repair attempts\<close>

definition record_agent_turn_locked ::
  "clock \<Rightarrow> ustring \<Rightarrow> AgentRunControl \<Rightarrow> (RunStopReason + usize) \<times> AgentRunControl"
where
  "record_agent_turn_locked clk stg c =
     (let turn = wrap_add (agent_turns c) 1;
          c1 = c\<lparr>agent_turns := wrap_add (agent_turns c) 1\<rparr>;
          s = ctl_state c;
          (refused, s1) =
            (if turn > agent_turn_limit s
             then (case extend_agent_turn_budget_if_progressed (budget c) turn s of (ok, s1) \<Rightarrow> (\<not> ok, s1))
             else (False, s))
      in if refused
         then (Inl TurnBudgetExhausted,
               c1\<lparr>agent_turns := wrap_sub (agent_turns c1) 1,
                  ctl_state := s1\<lparr>stop_reason := Some TurnBudgetExhausted\<rparr>\<rparr>)
         else (Inr turn,
               c1\<lparr>ctl_state := note_progress stg (lit ''agent turn completed'') (clk 0) s1\<rparr>))"

definition record_agent_turn ::
  "process \<Rightarrow> clock \<Rightarrow> ustring \<Rightarrow> AgentRunControl \<Rightarrow> (RunStopReason + usize) \<times> AgentRunControl"
where
  "record_agent_turn p clk stg c =
     unless_stopped p (clk 0) (record_agent_turn_locked (clock_from 1 clk) stg) c"

definition record_agent_turn_at ::
  "process \<Rightarrow> clock \<Rightarrow> u64 \<Rightarrow> ustring \<Rightarrow> AgentRunControl
     \<Rightarrow> (RunStopReason + usize option) \<times> AgentRunControl"
where
  "record_agent_turn_at p clk e stg c =
     at_epoch p (clk 0) e (record_agent_turn_locked (clock_from 1 clk) stg) c"

definition begin_repair_attempt_locked ::
  "clock \<Rightarrow> ustring \<Rightarrow> AgentRunControl \<Rightarrow> (RunStopReason + usize) \<times> AgentRunControl"
where
  "begin_repair_attempt_locked clk stg c =
     (let attempt = wrap_add (repair_attempts c) 1;
          c1 = c\<lparr>repair_attempts := wrap_add (repair_attempts c) 1\<rparr>
      in if attempt > max_repair_attempts (budget c)
         then (Inl RepairBudgetExhausted, c1\<lparr>repair_attempts := wrap_sub (repair_attempts c1) 1\<rparr>)
         else (Inr attempt, upd (note_progress stg (lit ''repair attempt started'') (clk 0)) c1))"

definition begin_repair_attempt ::
  "process \<Rightarrow> clock \<Rightarrow> ustring \<Rightarrow> AgentRunControl \<Rightarrow> (RunStopReason + usize) \<times> AgentRunControl"
where
  "begin_repair_attempt p clk stg c =
     unless_stopped p (clk 0) (begin_repair_attempt_locked (clock_from 1 clk) stg) c"

definition begin_repair_attempt_at ::
  "process \<Rightarrow> clock \<Rightarrow> u64 \<Rightarrow> ustring \<Rightarrow> AgentRunControl
     \<Rightarrow> (RunStopReason + usize option) \<times> AgentRunControl"
where
  "begin_repair_attempt_at p clk e stg c =
     at_epoch p (clk 0) e (begin_repair_attempt_locked (clock_from 1 clk) stg) c"

section \<open>Physical model attempts\<close>

definition begin_physical_model_attempt_locked ::
  "(nat list \<Rightarrow> nat list) \<Rightarrow> ustring \<Rightarrow> u64 \<Rightarrow> u64 \<Rightarrow> RunStageClass \<Rightarrow> AgentRunControl
     \<Rightarrow> (RunStopReason + PhysicalModelAttempt) \<times> AgentRunControl"
where
  "begin_physical_model_attempt_locked sha256 model prompt completion cls c =
     (case ledger_reserve sha256 (budget c) cls model prompt completion (resources (ctl_state c)) of
        (Inr a, l) \<Rightarrow> (Inr a, upd (\<lambda>s. s\<lparr>resources := l\<rparr>) c)
      | (Inl ProtectedReserve, l) \<Rightarrow> (Inl StageBudgetExhausted, upd (\<lambda>s. s\<lparr>resources := l\<rparr>) c)
      | (Inl ResourceExhausted, l) \<Rightarrow>
          (Inl ModelResourceBudgetExceeded,
           upd (\<lambda>s. s\<lparr>resources := l, stop_reason := Some ModelResourceBudgetExceeded\<rparr>) c))"

definition begin_physical_model_attempt ::
  "(nat list \<Rightarrow> nat list) \<Rightarrow> process \<Rightarrow> clock \<Rightarrow> ustring \<Rightarrow> u64 \<Rightarrow> u64 \<Rightarrow> RunStageClass \<Rightarrow> AgentRunControl
     \<Rightarrow> (RunStopReason + PhysicalModelAttempt) \<times> AgentRunControl"
where
  "begin_physical_model_attempt sha256 p clk model prompt completion cls c =
     unless_stopped p (clk 0) (begin_physical_model_attempt_locked sha256 model prompt completion cls) c"

definition begin_physical_model_attempt_at ::
  "(nat list \<Rightarrow> nat list) \<Rightarrow> process \<Rightarrow> clock \<Rightarrow> u64 \<Rightarrow> ustring \<Rightarrow> u64 \<Rightarrow> u64 \<Rightarrow> RunStageClass \<Rightarrow> AgentRunControl
     \<Rightarrow> (RunStopReason + PhysicalModelAttempt option) \<times> AgentRunControl"
where
  "begin_physical_model_attempt_at sha256 p clk e model prompt completion cls c =
     at_epoch p (clk 0) e (begin_physical_model_attempt_locked sha256 model prompt completion cls) c"

definition settle_attempt ::
  "(nat list \<Rightarrow> nat list) \<Rightarrow> PhysicalModelAttempt \<Rightarrow> ModelAttemptUsage option \<Rightarrow> AgentRunControl
     \<Rightarrow> ResourceSettlement \<times> AgentRunControl"
where
  "settle_attempt sha256 a u c =
     (case ledger_settle sha256 (budget c) a u (resources (ctl_state c)) of (st, l) \<Rightarrow>
        (st, upd (\<lambda>s. let s1 = s\<lparr>resources := l\<rparr> in
                      if st_exhausted st then or_stop ModelResourceBudgetExceeded s1 else s1) c))"

definition finish_physical_model_attempt ::
  "(nat list \<Rightarrow> nat list) \<Rightarrow> PhysicalModelAttempt \<Rightarrow> ModelAttemptUsage option \<Rightarrow> AgentRunControl
     \<Rightarrow> bool \<times> AgentRunControl"
where
  "finish_physical_model_attempt sha256 a u c =
     (case settle_attempt sha256 a u c of (st, c') \<Rightarrow> (st_settled st, c'))"

definition finish_physical_model_attempt_at ::
  "(nat list \<Rightarrow> nat list) \<Rightarrow> process \<Rightarrow> u64 \<Rightarrow> PhysicalModelAttempt \<Rightarrow> ModelAttemptUsage option \<Rightarrow> AgentRunControl
     \<Rightarrow> bool \<times> AgentRunControl"
where
  "finish_physical_model_attempt_at sha256 p e a u c =
     (case settle_attempt sha256 a u c of (st, c') \<Rightarrow>
        (st_settled st \<and> stop_reason (ctl_state c') = None \<and> \<not> cancellation_requested p c'
         \<and> objective_epoch_matches e c', c'))"

definition resource_usage :: "AgentRunControl \<Rightarrow> RunResourceSnapshot" where
  "resource_usage c = ledger_snapshot (resources (ctl_state c))"

section \<open>Progress, partial output, observations, checkpoints\<close>

definition mark_progress :: "clock \<Rightarrow> ustring \<Rightarrow> ustring \<Rightarrow> AgentRunControl \<Rightarrow> AgentRunControl" where
  "mark_progress clk stg det c =
     (if stop_reason (ctl_state c) \<noteq> None then c else upd (note_progress stg det (clk 0)) c)"

definition mark_progress_at ::
  "process \<Rightarrow> clock \<Rightarrow> u64 \<Rightarrow> ustring \<Rightarrow> ustring \<Rightarrow> AgentRunControl \<Rightarrow> bool \<times> AgentRunControl"
where
  "mark_progress_at p clk e stg det c =
     (if stop_reason (ctl_state c) \<noteq> None \<or> cancellation_requested p c \<or> \<not> objective_epoch_matches e c
      then (False, c) else (True, upd (note_progress stg det (clk 0)) c))"

definition note_wire_activity ::
  "process \<Rightarrow> clock \<Rightarrow> ustring \<Rightarrow> ustring \<Rightarrow> AgentRunControl \<Rightarrow> AgentRunControl"
where
  "note_wire_activity p clk stg det c =
     (if stop_reason (ctl_state c) \<noteq> None \<or> cancellation_requested p c then c
      else upd (note_progress stg det (clk 0)) c)"

definition record_context_compaction :: "AgentRunControl \<Rightarrow> AgentRunControl" where
  "record_context_compaction c =
     upd (\<lambda>s. s\<lparr>telemetry := telemetry_record_context_compaction (telemetry s)\<rparr>) c"

definition record_rolling_summary :: "AgentRunControl \<Rightarrow> AgentRunControl" where
  "record_rolling_summary c =
     upd (\<lambda>s. s\<lparr>telemetry := telemetry_record_rolling_summary (telemetry s)\<rparr>) c"

definition record_retrieval :: "u64 \<Rightarrow> u64 \<Rightarrow> u64 \<Rightarrow> AgentRunControl \<Rightarrow> AgentRunControl" where
  "record_retrieval ms channels hits c =
     upd (\<lambda>s. s\<lparr>telemetry := telemetry_record_retrieval ms channels hits (telemetry s)\<rparr>) c"

definition PARTIAL_OUTPUT_MAX_CHARS :: nat where
  "PARTIAL_OUTPUT_MAX_CHARS = 24000"

text \<open>The guard of partial outputs and best known results: epoch current, not terminal.\<close>

definition result_epoch_matches :: "u64 \<Rightarrow> AgentRunControl \<Rightarrow> bool" where
  "result_epoch_matches e c \<longleftrightarrow>
     \<not> (phase (ctl_state c) = TerminalCommitted \<or> steer_epoch c \<noteq> e
        \<or> applied_steer_epoch (ctl_state c) \<noteq> e \<or> pending_steers (ctl_state c) \<noteq> [])"

definition record_partial_output_at ::
  "clock \<Rightarrow> u64 \<Rightarrow> ustring \<Rightarrow> AgentRunControl \<Rightarrow> bool \<times> AgentRunControl"
where
  "record_partial_output_at clk e out c =
     (let output = trim out in
      if output = [] then (False, c)
      else if \<not> result_epoch_matches e c then (False, c)
      else (True, upd (\<lambda>s. s\<lparr>partial_output := last_chars PARTIAL_OUTPUT_MAX_CHARS output,
                             last_progress_at := clk 0\<rparr>) c))"

definition record_partial_output :: "clock \<Rightarrow> ustring \<Rightarrow> AgentRunControl \<Rightarrow> AgentRunControl" where
  "record_partial_output clk out c = snd (record_partial_output_at clk (steer_epoch c) out c)"

definition record_best_known_result_at ::
  "clock \<Rightarrow> u64 \<Rightarrow> ustring \<Rightarrow> ustring \<Rightarrow> ResultQuality \<Rightarrow> usize \<Rightarrow> bool \<Rightarrow> bool \<Rightarrow> AgentRunControl
     \<Rightarrow> bool \<times> AgentRunControl"
where
  "record_best_known_result_at clk e stg content q n ver del c =
     (if \<not> result_epoch_matches e c then (False, c)
      else case frontier_record stg content q n ver del (results (ctl_state c)) of (rep, f) \<Rightarrow>
        (rep, upd (\<lambda>s. let s1 = s\<lparr>results := f\<rparr> in
                       if rep then s1\<lparr>last_progress_at := clk 0\<rparr> else s1) c))"

definition record_best_known_result ::
  "clock \<Rightarrow> ustring \<Rightarrow> ustring \<Rightarrow> ResultQuality \<Rightarrow> usize \<Rightarrow> bool \<Rightarrow> bool \<Rightarrow> AgentRunControl
     \<Rightarrow> bool \<times> AgentRunControl"
where
  "record_best_known_result clk stg content q n ver del c =
     record_best_known_result_at clk (steer_epoch c) stg content q n ver del c"

definition best_known_result :: "AgentRunControl \<Rightarrow> BestKnownResult option" where
  "best_known_result c = rf_best_known (results (ctl_state c))"

definition best_guidance_result :: "AgentRunControl \<Rightarrow> BestKnownResult option" where
  "best_guidance_result c = best_guidance (results (ctl_state c))"

definition result_frontier :: "AgentRunControl \<Rightarrow> BestKnownResult list" where
  "result_frontier c = rf_candidates (results (ctl_state c))"

definition evidence_epoch_blocked :: "u64 \<Rightarrow> AgentRunControl \<Rightarrow> bool" where
  "evidence_epoch_blocked e c \<longleftrightarrow>
     phase (ctl_state c) = TerminalCommitted \<or> stop_reason (ctl_state c) \<noteq> None
     \<or> pending_steers (ctl_state c) \<noteq> [] \<or> applied_steer_epoch (ctl_state c) \<noteq> e
     \<or> steer_epoch c \<noteq> e"

definition record_observation_at ::
  "hasher \<Rightarrow> clock \<Rightarrow> u64 \<Rightarrow> ustring \<Rightarrow> ustring \<Rightarrow> ustring \<Rightarrow> AgentRunControl \<Rightarrow> bool \<times> AgentRunControl"
where
  "record_observation_at fp clk e stg det evidence c =
     (let h = fp (HashStrs stg evidence) in
      if evidence_epoch_blocked e c \<or> h \<in> observation_fingerprints (ctl_state c) then (False, c)
      else (True, upd (\<lambda>s. note_progress stg det (clk 0)
              (s\<lparr>observation_fingerprints := insert h (observation_fingerprints s),
                 observation_count := sat_add (observation_count s) 1\<rparr>)) c))"

definition record_observation ::
  "hasher \<Rightarrow> clock \<Rightarrow> ustring \<Rightarrow> ustring \<Rightarrow> ustring \<Rightarrow> AgentRunControl \<Rightarrow> bool \<times> AgentRunControl"
where
  "record_observation fp clk stg det evidence c =
     record_observation_at fp clk (steer_epoch c) stg det evidence c"

definition record_checkpoint_at ::
  "hasher \<Rightarrow> clock \<Rightarrow> u64 \<Rightarrow> ustring \<Rightarrow> ustring \<Rightarrow> ustring \<Rightarrow> AgentRunControl \<Rightarrow> bool \<times> AgentRunControl"
where
  "record_checkpoint_at fp clk e stg det evidence c =
     (let h = fp (HashStrs stg evidence) in
      if evidence_epoch_blocked e c \<or> h \<in> checkpoint_fingerprints (ctl_state c) then (False, c)
      else (True, upd (\<lambda>s. note_progress stg det (clk 0)
              (s\<lparr>checkpoint_fingerprints := insert h (checkpoint_fingerprints s),
                 checkpoint_count := sat_add (checkpoint_count s) 1\<rparr>)) c))"

definition record_checkpoint ::
  "hasher \<Rightarrow> clock \<Rightarrow> ustring \<Rightarrow> ustring \<Rightarrow> ustring \<Rightarrow> AgentRunControl \<Rightarrow> bool \<times> AgentRunControl"
where
  "record_checkpoint fp clk stg det evidence c =
     record_checkpoint_at fp clk (steer_epoch c) stg det evidence c"

section \<open>Timeouts\<close>

definition timeout_seconds :: "clock \<Rightarrow> u64 \<Rightarrow> AgentRunControl \<Rightarrow> u64" where
  "timeout_seconds clk cap c =
     (let remaining = max_duration (budget c) - (clk 0 - started_at (ctl_state c))
      in min (max (as_secs remaining) 1) (max cap 1))"

definition model_call_timeout_seconds :: "clock \<Rightarrow> AgentRunControl \<Rightarrow> u64" where
  "model_call_timeout_seconds clk c =
     timeout_seconds clk (max (as_secs (model_call_timeout (budget c))) 1) c"

definition stage_model_call_timeout :: "clock \<Rightarrow> RunStageClass \<Rightarrow> AgentRunControl \<Rightarrow> duration" where
  "stage_model_call_timeout clk cls c =
     (let now = clk 0; b = budget c; s = ctl_state c;
          global_remaining = max_duration b - (now - started_at s);
          sb = stage_budget b cls;
          stage_remaining = (case stage_usage s cls of
              Some u \<Rightarrow> sb_max_duration sb - (now - su_started_at u) | None \<Rightarrow> sb_max_duration sb);
          global_stage_allowance = global_remaining - protected_time_reserve b cls
      in min (min (model_call_timeout b) stage_remaining) global_stage_allowance)"

definition stage_model_call_timeout_seconds :: "clock \<Rightarrow> RunStageClass \<Rightarrow> AgentRunControl \<Rightarrow> u64" where
  "stage_model_call_timeout_seconds clk cls c = max (as_secs (stage_model_call_timeout clk cls c)) 1"

text \<open>\<open>u32::try_from(recovery_windows)\<close> saturates at \<open>u32::MAX\<close>.\<close>

definition stage_model_call_timeout_with_recovery ::
  "clock \<Rightarrow> RunStageClass \<Rightarrow> usize \<Rightarrow> duration \<Rightarrow> AgentRunControl \<Rightarrow> duration"
where
  "stage_model_call_timeout_with_recovery clk cls windows min_window c =
     (let available = stage_model_call_timeout clk cls c in
      if windows = 0 \<or> min_window = 0 then available
      else
        let n = (if windows \<le> 4294967295 then windows else 4294967295);
            product = (case duration_checked_mul min_window n of Some d \<Rightarrow> d | None \<Rightarrow> available);
            reserved = min product (available - from_secs 1)
        in available - reserved)"

definition runtime_config_max_turns :: "AgentRunControl \<Rightarrow> usize" where
  "runtime_config_max_turns c = max (max_agent_turns (budget c)) 1"

text \<open>\<open>extend_runtime_budget\<close> sets the loop state's \<open>max_turns\<close> from its \<open>turn\<close>.\<close>

definition extend_runtime_budget :: "AgentRunControl \<Rightarrow> usize \<Rightarrow> usize" where
  "extend_runtime_budget c turn = sat_add turn (max (max_agent_turns (budget c)) 1)"

end
