(* ===== verification/Control_Tools.thy ===== *)
theory Control_Tools
  imports Run_Control
begin

text \<open>
  Tool calls of the run control (\<open>control.rs\<close>, \<open>control_tool_batch.rs\<close>,
  \<open>control_tool_continuation.rs\<close>): the serial admission of one call with its budget and
  repeated-action guards, the atomic admission of a batch, the continuation lease, and the
  external calls a subagent reports.
\<close>

section \<open>The repeated-action guard\<close>

definition has_repeated_action_cycle :: "u64 list \<Rightarrow> usize \<Rightarrow> bool" where
  "has_repeated_action_cycle actions reps =
     (let repetitions = max reps 2 in
      list_ex (\<lambda>period.
        let required = wrap_mul period repetitions in
        if length actions < required then False
        else
          let start = length actions - required in
          list_all (\<lambda>offset. actions ! (start + offset) = actions ! (start + offset mod period))
            [period..<required]) [1, 2, 3])"

text \<open>\<open>while recent.len() > 24 { recent.pop_front(); }\<close>\<close>

definition keep_recent :: "u64 list \<Rightarrow> u64 list" where
  "keep_recent xs = drop (length xs - 24) xs"

definition bump_history :: "u64 \<Rightarrow> (u64 \<times> usize) option \<Rightarrow> u64 \<times> usize" where
  "bump_history signature h =
     (case h of
        None \<Rightarrow> (signature, wrap_add 0 1)
      | Some (prev, n) \<Rightarrow> if prev = signature then (prev, wrap_add n 1) else (signature, 1))"

definition refuse_tool_call :: "RunStopReason \<Rightarrow> AgentRunControl \<Rightarrow> AgentRunControl" where
  "refuse_tool_call r c =
     upd (\<lambda>s. s\<lparr>stop_reason := Some r\<rparr>) (c\<lparr>tool_calls := wrap_sub (tool_calls c) 1\<rparr>)"

definition start_tool_call :: "clock \<Rightarrow> ustring \<Rightarrow> AgentRunControl \<Rightarrow> AgentRunControl" where
  "start_tool_call clk tool c =
     upd (\<lambda>s. note_progress (lit ''tool'') tool (clk 1)
            (s\<lparr>active_tool_calls := sat_add (active_tool_calls s) 1,
               telemetry := telemetry_begin_tool_call (clk 0) (telemetry s)\<rparr>)) c"

definition begin_tool_call_locked ::
  "hasher \<Rightarrow> clock \<Rightarrow> ustring \<Rightarrow> ustring \<Rightarrow> ustring \<Rightarrow> AgentRunControl
     \<Rightarrow> (RunStopReason + usize) \<times> AgentRunControl"
where
  "begin_tool_call_locked fp clk scope tool input c =
     (let call = wrap_add (tool_calls c) 1;
          c1 = c\<lparr>tool_calls := wrap_add (tool_calls c) 1\<rparr>;
          signature = fp (HashStrs tool input);
          lease = continuation_actions (ctl_state c) scope;
          is_continuation = (lease = Some signature);
          c2 = (if lease \<noteq> None \<and> \<not> is_continuation
                then upd (\<lambda>s. s\<lparr>continuation_actions := (continuation_actions s)(scope := None)\<rparr>) c1
                else c1);
          (refused, s3) =
            (if call > tool_call_limit (ctl_state c2)
             then (case extend_tool_budget_if_progressed (budget c) call (ctl_state c2) of
                     (ok, s) \<Rightarrow> (\<not> ok, s))
             else (False, ctl_state c2));
          c3 = c2\<lparr>ctl_state := s3\<rparr>
      in if refused then (Inl ToolCallBudgetExceeded, refuse_tool_call ToolCallBudgetExceeded c3)
         else if is_continuation then (Inr call, start_tool_call clk tool c3)
         else
           let history = bump_history signature (action_history (ctl_state c3) scope);
               c4 = upd (\<lambda>s. s\<lparr>action_history := (action_history s)(scope \<mapsto> history)\<rparr>) c3
           in if snd history > max_identical_actions (budget c)
              then (Inl RepeatedAction, refuse_tool_call RepeatedAction c4)
              else
                let old = (case recent_actions (ctl_state c4) scope of None \<Rightarrow> [] | Some xs \<Rightarrow> xs);
                    recent = keep_recent (old @ [signature]);
                    c5 = upd (\<lambda>s. s\<lparr>recent_actions := (recent_actions s)(scope \<mapsto> recent)\<rparr>) c4
                in if has_repeated_action_cycle recent (wrap_add (max_identical_actions (budget c)) 1)
                   then (Inl RepeatedAction, refuse_tool_call RepeatedAction c5)
                   else (Inr call, start_tool_call clk tool c5))"

definition begin_tool_call ::
  "hasher \<Rightarrow> process \<Rightarrow> clock \<Rightarrow> ustring \<Rightarrow> ustring \<Rightarrow> ustring \<Rightarrow> AgentRunControl
     \<Rightarrow> (RunStopReason + usize) \<times> AgentRunControl"
where
  "begin_tool_call fp p clk scope tool input c =
     unless_stopped p (clk 0) (begin_tool_call_locked fp (clock_from 1 clk) scope tool input) c"

definition tool_start_of :: "RunStopReason + usize \<Rightarrow> RunToolCallStart" where
  "tool_start_of r = (case r of Inl e \<Rightarrow> ToolStopped e | Inr call \<Rightarrow> ToolStarted call)"

definition lease_blocked :: "u64 \<Rightarrow> RunPhase \<Rightarrow> AgentRunControl \<Rightarrow> bool" where
  "lease_blocked e ph c \<longleftrightarrow>
     phase (ctl_state c) \<noteq> ph \<or> pending_steers (ctl_state c) \<noteq> []
     \<or> applied_steer_epoch (ctl_state c) \<noteq> e \<or> steer_epoch c \<noteq> e"

definition begin_tool_call_with_epoch ::
  "hasher \<Rightarrow> process \<Rightarrow> clock \<Rightarrow> RunEpochLease \<Rightarrow> ustring \<Rightarrow> ustring \<Rightarrow> ustring \<Rightarrow> AgentRunControl
     \<Rightarrow> RunToolCallStart \<times> AgentRunControl"
where
  "begin_tool_call_with_epoch fp p clk lease scope tool input c =
     (case refresh_stop_reason p (clk 0) c of
        (Some r, c') \<Rightarrow> (ToolStopped r, c')
      | (None, c') \<Rightarrow>
          if phase (ctl_state c') = TerminalCommitted then (ToolTerminalCommitted, c')
          else if lease_blocked (lease_epoch lease) Executing c' then (ToolRestartAfterSteer, c')
          else case begin_tool_call_locked fp (clock_from 1 clk) scope tool input c' of
                 (r, c'') \<Rightarrow> (tool_start_of r, c''))"

definition begin_tool_call_at ::
  "hasher \<Rightarrow> process \<Rightarrow> clock \<Rightarrow> u64 \<Rightarrow> ustring \<Rightarrow> ustring \<Rightarrow> ustring \<Rightarrow> AgentRunControl
     \<Rightarrow> RunToolCallStart \<times> AgentRunControl"
where
  "begin_tool_call_at fp p clk e scope tool input c =
     (case refresh_stop_reason p (clk 0) c of
        (Some r, c') \<Rightarrow> (ToolStopped r, c')
      | (None, c') \<Rightarrow>
          if phase (ctl_state c') = TerminalCommitted then (ToolTerminalCommitted, c')
          else if \<not> objective_epoch_matches e c' then (ToolRestartAfterSteer, c')
          else case begin_tool_call_locked fp (clock_from 1 clk) scope tool input c' of
                 (r, c'') \<Rightarrow> (tool_start_of r, c''))"

definition finish_tool_call :: "clock \<Rightarrow> AgentRunControl \<Rightarrow> AgentRunControl" where
  "finish_tool_call clk c =
     upd (\<lambda>s. s\<lparr>active_tool_calls := active_tool_calls s - 1,
               telemetry := telemetry_finish_tool_call (clk 0) (telemetry s),
               last_progress_at := clk 1\<rparr>) c"

definition finish_tool_call_at ::
  "process \<Rightarrow> clock \<Rightarrow> u64 \<Rightarrow> AgentRunControl \<Rightarrow> bool \<times> AgentRunControl"
where
  "finish_tool_call_at p clk e c =
     (let c1 = upd (\<lambda>s. s\<lparr>active_tool_calls := active_tool_calls s - 1,
                         telemetry := telemetry_finish_tool_call (clk 0) (telemetry s)\<rparr>) c
      in if stop_reason (ctl_state c1) \<noteq> None \<or> cancellation_requested p c1
            \<or> \<not> objective_epoch_matches e c1
         then (False, c1)
         else (True, upd (\<lambda>s. s\<lparr>last_progress_at := clk 1\<rparr>) c1))"

definition record_external_tool_call :: "AgentRunControl \<Rightarrow> AgentRunControl" where
  "record_external_tool_call c = c\<lparr>tool_calls := wrap_add (tool_calls c) 1\<rparr>"

definition tool_call_count :: "AgentRunControl \<Rightarrow> usize" where
  "tool_call_count c = tool_calls c"

section \<open>Batches\<close>

text \<open>The loop over the batch: the lease, the history and the recent actions it carries, or the
  reason it leaves early.\<close>

datatype scan = ScanDone "u64 option" "(u64 \<times> usize) option" "u64 list" | ScanOverflow | ScanRepeated

fun batch_scan ::
  "hasher \<Rightarrow> usize \<Rightarrow> (ustring \<times> ustring) list \<Rightarrow> u64 option \<Rightarrow> (u64 \<times> usize) option \<Rightarrow> u64 list \<Rightarrow> scan"
where
  "batch_scan fp m [] lease hist recent = ScanDone lease hist recent"
| "batch_scan fp m ((tool, input) # calls) lease hist recent =
     (let signature = fp (HashStrs tool input) in
      if lease = Some signature then batch_scan fp m calls lease hist recent
      else
        let bumped = (case hist of
              Some (prev, n) \<Rightarrow>
                if prev = signature then map_option (\<lambda>n'. (signature, n')) (checked_add n 1)
                else Some (signature, 1)
            | None \<Rightarrow> Some (signature, 1))
        in case bumped of
             None \<Rightarrow> ScanOverflow
           | Some h \<Rightarrow>
               if snd h > m then ScanRepeated
               else
                 let recent' = keep_recent (recent @ [signature]) in
                 if has_repeated_action_cycle recent' (wrap_add m 1) then ScanRepeated
                 else batch_scan fp m calls None (Some h) recent')"

definition commit_batch ::
  "clock \<Rightarrow> ustring \<Rightarrow> (ustring \<times> ustring) list \<Rightarrow> usize \<Rightarrow> u64 option \<Rightarrow> (u64 \<times> usize) option \<Rightarrow> u64 list
     \<Rightarrow> AgentRunControl \<Rightarrow> AgentRunControl"
where
  "commit_batch clk scope calls last_call lease hist recent c =
     upd (\<lambda>s.
        let s1 = (case hist of None \<Rightarrow> s
                  | Some h \<Rightarrow> s\<lparr>action_history := (action_history s)(scope \<mapsto> h)\<rparr>);
            s2 = s1\<lparr>recent_actions := (recent_actions s1)(scope \<mapsto> recent)\<rparr>;
            s3 = (if continuation_actions s2 scope \<noteq> None \<and> lease = None
                  then s2\<lparr>continuation_actions := (continuation_actions s2)(scope := None)\<rparr> else s2)
        in note_progress (lit ''tool'') (if calls = [] then [] else fst (last calls)) (clk 1)
             (s3\<lparr>active_tool_calls := active_tool_calls s3 + length calls,
                 telemetry := telemetry_begin_tool_call_batch (clk 0) (length calls) (telemetry s3)\<rparr>))
       (c\<lparr>tool_calls := last_call\<rparr>)"

definition begin_tool_call_batch_locked ::
  "hasher \<Rightarrow> clock \<Rightarrow> ustring \<Rightarrow> (ustring \<times> ustring) list \<Rightarrow> bool \<Rightarrow> AgentRunControl
     \<Rightarrow> RunToolCallBatchStart \<times> AgentRunControl"
where
  "begin_tool_call_batch_locked fp clk scope calls read_only c =
     (if length calls < 2 then (BatchSerialRequired, c)
      else
        let pending = continuation_actions (ctl_state c) scope in
        if pending \<noteq> None \<and> \<not> read_only then (BatchSerialRequired, c)
        else case checked_add (tool_calls c) (length calls) of
          None \<Rightarrow> (BatchSerialRequired, c)
        | Some last_call \<Rightarrow>
            if checked_add (active_tool_calls (ctl_state c)) (length calls) = None
            then (BatchSerialRequired, c)
            else if last_call > tool_call_limit (ctl_state c) \<and> \<not> read_only
            then (BatchSerialRequired, c)
            else
              let (ok, s1) =
                    (if last_call > tool_call_limit (ctl_state c)
                     then extend_tool_budget_if_progressed (budget c) last_call (ctl_state c)
                     else (True, ctl_state c));
                  c1 = c\<lparr>ctl_state := s1\<rparr>
              in if \<not> ok
                 then (BatchStopped ToolCallBudgetExceeded,
                       upd (\<lambda>s. s\<lparr>stop_reason := Some ToolCallBudgetExceeded\<rparr>) c1)
                 else
                   case batch_scan fp (max_identical_actions (budget c)) calls pending
                          (action_history s1 scope)
                          (case recent_actions s1 scope of None \<Rightarrow> [] | Some xs \<Rightarrow> xs) of
                     ScanOverflow \<Rightarrow> (BatchSerialRequired, c1)
                   | ScanRepeated \<Rightarrow>
                       if read_only
                       then (BatchStopped RepeatedAction,
                             upd (\<lambda>s. s\<lparr>stop_reason := Some RepeatedAction\<rparr>) c1)
                       else (BatchSerialRequired, c1)
                   | ScanDone lease hist recent \<Rightarrow>
                       (BatchStarted (tool_calls c + 1) (length calls),
                        commit_batch clk scope calls last_call lease hist recent c1))"

definition begin_tool_call_batch_with_epoch ::
  "hasher \<Rightarrow> process \<Rightarrow> clock \<Rightarrow> RunEpochLease \<Rightarrow> ustring \<Rightarrow> (ustring \<times> ustring) list \<Rightarrow> bool
     \<Rightarrow> AgentRunControl \<Rightarrow> RunToolCallBatchStart \<times> AgentRunControl"
where
  "begin_tool_call_batch_with_epoch fp p clk lease scope calls read_only c =
     (case refresh_stop_reason p (clk 0) c of
        (Some r, c') \<Rightarrow> (BatchStopped r, c')
      | (None, c') \<Rightarrow>
          if phase (ctl_state c') = TerminalCommitted then (BatchTerminalCommitted, c')
          else if lease_blocked (lease_epoch lease) Executing c' then (BatchRestartAfterSteer, c')
          else begin_tool_call_batch_locked fp (clock_from 1 clk) scope calls read_only c')"

section \<open>Continuations\<close>

datatype ToolEffectSemantics = ReadOnly | Idempotent | Verifiable ustring | NonIdempotent

definition continuation_safe :: "ToolEffectSemantics \<Rightarrow> bool option \<Rightarrow> bool" where
  "continuation_safe eff complete \<longleftrightarrow> (eff = ReadOnly \<or> eff = Idempotent) \<and> complete = Some False"

definition record_tool_continuation_at ::
  "hasher \<Rightarrow> u64 \<Rightarrow> ustring \<Rightarrow> ustring \<Rightarrow> ustring \<Rightarrow> ToolEffectSemantics \<Rightarrow> bool option \<Rightarrow> AgentRunControl
     \<Rightarrow> bool \<times> AgentRunControl"
where
  "record_tool_continuation_at fp e scope tool input eff complete c =
     (if \<not> objective_epoch_matches e c then (False, c)
      else
        let signature = fp (HashStrs tool input); safe = continuation_safe eff complete
        in (safe, upd (\<lambda>s. s\<lparr>continuation_actions :=
               (continuation_actions s)(scope := (if safe then Some signature else None))\<rparr>) c))"

end
