(* ===== verification/Control_Steer.thy ===== *)
theory Control_Steer
  imports Control_Tools
begin

text \<open>
  Steering, preparation and the serialized commits of the run control (\<open>control.rs\<close>,
  \<open>control_steer_commit.rs\<close>). A closure \<open>FnOnce() -> Result<T, E>\<close> that persists under
  the control's lock is a function on an external world \<open>'w\<close> (the durable store): its result
  and the world after it. An operation that does not call the closure returns the world
  unchanged, which is how the theorems say that nothing was persisted.
\<close>

type_synonym ('w, 'e, 't) closure = "'w \<Rightarrow> ('e + 't) \<times> 'w"

text \<open>\<open>let value = commit()?; \<dots>\<close>: an error leaves the control as it is.\<close>

definition run_commit ::
  "('w, 'e, 't) closure \<Rightarrow> ('t \<Rightarrow> 'r \<times> AgentRunControl) \<Rightarrow> AgentRunControl \<Rightarrow> 'w
     \<Rightarrow> ('e + 'r) \<times> AgentRunControl \<times> 'w"
where
  "run_commit commit k c w =
     (case commit w of
        (Inl e, w') \<Rightarrow> (Inl e, c, w')
      | (Inr v, w') \<Rightarrow> (case k v of (r, c') \<Rightarrow> (Inr r, c', w')))"

section \<open>Steer requests\<close>

definition MAX_PENDING_STEERS :: nat where
  "MAX_PENDING_STEERS = 16"

definition accept_steer :: "clock \<Rightarrow> ustring \<Rightarrow> AgentRunControl \<Rightarrow> RunSteer \<times> AgentRunControl" where
  "accept_steer clk queue_id c =
     (let epoch = wrap_add (steer_epoch c) 1;
          steer = \<lparr>sr_queue_id = queue_id, sr_epoch = epoch\<rparr>
      in (steer,
          upd (\<lambda>s. note_progress (lit ''steering'') (lit ''Applying user guidance'') (clk 0)
                 (s\<lparr>pending_steers := pending_steers s @ [steer], partial_output := [],
                    results := frontier_default\<rparr>))
            (c\<lparr>steer_epoch := wrap_add (steer_epoch c) 1\<rparr>)))"

definition commit_steer_request_with ::
  "process \<Rightarrow> clock \<Rightarrow> ustring \<Rightarrow> ('w, 'e, 't) closure \<Rightarrow> AgentRunControl \<Rightarrow> 'w
     \<Rightarrow> ('e + 't RunSteerRequestCommit) \<times> AgentRunControl \<times> 'w"
where
  "commit_steer_request_with p clk queue_id commit c w =
     (if phase (ctl_state c) = TerminalCommitted then (Inr RequestTerminalCommitted, c, w)
      else case refresh_stop_reason p (clk 0) c of
        (Some r, c') \<Rightarrow> (Inr (RequestStopped r), c', w)
      | (None, c') \<Rightarrow>
          if \<exists>s \<in> set (pending_steers (ctl_state c')). sr_queue_id s = queue_id
          then (Inr RequestDuplicate, c', w)
          else if length (pending_steers (ctl_state c')) \<ge> MAX_PENDING_STEERS
          then (Inr RequestCapacityReached, c', w)
          else run_commit commit
                 (\<lambda>v. case accept_steer (clock_from 1 clk) queue_id c' of
                        (steer, c'') \<Rightarrow> (RequestCommitted v steer, c'')) c' w)"

definition request_steer ::
  "process \<Rightarrow> clock \<Rightarrow> ustring \<Rightarrow> AgentRunControl \<Rightarrow> (RunStopReason + bool) \<times> AgentRunControl"
where
  "request_steer p clk queue_id c =
     (case commit_steer_request_with p clk queue_id (\<lambda>w. (Inr () :: unit + unit, w)) c () of
        (Inr (RequestCommitted _ _), c', _) \<Rightarrow> (Inr True, c')
      | (Inr (RequestStopped r), c', _) \<Rightarrow> (Inl r, c')
      | (_, c', _) \<Rightarrow> (Inr False, c'))"

definition has_pending_steer :: "AgentRunControl \<Rightarrow> bool" where
  "has_pending_steer c \<longleftrightarrow> pending_steers (ctl_state c) \<noteq> []"

definition pending_steers_snapshot :: "AgentRunControl \<Rightarrow> RunSteer list" where
  "pending_steers_snapshot c = pending_steers (ctl_state c)"

definition preparation_epoch_is_current :: "u64 \<Rightarrow> AgentRunControl \<Rightarrow> bool" where
  "preparation_epoch_is_current e c \<longleftrightarrow> steer_epoch c = e"

section \<open>Preparation\<close>

definition begin_preparation :: "process \<Rightarrow> clock \<Rightarrow> AgentRunControl \<Rightarrow> bool \<times> AgentRunControl" where
  "begin_preparation p clk c =
     (if phase (ctl_state c) = TerminalCommitted then (False, c)
      else case refresh_stop_reason p (clk 0) c of
        (Some r, c') \<Rightarrow> (False, c')
      | (None, c') \<Rightarrow> (True, upd (\<lambda>s. s\<lparr>phase := Preparing\<rparr>) c'))"

definition commit_preparation_checkpoint_with ::
  "process \<Rightarrow> clock \<Rightarrow> u64 \<Rightarrow> ('w, 'e, 't) closure \<Rightarrow> AgentRunControl \<Rightarrow> 'w
     \<Rightarrow> ('e + 't RunPreparationCheckpoint) \<times> AgentRunControl \<times> 'w"
where
  "commit_preparation_checkpoint_with p clk e commit c w =
     (case refresh_stop_reason p (clk 0) c of
        (Some r, c') \<Rightarrow> (Inr (CheckpointStopped r), c', w)
      | (None, c') \<Rightarrow>
          if lease_blocked e Preparing c' then (Inr CheckpointRestartAfterSteer, c', w)
          else run_commit commit (\<lambda>v. (CheckpointCommitted v, c')) c' w)"

definition commit_preparation_with ::
  "process \<Rightarrow> clock \<Rightarrow> u64 \<Rightarrow> ('w, 'e, 't) closure \<Rightarrow> AgentRunControl \<Rightarrow> 'w
     \<Rightarrow> ('e + 't RunPreparationCommit) \<times> AgentRunControl \<times> 'w"
where
  "commit_preparation_with p clk e commit c w =
     (case refresh_stop_reason p (clk 0) c of
        (Some r, c') \<Rightarrow> (Inr (PrepStopped r), c', w)
      | (None, c') \<Rightarrow>
          if lease_blocked e Preparing c' then (Inr PrepRestartAfterSteer, c', w)
          else run_commit commit
                 (\<lambda>v. (PrepCommitted v \<lparr>lease_epoch = e\<rparr>, upd (\<lambda>s. s\<lparr>phase := Executing\<rparr>) c')) c' w)"

definition commit_preparation :: "process \<Rightarrow> clock \<Rightarrow> u64 \<Rightarrow> AgentRunControl \<Rightarrow> bool \<times> AgentRunControl" where
  "commit_preparation p clk e c =
     (case commit_preparation_with p clk e (\<lambda>w. (Inr () :: unit + unit, w)) c () of
        (Inr (PrepCommitted _ _), c', _) \<Rightarrow> (True, c')
      | (_, c', _) \<Rightarrow> (False, c'))"

definition commit_start_checkpoint_with ::
  "process \<Rightarrow> clock \<Rightarrow> ('w, 'e, 't) closure \<Rightarrow> AgentRunControl \<Rightarrow> 'w
     \<Rightarrow> ('e + 't RunStartCheckpoint) \<times> AgentRunControl \<times> 'w"
where
  "commit_start_checkpoint_with p clk commit c w =
     (case refresh_stop_reason p (clk 0) c of
        (Some r, c') \<Rightarrow> (Inr (StartStopped r), c', w)
      | (None, c') \<Rightarrow>
          if phase (ctl_state c') = TerminalCommitted then (Inr StartTerminalCommitted, c', w)
          else run_commit commit (\<lambda>v. (StartCommitted v, c')) c' w)"

section \<open>Execution leases and commits\<close>

definition execution_epoch_lease ::
  "process \<Rightarrow> clock \<Rightarrow> AgentRunControl \<Rightarrow> RunEpochLeaseOutcome \<times> AgentRunControl"
where
  "execution_epoch_lease p clk c =
     (case refresh_stop_reason p (clk 0) c of
        (Some r, c') \<Rightarrow> (LeaseStopped r, c')
      | (None, c') \<Rightarrow>
          if phase (ctl_state c') = TerminalCommitted then (LeaseTerminalCommitted, c')
          else
            let e = steer_epoch c' in
            if phase (ctl_state c') \<noteq> Executing \<or> pending_steers (ctl_state c') \<noteq> []
               \<or> applied_steer_epoch (ctl_state c') \<noteq> e
            then (LeaseRestartAfterSteer, c')
            else (LeaseAcquired \<lparr>lease_epoch = e\<rparr>, c'))"

definition execution_epoch_lease_is_current :: "process \<Rightarrow> RunEpochLease \<Rightarrow> AgentRunControl \<Rightarrow> bool" where
  "execution_epoch_lease_is_current p lease c \<longleftrightarrow>
     stop_reason (ctl_state c) = None \<and> \<not> cancellation_requested p c \<and>
     execution_epoch_matches (lease_epoch lease) c"

definition objective_epoch_is_current :: "process \<Rightarrow> u64 \<Rightarrow> AgentRunControl \<Rightarrow> bool" where
  "objective_epoch_is_current p e c \<longleftrightarrow>
     stop_reason (ctl_state c) = None \<and> \<not> cancellation_requested p c \<and> objective_epoch_matches e c"

definition commit_execution_step_with ::
  "process \<Rightarrow> clock \<Rightarrow> RunEpochLease \<Rightarrow> ('w, 'e, 't) closure \<Rightarrow> AgentRunControl \<Rightarrow> 'w
     \<Rightarrow> ('e + 't RunExecutionStepCommit) \<times> AgentRunControl \<times> 'w"
where
  "commit_execution_step_with p clk lease commit c w =
     (case refresh_stop_reason p (clk 0) c of
        (Some r, c') \<Rightarrow> (Inr (StepStopped r), c', w)
      | (None, c') \<Rightarrow>
          if phase (ctl_state c') = TerminalCommitted then (Inr StepTerminalCommitted, c', w)
          else if lease_blocked (lease_epoch lease) Executing c' then (Inr StepRestartAfterSteer, c', w)
          else run_commit commit (\<lambda>v. (StepCommitted v, c')) c' w)"

definition commit_terminal ::
  "process \<Rightarrow> clock \<Rightarrow> u64 \<Rightarrow> RunPhase \<Rightarrow> ('w, 'e, 't) closure \<Rightarrow> AgentRunControl \<Rightarrow> 'w
     \<Rightarrow> ('e + 't RunTerminalCommit) \<times> AgentRunControl \<times> 'w"
where
  "commit_terminal p clk e ph commit c w =
     (case refresh_stop_reason p (clk 0) c of
        (Some r, c') \<Rightarrow> (Inr (TermStopped r), c', w)
      | (None, c') \<Rightarrow>
          if phase (ctl_state c') = TerminalCommitted then (Inr TermAlreadyCommitted, c', w)
          else if lease_blocked e ph c' then (Inr TermRestartAfterSteer, c', w)
          else run_commit commit
                 (\<lambda>v. (TermCommitted v, upd (\<lambda>s. s\<lparr>phase := TerminalCommitted\<rparr>) c')) c' w)"

definition commit_terminal_result_with ::
  "process \<Rightarrow> clock \<Rightarrow> RunEpochLease \<Rightarrow> ('w, 'e, 't) closure \<Rightarrow> AgentRunControl \<Rightarrow> 'w
     \<Rightarrow> ('e + 't RunTerminalCommit) \<times> AgentRunControl \<times> 'w"
where
  "commit_terminal_result_with p clk lease commit c w =
     commit_terminal p clk (lease_epoch lease) Executing commit c w"

definition commit_preparation_terminal_with ::
  "process \<Rightarrow> clock \<Rightarrow> u64 \<Rightarrow> ('w, 'e, 't) closure \<Rightarrow> AgentRunControl \<Rightarrow> 'w
     \<Rightarrow> ('e + 't RunTerminalCommit) \<times> AgentRunControl \<times> 'w"
where
  "commit_preparation_terminal_with p clk e commit c w = commit_terminal p clk e Preparing commit c w"

section \<open>Applying steers\<close>

fun remove_first_steer :: "ustring \<Rightarrow> RunSteer list \<Rightarrow> (RunSteer \<times> RunSteer list) option" where
  "remove_first_steer q [] = None"
| "remove_first_steer q (s # ss) =
     (if sr_queue_id s = q then Some (s, ss)
      else map_option (\<lambda>(t, ts). (t, s # ts)) (remove_first_steer q ss))"

definition acknowledge_pending_steer :: "ustring \<Rightarrow> AgentRunControl \<Rightarrow> bool \<times> AgentRunControl" where
  "acknowledge_pending_steer q c =
     (case remove_first_steer q (pending_steers (ctl_state c)) of
        None \<Rightarrow> (False, c)
      | Some (t, ts) \<Rightarrow>
          (True, upd (\<lambda>s. s\<lparr>pending_steers := ts,
                            applied_steer_epoch := max (applied_steer_epoch s) (sr_epoch t)\<rparr>) c))"

definition apply_epoch_of :: "RunSteer list \<Rightarrow> RunMutableState \<Rightarrow> RunMutableState" where
  "apply_epoch_of steers s =
     (if steers = [] then s
      else s\<lparr>applied_steer_epoch := max (applied_steer_epoch s) (sr_epoch (last steers))\<rparr>)"

definition take_pending_steers :: "AgentRunControl \<Rightarrow> RunSteer list \<times> AgentRunControl" where
  "take_pending_steers c =
     (let steers = pending_steers (ctl_state c)
      in (steers, upd (\<lambda>s. apply_epoch_of steers (s\<lparr>pending_steers := []\<rparr>)) c))"

definition open_applied_objective_segment :: "clock \<Rightarrow> AgentRunControl \<Rightarrow> AgentRunControl" where
  "open_applied_objective_segment clk c =
     (let b = budget c in
      upd (\<lambda>s. s\<lparr>model_call_limit :=
                   min (max (model_call_limit s) (sat_add (model_calls c) (max (initial_model_calls b) 1)))
                     (max_model_calls b),
                 tool_call_limit :=
                   min (max (tool_call_limit s) (sat_add (tool_calls c) (max (initial_tool_calls b) 1)))
                     (max_tool_calls b),
                 agent_turn_limit :=
                   min (max (agent_turn_limit s) (sat_add (agent_turns c) (max (initial_agent_turns b) 1)))
                     (max_agent_turns b),
                 model_extension_goal_delta := goal_delta_count s,
                 tool_extension_goal_delta := goal_delta_count s,
                 agent_turn_extension_goal_delta := goal_delta_count s,
                 continuation_actions := Map.empty,
                 last_progress_at := clk 0\<rparr>) c)"

definition commit_pending_steers_with_applied_objective ::
  "process \<Rightarrow> clock \<Rightarrow> (RunSteer list \<Rightarrow> ('w, 'e, 't) closure) \<Rightarrow> ('t \<Rightarrow> bool) \<Rightarrow> AgentRunControl \<Rightarrow> 'w
     \<Rightarrow> ('e + 't RunSteerBatchCommit) \<times> AgentRunControl \<times> 'w"
where
  "commit_pending_steers_with_applied_objective p clk commit applied c w =
     (case refresh_stop_reason p (clk 0) c of
        (Some r, c') \<Rightarrow> (Inr (SteersStopped r), c', w)
      | (None, c') \<Rightarrow>
          if phase (ctl_state c') = TerminalCommitted then (Inr SteersNoPending, c', w)
          else
            let steers = pending_steers (ctl_state c') in
            if steers = [] then (Inr SteersNoPending, c', w)
            else run_commit (commit steers)
                   (\<lambda>v. let c1 = upd (\<lambda>s. apply_epoch_of steers
                              (s\<lparr>pending_steers := drop (length steers) (pending_steers s)\<rparr>)) c';
                            c2 = (if applied v then open_applied_objective_segment (clock_from 1 clk) c1
                                  else c1)
                        in (SteersCommitted v steers, c2)) c' w)"

definition commit_pending_steers_with ::
  "process \<Rightarrow> clock \<Rightarrow> (RunSteer list \<Rightarrow> ('w, 'e, 't) closure) \<Rightarrow> AgentRunControl \<Rightarrow> 'w
     \<Rightarrow> ('e + 't RunSteerBatchCommit) \<times> AgentRunControl \<times> 'w"
where
  "commit_pending_steers_with p clk commit c w =
     commit_pending_steers_with_applied_objective p clk commit (\<lambda>_. False) c w"

end
