(* ===== verification/Control_Snapshot.thy ===== *)
theory Control_Snapshot
  imports Control_Steer
begin

text \<open>
  Construction, suspension and restoration of run controls
  (\<open>control_construction.rs\<close>, \<open>control.rs\<close>, \<open>control_steer.rs\<close>,
  \<open>control_progress.rs\<close>), goal-delta credit (\<open>control_goal_delta.rs\<close>,
  \<open>task_contract/goal_delta.rs\<close>) and the isolated treatment lanes of a run.
  A constructor allocates a cancellation flag (\<open>Arc::new(AtomicBool::new(false))\<close>) and a
  ledger id in the process.
\<close>

section \<open>Stage usage in snapshots\<close>

text \<open>\<open>Instant::checked_sub(d).unwrap_or(now)\<close>; instants start at zero.\<close>

definition back_by :: "duration \<Rightarrow> instant \<Rightarrow> instant" where
  "back_by d now = (if d \<le> now then now - d else now)"

text \<open>Each entry of the map is read with its own clock reading \<open>at cls\<close>.\<close>

definition snapshot_stage_usage ::
  "(RunStageClass \<Rightarrow> instant) \<Rightarrow> (RunStageClass \<rightharpoonup> RunStageUsage) \<Rightarrow> (RunStageClass \<rightharpoonup> RunStageUsageSnapshot)"
where
  "snapshot_stage_usage at usage = (\<lambda>cls. map_option
     (\<lambda>u. \<lparr>ss_model_calls = su_model_calls u, ss_elapsed = at cls - su_started_at u\<rparr>) (usage cls))"

definition restore_stage_usage ::
  "(RunStageClass \<rightharpoonup> RunStageUsageSnapshot) \<Rightarrow> instant \<Rightarrow> (RunStageClass \<rightharpoonup> RunStageUsage)"
where
  "restore_stage_usage usage now = (\<lambda>cls. map_option
     (\<lambda>u. \<lparr>su_started_at = back_by (ss_elapsed u) now, su_model_calls = ss_model_calls u\<rparr>) (usage cls))"

section \<open>Snapshots\<close>

record RunControlSnapshot =
  sn_budget :: RunBudget
  sn_elapsed_active :: duration
  sn_model_calls :: usize
  sn_tool_calls :: usize
  sn_agent_turns :: usize
  sn_repair_attempts :: usize
  sn_partial_output :: ustring
  sn_action_history :: "ustring \<rightharpoonup> u64 \<times> usize"
  sn_recent_actions :: "ustring \<rightharpoonup> u64 list"
  sn_continuation_actions :: "ustring \<rightharpoonup> u64"
  sn_observation_fingerprints :: "u64 set"
  sn_observation_count :: usize
  sn_checkpoint_fingerprints :: "u64 set"
  sn_checkpoint_count :: usize
  sn_goal_delta_fingerprints :: "u64 set"
  sn_goal_delta_count :: usize
  sn_model_extension_goal_delta :: usize
  sn_tool_extension_goal_delta :: usize
  sn_agent_turn_extension_goal_delta :: usize
  sn_model_call_limit :: usize
  sn_tool_call_limit :: usize
  sn_agent_turn_limit :: usize
  sn_budget_extensions :: usize
  sn_stop_reason :: "RunStopReason option"
  sn_pending_steers :: "RunSteer list"
  sn_steer_epoch :: u64
  sn_applied_steer_epoch :: u64
  sn_phase :: RunPhase
  sn_stage_usage :: "RunStageClass \<rightharpoonup> RunStageUsageSnapshot"
  sn_best_known_result :: "BestKnownResult option"
  sn_result_frontier :: "BestKnownResult list"
  sn_resources :: RunResourceSnapshot
  sn_telemetry :: RunTelemetryCountersSnapshot

definition snapshot_locked ::
  "instant \<Rightarrow> (RunStageClass \<Rightarrow> instant) \<Rightarrow> AgentRunControl \<Rightarrow> RunControlSnapshot"
where
  "snapshot_locked now at c =
     (let s = ctl_state c in
      \<lparr>sn_budget = budget c,
       sn_elapsed_active = min (now - started_at s) (max_duration (budget c)),
       sn_model_calls = model_calls c, sn_tool_calls = tool_calls c,
       sn_agent_turns = agent_turns c, sn_repair_attempts = repair_attempts c,
       sn_partial_output = partial_output s, sn_action_history = action_history s,
       sn_recent_actions = recent_actions s, sn_continuation_actions = continuation_actions s,
       sn_observation_fingerprints = observation_fingerprints s,
       sn_observation_count = observation_count s,
       sn_checkpoint_fingerprints = checkpoint_fingerprints s,
       sn_checkpoint_count = checkpoint_count s,
       sn_goal_delta_fingerprints = goal_delta_fingerprints s,
       sn_goal_delta_count = goal_delta_count s,
       sn_model_extension_goal_delta = model_extension_goal_delta s,
       sn_tool_extension_goal_delta = tool_extension_goal_delta s,
       sn_agent_turn_extension_goal_delta = agent_turn_extension_goal_delta s,
       sn_model_call_limit = model_call_limit s, sn_tool_call_limit = tool_call_limit s,
       sn_agent_turn_limit = agent_turn_limit s, sn_budget_extensions = budget_extensions s,
       sn_stop_reason = stop_reason s, sn_pending_steers = pending_steers s,
       sn_steer_epoch = steer_epoch c, sn_applied_steer_epoch = applied_steer_epoch s,
       sn_phase = phase s, sn_stage_usage = snapshot_stage_usage at (stage_usage s),
       sn_best_known_result = rf_best_known (results s),
       sn_result_frontier = rf_candidates (results s),
       sn_resources = ledger_snapshot (resources s),
       sn_telemetry = telemetry_snapshot (telemetry s)\<rparr>)"

definition control_from_snapshot ::
  "(nat list \<Rightarrow> nat list) \<Rightarrow> instant \<Rightarrow> RunControlSnapshot \<Rightarrow> process \<Rightarrow> AgentRunControl \<times> process"
where
  "control_from_snapshot sha256 now sn p =
     (let (a, p1) = alloc_flag p;
          (l, p2) = ledger_from_snapshot sha256 (sn_resources sn) p1
      in (\<lparr>budget = sn_budget sn, user_cancelled = a, parent_cancelled = None,
           model_calls = sn_model_calls sn, tool_calls = sn_tool_calls sn,
           agent_turns = sn_agent_turns sn, repair_attempts = sn_repair_attempts sn,
           steer_epoch = sn_steer_epoch sn,
           ctl_state =
            \<lparr>started_at = back_by (sn_elapsed_active sn) now, last_progress_at = now,
             stage = lit ''resuming'', detail = [], partial_output = sn_partial_output sn,
             action_history = sn_action_history sn, recent_actions = sn_recent_actions sn,
             continuation_actions = sn_continuation_actions sn,
             observation_fingerprints = sn_observation_fingerprints sn,
             observation_count = sn_observation_count sn,
             checkpoint_fingerprints = sn_checkpoint_fingerprints sn,
             checkpoint_count = sn_checkpoint_count sn,
             goal_delta_fingerprints = sn_goal_delta_fingerprints sn,
             goal_delta_count = sn_goal_delta_count sn,
             model_extension_goal_delta = sn_model_extension_goal_delta sn,
             tool_extension_goal_delta = sn_tool_extension_goal_delta sn,
             agent_turn_extension_goal_delta = sn_agent_turn_extension_goal_delta sn,
             model_call_limit = sn_model_call_limit sn, tool_call_limit = sn_tool_call_limit sn,
             agent_turn_limit = sn_agent_turn_limit sn, budget_extensions = sn_budget_extensions sn,
             stop_reason = sn_stop_reason sn, active_model_calls = 0, active_tool_calls = 0,
             telemetry = telemetry_restore (sn_telemetry sn),
             pending_steers = sn_pending_steers sn,
             applied_steer_epoch = sn_applied_steer_epoch sn, phase = sn_phase sn,
             stage_usage = restore_stage_usage (sn_stage_usage sn) now,
             results = frontier_restore (sn_best_known_result sn) (sn_result_frontier sn),
             resources = l\<rparr>\<rparr>, p2))"

definition control_from_snapshot_for_continuation ::
  "(nat list \<Rightarrow> nat list) \<Rightarrow> instant \<Rightarrow> RunControlSnapshot \<Rightarrow> process
     \<Rightarrow> (RunStopReason + AgentRunControl) \<times> process"
where
  "control_from_snapshot_for_continuation sha256 now sn p =
     (case sn_stop_reason sn of
        Some UserCancelled \<Rightarrow> (Inl UserCancelled, p)
      | None \<Rightarrow> (case control_from_snapshot sha256 now sn p of (c, p') \<Rightarrow> (Inr c, p'))
      | Some _ \<Rightarrow>
          let b = sn_budget sn;
              (l, p1) = ledger_from_snapshot sha256 (sn_resources sn) p;
              (a, p2) = alloc_flag p1
          in (Inr \<lparr>budget = b, user_cancelled = a, parent_cancelled = None,
               model_calls = 0, tool_calls = 0, agent_turns = 0, repair_attempts = 0,
               steer_epoch = sn_steer_epoch sn,
               ctl_state =
                \<lparr>started_at = now, last_progress_at = now,
                 stage = lit ''continuing'', detail = [], partial_output = sn_partial_output sn,
                 action_history = sn_action_history sn, recent_actions = sn_recent_actions sn,
                 continuation_actions = sn_continuation_actions sn,
                 observation_fingerprints = sn_observation_fingerprints sn,
                 observation_count = sn_observation_count sn,
                 checkpoint_fingerprints = sn_checkpoint_fingerprints sn,
                 checkpoint_count = sn_checkpoint_count sn,
                 goal_delta_fingerprints = sn_goal_delta_fingerprints sn,
                 goal_delta_count = sn_goal_delta_count sn,
                 model_extension_goal_delta = sn_goal_delta_count sn,
                 tool_extension_goal_delta = sn_goal_delta_count sn,
                 agent_turn_extension_goal_delta = sn_goal_delta_count sn,
                 model_call_limit = max (min (initial_model_calls b) (max_model_calls b)) 1,
                 tool_call_limit = max (min (initial_tool_calls b) (max_tool_calls b)) 1,
                 agent_turn_limit = max (min (initial_agent_turns b) (max_agent_turns b)) 1,
                 budget_extensions = sn_budget_extensions sn,
                 stop_reason = None, active_model_calls = 0, active_tool_calls = 0,
                 telemetry = telemetry_default,
                 pending_steers = sn_pending_steers sn,
                 applied_steer_epoch = sn_applied_steer_epoch sn, phase = Executing,
                 stage_usage = Map.empty,
                 results = frontier_restore (sn_best_known_result sn) (sn_result_frontier sn),
                 resources = start_new_segment sha256 l\<rparr>\<rparr>, p2))"

section \<open>Construction\<close>

definition with_budget_at_steer_epoch ::
  "instant \<Rightarrow> RunBudget \<Rightarrow> u64 \<Rightarrow> process \<Rightarrow> AgentRunControl \<times> process"
where
  "with_budget_at_steer_epoch now b applied_epoch p =
     (let (a, p1) = alloc_flag p; (l, p2) = ledger_new p1
      in (\<lparr>budget = b, user_cancelled = a, parent_cancelled = None,
           model_calls = 0, tool_calls = 0, agent_turns = 0, repair_attempts = 0,
           steer_epoch = applied_epoch,
           ctl_state =
            \<lparr>started_at = now, last_progress_at = now, stage = lit ''starting'', detail = [],
             partial_output = [], action_history = Map.empty, recent_actions = Map.empty,
             continuation_actions = Map.empty, observation_fingerprints = {},
             observation_count = 0, checkpoint_fingerprints = {}, checkpoint_count = 0,
             goal_delta_fingerprints = {}, goal_delta_count = 0,
             model_extension_goal_delta = 0, tool_extension_goal_delta = 0,
             agent_turn_extension_goal_delta = 0,
             model_call_limit = max (min (initial_model_calls b) (max_model_calls b)) 1,
             tool_call_limit = max (min (initial_tool_calls b) (max_tool_calls b)) 1,
             agent_turn_limit = max (min (initial_agent_turns b) (max_agent_turns b)) 1,
             budget_extensions = 0, stop_reason = None, active_model_calls = 0,
             active_tool_calls = 0, telemetry = telemetry_default, pending_steers = [],
             applied_steer_epoch = applied_epoch, phase = Executing, stage_usage = Map.empty,
             results = frontier_default, resources = l\<rparr>\<rparr>, p2))"

definition control_with_budget :: "instant \<Rightarrow> RunBudget \<Rightarrow> process \<Rightarrow> AgentRunControl \<times> process" where
  "control_with_budget now b p = with_budget_at_steer_epoch now b 0 p"

definition control_new_at_steer_epoch ::
  "instant \<Rightarrow> ustring \<Rightarrow> u64 \<Rightarrow> process \<Rightarrow> AgentRunControl \<times> process"
where
  "control_new_at_steer_epoch now effort e p = with_budget_at_steer_epoch now (for_effort effort) e p"

definition control_new :: "instant \<Rightarrow> ustring \<Rightarrow> process \<Rightarrow> AgentRunControl \<times> process" where
  "control_new now effort p = control_new_at_steer_epoch now effort 0 p"

text \<open>The ledger of the fresh control is dropped in favour of the persisted one; its id stays
  consumed.\<close>

definition control_new_at_steer_epoch_with_resource_snapshot ::
  "(nat list \<Rightarrow> nat list) \<Rightarrow> instant \<Rightarrow> ustring \<Rightarrow> u64 \<Rightarrow> RunResourceSnapshot \<Rightarrow> process
     \<Rightarrow> AgentRunControl \<times> process"
where
  "control_new_at_steer_epoch_with_resource_snapshot sha256 now effort e rs p =
     (let (c, p1) = with_budget_at_steer_epoch now (for_effort effort) e p;
          (l, p2) = ledger_from_persisted_snapshot sha256 rs p1
      in (upd (\<lambda>s. s\<lparr>resources := l\<rparr>) c, p2))"

definition control_new_for_continuation_at_steer_epoch_with_resource_snapshot ::
  "(nat list \<Rightarrow> nat list) \<Rightarrow> instant \<Rightarrow> ustring \<Rightarrow> u64 \<Rightarrow> RunResourceSnapshot \<Rightarrow> process
     \<Rightarrow> AgentRunControl \<times> process"
where
  "control_new_for_continuation_at_steer_epoch_with_resource_snapshot sha256 now effort e rs p =
     (let (c, p1) = with_budget_at_steer_epoch now (for_effort effort) e p;
          (l, p2) = ledger_from_persisted_snapshot sha256 rs p1
      in (upd (\<lambda>s. s\<lparr>resources := start_new_segment sha256 l\<rparr>) c, p2))"

section \<open>Progress reports\<close>

record RunProgressSnapshot =
  pg_stage :: ustring
  pg_detail :: ustring
  pg_elapsed :: duration
  pg_remaining :: duration
  pg_model_calls :: usize
  pg_tool_calls :: usize
  pg_agent_turns :: usize
  pg_repair_attempts :: usize
  pg_model_call_limit :: usize
  pg_tool_call_limit :: usize
  pg_agent_turn_limit :: usize
  pg_observations :: usize
  pg_checkpoints :: usize
  pg_budget_extensions :: usize
  pg_stage_usage :: "RunStageClass \<rightharpoonup> RunStageUsageSnapshot"
  pg_best_known_result :: "BestKnownResult option"
  pg_resources :: RunResourceSnapshot
  pg_telemetry :: RunTelemetryCountersSnapshot

definition control_progress ::
  "instant \<Rightarrow> (RunStageClass \<Rightarrow> instant) \<Rightarrow> AgentRunControl \<Rightarrow> RunProgressSnapshot"
where
  "control_progress now at c =
     (let s = ctl_state c; elapsed = min (now - started_at s) (max_duration (budget c)) in
      \<lparr>pg_stage = stage s, pg_detail = detail s, pg_elapsed = elapsed,
       pg_remaining = max_duration (budget c) - elapsed,
       pg_model_calls = model_calls c, pg_tool_calls = tool_calls c,
       pg_agent_turns = agent_turns c, pg_repair_attempts = repair_attempts c,
       pg_model_call_limit = model_call_limit s, pg_tool_call_limit = tool_call_limit s,
       pg_agent_turn_limit = agent_turn_limit s, pg_observations = observation_count s,
       pg_checkpoints = checkpoint_count s, pg_budget_extensions = budget_extensions s,
       pg_stage_usage = snapshot_stage_usage at (stage_usage s),
       pg_best_known_result = rf_best_known (results s),
       pg_resources = ledger_snapshot (resources s),
       pg_telemetry = telemetry_snapshot (telemetry s)\<rparr>)"

section \<open>Goal deltas\<close>

datatype AgentGoalDeltaKind =
  ObligationSatisfied | GroundingAcquired | WorkspaceVerified | InteractionVerified

fun kind_label :: "AgentGoalDeltaKind \<Rightarrow> ustring" where
  "kind_label ObligationSatisfied = lit ''obligation_satisfied''"
| "kind_label GroundingAcquired = lit ''grounding_acquired''"
| "kind_label WorkspaceVerified = lit ''workspace_verified''"
| "kind_label InteractionVerified = lit ''interaction_verified''"

record AgentGoalDelta =
  gd_schema :: ustring
  gd_kinds :: "AgentGoalDeltaKind list"
  gd_receipt_ids :: "u64 list"
  gd_fingerprint :: ustring

definition kind_labels :: "AgentGoalDelta \<Rightarrow> ustring" where
  "kind_labels d = join_strs (lit '','') (map kind_label (gd_kinds d))"

definition goal_delta_blocked :: "process \<Rightarrow> u64 \<Rightarrow> AgentRunControl \<Rightarrow> bool" where
  "goal_delta_blocked p e c \<longleftrightarrow>
     phase (ctl_state c) = TerminalCommitted \<or> stop_reason (ctl_state c) \<noteq> None
     \<or> cancellation_requested p c \<or> pending_steers (ctl_state c) \<noteq> []
     \<or> applied_steer_epoch (ctl_state c) \<noteq> e \<or> steer_epoch c \<noteq> e"

definition record_goal_delta_locked ::
  "hasher \<Rightarrow> process \<Rightarrow> instant \<Rightarrow> u64 \<Rightarrow> AgentGoalDelta \<Rightarrow> AgentRunControl \<Rightarrow> bool \<times> AgentRunControl"
where
  "record_goal_delta_locked fp p now e d c =
     (if goal_delta_blocked p e c then (False, c)
      else
        let receipts = map (\<lambda>r. fp (HashStrU64 (lit ''goal_delta_receipt'') r)) (gd_receipt_ids d) in
        if list_all (\<lambda>r. r \<in> goal_delta_fingerprints (ctl_state c)) receipts then (False, c)
        else
          let evidence = fp (HashStrs (lit ''goal_delta'') (gd_fingerprint d)) in
          (True, upd (\<lambda>s.
             let s1 = s\<lparr>goal_delta_fingerprints := goal_delta_fingerprints s \<union> set receipts,
                        goal_delta_count := sat_add (goal_delta_count s) 1\<rparr>;
                 s2 = (if evidence \<in> checkpoint_fingerprints s1 then s1
                       else s1\<lparr>checkpoint_fingerprints := insert evidence (checkpoint_fingerprints s1),
                               checkpoint_count := sat_add (checkpoint_count s1) 1\<rparr>)
             in note_progress (lit ''goal_delta'') (kind_labels d) now s2) c))"

definition record_goal_delta_at ::
  "hasher \<Rightarrow> process \<Rightarrow> instant \<Rightarrow> u64 \<Rightarrow> AgentGoalDelta \<Rightarrow> AgentRunControl \<Rightarrow> bool \<times> AgentRunControl"
where
  "record_goal_delta_at fp p now e d c = record_goal_delta_locked fp p now e d c"

text \<open>\<open>deltas.iter().filter(|d| record(d)).count()\<close>, with one clock reading per delta.\<close>

fun count_goal_deltas ::
  "hasher \<Rightarrow> process \<Rightarrow> clock \<Rightarrow> u64 \<Rightarrow> AgentGoalDelta list \<Rightarrow> AgentRunControl \<Rightarrow> nat \<times> AgentRunControl"
where
  "count_goal_deltas fp p clk e [] c = (0, c)"
| "count_goal_deltas fp p clk e (d # ds) c =
     (case record_goal_delta_locked fp p (clk 0) e d c of (ok, c1) \<Rightarrow>
      case count_goal_deltas fp p (clock_from 1 clk) e ds c1 of (n, c2) \<Rightarrow>
        ((if ok then Suc n else n), c2))"

text \<open>The clocks: \<open>t0\<close> for the snapshot and the staged control, \<open>t1\<close> for the staged
  credit, \<open>t2\<close> for the staged snapshot and \<open>t3\<close> for the live credit.\<close>

definition staged_goal_deltas ::
  "hasher \<Rightarrow> (nat list \<Rightarrow> nat list) \<Rightarrow> clock \<Rightarrow> clock \<Rightarrow> clock \<Rightarrow> (RunStageClass \<Rightarrow> instant) \<Rightarrow> u64
     \<Rightarrow> AgentGoalDelta list \<Rightarrow> AgentRunControl \<Rightarrow> process \<Rightarrow> nat \<times> RunControlSnapshot \<times> process"
where
  "staged_goal_deltas fp sha256 t0 t1 t2 at e ds c p =
     (let (staged, p1) = control_from_snapshot sha256 (t0 1) (snapshot_locked (t0 0) at c) p;
          (n, staged') = count_goal_deltas fp p1 t1 e ds staged
      in (n, snapshot_locked (t2 0) at staged', p1))"

definition commit_goal_deltas_at_with ::
  "hasher \<Rightarrow> (nat list \<Rightarrow> nat list) \<Rightarrow> clock \<Rightarrow> clock \<Rightarrow> clock \<Rightarrow> clock \<Rightarrow> (RunStageClass \<Rightarrow> instant) \<Rightarrow> u64
     \<Rightarrow> AgentGoalDelta list \<Rightarrow> (RunControlSnapshot \<Rightarrow> ('w, 'e, 't) closure) \<Rightarrow> AgentRunControl \<Rightarrow> process \<Rightarrow> 'w
     \<Rightarrow> ('e + 't \<times> nat) \<times> AgentRunControl \<times> process \<times> 'w"
where
  "commit_goal_deltas_at_with fp sha256 t0 t1 t2 t3 at e ds commit c p w =
     (case staged_goal_deltas fp sha256 t0 t1 t2 at e ds c p of (n, sn, p1) \<Rightarrow>
      case commit sn w of
        (Inl err, w') \<Rightarrow> (Inl err, c, p1, w')
      | (Inr v, w') \<Rightarrow>
          (case count_goal_deltas fp p1 t3 e ds c of (m, c') \<Rightarrow> (Inr (v, m), c', p1, w')))"

section \<open>Isolated treatments\<close>

text \<open>The treatment's budget, or the refusal. \<open>allocation_divisor as u64\<close> is the identity.\<close>

definition treatment_budget :: "instant \<Rightarrow> usize \<Rightarrow> AgentRunControl \<Rightarrow> RunBudget option" where
  "treatment_budget now divisor c =
     (let n = max divisor 1; b = budget c; s = ctl_state c;
          seg = lg_segment (resources s);
          remaining_duration = max_duration b - (now - started_at s);
          remaining_model_calls = max_model_calls b - model_calls c;
          remaining_tool_calls = max_tool_calls b - tool_calls c;
          remaining_agent_turns = max_agent_turns b - agent_turns c;
          unlocked_model_calls = min (model_call_limit s - model_calls c) remaining_model_calls;
          unlocked_tool_calls = min (tool_call_limit s - tool_calls c) remaining_tool_calls;
          unlocked_agent_turns = min (agent_turn_limit s - agent_turns c) remaining_agent_turns;
          remaining_repairs = max_repair_attempts b - repair_attempts c;
          remaining_tokens = max_total_tokens b - committed_tokens seg;
          remaining_physical = max_physical_model_attempts b - ru_physical_attempts seg
      in if remaining_duration = 0 \<or> remaining_model_calls = 0 \<or> remaining_tool_calls = 0
            \<or> remaining_agent_turns = 0 \<or> remaining_repairs = 0 \<or> remaining_tokens = 0
            \<or> remaining_physical = 0
         then None
         else if remaining_model_calls div n = 0 \<or> remaining_tool_calls div n = 0
            \<or> remaining_agent_turns div n = 0 \<or> unlocked_model_calls div n = 0
            \<or> unlocked_tool_calls div n = 0 \<or> unlocked_agent_turns div n = 0
            \<or> remaining_repairs div n = 0 \<or> remaining_tokens div n = 0
            \<or> remaining_physical div n = 0
         then None
         else Some (b\<lparr>max_duration := remaining_duration,
            initial_model_calls := unlocked_model_calls div n,
            max_model_calls := remaining_model_calls div n,
            model_calls_per_extension := max (model_calls_per_extension b div n) 1,
            initial_tool_calls := unlocked_tool_calls div n,
            max_tool_calls := remaining_tool_calls div n,
            tool_calls_per_extension := max (tool_calls_per_extension b div n) 1,
            initial_agent_turns := unlocked_agent_turns div n,
            max_agent_turns := remaining_agent_turns div n,
            agent_turns_per_extension := max (agent_turns_per_extension b div n) 1,
            max_repair_attempts := remaining_repairs div n,
            terminal_model_call_reserve :=
              min (terminal_model_call_reserve b div n) (remaining_model_calls div n - 1),
            max_total_tokens := remaining_tokens div n,
            max_physical_model_attempts := remaining_physical div n,
            terminal_token_reserve :=
              min (terminal_token_reserve b div n) (remaining_tokens div n - 1),
            terminal_physical_model_attempt_reserve :=
              min (terminal_physical_model_attempt_reserve b div n) (remaining_physical div n - 1)\<rparr>))"

definition isolated_treatment ::
  "clock \<Rightarrow> usize \<Rightarrow> AgentRunControl \<Rightarrow> process
     \<Rightarrow> (RunStopReason + AgentRunControl) \<times> AgentRunControl \<times> process"
where
  "isolated_treatment clk divisor c p =
     (case refresh_stop_reason p (clk 0) c of
        (Some r, c') \<Rightarrow> (Inl r, c', p)
      | (None, c') \<Rightarrow>
          (case treatment_budget (clk 0) divisor c' of
             None \<Rightarrow> (Inl StageBudgetExhausted, c', p)
           | Some b \<Rightarrow>
               (case with_budget_at_steer_epoch (clk 1) b (steer_epoch c') p of (child, p') \<Rightarrow>
                  (Inr (child\<lparr>parent_cancelled := Some (user_cancelled c')\<rparr>), c', p'))))"

text \<open>\<open>limit.saturating_sub(initial.min(max).max(1))\<close>.\<close>

definition acquired_extension :: "usize \<Rightarrow> usize \<Rightarrow> usize \<Rightarrow> usize" where
  "acquired_extension limit initial mx = limit - max (min initial mx) 1"

text \<open>The loop over the treatments: the three extension sums, or the refusal of a control that
  is not a treatment of this one.\<close>

fun absorb_loop ::
  "(nat list \<Rightarrow> nat list) \<Rightarrow> AgentRunControl list \<Rightarrow> usize \<times> usize \<times> usize \<Rightarrow> AgentRunControl \<Rightarrow> process
     \<Rightarrow> (usize \<times> usize \<times> usize) option \<times> AgentRunControl \<times> process"
where
  "absorb_loop sha256 [] ext c p = (Some ext, c, p)"
| "absorb_loop sha256 (t # ts) ext c p =
     (if parent_cancelled t \<noteq> Some (user_cancelled c)
      then (None, upd (or_stop ProviderUnavailable) c, p)
      else
        let (mx, tx, ax) = ext; ts' = ctl_state t; tb = budget t;
            ext' = (sat_add mx (acquired_extension (model_call_limit ts') (initial_model_calls tb) (max_model_calls tb)),
                    sat_add tx (acquired_extension (tool_call_limit ts') (initial_tool_calls tb) (max_tool_calls tb)),
                    sat_add ax (acquired_extension (agent_turn_limit ts') (initial_agent_turns tb) (max_agent_turns tb)));
            (l, p') = absorb_completed_segment sha256 (ledger_snapshot (resources ts')) (resources (ctl_state c)) p;
            c' = upd (\<lambda>s. s\<lparr>budget_extensions := sat_add (budget_extensions s) (budget_extensions ts'),
                           resources := l,
                           telemetry := telemetry_absorb (telemetry_snapshot (telemetry ts')) (telemetry s)\<rparr>)
                   (c\<lparr>model_calls := wrap_add (model_calls c) (model_calls t),
                      tool_calls := wrap_add (tool_calls c) (tool_calls t),
                      agent_turns := wrap_add (agent_turns c) (agent_turns t),
                      repair_attempts := wrap_add (repair_attempts c) (repair_attempts t)\<rparr>)
        in absorb_loop sha256 ts ext' c' p')"

definition treatments_exceed :: "AgentRunControl \<Rightarrow> bool" where
  "treatments_exceed c =
     (let b = budget c; seg = lg_segment (resources (ctl_state c)) in
      model_calls c > max_model_calls b \<or> tool_calls c > max_tool_calls b
      \<or> agent_turns c > max_agent_turns b \<or> repair_attempts c > max_repair_attempts b
      \<or> ru_physical_attempts seg > max_physical_model_attempts b
      \<or> committed_tokens seg > max_total_tokens b)"

definition absorb_isolated_treatments ::
  "(nat list \<Rightarrow> nat list) \<Rightarrow> instant \<Rightarrow> AgentRunControl list \<Rightarrow> AgentRunControl \<Rightarrow> process
     \<Rightarrow> (RunStopReason + unit) \<times> AgentRunControl \<times> process"
where
  "absorb_isolated_treatments sha256 now treatments c p =
     (case absorb_loop sha256 treatments (0, 0, 0) c p of
        (None, c', p') \<Rightarrow> (Inl ProviderUnavailable, c', p')
      | (Some (mx, tx, ax), c', p') \<Rightarrow>
          let b = budget c';
              c1 = upd (\<lambda>s. s\<lparr>
                model_call_limit :=
                  min (max (sat_add (model_call_limit s) mx) (model_calls c')) (max_model_calls b),
                tool_call_limit :=
                  min (max (sat_add (tool_call_limit s) tx) (tool_calls c')) (max_tool_calls b),
                agent_turn_limit :=
                  min (max (sat_add (agent_turn_limit s) ax) (agent_turns c')) (max_agent_turns b),
                last_progress_at := now\<rparr>) c'
          in if treatments_exceed c1
             then (Inl ModelResourceBudgetExceeded, upd (or_stop ModelResourceBudgetExceeded) c1, p')
             else (Inr (), c1, p'))"

end
