(* ===== verification/Ledger_Laws.thy ===== *)
theory Ledger_Laws
  imports Resource_Ledger
begin

text \<open>
  Laws of the resource ledger: model keys stay within their byte bound, the model maps stay
  within the persistence bound, the reserved tokens are exactly the sum of the pending
  reservations, reservations respect the budget and the protected reserves, and settling or
  restoring never loses committed tokens.
\<close>

section \<open>Model keys\<close>

text \<open>What the code relies on of SHA-256: 32 bytes.\<close>

definition sha256_ok :: "(nat list \<Rightarrow> nat list) \<Rightarrow> bool" where
  "sha256_ok sha256 \<longleftrightarrow> (\<forall>bs. length (sha256 bs) = 32 \<and> (\<forall>b \<in> set (sha256 bs). b < 256))"

lemma str_len_hex_byte: "b < 256 \<Longrightarrow> str_len (hex_byte b) = 2"
  by (auto simp: hex_byte_def hex_digit_def len_utf8_def utf8_char_def)

lemma str_len_hex_bytes:
  "\<forall>b \<in> set bs. b < 256 \<Longrightarrow> str_len (concat (map hex_byte bs)) = 2 * length bs"
  by (induction bs) (simp_all add: str_len_hex_byte)

lemma str_len_take_prefix_bytes:
  "used \<le> limit \<Longrightarrow> limit < u64_max \<Longrightarrow> used + str_len (take_prefix_bytes limit used s) \<le> limit"
proof (induction limit used s rule: take_prefix_bytes.induct)
  case (2 limit used c cs)
  then show ?case by (auto simp: sat_add_def not_less add.assoc)
qed simp

lemma str_len_hash [simp]: "str_len (lit ''#'') = 1"
  by (simp add: lit_def str_len_def as_bytes_def utf8_char_def)

lemma str_len_UNKNOWN: "str_len UNKNOWN_MODEL_KEY = 17"
  by (simp add: UNKNOWN_MODEL_KEY_def lit_def str_len_def as_bytes_def utf8_char_def)

lemma str_len_OTHER: "str_len OTHER_MODELS_KEY = 16"
  by (simp add: OTHER_MODELS_KEY_def lit_def str_len_def as_bytes_def utf8_char_def)

lemma bounded_model_identifier_len:
  assumes "sha256_ok sha256"
  shows "str_len (bounded_model_identifier sha256 raw) \<le> MAX_RESOURCE_MODEL_KEY_BYTES"
proof -
  have suffix: "str_len (concat (map hex_byte (take 8 (sha256 bs)))) = 16" for bs
    using assms str_len_hex_bytes [of "take 8 (sha256 bs)"]
    by (auto simp: sha256_ok_def dest: in_set_takeD)
  have prefix: "str_len (take_prefix_bytes 111 0 s) \<le> 111" for s
    using str_len_take_prefix_bytes [of 0 111 s] by (simp add: u64_max_def)
  show ?thesis
    using prefix [of "trim raw"]
    by (simp add: bounded_model_identifier_def Let_def MAX_RESOURCE_MODEL_KEY_BYTES_def suffix
        str_len_UNKNOWN)
qed

lemma hex_digit_not_whitespace: "\<not> is_whitespace (hex_digit (n mod 16))"
  using mod_less_divisor [of 16 n] by (auto simp: hex_digit_def is_whitespace_def)

lemma last_hex_bytes: "bs \<noteq> [] \<Longrightarrow> \<not> is_whitespace (last (concat (map hex_byte bs)))"
  by (induction bs) (auto simp: hex_byte_def hex_digit_not_whitespace)

text \<open>A bounded identifier is its own bounded identifier.\<close>

lemma bounded_model_identifier_idem:
  assumes "sha256_ok sha256"
  shows "bounded_model_identifier sha256 (bounded_model_identifier sha256 raw) =
    bounded_model_identifier sha256 raw"
proof -
  define k where "k = bounded_model_identifier sha256 raw"
  have "k \<noteq> [] \<and> trim k = k"
  proof (cases "trim raw = [] \<or> str_len (trim raw) \<le> MAX_RESOURCE_MODEL_KEY_BYTES")
    case True
    then show ?thesis
      by (auto simp: k_def bounded_model_identifier_def Let_def UNKNOWN_MODEL_KEY_def lit_def
          intro!: trim_id) (simp_all add: is_whitespace_def)
  next
    case False
    let ?m = "trim raw"
    let ?suffix = "concat (map hex_byte (take 8 (sha256 (as_bytes ?m))))"
    let ?prefix = "take_prefix_bytes (MAX_RESOURCE_MODEL_KEY_BYTES - (str_len ?suffix + 1)) 0 ?m"
    have k: "k = ?prefix @ lit ''#'' @ ?suffix"
      using False by (simp add: k_def bounded_model_identifier_def Let_def)
    have "take 8 (sha256 (as_bytes ?m)) \<noteq> []"
      using assms unfolding sha256_ok_def by (metis length_0_conv take_eq_Nil zero_neq_numeral)
    then have suffix: "?suffix \<noteq> []" and last: "\<not> is_whitespace (last ?suffix)"
      using last_hex_bytes by (auto simp: hex_byte_def)
    have "hd ?prefix = hd ?m" if "?prefix \<noteq> []"
      using that by (cases ?m) (auto split: if_splits)
    then have "\<not> is_whitespace (hd k)"
      using False hd_trim [of raw] by (cases "?prefix = []") (auto simp: k lit_def is_whitespace_def)
    moreover have "last k = last ?suffix" using suffix unfolding k by simp
    moreover have "k \<noteq> []" by (simp add: k lit_def)
    ultimately show ?thesis using last by (simp add: trim_id)
  qed
  moreover have "str_len k \<le> MAX_RESOURCE_MODEL_KEY_BYTES"
    unfolding k_def by (rule bounded_model_identifier_len [OF assms])
  ultimately show ?thesis
    unfolding k_def [symmetric] by (simp add: bounded_model_identifier_def [of sha256 k])
qed

lemma bounded_model_identifier_OTHER [simp]:
  "bounded_model_identifier sha256 OTHER_MODELS_KEY = OTHER_MODELS_KEY"
proof -
  have "trim OTHER_MODELS_KEY = OTHER_MODELS_KEY" "OTHER_MODELS_KEY \<noteq> []"
    by (auto simp: OTHER_MODELS_KEY_def lit_def is_whitespace_def intro!: trim_id)
  then show ?thesis
    by (simp add: bounded_model_identifier_def str_len_OTHER MAX_RESOURCE_MODEL_KEY_BYTES_def)
qed

lemma bounded_model_key_fixpoint:
  assumes "sha256_ok sha256"
  shows "bounded_model_identifier sha256 (bounded_model_key sha256 m raw) = bounded_model_key sha256 m raw"
  by (simp add: bounded_model_key_def Let_def bounded_model_identifier_idem [OF assms])

lemma bounded_model_key_present:
  "bounded_model_identifier sha256 k = k \<Longrightarrow> bt_contains_key m k \<Longrightarrow> bounded_model_key sha256 m k = k"
  by (simp add: bounded_model_key_def)

lemma bounded_model_key_len:
  assumes "sha256_ok sha256"
  shows "str_len (bounded_model_key sha256 m raw) \<le> MAX_RESOURCE_MODEL_KEY_BYTES"
  using bounded_model_identifier_len [OF assms, of raw]
  by (simp add: bounded_model_key_def Let_def str_len_OTHER MAX_RESOURCE_MODEL_KEY_BYTES_def)

section \<open>The model maps\<close>

definition models_wf :: "(ustring, ModelResourceUsage) btree \<Rightarrow> bool" where
  "models_wf m \<longleftrightarrow> bt_wf m \<and> length m \<le> MAX_RESOURCE_LEDGER_MODELS \<and>
     (bt_get m OTHER_MODELS_KEY = None \<longrightarrow> length m < MAX_RESOURCE_LEDGER_MODELS)"

lemma models_wf_Nil [simp]: "models_wf []"
  by (simp add: models_wf_def MAX_RESOURCE_LEDGER_MODELS_def)

lemma bt_wf_update_or [simp]: "bt_wf m \<Longrightarrow> bt_wf (bt_update_or d k f m)"
  by (simp add: bt_update_or_def bt.wf_put)

lemma keys_update_or [simp]: "fst ` set (bt_update_or d k f m) = insert k (fst ` set m)"
  by (simp add: bt_update_or_def)

lemma models_wf_update_or:
  assumes wf: "models_wf m"
    and k: "bt_contains_key m k \<or> k = OTHER_MODELS_KEY \<or> length m < MAX_RESOURCE_LEDGER_MODELS - 1"
  shows "models_wf (bt_update_or d k f m)"
proof (cases "bt_get m k")
  case (Some v)
  with wf show ?thesis
    by (simp add: models_wf_def bt_update_or_def bt.wf_put bt.get_put bt.len_put_present)
next
  case None
  with wf k show ?thesis
    by (auto simp: models_wf_def bt_update_or_def bt.wf_put bt.get_put bt.len_put_absent
        bt_contains_key_def)
qed

text \<open>The key the code chooses is one the map can take.\<close>

lemma bounded_model_key_admissible:
  "bt_contains_key m (bounded_model_key sha256 m raw) \<or>
   bounded_model_key sha256 m raw = OTHER_MODELS_KEY \<or> length m < MAX_RESOURCE_LEDGER_MODELS - 1"
  by (auto simp: bounded_model_key_def Let_def)

lemma models_wf_settle: "models_wf (ru_models u) \<Longrightarrow> models_wf (ru_models (settle_usage sha256 m r s u))"
  unfolding settle_usage_def Let_def
  by (simp add: models_wf_update_or [OF _ bounded_model_key_admissible] del: One_nat_def)

definition bounding_wf :: "bounding \<Rightarrow> bool" where
  "bounding_wf acc \<longleftrightarrow> bt_wf (fst acc) \<and> length (fst acc) \<le> MAX_RESOURCE_LEDGER_MODELS - 1 \<and>
     bt_get (fst acc) OTHER_MODELS_KEY = None"

lemma bound_model_wf: "bounding_wf acc \<Longrightarrow> bounding_wf (bound_model sha256 e acc)"
  by (auto simp: bounding_wf_def bound_model_def Let_def bt.wf_put bt.get_put bt.len_put_present
      bt.len_put_absent split: prod.splits option.splits)

lemma fold_bound_model_wf: "bounding_wf acc \<Longrightarrow> bounding_wf (fold (bound_model sha256) es acc)"
  by (induction es arbitrary: acc) (simp_all add: bound_model_wf)

lemma models_wf_bounded_usage: "models_wf (ru_models (bounded_usage sha256 u))"
proof -
  obtain bounded overflow used where
    acc: "fold (bound_model sha256) (ru_models u) ([], model_usage_default, False) = (bounded, overflow, used)"
    by (metis prod_cases3)
  have "bounding_wf ([], model_usage_default, False)" by (simp add: bounding_wf_def)
  then have "bounding_wf (bounded, overflow, used)"
    using fold_bound_model_wf acc by metis
  then show ?thesis
    using bt.len_put_le [of bounded OTHER_MODELS_KEY overflow]
    by (auto simp: bounded_usage_def acc models_wf_def bounding_wf_def bt.wf_put bt.get_put
        MAX_RESOURCE_LEDGER_MODELS_def)
qed

lemma models_wf_merge: "models_wf (ru_models (merge_run_usage sha256 t s))"
  by (simp add: merge_run_usage_def models_wf_bounded_usage)

section \<open>Pending reservations\<close>

definition pending_sum :: "(u64, PendingModelAttempt) btree \<Rightarrow> nat" where
  "pending_sum m = sum_list (map (\<lambda>e. pm_reserved_tokens (snd e)) m)"

lemma pending_sum_Nil [simp]: "pending_sum [] = 0"
  by (simp add: pending_sum_def)

lemma pending_sum_insert_absent:
  "bt_wf m \<Longrightarrow> bt_get m k = None \<Longrightarrow>
   pending_sum (bt_insert k a m) = pending_sum m + pm_reserved_tokens a"
  by (induction k a m rule: bt_insert.induct)
    (auto simp: pending_sum_def bt_wf_Cons bt_get_Cons split: if_splits)

lemma pending_sum_remove:
  "bt_wf m \<Longrightarrow> bt_get m k = Some a \<Longrightarrow>
   pending_sum m = pending_sum (bt_remove k m) + pm_reserved_tokens a"
proof (induction m)
  case (Cons e m)
  show ?case
  proof (cases "k = fst e")
    case True
    with Cons.prems have "bt_remove k m = m"
      by (force simp: bt_remove_def bt_wf_Cons filter_id_conv)
    with True Cons.prems show ?thesis
      by (auto simp: pending_sum_def bt_remove_def bt_get_Cons)
  next
    case False
    with Cons show ?thesis
      by (auto simp: pending_sum_def bt_remove_def bt_get_Cons bt_wf_Cons)
  qed
qed simp

definition ledger_wf :: "(nat list \<Rightarrow> nat list) \<Rightarrow> RunResourceLedger \<Rightarrow> bool" where
  "ledger_wf sha256 l \<longleftrightarrow>
     bt_wf (lg_pending_attempts l) \<and>
     length (lg_pending_attempts l) \<le> MAX_PENDING_RESOURCE_ATTEMPTS \<and>
     ru_reserved_tokens (lg_segment l) = pending_sum (lg_pending_attempts l) \<and>
     ru_reserved_tokens (lg_lineage l) = pending_sum (lg_pending_attempts l) \<and>
     models_wf (ru_models (lg_segment l)) \<and> models_wf (ru_models (lg_lineage l)) \<and>
     fst ` set (ru_models (lg_segment l)) \<subseteq> fst ` set (ru_models (lg_lineage l)) \<and>
     (\<forall>a \<in> snd ` set (lg_pending_attempts l).
        pm_model a \<in> fst ` set (ru_models (lg_segment l)) \<and>
        bounded_model_identifier sha256 (pm_model a) = pm_model a)"

lemma ledger_wf_pending:
  assumes "ledger_wf sha256 l" "a \<in> snd ` set (lg_pending_attempts l)"
  shows "pm_model a \<in> fst ` set (ru_models (lg_segment l))"
    and "bounded_model_identifier sha256 (pm_model a) = pm_model a"
  using assms unfolding ledger_wf_def by blast+

lemma ledger_wf_new: "ledger_wf sha256 (fst (ledger_new p))"
  by (simp add: ledger_wf_def ledger_new_def run_usage_default_def split: prod.split)

lemma bump_sel [simp]:
  "lg_segment (bump_mutation_revision l) = lg_segment l"
  "lg_lineage (bump_mutation_revision l) = lg_lineage l"
  "lg_pending_attempts (bump_mutation_revision l) = lg_pending_attempts l"
  "lg_ledger_id (bump_mutation_revision l) = lg_ledger_id l"
  "lg_next_attempt_id (bump_mutation_revision l) = lg_next_attempt_id l"
  by (simp_all add: bump_mutation_revision_def)

lemma ledger_wf_bump [simp]: "ledger_wf sha256 (bump_mutation_revision l) = ledger_wf sha256 l"
  by (simp add: ledger_wf_def)

section \<open>Reserving\<close>

text \<open>What an admitted reservation is known to leave over.\<close>

lemma admission_bounds:
  assumes "admission_error b c r l = None"
    and "max_total_tokens b < u64_max" "max_physical_model_attempts b < u64_max"
  shows "ru_total_tokens (lg_segment l) + ru_reserved_tokens (lg_segment l) + r
      \<le> max_total_tokens b - protected_token_reserve b c"
    and "ru_physical_attempts (lg_segment l) + 1
      \<le> max_physical_model_attempts b - protected_physical_model_attempt_reserve b c"
    and "length (lg_pending_attempts l) < MAX_PENDING_RESOURCE_ATTEMPTS"
    and "bt_get (lg_pending_attempts l) (lg_next_attempt_id l) = None"
  using assms
  by (auto simp: admission_error_def Let_def committed_tokens_def sat_add_def min_def
      bt_contains_key_def split: if_splits)

lemma reserve_Inr:
  assumes "ledger_reserve sha256 b c raw p q l = (Inr a, l')"
  defines "r \<equiv> sat_add p q" and "k \<equiv> bounded_model_key sha256 (ru_models (lg_lineage l)) raw"
  shows "admission_error b c r l = None"
    and "a = \<lparr>pa_ledger_id = lg_ledger_id l, pa_attempt_id = lg_next_attempt_id l, pa_model = k,
           pa_reserved_tokens = r\<rparr>"
    and "l' = bump_mutation_revision
         (l\<lparr>lg_next_attempt_id := sat_add (lg_next_attempt_id l) 1,
            lg_pending_attempts := bt_insert (lg_next_attempt_id l)
              \<lparr>pm_model = k, pm_reserved_tokens = r\<rparr> (lg_pending_attempts l),
            lg_segment := reserve_usage k r (lg_segment l),
            lg_lineage := reserve_usage k r (lg_lineage l)\<rparr>)"
  using assms by (auto simp: ledger_reserve_def Let_def split: option.splits)

lemma reserve_Inl:
  "ledger_reserve sha256 b c raw p q l = (Inl e, l') \<Longrightarrow>
   l' = l \<and> admission_error b c (sat_add p q) l = Some e"
  by (auto simp: ledger_reserve_def Let_def split: option.splits)

lemma length_update_or_le: "bt_wf m \<Longrightarrow> length (bt_update_or d k f m) \<le> Suc (length m)"
  by (simp add: bt_update_or_def bt.len_put_le)

lemma length_keys: "bt_wf m \<Longrightarrow> length m = card (fst ` set m)"
  by (simp add: bt_len_card dom_bt_get)

text \<open>A map whose keys are among those of a bounded map is bounded.\<close>

lemma models_wf_subset:
  assumes "models_wf n" "bt_wf m" "fst ` set m \<subseteq> fst ` set n"
  shows "models_wf m"
proof -
  have le: "length m \<le> length n"
    using assms by (simp add: models_wf_def length_keys card_mono)
  show ?thesis
  proof (cases "bt_get n OTHER_MODELS_KEY")
    case None
    then show ?thesis using assms le by (auto simp: models_wf_def)
  next
    case (Some v)
    then have other: "OTHER_MODELS_KEY \<in> fst ` set n" by (metis bt_get_None_iff option.distinct(1))
    have "length m < length n" if "OTHER_MODELS_KEY \<notin> fst ` set m"
    proof -
      from that other assms(3) have "fst ` set m \<subset> fst ` set n" by blast
      then have "card (fst ` set m) < card (fst ` set n)" by (rule psubset_card_mono [rotated]) simp
      then show ?thesis using assms(1,2) by (simp add: models_wf_def length_keys)
    qed
    then show ?thesis using assms(1,2) le by (auto simp: models_wf_def bt_get_None_iff)
  qed
qed

lemma reserve_usage_sel [simp]:
  "ru_total_tokens (reserve_usage k r u) = ru_total_tokens u"
  "ru_reserved_tokens (reserve_usage k r u) = sat_add (ru_reserved_tokens u) r"
  "ru_physical_attempts (reserve_usage k r u) = sat_add (ru_physical_attempts u) 1"
  "fst ` set (ru_models (reserve_usage k r u)) = insert k (fst ` set (ru_models u))"
  by (simp_all add: reserve_usage_def)

lemma models_wf_reserve:
  "models_wf (ru_models u) \<Longrightarrow>
   models_wf (ru_models (reserve_usage (bounded_model_key sha256 (ru_models u) raw) r u))"
  using models_wf_update_or [OF _ bounded_model_key_admissible]
  by (simp add: reserve_usage_def del: One_nat_def)

lemma bt_wf_reserve: "bt_wf (ru_models u) \<Longrightarrow> bt_wf (ru_models (reserve_usage k r u))"
  by (simp add: reserve_usage_def)

lemma snd_set_bt_insert: "snd ` set (bt_insert k v m) \<subseteq> insert v (snd ` set m)"
  by (induction k v m rule: bt_insert.induct) auto

lemma ledger_wf_reserve:
  assumes wf: "ledger_wf sha256 l" and sha: "sha256_ok sha256"
    and ok: "ledger_reserve sha256 b c raw p q l = (Inr a, l')"
    and b: "max_total_tokens b < u64_max" "max_physical_model_attempts b < u64_max"
  shows "ledger_wf sha256 l'"
proof -
  define r where "r = sat_add p q"
  define k where "k = bounded_model_key sha256 (ru_models (lg_lineage l)) raw"
  note l' = reserve_Inr(3) [OF ok, folded r_def k_def]
  note bounds = admission_bounds [OF reserve_Inr(1) [OF ok] b, folded r_def]
  have kfix: "bounded_model_identifier sha256 k = k"
    unfolding k_def by (rule bounded_model_key_fixpoint [OF sha])
  have room: "pending_sum (lg_pending_attempts l) + r \<le> u64_max"
    using bounds(1) b wf by (simp add: ledger_wf_def)
  have lin: "models_wf (ru_models (reserve_usage k r (lg_lineage l)))"
    unfolding k_def using wf by (intro models_wf_reserve) (simp add: ledger_wf_def)
  have seg: "models_wf (ru_models (reserve_usage k r (lg_segment l)))"
    using wf by (intro models_wf_subset [OF lin])
      (auto simp: ledger_wf_def models_wf_def intro: bt_wf_reserve)
  have len: "length (bt_insert (lg_next_attempt_id l) \<lparr>pm_model = k, pm_reserved_tokens = r\<rparr>
      (lg_pending_attempts l)) \<le> MAX_PENDING_RESOURCE_ATTEMPTS"
    using wf bounds(3,4) by (simp add: ledger_wf_def bt.len_put_absent)
  have pend: "pm_model x \<in> insert k (fst ` set (ru_models (lg_segment l))) \<and>
      bounded_model_identifier sha256 (pm_model x) = pm_model x"
    if "x \<in> snd ` set (bt_insert (lg_next_attempt_id l) \<lparr>pm_model = k, pm_reserved_tokens = r\<rparr>
      (lg_pending_attempts l))" for x
  proof -
    from subsetD [OF snd_set_bt_insert that]
    have "x = \<lparr>pm_model = k, pm_reserved_tokens = r\<rparr> \<or> x \<in> snd ` set (lg_pending_attempts l)" by (simp only: insert_iff)
    then show ?thesis
    proof
      assume "x \<in> snd ` set (lg_pending_attempts l)"
      from ledger_wf_pending [OF wf this] show ?thesis by blast
    qed (simp add: kfix)
  qed
  show ?thesis
    using wf room bounds(4) lin seg len pend unfolding l' ledger_wf_def
    by (simp add: bt.wf_put pending_sum_insert_absent sat_add_exact) blast
qed

text \<open>After an admitted reservation the committed tokens and the attempts stay below what the
  class may use.\<close>

lemma reserve_within_allowance:
  assumes ok: "ledger_reserve sha256 b c raw p q l = (Inr a, l')"
    and b: "max_total_tokens b < u64_max" "max_physical_model_attempts b < u64_max"
  shows "ru_total_tokens (lg_segment l') + ru_reserved_tokens (lg_segment l')
      \<le> max_total_tokens b - protected_token_reserve b c"
    and "ru_physical_attempts (lg_segment l')
      \<le> max_physical_model_attempts b - protected_physical_model_attempt_reserve b c"
proof -
  note bounds = admission_bounds [OF reserve_Inr(1) [OF ok] b]
  show "ru_total_tokens (lg_segment l') + ru_reserved_tokens (lg_segment l')
      \<le> max_total_tokens b - protected_token_reserve b c"
    using bounds(1) by (simp add: reserve_Inr(3) [OF ok] sat_add_def)
  show "ru_physical_attempts (lg_segment l')
      \<le> max_physical_model_attempts b - protected_physical_model_attempt_reserve b c"
    using bounds(2) by (simp add: reserve_Inr(3) [OF ok] sat_add_def)
qed

section \<open>Settling\<close>

lemma settle_usage_sel [simp]:
  "ru_reserved_tokens (settle_usage sha256 k r s u) = ru_reserved_tokens u - r"
  "ru_total_tokens (settle_usage sha256 k r s u) = sat_add (ru_total_tokens u) (au_total_tokens s)"
  "ru_physical_attempts (settle_usage sha256 k r s u) = ru_physical_attempts u"
  by (simp_all add: settle_usage_def Let_def)

lemma settle_usage_keys:
  "bounded_model_identifier sha256 k = k \<Longrightarrow> k \<in> fst ` set (ru_models u) \<Longrightarrow>
   fst ` set (ru_models (settle_usage sha256 k r s u)) = fst ` set (ru_models u)"
  by (simp add: settle_usage_def Let_def bounded_model_key_present bt_contains_key_iff insert_absorb)

lemma bt_reinsert_removed:
  assumes "bt_wf m" "bt_get m k = Some v"
  shows "bt_insert k v (bt_remove k m) = m"
  using assms by (intro bt_ext) (simp_all add: bt.wf_put bt.wf_del bt.put_after_del)

lemma snd_set_bt_remove: "snd ` set (bt_remove k m) \<subseteq> snd ` set m"
  by (auto simp: bt_remove_def)

lemma bt_get_in_snd: "bt_get m k = Some v \<Longrightarrow> v \<in> snd ` set m"
  unfolding bt_get_def by (metis image_eqI map_of_SomeD snd_conv)

text \<open>The three outcomes of a settlement: refused and unchanged, or booked.\<close>

lemma settle_cases:
  assumes wf: "bt_wf (lg_pending_attempts l)"
    and settle: "ledger_settle sha256 b a u l = (st, l')"
  obtains (refused) "st = not_settled" "l' = l"
  | (booked) pm s where
      "bt_get (lg_pending_attempts l) (pa_attempt_id a) = Some pm"
      "pa_ledger_id a = lg_ledger_id l" "pm_model pm = pa_model a"
      "pm_reserved_tokens pm = pa_reserved_tokens a"
      "s = attempt_usage_or_unknown (pm_reserved_tokens pm) u" "st_settled st"
      "l' = bump_mutation_revision
         (l\<lparr>lg_pending_attempts := bt_remove (pa_attempt_id a) (lg_pending_attempts l),
            lg_segment := settle_usage sha256 (pm_model pm) (pm_reserved_tokens pm) s (lg_segment l),
            lg_lineage := settle_usage sha256 (pm_model pm) (pm_reserved_tokens pm) s (lg_lineage l)\<rparr>)"
      "st_exhausted st \<longleftrightarrow> committed_tokens (lg_segment l') > max_total_tokens b"
  using assms by (auto simp: ledger_settle_def Let_def bt_reinsert_removed split: if_splits option.splits)

lemma ledger_wf_book:
  assumes wf: "ledger_wf sha256 l" and pm: "bt_get (lg_pending_attempts l) i = Some pm"
  shows "ledger_wf sha256
    (l\<lparr>lg_pending_attempts := bt_remove i (lg_pending_attempts l),
       lg_segment := settle_usage sha256 (pm_model pm) (pm_reserved_tokens pm) s (lg_segment l),
       lg_lineage := settle_usage sha256 (pm_model pm) (pm_reserved_tokens pm) s (lg_lineage l)\<rparr>)"
proof -
  note p = ledger_wf_pending [OF wf bt_get_in_snd [OF pm]]
  have wfp: "bt_wf (lg_pending_attempts l)"
    and sub: "fst ` set (ru_models (lg_segment l)) \<subseteq> fst ` set (ru_models (lg_lineage l))"
    and sums: "ru_reserved_tokens (lg_segment l) = pending_sum (lg_pending_attempts l)"
      "ru_reserved_tokens (lg_lineage l) = pending_sum (lg_pending_attempts l)"
    and mods: "models_wf (ru_models (lg_segment l))" "models_wf (ru_models (lg_lineage l))"
    and len: "length (lg_pending_attempts l) \<le> MAX_PENDING_RESOURCE_ATTEMPTS"
    using wf unfolding ledger_wf_def by blast+
  have keys: "fst ` set (ru_models (settle_usage sha256 (pm_model pm) r s (lg_segment l)))
      = fst ` set (ru_models (lg_segment l))"
    "fst ` set (ru_models (settle_usage sha256 (pm_model pm) r s (lg_lineage l)))
      = fst ` set (ru_models (lg_lineage l))" for r
    using p sub by (simp_all add: settle_usage_keys subset_iff)
  have pend: "\<forall>x \<in> snd ` set (bt_remove i (lg_pending_attempts l)).
      pm_model x \<in> fst ` set (ru_models (lg_segment l)) \<and> bounded_model_identifier sha256 (pm_model x) = pm_model x"
  proof
    fix x assume "x \<in> snd ` set (bt_remove i (lg_pending_attempts l))"
    from ledger_wf_pending [OF wf subsetD [OF snd_set_bt_remove this]]
    show "pm_model x \<in> fst ` set (ru_models (lg_segment l)) \<and>
      bounded_model_identifier sha256 (pm_model x) = pm_model x" by blast
  qed
  have "length (bt_remove i (lg_pending_attempts l)) \<le> MAX_PENDING_RESOURCE_ATTEMPTS"
    using bt.len_del_le [OF wfp, of i] len by simp
  then show ?thesis
    using pend mods sub wfp pending_sum_remove [OF wfp pm]
    unfolding ledger_wf_def by (simp add: keys sums models_wf_settle bt.wf_del)
qed

lemma ledger_wf_settle:
  assumes wf: "ledger_wf sha256 l" and settle: "ledger_settle sha256 b a u l = (st, l')"
  shows "ledger_wf sha256 l'"
proof -
  have "bt_wf (lg_pending_attempts l)" using wf by (simp add: ledger_wf_def)
  from this settle show ?thesis
  proof (cases rule: settle_cases)
    case refused
    then show ?thesis using wf by simp
  next
    case (booked pm s)
    show ?thesis unfolding booked(7) ledger_wf_bump by (rule ledger_wf_book [OF wf booked(1)])
  qed
qed

text \<open>An attempt is booked at most once: settling it again is refused and changes nothing.\<close>

lemma settle_again_refused:
  assumes wf: "ledger_wf sha256 l"
    and settle: "ledger_settle sha256 b a u l = (st, l')" and "st_settled st"
  shows "ledger_settle sha256 b' a u' l' = (not_settled, l')"
proof -
  have "bt_wf (lg_pending_attempts l)" using wf by (simp add: ledger_wf_def)
  from this settle show ?thesis
  proof (cases rule: settle_cases)
    case refused
    then show ?thesis using assms(3) by (simp add: not_settled_def)
  next
    case (booked pm s)
    then show ?thesis by (simp add: ledger_settle_def bt_get_remove)
  qed
qed

section \<open>Settling everything as unknown\<close>

lemma fold_settle_reserved:
  "ru_reserved_tokens (fold (settle_pending_unknown sha256) as u) =
   ru_reserved_tokens u - sum_list (map pm_reserved_tokens as)"
  by (induction as arbitrary: u) (simp_all add: settle_pending_unknown_def)

lemma sat_add_assoc: "sat_add (sat_add a b) c = sat_add a (b + c)"
  by (auto simp: sat_add_def min_def)

lemma fold_settle_total:
  "ru_total_tokens u \<le> u64_max \<Longrightarrow>
   ru_total_tokens (fold (settle_pending_unknown sha256) as u) =
   sat_add (ru_total_tokens u) (sum_list (map pm_reserved_tokens as))"
proof (induction as arbitrary: u)
  case Nil
  then show ?case by (simp add: sat_add_def)
next
  case (Cons a as)
  then show ?case by (simp add: settle_pending_unknown_def unknown_usage_def sat_add_assoc)
qed

lemma fold_settle_models_wf:
  "models_wf (ru_models u) \<Longrightarrow> models_wf (ru_models (fold (settle_pending_unknown sha256) as u))"
  by (induction as arbitrary: u) (simp_all add: settle_pending_unknown_def models_wf_settle)

lemma fold_settle_keys:
  "\<forall>a \<in> set as. pm_model a \<in> fst ` set (ru_models u) \<and> bounded_model_identifier sha256 (pm_model a) = pm_model a \<Longrightarrow>
   fst ` set (ru_models (fold (settle_pending_unknown sha256) as u)) = fst ` set (ru_models u)"
  by (induction as arbitrary: u) (simp_all add: settle_pending_unknown_def settle_usage_keys)

lemma fold_settle_attempts [simp]:
  "ru_physical_attempts (fold (settle_pending_unknown sha256) as u) = ru_physical_attempts u"
  by (induction as arbitrary: u) (simp_all add: settle_pending_unknown_def)

lemma settle_all_sel [simp]:
  "lg_pending_attempts (settle_all_pending_as_unknown sha256 l) = []"
  "lg_segment (settle_all_pending_as_unknown sha256 l) =
     fold (settle_pending_unknown sha256) (map snd (lg_pending_attempts l)) (lg_segment l)"
  "lg_lineage (settle_all_pending_as_unknown sha256 l) =
     fold (settle_pending_unknown sha256) (map snd (lg_pending_attempts l)) (lg_lineage l)"
  "lg_ledger_id (settle_all_pending_as_unknown sha256 l) = lg_ledger_id l"
  by (simp_all add: settle_all_pending_as_unknown_def Let_def)

lemma pending_sum_snd: "pending_sum m = sum_list (map pm_reserved_tokens (map snd m))"
  by (simp add: pending_sum_def comp_def)

lemma ledger_wf_settle_all:
  assumes wf: "ledger_wf sha256 l"
  shows "ledger_wf sha256 (settle_all_pending_as_unknown sha256 l)"
proof -
  have p: "\<forall>a \<in> set (map snd (lg_pending_attempts l)).
      pm_model a \<in> fst ` set (ru_models (lg_segment l)) \<and> bounded_model_identifier sha256 (pm_model a) = pm_model a"
    and sub: "fst ` set (ru_models (lg_segment l)) \<subseteq> fst ` set (ru_models (lg_lineage l))"
    using wf unfolding ledger_wf_def set_map by blast+
  then have p': "\<forall>a \<in> set (map snd (lg_pending_attempts l)).
      pm_model a \<in> fst ` set (ru_models (lg_lineage l)) \<and> bounded_model_identifier sha256 (pm_model a) = pm_model a"
    by blast
  show ?thesis
    using wf sub fold_settle_keys [OF p] fold_settle_keys [OF p']
    unfolding ledger_wf_def by (simp add: fold_settle_reserved fold_settle_models_wf pending_sum_snd)
qed

lemma ledger_wf_start_new_segment:
  assumes "ledger_wf sha256 l"
  shows "ledger_wf sha256 (start_new_segment sha256 l)"
  using ledger_wf_settle_all [OF assms] unfolding start_new_segment_def ledger_wf_bump ledger_wf_def
  by (simp add: run_usage_default_def)

text \<open>Closing all pending attempts moves their tokens from reserved to spent; what is
  committed stays the same.\<close>

lemma settle_all_committed:
  assumes "ru_reserved_tokens u = pending_sum m" "ru_total_tokens u \<le> u64_max"
  shows "committed_tokens (fold (settle_pending_unknown sha256) (map snd m) u) = committed_tokens u"
    and "ru_reserved_tokens (fold (settle_pending_unknown sha256) (map snd m) u) = 0"
  using assms
  by (simp_all add: committed_tokens_def fold_settle_total fold_settle_reserved pending_sum_snd sat_add_assoc)

section \<open>Snapshots\<close>

definition counts_fit :: "ModelUsageSourceCounts \<Rightarrow> bool" where
  "counts_fit c \<longleftrightarrow> uc_provider c \<le> u64_max \<and> uc_provider_partial c \<le> u64_max \<and>
     uc_estimated c \<le> u64_max \<and> uc_unknown c \<le> u64_max"

definition model_usage_fits :: "ModelResourceUsage \<Rightarrow> bool" where
  "model_usage_fits m \<longleftrightarrow> mu_physical_attempts m \<le> u64_max \<and> mu_prompt_tokens m \<le> u64_max \<and>
     mu_completion_tokens m \<le> u64_max \<and> mu_total_tokens m \<le> u64_max \<and>
     mu_reserved_tokens m \<le> u64_max \<and> counts_fit (mu_usage_sources m)"

text \<open>A model map as a ledger holds it: bounded, with bounded identifiers as keys and 64-bit
  counters.\<close>

definition models_canonical :: "(nat list \<Rightarrow> nat list) \<Rightarrow> (ustring, ModelResourceUsage) btree \<Rightarrow> bool" where
  "models_canonical sha256 m \<longleftrightarrow> models_wf m \<and>
     (\<forall>e \<in> set m. bounded_model_identifier sha256 (fst e) = fst e \<and> model_usage_fits (snd e))"

lemma merge_default: "model_usage_fits m \<Longrightarrow> merge_model_usage model_usage_default m = m"
  by (simp add: merge_model_usage_def model_usage_default_def merge_counts_def counts_default_def
      model_usage_fits_def counts_fit_def sat_add_def)

text \<open>The loop of \<open>bounded_usage\<close> over distinct bounded keys files every entry once.\<close>

lemma fold_bound_model:
  assumes "bt_wf acc" "distinct (map fst es)"
    and "\<forall>e \<in> set es. bounded_model_identifier sha256 (fst e) = fst e \<and> fst e \<notin> fst ` set acc"
    and "length acc + length (filter (\<lambda>e. fst e \<noteq> OTHER_MODELS_KEY) es) < MAX_RESOURCE_LEDGER_MODELS"
  shows "fold (bound_model sha256) es (acc, ov, used) =
    (fold (\<lambda>e. bt_insert (fst e) (snd e)) (filter (\<lambda>e. fst e \<noteq> OTHER_MODELS_KEY) es) acc,
     fold (\<lambda>e ov. merge_model_usage ov (snd e)) (filter (\<lambda>e. fst e = OTHER_MODELS_KEY) es) ov,
     used \<or> OTHER_MODELS_KEY \<in> fst ` set es)"
  using assms
proof (induction es arbitrary: acc ov used)
  case (Cons e es)
  have e: "bounded_model_identifier sha256 (fst e) = fst e" "bt_get acc (fst e) = None"
    using Cons.prems(3) by (auto simp: bt_get_None_iff)
  show ?case
  proof (cases "fst e = OTHER_MODELS_KEY")
    case True
    have "fold (bound_model sha256) es (acc, merge_model_usage ov (snd e), True) =
      (fold (\<lambda>e. bt_insert (fst e) (snd e)) (filter (\<lambda>e. fst e \<noteq> OTHER_MODELS_KEY) es) acc,
       fold (\<lambda>e ov. merge_model_usage ov (snd e)) (filter (\<lambda>e. fst e = OTHER_MODELS_KEY) es)
         (merge_model_usage ov (snd e)),
       True \<or> OTHER_MODELS_KEY \<in> fst ` set es)"
      using Cons.prems True by (intro Cons.IH) auto
    moreover have "bound_model sha256 e (acc, ov, used) = (acc, merge_model_usage ov (snd e), True)"
      using True e by (simp add: bound_model_def)
    ultimately show ?thesis using True by simp
  next
    case False
    have step: "bound_model sha256 e (acc, ov, used) = (bt_insert (fst e) (snd e) acc, ov, used)"
    proof -
      have "length acc < MAX_RESOURCE_LEDGER_MODELS - 1" using Cons.prems(4) False by simp
      with False e show ?thesis by (simp add: bound_model_def)
    qed
    have "fold (bound_model sha256) es (bt_insert (fst e) (snd e) acc, ov, used) =
      (fold (\<lambda>e. bt_insert (fst e) (snd e)) (filter (\<lambda>e. fst e \<noteq> OTHER_MODELS_KEY) es)
         (bt_insert (fst e) (snd e) acc),
       fold (\<lambda>e ov. merge_model_usage ov (snd e)) (filter (\<lambda>e. fst e = OTHER_MODELS_KEY) es) ov,
       used \<or> OTHER_MODELS_KEY \<in> fst ` set es)"
    proof (rule Cons.IH)
      show "\<forall>ea \<in> set es. bounded_model_identifier sha256 (fst ea) = fst ea \<and>
          fst ea \<notin> fst ` set (bt_insert (fst e) (snd e) acc)"
        using Cons.prems(2,3) by (metis distinct.simps(2) fst_set_bt_insert image_eqI insert_iff
            list.set_intros(2) list.simps(9) set_map)
    qed (use Cons.prems False e in \<open>simp_all add: bt.wf_put bt.len_put_absent\<close>)
    with False step show ?thesis by auto
  qed
qed simp

lemma bt_get_fold_insert:
  "bt_wf acc \<Longrightarrow> distinct (map fst es) \<Longrightarrow>
   bt_wf (fold (\<lambda>e. bt_insert (fst e) (snd e)) es acc) \<and>
   bt_get (fold (\<lambda>e. bt_insert (fst e) (snd e)) es acc) = bt_get acc ++ bt_get es"
proof (induction es arbitrary: acc)
  case Nil
  then show ?case by (simp add: fun_eq_iff map_add_def)
next
  case (Cons e es)
  have "bt_get es (fst e) = None" using Cons.prems(2) by (simp add: bt_get_None_iff)
  with Cons show ?case
    by (auto simp: bt.wf_put bt.get_put bt_get_Cons map_add_def fun_eq_iff split: option.split)
qed

lemma length_filter_not_other:
  assumes "models_wf m"
  shows "length (filter (\<lambda>e. fst e \<noteq> OTHER_MODELS_KEY) m) < MAX_RESOURCE_LEDGER_MODELS"
proof -
  have eq: "filter (\<lambda>e. fst e \<noteq> OTHER_MODELS_KEY) m = bt_remove OTHER_MODELS_KEY m"
    by (simp add: bt_remove_def)
  have wf: "bt_wf m" using assms by (simp add: models_wf_def)
  show ?thesis
  proof (cases "bt_get m OTHER_MODELS_KEY")
    case None
    with bt.len_del_le [OF wf, of OTHER_MODELS_KEY] assms show ?thesis by (auto simp: eq models_wf_def)
  next
    case (Some v)
    with bt.len_del_present [OF wf Some] assms show ?thesis
      unfolding eq models_wf_def MAX_RESOURCE_LEDGER_MODELS_def by linarith
  qed
qed

lemma filter_other:
  assumes "bt_wf m"
  shows "filter (\<lambda>e. fst e = k) m = (case bt_get m k of None \<Rightarrow> [] | Some v \<Rightarrow> [(k, v)])"
  using assms
proof (induction m)
  case (Cons e m)
  have "filter (\<lambda>e'. fst e' = fst e) m = []"
    using Cons.prems by (auto simp: bt_wf_Cons filter_empty_conv)
  with Cons show ?case by (cases e) (auto simp: bt_get_Cons bt_wf_Cons)
qed simp

lemma bounded_usage_canonical:
  assumes "models_canonical sha256 (ru_models u)"
  shows "bounded_usage sha256 u = u"
proof -
  let ?m = "ru_models u"
  let ?kept = "fold (\<lambda>e. bt_insert (fst e) (snd e)) (bt_remove OTHER_MODELS_KEY ?m) []"
  have wf: "bt_wf ?m" and mw: "models_wf ?m"
    using assms by (simp_all add: models_canonical_def models_wf_def)
  have kept_wf: "bt_wf ?kept" and kept_get: "bt_get ?kept = (bt_get ?m)(OTHER_MODELS_KEY := None)"
    using bt_get_fold_insert [of "[]" "bt_remove OTHER_MODELS_KEY ?m"] wf
    by (simp_all add: bt_wf_distinct bt.wf_del bt_get_remove map_add_def fun_eq_iff split: option.split)
  have bound: "fold (bound_model sha256) ?m ([], model_usage_default, False) =
      (?kept, fold (\<lambda>e ov. merge_model_usage ov (snd e)) (filter (\<lambda>e. fst e = OTHER_MODELS_KEY) ?m)
        model_usage_default, OTHER_MODELS_KEY \<in> fst ` set ?m)"
    using assms fold_bound_model [of "[]" ?m sha256 model_usage_default False]
      length_filter_not_other [OF mw]
    by (simp add: bt_wf_distinct [OF wf] models_canonical_def bt_remove_def)
  show ?thesis
  proof (cases "bt_get ?m OTHER_MODELS_KEY")
    case None
    then have "?kept = ?m" using kept_wf wf kept_get by (intro bt_ext) auto
    with None bound show ?thesis by (simp add: bounded_usage_def bt_get_None_iff)
  next
    case (Some v)
    then have "(OTHER_MODELS_KEY, v) \<in> set ?m" by (simp add: bt_get_def map_of_SomeD)
    then have "model_usage_fits v" using assms by (force simp: models_canonical_def)
    then have ov: "merge_model_usage model_usage_default v = v" by (rule merge_default)
    have "bt_insert OTHER_MODELS_KEY v ?kept = ?m"
      using kept_wf wf kept_get Some by (intro bt_ext) (auto simp: bt.wf_put bt.get_put)
    moreover have "OTHER_MODELS_KEY \<in> fst ` set ?m"
      using Some by (metis bt_get_None_iff option.distinct(1))
    ultimately show ?thesis using bound Some wf
      by (simp add: bounded_usage_def filter_other ov)
  qed
qed

definition ledger_canonical :: "(nat list \<Rightarrow> nat list) \<Rightarrow> RunResourceLedger \<Rightarrow> bool" where
  "ledger_canonical sha256 l \<longleftrightarrow> ledger_wf sha256 l \<and> lg_ledger_id l \<noteq> 0 \<and> lg_next_attempt_id l \<noteq> 0 \<and>
     models_canonical sha256 (ru_models (lg_segment l)) \<and>
     models_canonical sha256 (ru_models (lg_lineage l)) \<and>
     ru_total_tokens (lg_segment l) \<le> u64_max \<and> ru_total_tokens (lg_lineage l) \<le> u64_max"

lemma snapshot_sel [simp]:
  "rs_segment (ledger_snapshot l) = lg_segment l" "rs_lineage (ledger_snapshot l) = lg_lineage l"
  "rs_ledger_id (ledger_snapshot l) = lg_ledger_id l"
  "rs_pending_attempts (ledger_snapshot l) = lg_pending_attempts l"
  "rs_next_attempt_id (ledger_snapshot l) = lg_next_attempt_id l"
  "rs_mutation_revision (ledger_snapshot l) = lg_mutation_revision l"
  by (simp_all add: ledger_snapshot_def)

text \<open>Restoring a snapshot gives the same ledger back, pending reservations included.\<close>

lemma ledger_snapshot_restore:
  assumes "ledger_canonical sha256 l"
  shows "ledger_from_snapshot sha256 (ledger_snapshot l) p = (l, p)"
proof -
  have "map (\<lambda>(i, a). (i, bound_pending sha256 a)) (lg_pending_attempts l) = lg_pending_attempts l"
  proof (rule map_idI)
    fix e assume "e \<in> set (lg_pending_attempts l)"
    then have "snd e \<in> snd ` set (lg_pending_attempts l)" by simp
    moreover have "ledger_wf sha256 l" using assms by (simp add: ledger_canonical_def)
    ultimately have "bounded_model_identifier sha256 (pm_model (snd e)) = pm_model (snd e)"
      by (rule ledger_wf_pending [rotated])
    then show "(case e of (i, a) \<Rightarrow> (i, bound_pending sha256 a)) = e"
      by (cases e) (simp add: bound_pending_def)
  qed
  then show ?thesis
    using assms
    by (simp add: ledger_from_snapshot_def ledger_canonical_def bounded_usage_canonical)
qed

lemma bounded_usage_sel [simp]:
  "ru_total_tokens (bounded_usage sha256 u) = ru_total_tokens u"
  "ru_reserved_tokens (bounded_usage sha256 u) = ru_reserved_tokens u"
  "ru_physical_attempts (bounded_usage sha256 u) = ru_physical_attempts u"
  by (simp_all add: bounded_usage_def split: prod.split)

text \<open>Recovery from a persisted snapshot: nothing stays pending, and what was committed before
  the crash is still committed.\<close>

lemma restored_committed:
  assumes "rs_pending_attempts s = m" "ru_reserved_tokens (rs_segment s) = pending_sum m"
    and "ru_total_tokens (rs_segment s) \<le> u64_max"
  shows "committed_tokens (lg_segment (fst (ledger_from_persisted_snapshot sha256 s p))) =
      committed_tokens (rs_segment s)"
    and "ru_reserved_tokens (lg_segment (fst (ledger_from_persisted_snapshot sha256 s p))) = 0"
    and "lg_pending_attempts (fst (ledger_from_persisted_snapshot sha256 s p)) = []"
proof -
  let ?m' = "map (\<lambda>(i, a). (i, bound_pending sha256 a)) m"
  have sum: "pending_sum ?m' = pending_sum m"
    by (simp add: pending_sum_def bound_pending_def comp_def case_prod_beta)
  have seg: "lg_segment (fst (ledger_from_persisted_snapshot sha256 s p)) =
      fold (settle_pending_unknown sha256) (map snd ?m') (bounded_usage sha256 (rs_segment s))"
    using assms(1)
    by (simp add: ledger_from_persisted_snapshot_def ledger_from_snapshot_def Let_def split: prod.split)
  have "committed_tokens (bounded_usage sha256 (rs_segment s)) = committed_tokens (rs_segment s)"
    by (simp add: committed_tokens_def)
  with settle_all_committed [of "bounded_usage sha256 (rs_segment s)" ?m' sha256] assms sum
  show "committed_tokens (lg_segment (fst (ledger_from_persisted_snapshot sha256 s p))) =
      committed_tokens (rs_segment s)"
    and "ru_reserved_tokens (lg_segment (fst (ledger_from_persisted_snapshot sha256 s p))) = 0"
    unfolding seg by simp_all
  show "lg_pending_attempts (fst (ledger_from_persisted_snapshot sha256 s p)) = []"
    by (simp add: ledger_from_persisted_snapshot_def split: prod.split)
qed

section \<open>Canonical ledgers are closed under the operations\<close>

lemma set_bt_insert: "set (bt_insert k v m) \<subseteq> insert (k, v) (set m)"
  by (induction k v m rule: bt_insert.induct) auto

lemma bt_get_in_set: "bt_get m k = Some v \<Longrightarrow> (k, v) \<in> set m"
  by (simp add: bt_get_def map_of_SomeD)

lemma models_canonical_update_or:
  assumes m: "models_canonical sha256 m" and wf: "models_wf (bt_update_or d k f m)"
    and k: "bounded_model_identifier sha256 k = k" and d: "model_usage_fits d"
    and f: "\<And>x. model_usage_fits x \<Longrightarrow> model_usage_fits (f x)"
  shows "models_canonical sha256 (bt_update_or d k f m)"
proof -
  have old: "model_usage_fits (case bt_get m k of None \<Rightarrow> d | Some v \<Rightarrow> v)"
    using m d by (auto simp: models_canonical_def dest!: bt_get_in_set split: option.split)
  have "bounded_model_identifier sha256 (fst e) = fst e \<and> model_usage_fits (snd e)"
    if "e \<in> set (bt_update_or d k f m)" for e
    using subsetD [OF set_bt_insert that [unfolded bt_update_or_def]] m k f [OF old]
    by (auto simp: models_canonical_def)
  with wf show ?thesis by (auto simp: models_canonical_def)
qed

lemma fits_default [simp]: "model_usage_fits model_usage_default"
  by (simp add: model_usage_fits_def model_usage_default_def counts_fit_def counts_default_def)

lemma counts_fit_record: "counts_fit c \<Longrightarrow> counts_fit (counts_record s c)"
  by (cases s) (simp_all add: counts_fit_def)

lemma fits_settle: "model_usage_fits m \<Longrightarrow> model_usage_fits (settle_model_usage r s m)"
  by (simp add: model_usage_fits_def settle_model_usage_def counts_fit_record) linarith

lemma models_canonical_settle:
  assumes "sha256_ok sha256" "models_canonical sha256 (ru_models u)"
  shows "models_canonical sha256 (ru_models (settle_usage sha256 k r s u))"
proof -
  have "models_wf (ru_models u)" using assms(2) by (simp add: models_canonical_def)
  from models_wf_settle [OF this, of sha256 k r s] show ?thesis
    unfolding settle_usage_def Let_def
    by (simp add: models_canonical_update_or [OF assms(2)] bounded_model_key_fixpoint [OF assms(1)] fits_settle)
qed

lemma models_canonical_reserve:
  assumes "models_canonical sha256 (ru_models u)" "models_wf (ru_models (reserve_usage k r u))"
    and "bounded_model_identifier sha256 k = k"
  shows "models_canonical sha256 (ru_models (reserve_usage k r u))"
  using assms(2) unfolding reserve_usage_def
  by simp (rule models_canonical_update_or [OF assms(1) _ assms(3) fits_default], simp_all add: model_usage_fits_def)

lemma ledger_canonical_new: "ledger_canonical sha256 (fst (ledger_new p))"
  using ledger_wf_new [of sha256 p]
  by (simp add: ledger_canonical_def ledger_new_def next_ledger_id_def run_usage_default_def models_canonical_def
      split: prod.split)

lemma ledger_canonical_reserve:
  assumes can: "ledger_canonical sha256 l" and sha: "sha256_ok sha256"
    and ok: "ledger_reserve sha256 b c raw p q l = (Inr a, l')"
    and b: "max_total_tokens b < u64_max" "max_physical_model_attempts b < u64_max"
  shows "ledger_canonical sha256 l'"
proof -
  define k where "k = bounded_model_key sha256 (ru_models (lg_lineage l)) raw"
  have k: "bounded_model_identifier sha256 k = k"
    unfolding k_def by (rule bounded_model_key_fixpoint [OF sha])
  note l' = reserve_Inr(3) [OF ok, folded k_def]
  have wf: "ledger_wf sha256 l'"
    using ledger_wf_reserve [OF _ sha ok b] can by (simp add: ledger_canonical_def)
  then have "models_wf (ru_models (lg_segment l'))" "models_wf (ru_models (lg_lineage l'))"
    by (simp_all add: ledger_wf_def)
  with can wf models_canonical_reserve [OF _ _ k] show ?thesis
    unfolding ledger_canonical_def l' by (simp add: sat_add_def)
qed

lemma ledger_canonical_settle:
  assumes can: "ledger_canonical sha256 l" and sha: "sha256_ok sha256"
    and settle: "ledger_settle sha256 b a u l = (st, l')"
  shows "ledger_canonical sha256 l'"
proof -
  have wf: "ledger_wf sha256 l" using can by (simp add: ledger_canonical_def)
  then have bt: "bt_wf (lg_pending_attempts l)" by (simp add: ledger_wf_def)
  from bt settle show ?thesis
  proof (cases rule: settle_cases)
    case refused
    with can show ?thesis by simp
  next
    case (booked pm s)
    from can ledger_wf_settle [OF wf settle] show ?thesis
      unfolding booked(7) ledger_canonical_def by (simp add: models_canonical_settle [OF sha])
  qed
qed

lemma models_canonical_fold_settle:
  "sha256_ok sha256 \<Longrightarrow> models_canonical sha256 (ru_models u) \<Longrightarrow>
   models_canonical sha256 (ru_models (fold (settle_pending_unknown sha256) as u))"
  by (induction as arbitrary: u) (simp_all add: settle_pending_unknown_def models_canonical_settle)

lemma settle_all_next_attempt [simp]:
  "lg_next_attempt_id (settle_all_pending_as_unknown sha256 l) = lg_next_attempt_id l"
  by (simp add: settle_all_pending_as_unknown_def Let_def)

lemma ledger_canonical_settle_all:
  assumes "ledger_canonical sha256 l" "sha256_ok sha256"
  shows "ledger_canonical sha256 (settle_all_pending_as_unknown sha256 l)"
  using assms ledger_wf_settle_all [of sha256 l]
  by (simp add: ledger_canonical_def models_canonical_fold_settle fold_settle_total)

lemma ledger_canonical_start_new_segment:
  assumes "ledger_canonical sha256 l" "sha256_ok sha256"
  shows "ledger_canonical sha256 (start_new_segment sha256 l)"
  using assms ledger_wf_start_new_segment [of sha256 l] ledger_canonical_settle_all [OF assms]
  by (simp add: ledger_canonical_def start_new_segment_def run_usage_default_def models_canonical_def)

text \<open>A canonical ledger is within the persistence bounds on models and keys.\<close>

lemma canonical_within_bounds:
  assumes "sha256_ok sha256" "models_canonical sha256 (ru_models u)"
  shows "usage_within_bounds u"
proof -
  have "str_len (fst e) \<le> MAX_RESOURCE_MODEL_KEY_BYTES" if "e \<in> set (ru_models u)" for e
    using assms(2) bounded_model_identifier_len [OF assms(1), of "fst e"] that
    by (auto simp: models_canonical_def)
  with assms(2) show ?thesis by (simp add: usage_within_bounds_def models_canonical_def models_wf_def)
qed

end
