(* ===== verification/Step_System.thy ===== *)
theory Step_System
  imports Main
begin

text \<open>
  The contract the components' step relations are verified against: an invariant that initial
  states have and steps keep, and a guarantee (a preorder on states) that relates the state
  before a step to the state after it. The lemmas lift both to whole executions, which are
  finite sequences of steps in any interleaving. The run control, its resource ledger, the two
  registries of the harness, the work queue and the parallel executions interpret the locale.
\<close>

locale step_system =
  fixes init :: "'s \<Rightarrow> bool"
    and step :: "'s \<Rightarrow> 's \<Rightarrow> bool"
    and inv :: "'s \<Rightarrow> bool"
    and guar :: "'s \<Rightarrow> 's \<Rightarrow> bool"
  assumes init_inv: "init s \<Longrightarrow> inv s"
    and step_inv: "inv s \<Longrightarrow> step s t \<Longrightarrow> inv t"
    and step_guar: "inv s \<Longrightarrow> step s t \<Longrightarrow> guar s t"
    and guar_refl: "guar s s"
    and guar_trans: "guar s t \<Longrightarrow> guar t u \<Longrightarrow> guar s u"
begin

lemma run_inv: "step\<^sup>*\<^sup>* s t \<Longrightarrow> inv s \<Longrightarrow> inv t"
  by (induction rule: rtranclp_induct) (auto intro: step_inv)

lemma run_guar: "step\<^sup>*\<^sup>* s t \<Longrightarrow> inv s \<Longrightarrow> guar s t"
proof (induction rule: rtranclp_induct)
  case base
  show ?case by (rule guar_refl)
next
  case (step t u)
  then have "inv t" by (blast intro: run_inv)
  with step show ?case by (blast intro: step_guar guar_trans)
qed

lemma reach_inv: "init s \<Longrightarrow> step\<^sup>*\<^sup>* s t \<Longrightarrow> inv t"
  by (blast intro: init_inv run_inv)

lemma reach_guar:
  assumes "init s" "step\<^sup>*\<^sup>* s t" "step\<^sup>*\<^sup>* t u"
  shows "guar t u"
  using assms by (blast intro: reach_inv run_guar)

text \<open>A property that every guarantee keeps holds for the rest of the execution.\<close>

lemma reach_stable:
  assumes "init s" "step\<^sup>*\<^sup>* s t" "step\<^sup>*\<^sup>* t u"
    and "P t" and "\<And>x y. guar x y \<Longrightarrow> P x \<Longrightarrow> P y"
  shows "P u"
  using assms reach_guar by blast

end

end
