(* ===== verification/Control_Invariants.thy ===== *)
theory Control_Invariants
  imports Control_Snapshot Ledger_Laws Step_System
begin

text \<open>
  What every operation of the run control keeps (\<open>ctl_inv\<close>) and what it guarantees
  between the state before and after it (\<open>ctl_guar\<close>). \<open>advances\<close> joins the two; it is
  a preorder, so the lemma for an operation composes the lemmas of its parts: the refresh of
  the stop reason, the locked body, the closure.
\<close>

section \<open>The invariant\<close>

text \<open>The steer queue. Epochs ascend and never pass the control's epoch; queue ids are unique;
  and either the current epoch is already applied or its steer is the last one waiting.\<close>

definition queue_ok :: "u64 \<Rightarrow> u64 \<Rightarrow> RunSteer list \<Rightarrow> bool" where
  "queue_ok e a q \<longleftrightarrow>
     e \<le> u64_max \<and> a \<le> e \<and> sorted_wrt (<) (map sr_epoch q) \<and>
     (\<forall>s \<in> set q. sr_epoch s \<le> e) \<and> distinct (map sr_queue_id q) \<and>
     length q \<le> MAX_PENDING_STEERS \<and> (a = e \<or> (q \<noteq> [] \<and> sr_epoch (last q) = e))"

definition limit_ok :: "usize \<Rightarrow> usize \<Rightarrow> bool" where
  "limit_ok limit mx \<longleftrightarrow> 1 \<le> limit \<and> limit \<le> mx"

text \<open>The marks of the goal deltas already spent pay for the extensions.\<close>

definition credit_ok :: "usize \<Rightarrow> usize \<Rightarrow> usize \<Rightarrow> usize \<Rightarrow> usize \<Rightarrow> bool" where
  "credit_ok deltas m t a extensions \<longleftrightarrow>
     deltas \<le> u64_max \<and> m \<le> deltas \<and> t \<le> deltas \<and> a \<le> deltas \<and> extensions \<le> m + t + a \<and>
     extensions \<le> u64_max"

definition stages_ok :: "RunBudget \<Rightarrow> (RunStageClass \<rightharpoonup> RunStageUsage) \<Rightarrow> bool" where
  "stages_ok b usage \<longleftrightarrow>
     (\<forall>cls u. usage cls = Some u \<longrightarrow> su_model_calls u \<le> sb_max_model_calls (stage_budget b cls))"

definition recent_ok :: "(ustring \<rightharpoonup> u64 list) \<Rightarrow> bool" where
  "recent_ok m \<longleftrightarrow> (\<forall>scope xs. m scope = Some xs \<longrightarrow> length xs \<le> 24)"

definition ledger_ok ::
  "(nat list \<Rightarrow> nat list) \<Rightarrow> RunBudget \<Rightarrow> bool \<Rightarrow> RunResourceLedger \<Rightarrow> bool"
where
  "ledger_ok sha256 b stopped l \<longleftrightarrow>
     ledger_canonical sha256 l \<and>
     ru_physical_attempts (lg_segment l) \<le> max_physical_model_attempts b \<and>
     (stopped \<or> committed_tokens (lg_segment l) \<le> max_total_tokens b)"

definition ctl_inv :: "(nat list \<Rightarrow> nat list) \<Rightarrow> AgentRunControl \<Rightarrow> bool" where
  "ctl_inv sha256 c \<longleftrightarrow>
     sha256_ok sha256 \<and> budget_wf (budget c) \<and>
     queue_ok (steer_epoch c) (applied_steer_epoch (ctl_state c)) (pending_steers (ctl_state c)) \<and>
     limit_ok (model_call_limit (ctl_state c)) (max_model_calls (budget c)) \<and>
     limit_ok (tool_call_limit (ctl_state c)) (max_tool_calls (budget c)) \<and>
     limit_ok (agent_turn_limit (ctl_state c)) (max_agent_turns (budget c)) \<and>
     model_calls c \<le> model_call_limit (ctl_state c) \<and>
     agent_turns c \<le> agent_turn_limit (ctl_state c) \<and>
     repair_attempts c \<le> max_repair_attempts (budget c) \<and>
     credit_ok (goal_delta_count (ctl_state c)) (model_extension_goal_delta (ctl_state c))
       (tool_extension_goal_delta (ctl_state c)) (agent_turn_extension_goal_delta (ctl_state c))
       (budget_extensions (ctl_state c)) \<and>
     stages_ok (budget c) (stage_usage (ctl_state c)) \<and> recent_ok (recent_actions (ctl_state c)) \<and>
     frontier_wf (results (ctl_state c)) \<and>
     ledger_ok sha256 (budget c) (stop_reason (ctl_state c) \<noteq> None) (resources (ctl_state c))"

section \<open>The guarantee\<close>

definition stop_guar :: "RunStopReason option \<Rightarrow> RunStopReason option \<Rightarrow> bool" where
  "stop_guar r r' \<longleftrightarrow> (r \<noteq> None \<longrightarrow> r' = r)"

definition phase_guar :: "RunPhase \<Rightarrow> RunPhase \<Rightarrow> bool" where
  "phase_guar ph ph' \<longleftrightarrow> (ph = TerminalCommitted \<longrightarrow> ph' = TerminalCommitted)"

definition ctl_guar :: "AgentRunControl \<Rightarrow> AgentRunControl \<Rightarrow> bool" where
  "ctl_guar c c' \<longleftrightarrow>
     budget c' = budget c \<and> user_cancelled c' = user_cancelled c \<and>
     parent_cancelled c' = parent_cancelled c \<and>
     stop_guar (stop_reason (ctl_state c)) (stop_reason (ctl_state c')) \<and>
     phase_guar (phase (ctl_state c)) (phase (ctl_state c')) \<and>
     steer_epoch c \<le> steer_epoch c' \<and>
     (phase (ctl_state c) = TerminalCommitted \<longrightarrow> steer_epoch c' = steer_epoch c) \<and>
     applied_steer_epoch (ctl_state c) \<le> applied_steer_epoch (ctl_state c') \<and>
     model_calls c \<le> model_calls c' \<and> agent_turns c \<le> agent_turns c' \<and>
     repair_attempts c \<le> repair_attempts c' \<and>
     model_call_limit (ctl_state c) \<le> model_call_limit (ctl_state c') \<and>
     tool_call_limit (ctl_state c) \<le> tool_call_limit (ctl_state c') \<and>
     agent_turn_limit (ctl_state c) \<le> agent_turn_limit (ctl_state c') \<and>
     goal_delta_count (ctl_state c) \<le> goal_delta_count (ctl_state c') \<and>
     budget_extensions (ctl_state c) \<le> budget_extensions (ctl_state c')"

lemma stop_guar_refl [simp]: "stop_guar r r"
  by (simp add: stop_guar_def)

lemma stop_guar_None [simp]: "stop_guar None r"
  by (simp add: stop_guar_def)

lemma phase_guar_refl [simp]: "phase_guar ph ph"
  by (simp add: phase_guar_def)

lemma ctl_guar_refl [simp]: "ctl_guar c c"
  by (simp add: ctl_guar_def)

lemma ctl_guar_trans: "ctl_guar c d \<Longrightarrow> ctl_guar d e \<Longrightarrow> ctl_guar c e"
  unfolding ctl_guar_def stop_guar_def phase_guar_def by (intro conjI) (auto intro: order_trans)

definition advances :: "(nat list \<Rightarrow> nat list) \<Rightarrow> AgentRunControl \<Rightarrow> AgentRunControl \<Rightarrow> bool" where
  "advances sha256 c c' \<longleftrightarrow> (ctl_inv sha256 c \<longrightarrow> ctl_inv sha256 c' \<and> ctl_guar c c')"

lemma advances_refl [simp, intro]: "advances sha256 c c"
  by (simp add: advances_def)

lemma advances_trans: "advances sha256 c d \<Longrightarrow> advances sha256 d e \<Longrightarrow> advances sha256 c e"
  unfolding advances_def by (blast intro: ctl_guar_trans)

text \<open>The fields the invariant and the guarantee read. An operation that leaves them alone
  advances.\<close>

definition same_core :: "AgentRunControl \<Rightarrow> AgentRunControl \<Rightarrow> bool" where
  "same_core c c' \<longleftrightarrow>
     budget c' = budget c \<and> user_cancelled c' = user_cancelled c \<and>
     parent_cancelled c' = parent_cancelled c \<and> model_calls c' = model_calls c \<and>
     agent_turns c' = agent_turns c \<and> repair_attempts c' = repair_attempts c \<and>
     steer_epoch c' = steer_epoch c \<and>
     recent_actions (ctl_state c') = recent_actions (ctl_state c) \<and>
     goal_delta_count (ctl_state c') = goal_delta_count (ctl_state c) \<and>
     model_extension_goal_delta (ctl_state c') = model_extension_goal_delta (ctl_state c) \<and>
     tool_extension_goal_delta (ctl_state c') = tool_extension_goal_delta (ctl_state c) \<and>
     agent_turn_extension_goal_delta (ctl_state c') = agent_turn_extension_goal_delta (ctl_state c) \<and>
     model_call_limit (ctl_state c') = model_call_limit (ctl_state c) \<and>
     tool_call_limit (ctl_state c') = tool_call_limit (ctl_state c) \<and>
     agent_turn_limit (ctl_state c') = agent_turn_limit (ctl_state c) \<and>
     budget_extensions (ctl_state c') = budget_extensions (ctl_state c) \<and>
     stop_reason (ctl_state c') = stop_reason (ctl_state c) \<and>
     pending_steers (ctl_state c') = pending_steers (ctl_state c) \<and>
     applied_steer_epoch (ctl_state c') = applied_steer_epoch (ctl_state c) \<and>
     phase (ctl_state c') = phase (ctl_state c) \<and>
     stage_usage (ctl_state c') = stage_usage (ctl_state c) \<and>
     results (ctl_state c') = results (ctl_state c) \<and>
     resources (ctl_state c') = resources (ctl_state c)"

lemma same_core_advances: "same_core c c' \<Longrightarrow> advances sha256 c c'"
  unfolding same_core_def advances_def ctl_inv_def ctl_guar_def by simp

lemma note_progress_sel [simp]:
  "recent_actions (note_progress stg d n s) = recent_actions s"
  "goal_delta_count (note_progress stg d n s) = goal_delta_count s"
  "model_extension_goal_delta (note_progress stg d n s) = model_extension_goal_delta s"
  "tool_extension_goal_delta (note_progress stg d n s) = tool_extension_goal_delta s"
  "agent_turn_extension_goal_delta (note_progress stg d n s) = agent_turn_extension_goal_delta s"
  "model_call_limit (note_progress stg d n s) = model_call_limit s"
  "tool_call_limit (note_progress stg d n s) = tool_call_limit s"
  "agent_turn_limit (note_progress stg d n s) = agent_turn_limit s"
  "budget_extensions (note_progress stg d n s) = budget_extensions s"
  "stop_reason (note_progress stg d n s) = stop_reason s"
  "pending_steers (note_progress stg d n s) = pending_steers s"
  "applied_steer_epoch (note_progress stg d n s) = applied_steer_epoch s"
  "phase (note_progress stg d n s) = phase s"
  "stage_usage (note_progress stg d n s) = stage_usage s"
  "results (note_progress stg d n s) = results s"
  "resources (note_progress stg d n s) = resources s"
  "action_history (note_progress stg d n s) = action_history s"
  "continuation_actions (note_progress stg d n s) = continuation_actions s"
  "active_tool_calls (note_progress stg d n s) = active_tool_calls s"
  "active_model_calls (note_progress stg d n s) = active_model_calls s"
  "goal_delta_fingerprints (note_progress stg d n s) = goal_delta_fingerprints s"
  by (simp_all add: note_progress_def)

section \<open>Stopping\<close>

lemma ledger_ok_stop: "ledger_ok sha256 b False l \<Longrightarrow> ledger_ok sha256 b s l"
  by (auto simp: ledger_ok_def)

lemma ledger_ok_mono: "ledger_ok sha256 b s l \<Longrightarrow> (s \<Longrightarrow> s') \<Longrightarrow> ledger_ok sha256 b s' l"
  by (auto simp: ledger_ok_def)

text \<open>Setting a stop reason that the run did not have.\<close>

lemma advances_set_stop:
  "stop_reason (ctl_state c) = None \<Longrightarrow> advances sha256 c (upd (\<lambda>s. s\<lparr>stop_reason := Some r\<rparr>) c)"
  unfolding advances_def ctl_inv_def ctl_guar_def by (simp add: ledger_ok_stop)

lemma advances_or_stop: "advances sha256 c (upd (or_stop r) c)"
proof (cases "stop_reason (ctl_state c)")
  case None
  then have "upd (or_stop r) c = upd (\<lambda>s. s\<lparr>stop_reason := Some r\<rparr>) c"
    by (simp add: upd_def or_stop_def)
  with None show ?thesis by (simp add: advances_set_stop)
next
  case (Some x)
  then have "upd (or_stop r) c = c" by (simp add: upd_def or_stop_def)
  then show ?thesis by simp
qed

text \<open>The stop reason a refresh settles on, and the refresh in its terms.\<close>

definition new_stop :: "process \<Rightarrow> instant \<Rightarrow> AgentRunControl \<Rightarrow> RunStopReason option" where
  "new_stop p now c =
     (case stop_reason (ctl_state c) of
        Some r \<Rightarrow> Some r
      | None \<Rightarrow>
          if phase (ctl_state c) = TerminalCommitted then None
          else if cancellation_requested p c then Some UserCancelled
          else if now - started_at (ctl_state c) \<ge> max_duration (budget c) then Some DeadlineExceeded
          else if now - last_progress_at (ctl_state c) \<ge> idle_timeout (budget c) (ctl_state c)
          then Some NoProgress
          else None)"

lemma stop_reason_idem: "stop_reason s = r \<Longrightarrow> s\<lparr>stop_reason := r\<rparr> = s"
  by (cases s) simp

lemma control_idem: "c\<lparr>ctl_state := ctl_state c\<rparr> = c"
  by (cases c) simp

lemma upd_set_stop_same: "stop_reason (ctl_state c) = r \<Longrightarrow> upd (\<lambda>s. s\<lparr>stop_reason := r\<rparr>) c = c"
  by (simp add: upd_def stop_reason_idem control_idem)

lemma refresh_eq:
  "refresh_stop_reason p now c = (new_stop p now c, upd (\<lambda>s. s\<lparr>stop_reason := new_stop p now c\<rparr>) c)"
proof (cases "stop_reason (ctl_state c)")
  case (Some r)
  then have "or_stop UserCancelled (ctl_state c) = ctl_state c"
    by (simp add: or_stop_def stop_reason_idem)
  with Some show ?thesis
    by (simp add: refresh_stop_reason_def new_stop_def Let_def upd_set_stop_same control_idem)
next
  case None
  then have "or_stop UserCancelled (ctl_state c) = (ctl_state c)\<lparr>stop_reason := Some UserCancelled\<rparr>"
    by (simp add: or_stop_def)
  with None show ?thesis
    by (simp add: refresh_stop_reason_def new_stop_def Let_def upd_set_stop_same control_idem upd_def
        stop_reason_idem)
qed

lemma new_stop_Some: "stop_reason (ctl_state c) = Some r \<Longrightarrow> new_stop p now c = Some r"
  by (simp add: new_stop_def)

lemma new_stop_None: "new_stop p now c = None \<Longrightarrow> stop_reason (ctl_state c) = None"
  by (simp add: new_stop_def split: option.splits)

lemma refresh_None:
  assumes "refresh_stop_reason p now c = (None, c')"
  shows "c' = c" and "stop_reason (ctl_state c) = None"
    and "phase (ctl_state c) \<noteq> TerminalCommitted \<Longrightarrow> \<not> cancellation_requested p c"
  using assms by (auto simp: refresh_eq new_stop_None upd_set_stop_same)
    (auto simp: new_stop_def split: option.splits if_splits)

lemma advances_refresh: "advances sha256 c (snd (refresh_stop_reason p now c))"
proof (cases "new_stop p now c")
  case None
  then show ?thesis by (simp add: refresh_eq new_stop_None upd_set_stop_same)
next
  case (Some r)
  show ?thesis
  proof (cases "stop_reason (ctl_state c)")
    case None
    then show ?thesis using Some by (simp add: refresh_eq advances_set_stop)
  next
    case (Some r)
    then show ?thesis by (simp add: refresh_eq new_stop_Some upd_set_stop_same)
  qed
qed

lemma advances_refresh_eq: "refresh_stop_reason p now c = (r, c') \<Longrightarrow> advances sha256 c c'"
  using advances_refresh [of sha256 c p now] by simp

text \<open>Refresh, then go on: the rule every operation with stop-first semantics uses.\<close>

lemma advances_unless_stopped:
  assumes "stop_reason (ctl_state c) = None \<Longrightarrow> advances sha256 c (snd (body c))"
  shows "advances sha256 c (snd (unless_stopped p now body c))"
proof (cases "refresh_stop_reason p now c")
  case (Pair r c')
  show ?thesis
  proof (cases r)
    case None
    then show ?thesis using Pair refresh_None [of p now c c'] assms by (simp add: unless_stopped_def)
  next
    case (Some x)
    then show ?thesis using Pair advances_refresh_eq by (simp add: unless_stopped_def)
  qed
qed

lemma advances_at_epoch:
  assumes "stop_reason (ctl_state c) = None \<Longrightarrow> advances sha256 c (snd (body c))"
  shows "advances sha256 c (snd (at_epoch p now e body c))"
  unfolding at_epoch_def
  by (rule advances_unless_stopped) (use assms in \<open>auto split: prod.split\<close>)

lemma advances_set_stop_reason: "advances sha256 c (set_stop_reason r c)"
  by (simp add: set_stop_reason_def advances_or_stop)

lemma advances_request_cancel: "advances sha256 c (snd (snd (request_cancel p c)))"
  by (simp add: request_cancel_def advances_or_stop)

section \<open>Model calls, agent turns, repairs\<close>

lemma credit_ok_spend:
  assumes "credit_ok d m t a x"
  shows "m < d \<Longrightarrow> credit_ok d d t a (sat_add x 1)" and "t < d \<Longrightarrow> credit_ok d m d a (sat_add x 1)"
    and "a < d \<Longrightarrow> credit_ok d m t d (sat_add x 1)" and "x \<le> sat_add x 1"
  using assms unfolding credit_ok_def sat_add_def by auto

lemma limit_ok_extend:
  assumes "limit_ok l mx" "mx < u64_max"
  shows "limit_ok (min (sat_add l k) mx) mx" "l \<le> min (sat_add l k) mx"
  using assms unfolding limit_ok_def sat_add_def by auto

lemma budget_wf_bounds:
  assumes "budget_wf b"
  shows "max_model_calls b < u64_max" "max_tool_calls b < u64_max" "max_agent_turns b < u64_max"
    "max_repair_attempts b < u64_max" "max_total_tokens b < u64_max"
    "max_physical_model_attempts b < u64_max" "1 \<le> max_model_calls b"
  using assms by (simp_all add: budget_wf_def)

lemma ctl_invD:
  assumes "ctl_inv sha256 c"
  shows "sha256_ok sha256" "budget_wf (budget c)"
    "queue_ok (steer_epoch c) (applied_steer_epoch (ctl_state c)) (pending_steers (ctl_state c))"
    "limit_ok (model_call_limit (ctl_state c)) (max_model_calls (budget c))"
    "limit_ok (tool_call_limit (ctl_state c)) (max_tool_calls (budget c))"
    "limit_ok (agent_turn_limit (ctl_state c)) (max_agent_turns (budget c))"
    "model_calls c \<le> model_call_limit (ctl_state c)"
    "agent_turns c \<le> agent_turn_limit (ctl_state c)"
    "repair_attempts c \<le> max_repair_attempts (budget c)"
    "credit_ok (goal_delta_count (ctl_state c)) (model_extension_goal_delta (ctl_state c))
       (tool_extension_goal_delta (ctl_state c)) (agent_turn_extension_goal_delta (ctl_state c))
       (budget_extensions (ctl_state c))"
    "stages_ok (budget c) (stage_usage (ctl_state c))" "recent_ok (recent_actions (ctl_state c))"
    "frontier_wf (results (ctl_state c))"
    "ledger_ok sha256 (budget c) (stop_reason (ctl_state c) \<noteq> None) (resources (ctl_state c))"
  using assms unfolding ctl_inv_def by blast+

text \<open>Operations that only move the limits and the goal-delta credit.\<close>

definition same_accounts :: "AgentRunControl \<Rightarrow> AgentRunControl \<Rightarrow> bool" where
  "same_accounts c c' \<longleftrightarrow>
     budget c' = budget c \<and> user_cancelled c' = user_cancelled c \<and>
     parent_cancelled c' = parent_cancelled c \<and> model_calls c' = model_calls c \<and>
     agent_turns c' = agent_turns c \<and> repair_attempts c' = repair_attempts c \<and>
     steer_epoch c' = steer_epoch c \<and>
     recent_actions (ctl_state c') = recent_actions (ctl_state c) \<and>
     stop_reason (ctl_state c') = stop_reason (ctl_state c) \<and>
     pending_steers (ctl_state c') = pending_steers (ctl_state c) \<and>
     applied_steer_epoch (ctl_state c') = applied_steer_epoch (ctl_state c) \<and>
     phase (ctl_state c') = phase (ctl_state c) \<and>
     stage_usage (ctl_state c') = stage_usage (ctl_state c) \<and>
     results (ctl_state c') = results (ctl_state c) \<and>
     resources (ctl_state c') = resources (ctl_state c)"

definition limit_grows :: "usize \<Rightarrow> usize \<Rightarrow> usize \<Rightarrow> bool" where
  "limit_grows mx l l' \<longleftrightarrow> (1 \<le> l \<and> l \<le> mx \<longrightarrow> l \<le> l' \<and> l' \<le> mx)"

lemma limit_grows_refl [simp]: "limit_grows mx l l"
  by (simp add: limit_grows_def)

lemma limit_grows_extend: "mx < u64_max \<Longrightarrow> limit_grows mx l (min (sat_add l k) mx)"
  by (auto simp: limit_grows_def sat_add_def)

lemma limit_growsD: "limit_grows mx l l' \<Longrightarrow> limit_ok l mx \<Longrightarrow> limit_ok l' mx \<and> l \<le> l'"
  by (auto simp: limit_grows_def limit_ok_def)

lemma advances_credit:
  assumes same: "same_accounts c c'"
    and limits: "budget_wf (budget c) \<Longrightarrow>
      limit_grows (max_model_calls (budget c)) (model_call_limit (ctl_state c)) (model_call_limit (ctl_state c')) \<and>
      limit_grows (max_tool_calls (budget c)) (tool_call_limit (ctl_state c)) (tool_call_limit (ctl_state c')) \<and>
      limit_grows (max_agent_turns (budget c)) (agent_turn_limit (ctl_state c)) (agent_turn_limit (ctl_state c'))"
    and credit: "credit_ok (goal_delta_count (ctl_state c)) (model_extension_goal_delta (ctl_state c))
       (tool_extension_goal_delta (ctl_state c)) (agent_turn_extension_goal_delta (ctl_state c))
       (budget_extensions (ctl_state c)) \<Longrightarrow>
      credit_ok (goal_delta_count (ctl_state c')) (model_extension_goal_delta (ctl_state c'))
       (tool_extension_goal_delta (ctl_state c')) (agent_turn_extension_goal_delta (ctl_state c'))
       (budget_extensions (ctl_state c')) \<and>
      goal_delta_count (ctl_state c) \<le> goal_delta_count (ctl_state c') \<and>
      budget_extensions (ctl_state c) \<le> budget_extensions (ctl_state c')"
  shows "advances sha256 c c'"
  unfolding advances_def
proof
  assume inv: "ctl_inv sha256 c"
  note I = ctl_invD [OF inv]
  have L: "limit_ok (model_call_limit (ctl_state c')) (max_model_calls (budget c))"
    "limit_ok (tool_call_limit (ctl_state c')) (max_tool_calls (budget c))"
    "limit_ok (agent_turn_limit (ctl_state c')) (max_agent_turns (budget c))"
    and M: "model_call_limit (ctl_state c) \<le> model_call_limit (ctl_state c')"
    "tool_call_limit (ctl_state c) \<le> tool_call_limit (ctl_state c')"
    "agent_turn_limit (ctl_state c) \<le> agent_turn_limit (ctl_state c')"
    using limits [OF I(2)] I(4,5,6) limit_growsD by blast+
  have "ctl_inv sha256 c'"
    unfolding ctl_inv_def using same I L le_trans [OF I(7) M(1)] le_trans [OF I(8) M(3)] credit [OF I(10)]
    by (simp add: same_accounts_def)
  moreover have "ctl_guar c c'"
    unfolding ctl_guar_def using same M credit [OF I(10)] by (simp add: same_accounts_def)
  ultimately show "ctl_inv sha256 c' \<and> ctl_guar c c'" ..
qed

lemma advances_extend_model:
  "advances sha256 c (c\<lparr>ctl_state := snd (extend_model_budget_if_progressed (budget c) n (ctl_state c))\<rparr>)"
  by (rule advances_credit)
    (simp_all add: extend_model_budget_if_progressed_def Let_def same_accounts_def limit_grows_extend
      budget_wf_bounds credit_ok_spend del: One_nat_def)

lemma advances_extend_tool:
  "advances sha256 c (c\<lparr>ctl_state := snd (extend_tool_budget_if_progressed (budget c) n (ctl_state c))\<rparr>)"
  by (rule advances_credit)
    (simp_all add: extend_tool_budget_if_progressed_def Let_def same_accounts_def limit_grows_extend
      budget_wf_bounds credit_ok_spend del: One_nat_def)

lemma advances_extend_agent_turn:
  "advances sha256 c (c\<lparr>ctl_state := snd (extend_agent_turn_budget_if_progressed (budget c) n (ctl_state c))\<rparr>)"
  by (rule advances_credit)
    (simp_all add: extend_agent_turn_budget_if_progressed_def Let_def same_accounts_def limit_grows_extend
      budget_wf_bounds credit_ok_spend del: One_nat_def)

lemma advances_under_inv: "(ctl_inv sha256 c \<Longrightarrow> advances sha256 c c') \<Longrightarrow> advances sha256 c c'"
  by (auto simp: advances_def)

lemma advances_count_model:
  "model_calls c < model_call_limit (ctl_state c) \<Longrightarrow> advances sha256 c (c\<lparr>model_calls := Suc (model_calls c)\<rparr>)"
  unfolding advances_def ctl_inv_def ctl_guar_def by simp

lemma advances_count_turn:
  "agent_turns c < agent_turn_limit (ctl_state c) \<Longrightarrow> advances sha256 c (c\<lparr>agent_turns := Suc (agent_turns c)\<rparr>)"
  unfolding advances_def ctl_inv_def ctl_guar_def by simp

lemma advances_count_repair:
  "repair_attempts c < max_repair_attempts (budget c) \<Longrightarrow>
   advances sha256 c (c\<lparr>repair_attempts := Suc (repair_attempts c)\<rparr>)"
  unfolding advances_def ctl_inv_def ctl_guar_def by simp

lemma ctl_inv_counts:
  assumes "ctl_inv sha256 c"
  shows "wrap_add (model_calls c) (Suc 0) = Suc (model_calls c)" "wrap_sub (Suc (model_calls c)) (Suc 0) = model_calls c"
    "wrap_add (agent_turns c) (Suc 0) = Suc (agent_turns c)" "wrap_sub (Suc (agent_turns c)) (Suc 0) = agent_turns c"
    "wrap_add (repair_attempts c) (Suc 0) = Suc (repair_attempts c)"
    "wrap_sub (Suc (repair_attempts c)) (Suc 0) = repair_attempts c"
proof -
  note I = ctl_invD [OF assms]
  have *: "model_calls c < u64_max" "agent_turns c < u64_max" "repair_attempts c < u64_max"
    using I(4,6,7,8,9) budget_wf_bounds [OF I(2)] by (auto simp: limit_ok_def)
  then show "wrap_add (model_calls c) (Suc 0) = Suc (model_calls c)" "wrap_sub (Suc (model_calls c)) (Suc 0) = model_calls c"
    "wrap_add (agent_turns c) (Suc 0) = Suc (agent_turns c)" "wrap_sub (Suc (agent_turns c)) (Suc 0) = agent_turns c"
    "wrap_add (repair_attempts c) (Suc 0) = Suc (repair_attempts c)"
    "wrap_sub (Suc (repair_attempts c)) (Suc 0) = repair_attempts c"
    by (simp_all add: wrap_sub_exact)
qed

text \<open>The extension functions: what an accepted and what a refused extension means.\<close>

lemma extend_model_sel:
  "stop_reason (snd (extend_model_budget_if_progressed b n s)) = stop_reason s"
  "fst (extend_model_budget_if_progressed b n s) \<Longrightarrow>
     n \<le> model_call_limit (snd (extend_model_budget_if_progressed b n s))"
  by (auto simp: extend_model_budget_if_progressed_def Let_def split: if_splits)

lemma extend_tool_sel:
  "stop_reason (snd (extend_tool_budget_if_progressed b n s)) = stop_reason s"
  "fst (extend_tool_budget_if_progressed b n s) \<Longrightarrow>
     n \<le> tool_call_limit (snd (extend_tool_budget_if_progressed b n s))"
  by (auto simp: extend_tool_budget_if_progressed_def Let_def split: if_splits)

lemma extend_agent_turn_sel:
  "stop_reason (snd (extend_agent_turn_budget_if_progressed b n s)) = stop_reason s"
  "fst (extend_agent_turn_budget_if_progressed b n s) \<Longrightarrow>
     n \<le> agent_turn_limit (snd (extend_agent_turn_budget_if_progressed b n s))"
  by (auto simp: extend_agent_turn_budget_if_progressed_def Let_def split: if_splits)

text \<open>The state after the limit check of a model call: the limit as it is, or extended.\<close>

definition checked_model :: "AgentRunControl \<Rightarrow> bool \<times> AgentRunControl" where
  "checked_model c =
     (if Suc (model_calls c) > model_call_limit (ctl_state c)
      then (fst (extend_model_budget_if_progressed (budget c) (Suc (model_calls c)) (ctl_state c)),
            c\<lparr>ctl_state := snd (extend_model_budget_if_progressed (budget c) (Suc (model_calls c)) (ctl_state c))\<rparr>)
      else (True, c))"

lemma checked_model_facts:
  shows "advances sha256 c (snd (checked_model c))"
    and "stop_reason (ctl_state (snd (checked_model c))) = stop_reason (ctl_state c)"
    and "model_calls (snd (checked_model c)) = model_calls c"
    and "fst (checked_model c) \<Longrightarrow>
      model_calls (snd (checked_model c)) < model_call_limit (ctl_state (snd (checked_model c)))"
  using extend_model_sel(2) [of "budget c" "Suc (model_calls c)" "ctl_state c"]
  by (auto simp: checked_model_def advances_extend_model extend_model_sel(1))

lemma begin_model_call_locked_eq:
  assumes "ctl_inv sha256 c"
  shows "begin_model_call_locked clk stg c =
    (case checked_model c of (ok, d) \<Rightarrow>
       if ok then
         (Inr (Suc (model_calls c)),
          upd (\<lambda>s. note_progress stg (lit ''model request started'') (clk 1)
               (s\<lparr>active_model_calls := sat_add (active_model_calls s) 1,
                  telemetry := telemetry_begin_model_call (clk 0) (telemetry s)\<rparr>))
            (d\<lparr>model_calls := Suc (model_calls d)\<rparr>))
       else (Inl ModelCallBudgetExceeded, upd (\<lambda>s. s\<lparr>stop_reason := Some ModelCallBudgetExceeded\<rparr>) d))"
  using ctl_inv_counts(1,2) [OF assms]
  by (cases c) (auto simp: begin_model_call_locked_def checked_model_def Let_def upd_def split: prod.splits)

lemma advances_begin_model_call_locked:
  assumes none: "stop_reason (ctl_state c) = None"
  shows "advances sha256 c (snd (begin_model_call_locked clk stg c))"
proof (rule advances_under_inv)
  assume inv: "ctl_inv sha256 c"
  obtain ok d where d: "checked_model c = (ok, d)" by fastforce
  note F = checked_model_facts [where c = c, unfolded d, simplified]
  have "advances sha256 d (snd (begin_model_call_locked clk stg c))"
  proof (cases ok)
    case True
    have "advances sha256 d (d\<lparr>model_calls := Suc (model_calls d)\<rparr>)"
      using F(4) True F(3) by (intro advances_count_model) simp
    moreover have "advances sha256 (d\<lparr>model_calls := Suc (model_calls d)\<rparr>) (snd (begin_model_call_locked clk stg c))"
      unfolding begin_model_call_locked_eq [OF inv] d using True
      by (intro same_core_advances) (simp add: same_core_def)
    ultimately show ?thesis by (rule advances_trans)
  next
    case False
    then show ?thesis
      unfolding begin_model_call_locked_eq [OF inv] d using none F(2) by (simp add: advances_set_stop)
  qed
  with F(1) show "advances sha256 c (snd (begin_model_call_locked clk stg c))"
    by (rule advances_trans)
qed


definition checked_turn :: "AgentRunControl \<Rightarrow> bool \<times> AgentRunControl" where
  "checked_turn c =
     (if Suc (agent_turns c) > agent_turn_limit (ctl_state c)
      then (fst (extend_agent_turn_budget_if_progressed (budget c) (Suc (agent_turns c)) (ctl_state c)),
            c\<lparr>ctl_state := snd (extend_agent_turn_budget_if_progressed (budget c) (Suc (agent_turns c)) (ctl_state c))\<rparr>)
      else (True, c))"

lemma checked_turn_facts:
  shows "advances sha256 c (snd (checked_turn c))"
    and "stop_reason (ctl_state (snd (checked_turn c))) = stop_reason (ctl_state c)"
    and "agent_turns (snd (checked_turn c)) = agent_turns c"
    and "fst (checked_turn c) \<Longrightarrow>
      agent_turns (snd (checked_turn c)) < agent_turn_limit (ctl_state (snd (checked_turn c)))"
  using extend_agent_turn_sel(2) [of "budget c" "Suc (agent_turns c)" "ctl_state c"]
  by (auto simp: checked_turn_def advances_extend_agent_turn extend_agent_turn_sel(1))

lemma record_agent_turn_locked_eq:
  assumes "ctl_inv sha256 c"
  shows "record_agent_turn_locked clk stg c =
    (case checked_turn c of (ok, d) \<Rightarrow>
       if ok then
         (Inr (Suc (agent_turns c)),
          upd (note_progress stg (lit ''agent turn completed'') (clk 0))
            (d\<lparr>agent_turns := Suc (agent_turns d)\<rparr>))
       else (Inl TurnBudgetExhausted, upd (\<lambda>s. s\<lparr>stop_reason := Some TurnBudgetExhausted\<rparr>) d))"
  using ctl_inv_counts(3,4) [OF assms]
  by (cases c) (auto simp: record_agent_turn_locked_def checked_turn_def Let_def upd_def split: prod.splits)

lemma advances_record_agent_turn_locked:
  assumes none: "stop_reason (ctl_state c) = None"
  shows "advances sha256 c (snd (record_agent_turn_locked clk stg c))"
proof (rule advances_under_inv)
  assume inv: "ctl_inv sha256 c"
  obtain ok d where d: "checked_turn c = (ok, d)" by fastforce
  note F = checked_turn_facts [where c = c, unfolded d, simplified]
  have "advances sha256 d (snd (record_agent_turn_locked clk stg c))"
  proof (cases ok)
    case True
    have "advances sha256 d (d\<lparr>agent_turns := Suc (agent_turns d)\<rparr>)"
      using F(4) True F(3) by (intro advances_count_turn) simp
    moreover have "advances sha256 (d\<lparr>agent_turns := Suc (agent_turns d)\<rparr>) (snd (record_agent_turn_locked clk stg c))"
      unfolding record_agent_turn_locked_eq [OF inv] d using True
      by (intro same_core_advances) (simp add: same_core_def)
    ultimately show ?thesis by (rule advances_trans)
  next
    case False
    then show ?thesis
      unfolding record_agent_turn_locked_eq [OF inv] d using none F(2) by (simp add: advances_set_stop)
  qed
  with F(1) show "advances sha256 c (snd (record_agent_turn_locked clk stg c))"
    by (rule advances_trans)
qed

lemma advances_begin_repair_attempt_locked:
  "advances sha256 c (snd (begin_repair_attempt_locked clk stg c))"
proof (rule advances_under_inv)
  assume inv: "ctl_inv sha256 c"
  note W = ctl_inv_counts(5,6) [OF inv]
  show "advances sha256 c (snd (begin_repair_attempt_locked clk stg c))"
  proof (cases "repair_attempts c < max_repair_attempts (budget c)")
    case True
    have "advances sha256 (c\<lparr>repair_attempts := Suc (repair_attempts c)\<rparr>)
        (snd (begin_repair_attempt_locked clk stg c))"
      using True by (intro same_core_advances) (simp add: begin_repair_attempt_locked_def W same_core_def)
    with advances_count_repair [OF True] show ?thesis by (rule advances_trans)
  next
    case False
    then have "snd (begin_repair_attempt_locked clk stg c) = c"
      using W by (cases c) (simp add: begin_repair_attempt_locked_def Let_def)
    then show ?thesis by simp
  qed
qed

section \<open>Stage model calls\<close>

lemma stages_ok_upd:
  "stages_ok b m \<Longrightarrow> su_model_calls u \<le> sb_max_model_calls (stage_budget b cls) \<Longrightarrow> stages_ok b (m(cls \<mapsto> u))"
  by (auto simp: stages_ok_def)

lemma advances_stage_usage:
  "su_model_calls u \<le> sb_max_model_calls (stage_budget (budget c) cls) \<Longrightarrow>
   advances sha256 c (upd (\<lambda>s. s\<lparr>stage_usage := (stage_usage s)(cls \<mapsto> u)\<rparr>) c)"
  unfolding advances_def ctl_inv_def ctl_guar_def by (simp add: stages_ok_upd)

lemma begin_model_call_locked_stage_usage:
  "stage_usage (ctl_state (snd (begin_model_call_locked clk stg c))) = stage_usage (ctl_state c)"
  "budget (snd (begin_model_call_locked clk stg c)) = budget c"
  by (auto simp: begin_model_call_locked_def extend_model_budget_if_progressed_def Let_def split: prod.splits if_splits)

lemma advances_begin_stage_model_call_locked:
  assumes none: "stop_reason (ctl_state c) = None"
  shows "advances sha256 c (snd (begin_stage_model_call_locked clk stg cls c))"
proof (rule advances_under_inv)
  assume inv: "ctl_inv sha256 c"
  define sb where "sb = stage_budget (budget c) cls"
  define u where "u = (case stage_usage (ctl_state c) cls of
     Some u \<Rightarrow> u | None \<Rightarrow> \<lparr>su_started_at = clk 0, su_model_calls = 0\<rparr>)"
  define u' where "u' = u\<lparr>su_model_calls := sat_add (su_model_calls u) 1\<rparr>"
  define c1 where "c1 = upd (\<lambda>s. s\<lparr>stage_usage := (stage_usage s)(cls \<mapsto> u)\<rparr>) c"
  define c2 where "c2 = upd (\<lambda>s. s\<lparr>stage_usage := (stage_usage s)(cls \<mapsto> u')\<rparr>) c"
  obtain r c3 where c3: "begin_model_call_locked (clock_from 1 clk) stg c2 = (r, c3)" by fastforce
  have u_le: "su_model_calls u \<le> sb_max_model_calls sb"
    using ctl_invD(11) [OF inv] by (auto simp: u_def sb_def stages_ok_def split: option.split)
  have ex: "begin_stage_model_call_locked clk stg cls c =
      (if stage_reserve_reached cls (clk 0) c then (Inl StageBudgetExhausted, c)
       else if su_model_calls u \<ge> sb_max_model_calls sb \<or> clk 0 - su_started_at u \<ge> sb_max_duration sb
       then (Inl StageBudgetExhausted, c1)
       else case r of Inr call \<Rightarrow> (Inr call, c3)
         | Inl e \<Rightarrow> (Inl e, upd (\<lambda>s. s\<lparr>stage_usage := (stage_usage s)
              (cls \<mapsto> u'\<lparr>su_model_calls := su_model_calls u' - 1\<rparr>)\<rparr>) c3))"
    using begin_model_call_locked_stage_usage(1) [of "clock_from 1 clk" stg c2] c3
    unfolding begin_stage_model_call_locked_def Let_def sb_def [symmetric] u_def [symmetric]
      u'_def [symmetric] c1_def [symmetric] c2_def [symmetric]
    by (cases r) (simp_all add: upd_def c2_def)
  show "advances sha256 c (snd (begin_stage_model_call_locked clk stg cls c))"
  proof (cases "su_model_calls u \<ge> sb_max_model_calls sb")
    case True
    have "advances sha256 c c1"
      unfolding c1_def using u_le by (intro advances_stage_usage) (simp add: sb_def)
    then show ?thesis unfolding ex using True by simp
  next
    case False
    have u'_le: "su_model_calls u' \<le> sb_max_model_calls sb"
      using False sat_add_le_sum [of "su_model_calls u" 1] by (simp add: u'_def)
    have c2: "advances sha256 c c2" and c1: "advances sha256 c c1"
      unfolding c1_def c2_def using u_le u'_le by (auto intro!: advances_stage_usage simp: sb_def)
    have "stop_reason (ctl_state c2) = None" using none by (simp add: c2_def)
    from advances_begin_model_call_locked [OF this, of sha256 "clock_from 1 clk" stg]
    have "advances sha256 c2 c3" by (simp add: c3 del: One_nat_def)
    with c2 have c3': "advances sha256 c c3" by (rule advances_trans)
    have "budget c3 = budget c"
      using begin_model_call_locked_stage_usage(2) [of "clock_from 1 clk" stg c2] c3 by (simp add: c2_def)
    with u'_le have "advances sha256 c3 (upd (\<lambda>s. s\<lparr>stage_usage := (stage_usage s)
        (cls \<mapsto> u'\<lparr>su_model_calls := su_model_calls u' - 1\<rparr>)\<rparr>) c3)"
      by (intro advances_stage_usage) (simp add: sb_def)
    from advances_trans [OF c3' this] c3' c1 show ?thesis unfolding ex by (simp split: sum.split)
  qed
qed

section \<open>Physical attempts and results\<close>

lemma ledger_ok_reserve:
  assumes ok: "ledger_ok sha256 b s l" and sha: "sha256_ok sha256" and b: "budget_wf b"
    and res: "ledger_reserve sha256 b cls m x y l = (r, l')"
  shows "ledger_ok sha256 b s l'"
proof (cases r)
  case (Inl e)
  then show ?thesis using reserve_Inl [of sha256 b cls m x y l e l'] ok res by simp
next
  case (Inr a)
  note B = budget_wf_bounds(5,6) [OF b]
  note W = reserve_within_allowance [OF res [unfolded Inr] B]
  have "ledger_canonical sha256 l'"
    using ledger_canonical_reserve [OF _ sha res [unfolded Inr] B] ok by (simp add: ledger_ok_def)
  moreover have "committed_tokens (lg_segment l') \<le> max_total_tokens b"
    using W(1) sat_add_le_sum [of "ru_total_tokens (lg_segment l')" "ru_reserved_tokens (lg_segment l')"]
    unfolding committed_tokens_def by linarith
  moreover have "ru_physical_attempts (lg_segment l') \<le> max_physical_model_attempts b"
    using W(2) by linarith
  ultimately show ?thesis by (simp add: ledger_ok_def)
qed

lemma settle_physical:
  assumes "bt_wf (lg_pending_attempts l)" "ledger_settle sha256 b a u l = (st, l')"
  shows "ru_physical_attempts (lg_segment l') = ru_physical_attempts (lg_segment l)"
  using assms by (cases rule: settle_cases) auto

lemma settle_exhausted:
  assumes "bt_wf (lg_pending_attempts l)" "ledger_settle sha256 b a u l = (st, l')"
    and "\<not> st_exhausted st"
  shows "l' = l \<or> committed_tokens (lg_segment l') \<le> max_total_tokens b"
  using assms by (auto simp: ledger_settle_def Let_def bt_reinsert_removed split: if_splits option.splits)

lemma ledger_ok_settle:
  assumes ok: "ledger_ok sha256 b s l" and sha: "sha256_ok sha256"
    and st: "ledger_settle sha256 b a u l = (st, l')"
  shows "ledger_ok sha256 b (s \<or> st_exhausted st) l'"
proof -
  have can: "ledger_canonical sha256 l" using ok by (simp add: ledger_ok_def)
  then have bt: "bt_wf (lg_pending_attempts l)" by (simp add: ledger_canonical_def ledger_wf_def)
  show ?thesis
    using ok ledger_canonical_settle [OF can sha st] settle_physical [OF bt st] settle_exhausted [OF bt st]
    by (auto simp: ledger_ok_def)
qed

lemma advances_resources:
  "ledger_ok sha256 (budget c) (stop_reason (ctl_state c) \<noteq> None) l \<Longrightarrow>
   advances sha256 c (upd (\<lambda>s. s\<lparr>resources := l\<rparr>) c)"
  unfolding advances_def ctl_inv_def ctl_guar_def by simp

lemma advances_begin_physical_model_attempt_locked:
  assumes none: "stop_reason (ctl_state c) = None"
  shows "advances sha256 c (snd (begin_physical_model_attempt_locked sha256 m x y cls c))"
proof (rule advances_under_inv)
  assume inv: "ctl_inv sha256 c"
  obtain r l where rl: "ledger_reserve sha256 (budget c) cls m x y (resources (ctl_state c)) = (r, l)"
    by fastforce
  have "ledger_ok sha256 (budget c) (stop_reason (ctl_state c) \<noteq> None) l"
    using ledger_ok_reserve [OF _ _ _ rl] ctl_invD [OF inv] by blast
  note A = advances_resources [OF this]
  have B: "advances sha256 c (upd (\<lambda>s. s\<lparr>resources := l, stop_reason := Some z\<rparr>) c)" for z
    using advances_trans [OF A advances_set_stop] none by (simp add: upd_def)
  show "advances sha256 c (snd (begin_physical_model_attempt_locked sha256 m x y cls c))"
    using A B by (simp add: begin_physical_model_attempt_locked_def rl split: sum.split ResourceAdmissionError.split)
qed

lemma advances_settle_attempt: "advances sha256 c (snd (settle_attempt sha256 a u c))"
proof (rule advances_under_inv)
  assume inv: "ctl_inv sha256 c"
  obtain st l where sl: "ledger_settle sha256 (budget c) a u (resources (ctl_state c)) = (st, l)"
    by fastforce
  note ok = ledger_ok_settle [OF ctl_invD(14,1) [OF inv] sl]
  show "advances sha256 c (snd (settle_attempt sha256 a u c))"
  proof (cases "st_exhausted st")
    case True
    then show ?thesis
      using inv ok unfolding advances_def ctl_inv_def ctl_guar_def
      by (cases "stop_reason (ctl_state c)")
        (simp_all add: settle_attempt_def sl Let_def stop_guar_def or_stop_def)
  next
    case False
    then show ?thesis
      using ok by (simp add: settle_attempt_def sl Let_def advances_resources)
  qed
qed

lemma advances_finish_physical_model_attempt:
  "advances sha256 c (snd (finish_physical_model_attempt sha256 a u c))"
  "advances sha256 c (snd (finish_physical_model_attempt_at sha256 p e a u c))"
  using advances_settle_attempt [of sha256 c a u]
  by (simp_all add: finish_physical_model_attempt_def finish_physical_model_attempt_at_def case_prod_unfold)

lemma advances_results:
  "frontier_wf f \<Longrightarrow> advances sha256 c (upd (\<lambda>s. s\<lparr>results := f\<rparr>) c)"
  unfolding advances_def ctl_inv_def ctl_guar_def by simp

lemma advances_record_best_known_result_at:
  "advances sha256 c (snd (record_best_known_result_at clk e stg content q n ver del c))"
proof (rule advances_under_inv)
  assume inv: "ctl_inv sha256 c"
  obtain rep f where f: "frontier_record stg content q n ver del (results (ctl_state c)) = (rep, f)"
    by fastforce
  have "frontier_wf f"
    using frontier_record_wf [OF ctl_invD(13) [OF inv], of stg content q n ver del] f by simp
  note A = advances_results [OF this, of sha256 c]
  have "advances sha256 (upd (\<lambda>s. s\<lparr>results := f\<rparr>) c) (upd (\<lambda>s. s\<lparr>results := f, last_progress_at := t\<rparr>) c)" for t
    by (rule same_core_advances) (simp add: same_core_def)
  from advances_trans [OF A this] A
  show "advances sha256 c (snd (record_best_known_result_at clk e stg content q n ver del c))"
    by (cases rep) (simp_all add: record_best_known_result_at_def f Let_def)
qed

section \<open>Operations outside the core\<close>

lemma advances_finish_model_call:
  "advances sha256 c (finish_model_call clk c)"
  "advances sha256 c (snd (finish_model_call_at p clk e c))"
  "advances sha256 c (finish_tool_call clk c)"
  "advances sha256 c (snd (finish_tool_call_at p clk e c))"
  by (auto intro!: same_core_advances
      simp: same_core_def finish_model_call_def finish_model_call_at_def finish_tool_call_def
        finish_tool_call_at_def Let_def)

lemma advances_progress:
  "advances sha256 c (mark_progress clk stg det c)"
  "advances sha256 c (snd (mark_progress_at p clk e stg det c))"
  "advances sha256 c (note_wire_activity p clk stg det c)"
  "advances sha256 c (record_context_compaction c)"
  "advances sha256 c (record_rolling_summary c)"
  "advances sha256 c (record_retrieval ms ch hits c)"
  "advances sha256 c (snd (record_partial_output_at clk e out c))"
  "advances sha256 c (record_external_tool_call c)"
  "advances sha256 c (snd (record_tool_continuation_at fp e scope tool input eff complete c))"
  by (auto intro!: same_core_advances
      simp: same_core_def mark_progress_def mark_progress_at_def note_wire_activity_def
        record_context_compaction_def record_rolling_summary_def record_retrieval_def
        record_partial_output_at_def record_external_tool_call_def record_tool_continuation_at_def Let_def)

lemma advances_evidence:
  "advances sha256 c (snd (record_observation_at fp clk e stg det ev c))"
  "advances sha256 c (snd (record_checkpoint_at fp clk e stg det ev c))"
  by (auto intro!: same_core_advances
      simp: same_core_def record_observation_at_def record_checkpoint_at_def Let_def)

end
