(* ===== verification/Control_Operations.thy ===== *)
theory Control_Operations
  imports Control_Invariants
begin

text \<open>
  The remaining operations of the run control advance: tool calls and batches, the steer
  queue, the closures that commit under the lock, goal deltas and treatments. The equations
  \<open>begin_tool_call_locked_eq\<close> and \<open>begin_tool_call_batch_locked_eq\<close> split the two
  admissions into counting, limit check and repeated-action guard.
\<close>

section \<open>Tool calls\<close>

lemma length_keep_recent: "length (keep_recent xs) \<le> 24"
  by (simp add: keep_recent_def)

lemma advances_recent:
  "length xs \<le> 24 \<Longrightarrow> advances sha256 c (upd (\<lambda>s. s\<lparr>recent_actions := (recent_actions s)(scope \<mapsto> xs)\<rparr>) c)"
  unfolding advances_def ctl_inv_def ctl_guar_def by (simp add: recent_ok_def)

lemma advances_refuse_tool_call:
  "stop_reason (ctl_state c) = None \<Longrightarrow> advances sha256 c (refuse_tool_call r c)"
  unfolding refuse_tool_call_def
  by (rule advances_trans [OF same_core_advances advances_set_stop]) (simp_all add: same_core_def)

lemma advances_start_tool_call: "advances sha256 c (start_tool_call clk tool c)"
  by (rule same_core_advances) (simp add: same_core_def start_tool_call_def)

text \<open>The control after the counting, the lease and the limit check of a tool call.\<close>

definition counted_tool_call :: "hasher \<Rightarrow> ustring \<Rightarrow> ustring \<Rightarrow> ustring \<Rightarrow> AgentRunControl \<Rightarrow> AgentRunControl" where
  "counted_tool_call fp scope tool input c =
     (let c1 = c\<lparr>tool_calls := wrap_add (tool_calls c) 1\<rparr>;
          lease = continuation_actions (ctl_state c) scope
      in if lease \<noteq> None \<and> lease \<noteq> Some (fp (HashStrs tool input))
         then upd (\<lambda>s. s\<lparr>continuation_actions := (continuation_actions s)(scope := None)\<rparr>) c1 else c1)"

definition checked_tool :: "usize \<Rightarrow> AgentRunControl \<Rightarrow> bool \<times> AgentRunControl" where
  "checked_tool n c =
     (if n > tool_call_limit (ctl_state c)
      then (fst (extend_tool_budget_if_progressed (budget c) n (ctl_state c)),
            c\<lparr>ctl_state := snd (extend_tool_budget_if_progressed (budget c) n (ctl_state c))\<rparr>)
      else (True, c))"

lemma checked_tool_facts:
  shows "advances sha256 c (snd (checked_tool n c))"
    and "stop_reason (ctl_state (snd (checked_tool n c))) = stop_reason (ctl_state c)"
    and "fst (checked_tool n c) \<Longrightarrow> n \<le> tool_call_limit (ctl_state (snd (checked_tool n c)))"
    and "budget (snd (checked_tool n c)) = budget c" and "tool_calls (snd (checked_tool n c)) = tool_calls c"
    and "action_history (ctl_state (snd (checked_tool n c))) = action_history (ctl_state c)"
    and "recent_actions (ctl_state (snd (checked_tool n c))) = recent_actions (ctl_state c)"
    and "continuation_actions (ctl_state (snd (checked_tool n c))) = continuation_actions (ctl_state c)"
  using extend_tool_sel(2) [of "budget c" n "ctl_state c"]
  by (auto simp: checked_tool_def advances_extend_tool extend_tool_sel(1))
    (auto simp: extend_tool_budget_if_progressed_def Let_def)

text \<open>The repeated-action guard on a control: the recorded action and the verdict.\<close>

definition guarded_action :: "ustring \<Rightarrow> u64 \<Rightarrow> AgentRunControl \<Rightarrow> bool \<times> AgentRunControl" where
  "guarded_action scope signature c =
     (let history = bump_history signature (action_history (ctl_state c) scope);
          c1 = upd (\<lambda>s. s\<lparr>action_history := (action_history s)(scope \<mapsto> history)\<rparr>) c;
          old = (case recent_actions (ctl_state c) scope of None \<Rightarrow> [] | Some xs \<Rightarrow> xs);
          recent = keep_recent (old @ [signature]);
          c2 = upd (\<lambda>s. s\<lparr>recent_actions := (recent_actions s)(scope \<mapsto> recent)\<rparr>) c1
      in if snd history > max_identical_actions (budget c) then (False, c1)
         else (\<not> has_repeated_action_cycle recent (wrap_add (max_identical_actions (budget c)) 1), c2))"

lemma begin_tool_call_locked_eq:
  "begin_tool_call_locked fp clk scope tool input c =
     (case checked_tool (wrap_add (tool_calls c) 1) (counted_tool_call fp scope tool input c) of (ok, c3) \<Rightarrow>
      if \<not> ok then (Inl ToolCallBudgetExceeded, refuse_tool_call ToolCallBudgetExceeded c3)
      else if continuation_actions (ctl_state c) scope = Some (fp (HashStrs tool input))
      then (Inr (wrap_add (tool_calls c) 1), start_tool_call clk tool c3)
      else (case guarded_action scope (fp (HashStrs tool input)) c3 of (fine, c5) \<Rightarrow>
        if fine then (Inr (wrap_add (tool_calls c) 1), start_tool_call clk tool c5)
        else (Inl RepeatedAction, refuse_tool_call RepeatedAction c5)))"
proof -
  define c2 where "c2 = counted_tool_call fp scope tool input c"
  define g where "g = fp (HashStrs tool input)"
  have b: "budget c2 = budget c" by (simp add: c2_def counted_tool_call_def Let_def)
  have c2: "(if continuation_actions (ctl_state c) scope \<noteq> None \<and> continuation_actions (ctl_state c) scope \<noteq> Some g
      then upd (\<lambda>s. s\<lparr>continuation_actions := (continuation_actions s)(scope := None)\<rparr>)
        (c\<lparr>tool_calls := wrap_add (tool_calls c) 1\<rparr>)
      else c\<lparr>tool_calls := wrap_add (tool_calls c) 1\<rparr>) = c2"
    by (simp add: c2_def counted_tool_call_def Let_def g_def)
  show ?thesis
    unfolding begin_tool_call_locked_def Let_def g_def [symmetric] c2 c2_def [symmetric] checked_tool_def
      guarded_action_def
    by (cases "wrap_add (tool_calls c) 1 > tool_call_limit (ctl_state c2)";
        cases "continuation_actions (ctl_state c) scope = Some g")
      (simp_all add: case_prod_unfold control_idem b del: One_nat_def)
qed

lemma guarded_action_facts:
  shows "advances sha256 c (snd (guarded_action scope g c))"
    and "stop_reason (ctl_state (snd (guarded_action scope g c))) = stop_reason (ctl_state c)"
proof -
  let ?h = "bump_history g (action_history (ctl_state c) scope)"
  let ?c1 = "upd (\<lambda>s. s\<lparr>action_history := (action_history s)(scope \<mapsto> ?h)\<rparr>) c"
  have A: "advances sha256 c ?c1" by (rule same_core_advances) (simp add: same_core_def)
  show "advances sha256 c (snd (guarded_action scope g c))"
    using A advances_trans [OF A advances_recent [OF length_keep_recent]]
    by (simp add: guarded_action_def Let_def)
  show "stop_reason (ctl_state (snd (guarded_action scope g c))) = stop_reason (ctl_state c)"
    by (simp add: guarded_action_def Let_def)
qed

lemma advances_begin_tool_call_locked:
  assumes none: "stop_reason (ctl_state c) = None"
  shows "advances sha256 c (snd (begin_tool_call_locked fp clk scope tool input c))"
proof -
  define c2 where "c2 = counted_tool_call fp scope tool input c"
  obtain ok c3 where c3: "checked_tool (wrap_add (tool_calls c) 1) c2 = (ok, c3)" by fastforce
  obtain fine c5 where c5: "guarded_action scope (fp (HashStrs tool input)) c3 = (fine, c5)" by fastforce
  have "advances sha256 c c2"
    unfolding c2_def by (rule same_core_advances) (simp add: same_core_def counted_tool_call_def Let_def)
  with checked_tool_facts(1) [where c = c2 and n = "wrap_add (tool_calls c) 1"] c3
  have a3: "advances sha256 c c3" by (metis advances_trans snd_conv)
  have n3: "stop_reason (ctl_state c3) = None"
    using checked_tool_facts(2) [where c = c2 and n = "wrap_add (tool_calls c) 1"] c3 none
    by (simp add: c2_def counted_tool_call_def Let_def)
  have a5: "advances sha256 c c5" and n5: "stop_reason (ctl_state c5) = None"
    using guarded_action_facts [where c = c3 and scope = scope and g = "fp (HashStrs tool input)"] c5 n3 a3
    by (auto intro: advances_trans)
  show ?thesis
    unfolding begin_tool_call_locked_eq c2_def [symmetric] c3 prod.case c5
    using advances_trans [OF a3 advances_refuse_tool_call [OF n3]]
      advances_trans [OF a3 advances_start_tool_call] advances_trans [OF a5 advances_start_tool_call]
      advances_trans [OF a5 advances_refuse_tool_call [OF n5]] by simp
qed

lemma batch_scan_recent:
  "batch_scan fp m calls lease hist recent = ScanDone lease' hist' recent' \<Longrightarrow> length recent \<le> 24 \<Longrightarrow>
   length recent' \<le> 24"
  by (induction fp m calls lease hist recent rule: batch_scan.induct)
    (auto simp: Let_def length_keep_recent split: if_splits option.splits)

lemma advances_commit_batch:
  "length recent \<le> 24 \<Longrightarrow> advances sha256 c (commit_batch clk scope calls n lease hist recent c)"
proof -
  assume "length recent \<le> 24"
  note A = advances_recent [OF this, of sha256 c scope]
  have "advances sha256 (upd (\<lambda>s. s\<lparr>recent_actions := (recent_actions s)(scope \<mapsto> recent)\<rparr>) c)
      (commit_batch clk scope calls n lease hist recent c)"
    by (rule same_core_advances) (simp add: same_core_def commit_batch_def Let_def split: option.split)
  with A show ?thesis by (rule advances_trans)
qed

lemma begin_tool_call_batch_locked_eq:
  "begin_tool_call_batch_locked fp clk scope calls ro c =
     (if length calls < 2 \<or> (continuation_actions (ctl_state c) scope \<noteq> None \<and> \<not> ro)
         \<or> checked_add (tool_calls c) (length calls) = None
         \<or> checked_add (active_tool_calls (ctl_state c)) (length calls) = None
         \<or> (tool_calls c + length calls > tool_call_limit (ctl_state c) \<and> \<not> ro)
      then (BatchSerialRequired, c)
      else case checked_tool (tool_calls c + length calls) c of (ok, c1) \<Rightarrow>
        if \<not> ok then (BatchStopped ToolCallBudgetExceeded,
             upd (\<lambda>s. s\<lparr>stop_reason := Some ToolCallBudgetExceeded\<rparr>) c1)
        else case batch_scan fp (max_identical_actions (budget c)) calls
               (continuation_actions (ctl_state c) scope) (action_history (ctl_state c) scope)
               (case recent_actions (ctl_state c) scope of None \<Rightarrow> [] | Some xs \<Rightarrow> xs) of
            ScanOverflow \<Rightarrow> (BatchSerialRequired, c1)
          | ScanRepeated \<Rightarrow>
              if ro then (BatchStopped RepeatedAction, upd (\<lambda>s. s\<lparr>stop_reason := Some RepeatedAction\<rparr>) c1)
              else (BatchSerialRequired, c1)
          | ScanDone lease hist recent \<Rightarrow>
              (BatchStarted (tool_calls c + 1) (length calls),
               commit_batch clk scope calls (tool_calls c + length calls) lease hist recent c1))"
proof (cases "checked_add (tool_calls c) (length calls)")
  case None
  then show ?thesis by (simp add: begin_tool_call_batch_locked_def Let_def)
next
  case (Some n)
  then have n: "n = tool_calls c + length calls" by (simp add: checked_add_def split: if_splits)
  note F = checked_tool_facts(6,7) [of n c]
  show ?thesis
    using F
    by (cases "n > tool_call_limit (ctl_state c)"; cases "continuation_actions (ctl_state c) scope"; cases ro)
      (simp_all add: begin_tool_call_batch_locked_def Some n checked_tool_def Let_def control_idem
        case_prod_unfold split: scan.split)
qed

lemma advances_begin_tool_call_batch_locked:
  assumes none: "stop_reason (ctl_state c) = None"
  shows "advances sha256 c (snd (begin_tool_call_batch_locked fp clk scope calls ro c))"
proof (rule advances_under_inv)
  assume inv: "ctl_inv sha256 c"
  define n where "n = tool_calls c + length calls"
  define old where "old = (case recent_actions (ctl_state c) scope of None \<Rightarrow> [] | Some xs \<Rightarrow> xs)"
  obtain ok c1 where c1: "checked_tool n c = (ok, c1)" by fastforce
  have a1: "advances sha256 c c1" and n1: "stop_reason (ctl_state c1) = None"
    using checked_tool_facts(1,2) [where c = c and n = n] c1 none by auto
  have "length old \<le> 24"
    using ctl_invD(12) [OF inv] by (auto simp: old_def recent_ok_def split: option.split)
  then have D: "advances sha256 c (commit_batch clk scope calls n lease hist recent c1)"
    if "batch_scan fp m calls l h old = ScanDone lease hist recent" for m l h lease hist recent
    using advances_trans [OF a1 advances_commit_batch] batch_scan_recent [OF that] by blast
  show "advances sha256 c (snd (begin_tool_call_batch_locked fp clk scope calls ro c))"
    unfolding begin_tool_call_batch_locked_eq n_def [symmetric] c1 old_def [symmetric] prod.case
    using a1 advances_trans [OF a1 advances_set_stop [OF n1]] D by (auto split: scan.split)
qed

text \<open>The epoch-bound variants.\<close>

lemma advances_begin_tool_call:
  "advances sha256 c (snd (begin_tool_call fp p clk scope tool input c))"
  "advances sha256 c (snd (begin_tool_call_with_epoch fp p clk lease scope tool input c))"
  "advances sha256 c (snd (begin_tool_call_at fp p clk e scope tool input c))"
  "advances sha256 c (snd (begin_tool_call_batch_with_epoch fp p clk lease scope calls ro c))"
proof -
  show "advances sha256 c (snd (begin_tool_call fp p clk scope tool input c))"
    unfolding begin_tool_call_def by (intro advances_unless_stopped advances_begin_tool_call_locked)
  obtain r c' where R: "refresh_stop_reason p (clk 0) c = (r, c')" by fastforce
  note A = advances_refresh_eq [OF R, of sha256]
  have N: "c' = c \<and> stop_reason (ctl_state c) = None" if "r = None"
    using refresh_None [of p "clk 0" c c'] R that by simp
  show "advances sha256 c (snd (begin_tool_call_with_epoch fp p clk lease scope tool input c))"
    "advances sha256 c (snd (begin_tool_call_at fp p clk e scope tool input c))"
    "advances sha256 c (snd (begin_tool_call_batch_with_epoch fp p clk lease scope calls ro c))"
    using A N advances_begin_tool_call_locked [of c sha256 fp "clock_from 1 clk" scope tool input]
      advances_begin_tool_call_batch_locked [of c sha256 fp "clock_from 1 clk" scope calls ro]
    unfolding begin_tool_call_with_epoch_def begin_tool_call_at_def begin_tool_call_batch_with_epoch_def R
    by (cases r; simp add: case_prod_unfold)+
qed

section \<open>Steers\<close>

lemma queue_ok_push:
  assumes "queue_ok e a q" "e < u64_max" "length q < MAX_PENDING_STEERS"
    and "\<forall>s \<in> set q. sr_queue_id s \<noteq> k"
  shows "queue_ok (Suc e) a (q @ [\<lparr>sr_queue_id = k, sr_epoch = Suc e\<rparr>])"
  using assms by (auto simp: queue_ok_def sorted_wrt_append less_Suc_eq_le)

lemma remove_first_steer_split:
  "remove_first_steer k q = Some (t, ts) \<Longrightarrow> \<exists>xs ys. q = xs @ t # ys \<and> ts = xs @ ys \<and> sr_queue_id t = k"
proof (induction k q arbitrary: ts rule: remove_first_steer.induct)
  case (2 k s ss)
  show ?case
  proof (cases "sr_queue_id s = k")
    case True
    with 2(2) show ?thesis by (metis append_Nil option.inject prod.inject remove_first_steer.simps(2))
  next
    case False
    with 2(2) obtain us where us: "remove_first_steer k ss = Some (t, us)" "ts = s # us" by auto
    from 2(1) [OF False us(1)] us(2) show ?thesis by (metis append_Cons)
  qed
qed simp

lemma queue_ok_remove:
  assumes ok: "queue_ok e a q" and rm: "remove_first_steer k q = Some (t, ts)"
  shows "queue_ok e (max a (sr_epoch t)) ts"
proof -
  obtain xs ys where q: "q = xs @ t # ys" and ts: "ts = xs @ ys"
    using remove_first_steer_split [OF rm] by blast
  show ?thesis
    using ok unfolding q ts queue_ok_def
    by (cases "ys = []") (auto simp: sorted_wrt_append max_def)
qed

lemma queue_ok_drain: "queue_ok e a q \<Longrightarrow> q \<noteq> [] \<Longrightarrow> queue_ok e (max a (sr_epoch (last q))) []"
  by (auto simp: queue_ok_def max_def intro: antisym)

lemma advances_pending:
  assumes "queue_ok (steer_epoch c) (applied_steer_epoch (ctl_state c)) (pending_steers (ctl_state c)) \<Longrightarrow>
      queue_ok (steer_epoch c) a q" and "applied_steer_epoch (ctl_state c) \<le> a"
  shows "advances sha256 c (upd (\<lambda>s. s\<lparr>pending_steers := q, applied_steer_epoch := a\<rparr>) c)"
  using assms unfolding advances_def ctl_inv_def ctl_guar_def by simp

lemma advances_accept_steer:
  assumes "phase (ctl_state c) \<noteq> TerminalCommitted" "steer_epoch c < u64_max"
    and "length (pending_steers (ctl_state c)) < MAX_PENDING_STEERS"
    and "\<forall>s \<in> set (pending_steers (ctl_state c)). sr_queue_id s \<noteq> k"
  shows "advances sha256 c (snd (accept_steer clk k c))"
  using assms unfolding advances_def ctl_inv_def ctl_guar_def
  by (simp add: accept_steer_def Let_def queue_ok_push)

lemma advances_acknowledge: "advances sha256 c (snd (acknowledge_pending_steer k c))"
proof (cases "remove_first_steer k (pending_steers (ctl_state c))")
  case None
  then show ?thesis by (simp add: acknowledge_pending_steer_def)
next
  case (Some tt)
  obtain t ts where tt: "tt = (t, ts)" by fastforce
  have "advances sha256 c (upd (\<lambda>s. s\<lparr>pending_steers := ts,
      applied_steer_epoch := max (applied_steer_epoch (ctl_state c)) (sr_epoch t)\<rparr>) c)"
    by (rule advances_pending) (use Some tt in \<open>auto intro: queue_ok_remove\<close>)
  then show ?thesis by (simp add: acknowledge_pending_steer_def Some tt upd_def)
qed

text \<open>Draining the queue, as the applied batches and \<open>take_pending_steers\<close> do.\<close>

definition drained :: "AgentRunControl \<Rightarrow> AgentRunControl" where
  "drained c = upd (\<lambda>s. apply_epoch_of (pending_steers (ctl_state c)) (s\<lparr>pending_steers := []\<rparr>)) c"

lemma drained_sel [simp]:
  "pending_steers (ctl_state (drained c)) = []" "steer_epoch (drained c) = steer_epoch c"
  "phase (ctl_state (drained c)) = phase (ctl_state c)" "budget (drained c) = budget c"
  "stop_reason (ctl_state (drained c)) = stop_reason (ctl_state c)"
  "user_cancelled (drained c) = user_cancelled c" "parent_cancelled (drained c) = parent_cancelled c"
  by (simp_all add: drained_def apply_epoch_of_def)

lemma advances_drained: "advances sha256 c (drained c)"
proof (cases "pending_steers (ctl_state c) = []")
  case True
  then have "drained c = c"
    by (cases c; cases "ctl_state c") (simp add: drained_def apply_epoch_of_def upd_def)
  then show ?thesis by simp
next
  case False
  have "advances sha256 c (upd (\<lambda>s. s\<lparr>pending_steers := [], applied_steer_epoch :=
      max (applied_steer_epoch (ctl_state c)) (sr_epoch (last (pending_steers (ctl_state c))))\<rparr>) c)"
    by (rule advances_pending) (use False in \<open>auto intro: queue_ok_drain\<close>)
  then show ?thesis using False by (simp add: drained_def apply_epoch_of_def upd_def)
qed

lemma drained_applied:
  "ctl_inv sha256 c \<Longrightarrow> applied_steer_epoch (ctl_state (drained c)) = steer_epoch c"
  using advances_drained [of sha256 c] by (auto simp: advances_def ctl_inv_def queue_ok_def)

lemma advances_open_applied_objective_segment:
  "advances sha256 c (open_applied_objective_segment clk c)"
  by (rule advances_credit)
    (auto simp: open_applied_objective_segment_def Let_def same_accounts_def limit_grows_def credit_ok_def)

section \<open>Commits\<close>

lemma advances_run_commit:
  assumes "\<And>v. advances sha256 c (snd (k v))"
  shows "advances sha256 c (fst (snd (run_commit commit k c w)))"
  using assms by (simp add: run_commit_def case_prod_unfold split: sum.split)

text \<open>Stop-first commits: refresh, and with no stop reason the rest of the operation.\<close>

lemma stop_first:
  assumes "stop_reason (ctl_state c) = None \<Longrightarrow> advances sha256 c (fst (snd (body c)))"
  shows "advances sha256 c (fst (snd (case refresh_stop_reason p now c of
     (Some r, c') \<Rightarrow> (Inr (stopped r), c', w) | (None, c') \<Rightarrow> body c')))"
proof (cases "refresh_stop_reason p now c")
  case (Pair r c')
  then show ?thesis
    using advances_refresh_eq [OF Pair] refresh_None [of p now c c'] assms by (cases r) auto
qed

lemma advances_set_phase:
  "phase (ctl_state c) \<noteq> TerminalCommitted \<Longrightarrow> advances sha256 c (upd (\<lambda>s. s\<lparr>phase := ph\<rparr>) c)"
  unfolding advances_def ctl_inv_def ctl_guar_def by (simp add: phase_guar_def)

lemma advances_commit_steer_request_with:
  assumes "steer_epoch c < u64_max"
  shows "advances sha256 c (fst (snd (commit_steer_request_with p clk k commit c w)))"
proof (cases "phase (ctl_state c) = TerminalCommitted")
  case True
  then show ?thesis by (simp add: commit_steer_request_with_def)
next
  case False
  show ?thesis
    unfolding commit_steer_request_with_def using False
    by simp (rule stop_first, auto intro!: advances_run_commit advances_accept_steer assms
      simp: case_prod_unfold not_le)
qed

lemma advances_begin_preparation: "advances sha256 c (snd (begin_preparation p clk c))"
proof (cases "phase (ctl_state c) = TerminalCommitted")
  case True
  then show ?thesis by (simp add: begin_preparation_def)
next
  case False
  obtain r c' where R: "refresh_stop_reason p (clk 0) c = (r, c')" by fastforce
  show ?thesis
    using False advances_refresh_eq [OF R, of sha256] refresh_None [of p "clk 0" c c'] R
    by (cases r) (auto simp: begin_preparation_def intro!: advances_set_phase)
qed

lemma lease_blocked_phase: "\<not> lease_blocked e ph c \<Longrightarrow> phase (ctl_state c) = ph"
  by (auto simp: lease_blocked_def)

lemma advances_commits:
  "advances sha256 c (fst (snd (commit_preparation_checkpoint_with p clk e commit c w)))"
  "advances sha256 c (fst (snd (commit_preparation_with p clk e commit c w)))"
  "advances sha256 c (fst (snd (commit_start_checkpoint_with p clk commit c w)))"
  "advances sha256 c (fst (snd (commit_execution_step_with p clk lease commit c w)))"
  "ph \<noteq> TerminalCommitted \<Longrightarrow> advances sha256 c (fst (snd (commit_terminal p clk e ph commit' c w)))"
proof -
  show "advances sha256 c (fst (snd (commit_preparation_checkpoint_with p clk e commit c w)))"
    unfolding commit_preparation_checkpoint_with_def
    by (rule stop_first) (auto intro!: advances_run_commit)
  show "advances sha256 c (fst (snd (commit_preparation_with p clk e commit c w)))"
    unfolding commit_preparation_with_def
    by (rule stop_first) (auto intro!: advances_run_commit advances_set_phase simp: lease_blocked_def)
  show "advances sha256 c (fst (snd (commit_start_checkpoint_with p clk commit c w)))"
    unfolding commit_start_checkpoint_with_def
    by (rule stop_first) (auto intro!: advances_run_commit)
  show "advances sha256 c (fst (snd (commit_execution_step_with p clk lease commit c w)))"
    unfolding commit_execution_step_with_def
    by (rule stop_first) (auto intro!: advances_run_commit)
  show "ph \<noteq> TerminalCommitted \<Longrightarrow> advances sha256 c (fst (snd (commit_terminal p clk e ph commit' c w)))"
    unfolding commit_terminal_def
    by (rule stop_first) (auto intro!: advances_run_commit advances_set_phase)
qed

lemma advances_commit_pending_steers:
  "advances sha256 c (fst (snd (commit_pending_steers_with_applied_objective p clk commit applied c w)))"
proof -
  have D: "upd (\<lambda>s. apply_epoch_of (pending_steers (ctl_state c))
      (s\<lparr>pending_steers := drop (length (pending_steers (ctl_state c))) (pending_steers s)\<rparr>)) c = drained c"
    by (simp add: drained_def upd_def)
  have "advances sha256 c (snd (let c1 = drained c;
      c2 = (if applied v then open_applied_objective_segment (clock_from 1 clk) c1 else c1)
      in (SteersCommitted v (pending_steers (ctl_state c)), c2)))" for v
    using advances_drained [of sha256 c]
      advances_trans [OF advances_drained advances_open_applied_objective_segment] by (simp add: Let_def)
  then show ?thesis
    unfolding commit_pending_steers_with_applied_objective_def
    by (intro stop_first) (auto simp: Let_def D intro!: advances_run_commit)
qed

lemma advances_take_pending_steers: "advances sha256 c (snd (take_pending_steers c))"
  using advances_drained [of sha256 c] by (simp add: take_pending_steers_def drained_def Let_def)

lemma advances_execution_epoch_lease: "advances sha256 c (snd (execution_epoch_lease p clk c))"
proof -
  obtain r c' where R: "refresh_stop_reason p (clk 0) c = (r, c')" by fastforce
  show ?thesis
    using advances_refresh_eq [OF R, of sha256] by (cases r) (auto simp: execution_epoch_lease_def R Let_def)
qed

section \<open>Goal deltas\<close>

lemma advances_record_goal_delta_locked: "advances sha256 c (snd (record_goal_delta_locked fp p now e d c))"
  by (rule advances_credit)
    (auto simp: record_goal_delta_locked_def Let_def same_accounts_def credit_ok_def sat_add_def)

lemma advances_count_goal_deltas: "advances sha256 c (snd (count_goal_deltas fp p clk e ds c))"
proof (induction fp p clk e ds c rule: count_goal_deltas.induct)
  case (2 fp p clk e d ds c)
  obtain ok c1 where R: "record_goal_delta_locked fp p (clk 0) e d c = (ok, c1)" by fastforce
  have "advances sha256 c c1"
    using advances_record_goal_delta_locked [of sha256 c fp p "clk 0" e d] R by simp
  from advances_trans [OF this 2 [OF R [symmetric]]] show ?case
    unfolding count_goal_deltas.simps R prod.case by (simp add: case_prod_unfold del: clock_from_apply)
qed simp

lemma advances_commit_goal_deltas:
  "advances sha256 c (fst (snd (commit_goal_deltas_at_with fp sha t0 t1 t2 t3 at e ds commit c p w)))"
  using advances_count_goal_deltas [of sha256 c fp _ t3 e ds]
  by (simp add: commit_goal_deltas_at_with_def case_prod_unfold split: sum.split)

lemma advances_isolated_treatment:
  "advances sha256 c (fst (snd (isolated_treatment clk n c p)))"
proof -
  obtain r c' where R: "refresh_stop_reason p (clk 0) c = (r, c')" by fastforce
  show ?thesis
    using advances_refresh_eq [OF R, of sha256]
    by (cases r) (auto simp: isolated_treatment_def R split: option.split prod.split)
qed

end
