(* ===== verification/Control_Steps.thy ===== *)
theory Control_Steps
  imports Control_Operations
begin

text \<open>
  The run control as a step system: one rule per public operation that can change the control,
  the process or the store, with arbitrary arguments, clock readings and closures, plus the rule
  \<open>others\<close> for the rest of the process. A closure's value is the bit
  \<open>objective_applied\<close> reads, its error a string. The wrappers \<open>request_steer\<close>,
  \<open>commit_preparation\<close> and \<open>commit_pending_steers_with\<close> are instances of the
  operations they call; \<open>steer\<close> assumes that the 64-bit steer epoch has not run out.
  \<open>absorb_isolated_treatments\<close>, which adds whole treatments to the counters, is treated
  apart.
\<close>

section \<open>Steps\<close>

text \<open>What the rest of the process does to the shared flags: cells in use are only ever set.\<close>

definition flags_grow :: "process \<Rightarrow> process \<Rightarrow> bool" where
  "flags_grow p p' \<longleftrightarrow> next_flag p \<le> next_flag p' \<and> (\<forall>a < next_flag p. flag p a \<longrightarrow> flag p' a)"

inductive control_step ::
  "hasher \<Rightarrow> (nat list \<Rightarrow> nat list) \<Rightarrow> process \<times> AgentRunControl \<times> 'w \<Rightarrow> process \<times> AgentRunControl \<times> 'w \<Rightarrow> bool"
  for fp :: hasher and sha256 :: "nat list \<Rightarrow> nat list"
where
  others: "flags_grow p p' \<Longrightarrow> control_step fp sha256 (p, c, w) (p', c, w)"
| cancel: "request_cancel p c = (r, p', c') \<Longrightarrow> control_step fp sha256 (p, c, w) (p', c', w)"
| stop: "control_step fp sha256 (p, c, w) (p, request_stop reason c, w)"
| observe: "control_step fp sha256 (p, c, w) (p, snd (control_stop_reason p clk c), w)"
| directive: "control_step fp sha256 (p, c, w) (p, snd (continuation_directive p clk c), w)"
| stage_stop: "control_step fp sha256 (p, c, w) (p, snd (stage_should_stop p clk cls c), w)"
| model_call: "control_step fp sha256 (p, c, w) (p, snd (begin_model_call p clk stg c), w)"
| model_call_at: "control_step fp sha256 (p, c, w) (p, snd (begin_model_call_at p clk e stg c), w)"
| stage_model_call:
    "control_step fp sha256 (p, c, w) (p, snd (begin_stage_model_call p clk stg cls c), w)"
| stage_model_call_at:
    "control_step fp sha256 (p, c, w) (p, snd (begin_stage_model_call_at p clk e stg cls c), w)"
| model_done: "control_step fp sha256 (p, c, w) (p, finish_model_call clk c, w)"
| model_done_at: "control_step fp sha256 (p, c, w) (p, snd (finish_model_call_at p clk e c), w)"
| turn: "control_step fp sha256 (p, c, w) (p, snd (record_agent_turn p clk stg c), w)"
| turn_at: "control_step fp sha256 (p, c, w) (p, snd (record_agent_turn_at p clk e stg c), w)"
| repair: "control_step fp sha256 (p, c, w) (p, snd (begin_repair_attempt p clk stg c), w)"
| repair_at: "control_step fp sha256 (p, c, w) (p, snd (begin_repair_attempt_at p clk e stg c), w)"
| attempt:
    "control_step fp sha256 (p, c, w) (p, snd (begin_physical_model_attempt sha256 p clk model prompt completion cls c), w)"
| attempt_at:
    "control_step fp sha256 (p, c, w) (p, snd (begin_physical_model_attempt_at sha256 p clk e model prompt completion cls c), w)"
| attempt_done:
    "control_step fp sha256 (p, c, w) (p, snd (finish_physical_model_attempt sha256 a u c), w)"
| attempt_done_at:
    "control_step fp sha256 (p, c, w) (p, snd (finish_physical_model_attempt_at sha256 p e a u c), w)"
| progress: "control_step fp sha256 (p, c, w) (p, mark_progress clk stg det c, w)"
| progress_at: "control_step fp sha256 (p, c, w) (p, snd (mark_progress_at p clk e stg det c), w)"
| wire: "control_step fp sha256 (p, c, w) (p, note_wire_activity p clk stg det c, w)"
| compaction: "control_step fp sha256 (p, c, w) (p, record_context_compaction c, w)"
| rolling_summary: "control_step fp sha256 (p, c, w) (p, record_rolling_summary c, w)"
| retrieval: "control_step fp sha256 (p, c, w) (p, record_retrieval ms channels hits c, w)"
| partial_output:
    "control_step fp sha256 (p, c, w) (p, snd (record_partial_output_at clk e out c), w)"
| best_result:
    "control_step fp sha256 (p, c, w) (p, snd (record_best_known_result_at clk e stg content q n ver del c), w)"
| observation:
    "control_step fp sha256 (p, c, w) (p, snd (record_observation_at fp clk e stg det evidence c), w)"
| checkpoint:
    "control_step fp sha256 (p, c, w) (p, snd (record_checkpoint_at fp clk e stg det evidence c), w)"
| tool_call:
    "control_step fp sha256 (p, c, w) (p, snd (begin_tool_call fp p clk scope tool input c), w)"
| tool_call_with_epoch:
    "control_step fp sha256 (p, c, w) (p, snd (begin_tool_call_with_epoch fp p clk lease scope tool input c), w)"
| tool_call_at:
    "control_step fp sha256 (p, c, w) (p, snd (begin_tool_call_at fp p clk e scope tool input c), w)"
| tool_batch:
    "control_step fp sha256 (p, c, w) (p, snd (begin_tool_call_batch_with_epoch fp p clk lease scope calls read_only c), w)"
| tool_done: "control_step fp sha256 (p, c, w) (p, finish_tool_call clk c, w)"
| tool_done_at: "control_step fp sha256 (p, c, w) (p, snd (finish_tool_call_at p clk e c), w)"
| external_tool_call: "control_step fp sha256 (p, c, w) (p, record_external_tool_call c, w)"
| tool_continuation:
    "control_step fp sha256 (p, c, w) (p, snd (record_tool_continuation_at fp e scope tool input eff complete c), w)"
| prepare: "control_step fp sha256 (p, c, w) (p, snd (begin_preparation p clk c), w)"
| lease: "control_step fp sha256 (p, c, w) (p, snd (execution_epoch_lease p clk c), w)"
| acknowledge: "control_step fp sha256 (p, c, w) (p, snd (acknowledge_pending_steer k c), w)"
| take_steers: "control_step fp sha256 (p, c, w) (p, snd (take_pending_steers c), w)"
| goal_delta: "control_step fp sha256 (p, c, w) (p, snd (record_goal_delta_at fp p now e d c), w)"
| steer:
    "commit_steer_request_with p clk k (commit :: ('w, ustring, bool) closure) c w = (r, c', w') \<Longrightarrow> steer_epoch c < u64_max \<Longrightarrow>
     control_step fp sha256 (p, c, w) (p, c', w')"
| start:
    "commit_start_checkpoint_with p clk (commit :: ('w, ustring, bool) closure) c w = (r, c', w') \<Longrightarrow>
     control_step fp sha256 (p, c, w) (p, c', w')"
| preparation_checkpoint:
    "commit_preparation_checkpoint_with p clk e (commit :: ('w, ustring, bool) closure) c w = (r, c', w') \<Longrightarrow>
     control_step fp sha256 (p, c, w) (p, c', w')"
| preparation:
    "commit_preparation_with p clk e (commit :: ('w, ustring, bool) closure) c w = (r, c', w') \<Longrightarrow>
     control_step fp sha256 (p, c, w) (p, c', w')"
| execution_step:
    "commit_execution_step_with p clk lease (commit :: ('w, ustring, bool) closure) c w = (r, c', w') \<Longrightarrow>
     control_step fp sha256 (p, c, w) (p, c', w')"
| terminal_result:
    "commit_terminal_result_with p clk lease (commit :: ('w, ustring, bool) closure) c w = (r, c', w') \<Longrightarrow>
     control_step fp sha256 (p, c, w) (p, c', w')"
| preparation_terminal:
    "commit_preparation_terminal_with p clk e (commit :: ('w, ustring, bool) closure) c w = (r, c', w') \<Longrightarrow>
     control_step fp sha256 (p, c, w) (p, c', w')"
| pending_steers:
    "commit_pending_steers_with_applied_objective p clk (commits :: RunSteer list \<Rightarrow> ('w, ustring, bool) closure) applied c w = (r, c', w') \<Longrightarrow>
     control_step fp sha256 (p, c, w) (p, c', w')"
| goal_deltas:
    "commit_goal_deltas_at_with fp sha256 t0 t1 t2 t3 at e ds (staged_commit :: RunControlSnapshot \<Rightarrow> ('w, ustring, bool) closure) c p w = (r, c', p', w') \<Longrightarrow>
     control_step fp sha256 (p, c, w) (p', c', w')"
| treatment:
    "isolated_treatment clk n c p = (r, c', p') \<Longrightarrow> control_step fp sha256 (p, c, w) (p', c', w)"


section \<open>Every step advances\<close>

lemma advances_control_stop_reason:
  "advances sha256 c (snd (control_stop_reason p clk c))"
  "advances sha256 c (snd (continuation_directive p clk c))"
  "advances sha256 c (snd (stage_should_stop p clk cls c))"
  using advances_refresh [of sha256 c p "clk 0"]
  by (auto simp: control_stop_reason_def continuation_directive_def stage_should_stop_def should_stop_def
      Let_def case_prod_unfold split: option.split bool.split)

lemma advances_metered:
  "advances sha256 c (snd (begin_model_call p clk stg c))"
  "advances sha256 c (snd (begin_model_call_at p clk e stg c))"
  "advances sha256 c (snd (begin_stage_model_call p clk stg cls c))"
  "advances sha256 c (snd (begin_stage_model_call_at p clk e stg cls c))"
  "advances sha256 c (snd (record_agent_turn p clk stg c))"
  "advances sha256 c (snd (record_agent_turn_at p clk e stg c))"
  "advances sha256 c (snd (begin_repair_attempt p clk stg c))"
  "advances sha256 c (snd (begin_repair_attempt_at p clk e stg c))"
  "advances sha256 c (snd (begin_physical_model_attempt sha256 p clk m x y cls c))"
  "advances sha256 c (snd (begin_physical_model_attempt_at sha256 p clk e m x y cls c))"
  unfolding begin_model_call_def begin_model_call_at_def begin_stage_model_call_def
    begin_stage_model_call_at_def record_agent_turn_def record_agent_turn_at_def
    begin_repair_attempt_def begin_repair_attempt_at_def begin_physical_model_attempt_def
    begin_physical_model_attempt_at_def
  by (intro advances_unless_stopped advances_at_epoch advances_begin_model_call_locked
      advances_begin_stage_model_call_locked advances_record_agent_turn_locked
      advances_begin_repair_attempt_locked advances_begin_physical_model_attempt_locked; assumption?)+

lemma advances_request_stop: "advances sha256 c (request_stop r c)"
  by (simp add: request_stop_def advances_set_stop_reason)

lemma advances_record_goal_delta_at: "advances sha256 c (snd (record_goal_delta_at fp p now e d c))"
  by (simp add: record_goal_delta_at_def advances_record_goal_delta_locked)

lemmas step_advances [guarantee_intros] =
  advances_request_stop advances_control_stop_reason advances_metered advances_finish_model_call
  advances_finish_physical_model_attempt advances_progress advances_record_best_known_result_at
  advances_evidence advances_begin_tool_call advances_begin_preparation
  advances_execution_epoch_lease advances_acknowledge advances_take_pending_steers
  advances_record_goal_delta_at

lemma advances_commit_eqs [guarantee_intros]:
  "request_cancel p c = (r1, p', c') \<Longrightarrow> advances sha256 c c'"
  "commit_steer_request_with p clk k commit c w = (r2, c', w') \<Longrightarrow> steer_epoch c < u64_max \<Longrightarrow> advances sha256 c c'"
  "commit_start_checkpoint_with p clk commit c w = (r3, c', w') \<Longrightarrow> advances sha256 c c'"
  "commit_preparation_checkpoint_with p clk e commit c w = (r4, c', w') \<Longrightarrow> advances sha256 c c'"
  "commit_preparation_with p clk e commit c w = (r5, c', w') \<Longrightarrow> advances sha256 c c'"
  "commit_execution_step_with p clk lease commit c w = (r6, c', w') \<Longrightarrow> advances sha256 c c'"
  "commit_terminal_result_with p clk lease commit c w = (r7, c', w') \<Longrightarrow> advances sha256 c c'"
  "commit_preparation_terminal_with p clk e commit c w = (r8, c', w') \<Longrightarrow> advances sha256 c c'"
  "commit_pending_steers_with_applied_objective p clk commits applied c w = (r9, c', w') \<Longrightarrow> advances sha256 c c'"
  "commit_goal_deltas_at_with fp sha t0 t1 t2 t3 at e ds scommit c p w = (r10, c', p', w') \<Longrightarrow> advances sha256 c c'"
  "isolated_treatment clk n c p = (r11, c', p') \<Longrightarrow> advances sha256 c c'"
  using advances_request_cancel [of sha256 c p] advances_commit_steer_request_with [of c sha256 p clk k commit w]
    advances_commits(1) [of sha256 c p clk e commit w] advances_commits(2) [of sha256 c p clk e commit w]
    advances_commits(3) [of sha256 c p clk commit w] advances_commits(4) [of sha256 c p clk lease commit w]
    advances_commits(5) [of Executing sha256 c p clk "lease_epoch lease" commit w]
    advances_commits(5) [of Preparing sha256 c p clk e commit w]
    advances_commit_pending_steers [of sha256 c p clk commits applied w]
    advances_commit_goal_deltas [of sha256 c fp sha t0 t1 t2 t3 at e ds scommit p w]
    advances_isolated_treatment [of sha256 c clk n p]
  by (simp_all add: commit_terminal_result_with_def commit_preparation_terminal_with_def)

lemma control_step_advances:
  "control_step fp sha256 s t \<Longrightarrow> advances sha256 (fst (snd s)) (fst (snd t))"
  by (induction rule: control_step.induct) (simp_all add: guarantee_intros)

section \<open>The flags\<close>

definition flags_ok :: "process \<Rightarrow> AgentRunControl \<Rightarrow> bool" where
  "flags_ok p c \<longleftrightarrow> user_cancelled c < next_flag p \<and>
     (case parent_cancelled c of None \<Rightarrow> True | Some a \<Rightarrow> a < next_flag p)"

lemma flags_grow_refl [simp]: "flags_grow p p"
  by (simp add: flags_grow_def)

lemma flags_grow_trans: "flags_grow p q \<Longrightarrow> flags_grow q r \<Longrightarrow> flags_grow p r"
  by (simp add: flags_grow_def)

lemma flags_grow_alloc: "flags_grow p (snd (alloc_flag p))"
  by (simp add: flags_grow_def alloc_flag_def)

lemma next_ledger_id_flags:
  "next_flag (snd (next_ledger_id p)) = next_flag p" "flag (snd (next_ledger_id p)) = flag p"
  by (simp_all add: next_ledger_id_def)

lemma ledger_flags:
  "next_flag (snd (ledger_new p)) = next_flag p" "flag (snd (ledger_new p)) = flag p"
  "next_flag (snd (ledger_from_snapshot sha256 rs p)) = next_flag p"
  "flag (snd (ledger_from_snapshot sha256 rs p)) = flag p"
  using next_ledger_id_flags [of p]
  by (auto simp: ledger_new_def ledger_from_snapshot_def Let_def case_prod_unfold)

lemma flags_grow_construct:
  "flags_grow p (snd (with_budget_at_steer_epoch now b e p))"
  "flags_grow p (snd (control_from_snapshot sha256 now sn p))"
  using flags_grow_alloc [of p]
  by (simp_all add: with_budget_at_steer_epoch_def control_from_snapshot_def Let_def case_prod_unfold
      flags_grow_def ledger_flags)

lemma control_step_flags: "control_step fp sha256 s t \<Longrightarrow> flags_grow (fst s) (fst t)"
proof (induction rule: control_step.induct)
  case (cancel p c r p' c' w)
  then show ?case by (auto simp: request_cancel_def flags_grow_def split: if_splits)
next
  case (goal_deltas t0 t1 t2 t3 at e ds commit c p w r c' p' w')
  then have "p' = snd (control_from_snapshot sha256 (t0 1) (snapshot_locked (t0 0) at c) p)"
    by (auto simp: commit_goal_deltas_at_with_def staged_goal_deltas_def Let_def case_prod_unfold
        split: prod.splits sum.splits)
  then show ?case using flags_grow_construct(2) by simp
next
  case (treatment clk n c p r c' p' w)
  then have "p' = p \<or> (\<exists>b e. p' = snd (with_budget_at_steer_epoch (clk 1) b e p))"
    by (auto simp: isolated_treatment_def case_prod_unfold split: prod.splits option.splits)
  then show ?case using flags_grow_construct(1) by auto
qed simp_all

text \<open>The process, the control and the store as one step system.\<close>

definition sys_init :: "(nat list \<Rightarrow> nat list) \<Rightarrow> process \<times> AgentRunControl \<times> 'w \<Rightarrow> bool" where
  "sys_init sha256 s \<longleftrightarrow> sha256_ok sha256 \<and>
     (\<exists>now b e p. budget_wf b \<and> e \<le> u64_max \<and>
        (fst (snd s), fst s) = with_budget_at_steer_epoch now b e p)"

definition sys_inv :: "(nat list \<Rightarrow> nat list) \<Rightarrow> process \<times> AgentRunControl \<times> 'w \<Rightarrow> bool" where
  "sys_inv sha256 s \<longleftrightarrow> ctl_inv sha256 (fst (snd s)) \<and> flags_ok (fst s) (fst (snd s))"

definition sys_guar :: "process \<times> AgentRunControl \<times> 'w \<Rightarrow> process \<times> AgentRunControl \<times> 'w \<Rightarrow> bool" where
  "sys_guar s t \<longleftrightarrow> ctl_guar (fst (snd s)) (fst (snd t)) \<and> flags_grow (fst s) (fst t)"

lemma initial_limit_ok: "1 \<le> i \<Longrightarrow> i \<le> m \<Longrightarrow> limit_ok (max (min i m) 1) m"
  by (simp add: limit_ok_def)

lemma ledger_ok_new:
  "ledger_ok sha256 b s (fst (ledger_new p))"
  using ledger_canonical_new [of sha256 p]
  by (simp add: ledger_ok_def ledger_new_def run_usage_default_def committed_tokens_def sat_add_def
      split: prod.split)

lemma with_budget_inv:
  assumes "sha256_ok sha256" "budget_wf b" "e \<le> u64_max"
  shows "ctl_inv sha256 (fst (with_budget_at_steer_epoch now b e p))"
  using assms ledger_ok_new [of sha256 b False "snd (alloc_flag p)"]
  by (simp add: with_budget_at_steer_epoch_def Let_def case_prod_unfold ctl_inv_def queue_ok_def
      limit_ok_def credit_ok_def stages_ok_def recent_ok_def budget_wf_def)

lemma with_budget_flags: "flags_ok (snd (with_budget_at_steer_epoch now b e p)) (fst (with_budget_at_steer_epoch now b e p))"
  by (simp add: with_budget_at_steer_epoch_def Let_def case_prod_unfold flags_ok_def ledger_flags alloc_flag_def)

interpretation run: step_system "sys_init sha256" "control_step fp sha256" "sys_inv sha256" sys_guar
  for sha256 fp
proof
  show "sys_inv sha256 s" if "sys_init sha256 s" for s
    using that with_budget_inv with_budget_flags unfolding sys_init_def sys_inv_def
    by (metis fst_conv snd_conv)
  show "sys_inv sha256 t" if "sys_inv sha256 s" "control_step fp sha256 s t" for s t
    using that control_step_advances [OF that(2)] control_step_flags [OF that(2)]
    by (auto simp: sys_inv_def advances_def ctl_guar_def flags_ok_def flags_grow_def split: option.splits)
  show "sys_guar s t" if "sys_inv sha256 s" "control_step fp sha256 s t" for s t
    using that control_step_advances [OF that(2)] control_step_flags [OF that(2)]
    by (auto simp: sys_guar_def sys_inv_def advances_def)
  show "sys_guar s s" for s by (simp add: sys_guar_def)
  show "sys_guar s u" if "sys_guar s t" "sys_guar t u" for s t u
    using that by (auto simp: sys_guar_def intro: ctl_guar_trans flags_grow_trans)
qed

end
