(* ===== verification/Instances.thy ===== *)
theory Instances
  imports Control_Steps
begin

text \<open>
  A concrete run for the witnesses: a control of the tier \<open>fast\<close>, a clock that stands still,
  constant stand-ins for SHA-256 and the fingerprint hash, and a store that counts commits.
\<close>

definition ex_sha256 :: "nat list \<Rightarrow> nat list" where
  "ex_sha256 bs = replicate 32 0"

definition ex_hash :: hasher where
  "ex_hash k = 0"

definition ex_process :: process where
  "ex_process = \<lparr>next_ledger = 1, next_flag = 0, flag = (\<lambda>_. False)\<rparr>"

definition ex_start :: "AgentRunControl \<times> process" where
  "ex_start = control_new 0 (lit ''fast'') ex_process"

abbreviation ex_control :: AgentRunControl where
  "ex_control \<equiv> fst ex_start"

abbreviation ex_proc :: process where
  "ex_proc \<equiv> snd ex_start"

text \<open>A clock that stands still at the start of the run.\<close>

definition ex_clock :: clock where
  "ex_clock i = 0"

definition ex_lease :: RunEpochLease where
  "ex_lease = \<lparr>lease_epoch = 0\<rparr>"

definition ex_commit :: "(nat, ustring, bool) closure" where
  "ex_commit w = (Inr True, Suc w)"

definition ex_failing :: "(nat, ustring, bool) closure" where
  "ex_failing w = (Inl (lit ''disk full''), w)"

text \<open>The example run after a terminal result, after a stop, after a steer request, and after that
steer was applied.\<close>

definition ex_done :: AgentRunControl where
  "ex_done = upd (\<lambda>s. s\<lparr>phase := TerminalCommitted\<rparr>) ex_control"

definition ex_stopped :: AgentRunControl where
  "ex_stopped = request_stop ProviderUnavailable ex_control"

definition ex_queued :: RunSteer where
  "ex_queued = \<lparr>sr_queue_id = lit ''q'', sr_epoch = 1\<rparr>"

definition ex_steered :: AgentRunControl where
  "ex_steered = snd (accept_steer ex_clock (lit ''q'') ex_control)"

definition ex_applied :: AgentRunControl where
  "ex_applied = open_applied_objective_segment ex_clock (drained ex_steered)"

text \<open>A goal delta with one receipt, and a control that is a treatment of the example run.\<close>

definition ex_delta :: AgentGoalDelta where
  "ex_delta = \<lparr>gd_schema = lit ''v1'', gd_kinds = [WorkspaceVerified], gd_receipt_ids = [7],
     gd_fingerprint = lit ''f''\<rparr>"

definition ex_treatment :: AgentRunControl where
  "ex_treatment = ex_control\<lparr>parent_cancelled := Some 0\<rparr>"

text \<open>A draft, and the run that recorded it as its best result.\<close>

definition ex_draft :: BestKnownResult where
  "ex_draft = \<lparr>br_content = lit ''d'', br_stage = lit ''s'', br_quality = Draft, br_evidence_count = 0,
     br_verified = False, br_deliverable = False\<rparr>"

definition ex_drafted :: AgentRunControl where
  "ex_drafted = snd (record_best_known_result_at ex_clock 0 (lit ''s'') (lit ''d'') Draft 0 False False ex_control)"

lemma ex_sha256_ok: "sha256_ok ex_sha256"
  by (simp add: sha256_ok_def ex_sha256_def)

lemma ex_init: "sys_init ex_sha256 (ex_proc, ex_control, w)"
  unfolding sys_init_def
  by (intro conjI exI [of _ 0] exI [of _ "for_effort (lit ''fast'')"] exI [of _ ex_process])
    (simp_all add: ex_sha256_ok for_effort_wf ex_start_def control_new_def control_new_at_steer_epoch_def)

lemma ex_control_eval:
  "phase (ctl_state ex_control) = Executing" "stop_reason (ctl_state ex_control) = None"
  "steer_epoch ex_control = 0" "applied_steer_epoch (ctl_state ex_control) = 0"
  "pending_steers (ctl_state ex_control) = []" "started_at (ctl_state ex_control) = 0"
  "last_progress_at (ctl_state ex_control) = 0" "budget ex_control = for_effort (lit ''fast'')"
  "user_cancelled ex_control = 0" "parent_cancelled ex_control = None"
  "flag ex_proc = (\<lambda>_. False)" "active_model_calls (ctl_state ex_control) = 0"
  "active_tool_calls (ctl_state ex_control) = 0" "model_calls ex_control = 0" "tool_calls ex_control = 0"
  "agent_turns ex_control = 0" "repair_attempts ex_control = 0" "model_call_limit (ctl_state ex_control) = 6"
  "tool_call_limit (ctl_state ex_control) = 12" "continuation_actions (ctl_state ex_control) = Map.empty"
  "action_history (ctl_state ex_control) = Map.empty" "recent_actions (ctl_state ex_control) = Map.empty"
  "goal_delta_count (ctl_state ex_control) = 0" "tool_extension_goal_delta (ctl_state ex_control) = 0"
  "goal_delta_fingerprints (ctl_state ex_control) = {}" "stage_usage (ctl_state ex_control) = Map.empty"
  "partial_output (ctl_state ex_control) = []"
  by (simp_all add: ex_start_def control_new_def control_new_at_steer_epoch_def
      with_budget_at_steer_epoch_def alloc_flag_def ledger_new_def next_ledger_id_def ex_process_def fun_eq_iff
      for_effort_def lit_def)

lemma ex_not_stopped: "new_stop ex_proc 0 ex_control = None"
  by (simp add: new_stop_def ex_control_eval cancellation_requested_def idle_timeout_def for_effort_def
      lit_def from_secs_def)

lemma ex_ledger:
  "lg_segment (resources (ctl_state ex_control)) = run_usage_default"
  "lg_lineage (resources (ctl_state ex_control)) = run_usage_default"
  "lg_pending_attempts (resources (ctl_state ex_control)) = []"
  "agent_turn_limit (ctl_state ex_control) = 6"
  by (simp_all add: ex_start_def control_new_def control_new_at_steer_epoch_def with_budget_at_steer_epoch_def alloc_flag_def
        ledger_new_def next_ledger_id_def ex_process_def for_effort_def lit_def)

end
