(* ===== verification/Control_Properties.thy ===== *)
theory Control_Properties
  imports Instances
begin

text \<open>
  The properties of the run control as a state machine: terminal commits, stop reasons, leases
  and steers, closures that fail, budgets. The closed forms \<open>stop_first_eqs\<close> read every
  stop-first operation as a case distinction on the stop reason a refresh settles on.
\<close>

section \<open>Stop-first commits in closed form\<close>

lemma stop_first_eq:
  "(case refresh_stop_reason p now c of (Some r, c') \<Rightarrow> f r c' | (None, c') \<Rightarrow> g c') =
   (case new_stop p now c of
      Some r \<Rightarrow> f r (upd (\<lambda>s. s\<lparr>stop_reason := Some r\<rparr>) c) | None \<Rightarrow> g c)"
proof (cases "new_stop p now c")
  case None
  then have "stop_reason (ctl_state c) = None" by (rule new_stop_None)
  with None show ?thesis by (simp add: refresh_eq upd_set_stop_same)
next
  case (Some r)
  then show ?thesis by (simp add: refresh_eq)
qed

lemmas stop_first_eqs =
  unless_stopped_def [unfolded stop_first_eq]
  commit_start_checkpoint_with_def [unfolded stop_first_eq]
  commit_preparation_checkpoint_with_def [unfolded stop_first_eq]
  commit_preparation_with_def [unfolded stop_first_eq]
  commit_execution_step_with_def [unfolded stop_first_eq]
  commit_terminal_def [unfolded stop_first_eq]
  commit_pending_steers_with_applied_objective_def [unfolded stop_first_eq]
  commit_steer_request_with_def [unfolded stop_first_eq]
  execution_epoch_lease_def [unfolded stop_first_eq]
  begin_tool_call_with_epoch_def [unfolded stop_first_eq]
  begin_tool_call_at_def [unfolded stop_first_eq]
  begin_tool_call_batch_with_epoch_def [unfolded stop_first_eq]
  begin_preparation_def [unfolded stop_first_eq]

lemmas terminal_ops = commit_terminal_result_with_def commit_preparation_terminal_with_def

lemma new_stop_terminal:
  "phase (ctl_state c) = TerminalCommitted \<Longrightarrow> new_stop p now c = stop_reason (ctl_state c)"
  by (simp add: new_stop_def split: option.split)

lemma reach_sys_inv:
  "sys_init sha256 s \<Longrightarrow> (control_step fp sha256)\<^sup>*\<^sup>* s (p, c, w) \<Longrightarrow> ctl_inv sha256 c"
  using run.reach_inv [of sha256 s fp "(p, c, w)"] by (simp add: sys_inv_def)

lemma reach_sys_guar:
  "sys_init sha256 s \<Longrightarrow> (control_step fp sha256)\<^sup>*\<^sup>* s (p, c, w) \<Longrightarrow>
   (control_step fp sha256)\<^sup>*\<^sup>* (p, c, w) (p', c', w') \<Longrightarrow> ctl_guar c c'"
  using run.reach_guar [of sha256 s fp "(p, c, w)" "(p', c', w')"] by (simp add: sys_guar_def)

section \<open>Properties\<close>

text \<open>
  C1. A terminal commit is final. Once the phase of a reachable control is
  \<open>TerminalCommitted\<close>, every further execution, however the operations interleave, leaves the
  phase and the steer epoch as they are, and neither \<open>commit_terminal_result_with\<close> nor
  \<open>commit_preparation_terminal_with\<close> runs its closure again: the control and the store stay
  unchanged and the result is not \<open>Committed\<close>.
\<close>

theorem terminal_commit_is_final:
  assumes "sys_init sha256 s" "(control_step fp sha256)\<^sup>*\<^sup>* s (p, c, w)"
    and "phase (ctl_state c) = TerminalCommitted"
    and "(control_step fp sha256)\<^sup>*\<^sup>* (p, c, w) (p', c', w')"
  shows "phase (ctl_state c') = TerminalCommitted \<and> steer_epoch c' = steer_epoch c \<and>
    (\<exists>r. commit_terminal_result_with q clk lease commit c' x = (Inr r, c', x) \<and>
         commit_preparation_terminal_with q clk e commit c' x = (Inr r, c', x) \<and>
         (r = TermAlreadyCommitted \<or> (\<exists>y. r = TermStopped y)))"
proof -
  have g: "ctl_guar c c'" using reach_sys_guar assms(1,2,4) .
  with assms(3) have ph: "phase (ctl_state c') = TerminalCommitted"
    by (simp add: ctl_guar_def phase_guar_def)
  with g assms(3) show ?thesis
    by (cases "stop_reason (ctl_state c')")
      (auto simp: ctl_guar_def terminal_ops stop_first_eqs new_stop_terminal upd_set_stop_same)
qed


lemma lease_acquired:
  assumes "execution_epoch_lease q clk c = (LeaseAcquired lease, d)"
  shows "d = c \<and> lease_epoch lease = steer_epoch c \<and> phase (ctl_state c) = Executing \<and>
    pending_steers (ctl_state c) = [] \<and> applied_steer_epoch (ctl_state c) = steer_epoch c \<and>
    new_stop q (clk 0) c = None"
  using assms by (auto simp: stop_first_eqs Let_def split: option.splits if_splits)

lemma steer_committed:
  assumes "commit_steer_request_with q clk k commit c w = (Inr (RequestCommitted v st), c', w')"
  shows "new_stop q (clk 0) c = None" "phase (ctl_state c) \<noteq> TerminalCommitted"
    "(st, c') = accept_steer (clock_from 1 clk) k c" "commit w = (Inr v, w')"
    "length (pending_steers (ctl_state c)) < MAX_PENDING_STEERS"
    "\<forall>t \<in> set (pending_steers (ctl_state c)). sr_queue_id t \<noteq> k"
  using assms by (auto simp: stop_first_eqs run_commit_def split: option.splits if_splits prod.splits sum.splits)

lemma accept_steer_epoch:
  "(st, c') = accept_steer clk k c \<Longrightarrow> steer_epoch c < u64_max \<Longrightarrow> steer_epoch c' = Suc (steer_epoch c)"
  by (auto simp: accept_steer_def Let_def)

lemma stale_lease_refused:
  assumes "lease_epoch lease \<noteq> steer_epoch c"
  shows "\<exists>r d. commit_execution_step_with q clk lease commit c x = (Inr r, d, x) \<and> (\<forall>v. r \<noteq> StepCommitted v)"
    and "\<exists>r d. commit_terminal_result_with q clk lease commit c x = (Inr r, d, x) \<and> (\<forall>v. r \<noteq> TermCommitted v)"
    and "fst (begin_tool_call_with_epoch fp q clk lease scope tool input c) \<noteq> ToolStarted n"
  using assms
  by (auto simp: stop_first_eqs terminal_ops lease_blocked_def split: option.splits)

text \<open>
  C3. A steer fences every lease that was handed out before it. When a reachable control grants
  an execution lease, a steer request is committed some steps later, and any further steps
  follow, then an execution step, a terminal result or a tool call under the old lease is
  refused: the closures are not called, the store does not change and no tool call starts.
\<close>

theorem steer_fences_leases:
  fixes commit1 :: "('w, ustring, bool) closure"
  assumes "sys_init sha256 s" "(control_step fp sha256)\<^sup>*\<^sup>* s (p, c, w)"
    and "execution_epoch_lease q0 clk0 c = (LeaseAcquired lease, d)"
    and "(control_step fp sha256)\<^sup>*\<^sup>* (p, d, w) (p1, c1, w1)"
    and "commit_steer_request_with p1 clk1 k commit1 c1 w1 = (Inr (RequestCommitted v st), c2, w2)"
    and "steer_epoch c1 < u64_max"
    and "(control_step fp sha256)\<^sup>*\<^sup>* (p1, c2, w2) (p3, c3, w3)"
  shows "(\<exists>r d. commit_execution_step_with q clk lease commit c3 x = (Inr r, d, x) \<and> (\<forall>v. r \<noteq> StepCommitted v)) \<and>
    (\<exists>r d. commit_terminal_result_with q clk lease commit c3 x = (Inr r, d, x) \<and> (\<forall>v. r \<noteq> TermCommitted v)) \<and>
    fst (begin_tool_call_with_epoch fp q clk lease scope tool input c3) \<noteq> ToolStarted n"
proof -
  note L = lease_acquired [OF assms(3)]
  have r1: "(control_step fp sha256)\<^sup>*\<^sup>* s (p1, c1, w1)" using assms(2,4) L by simp
  have "control_step fp sha256 (p1, c1, w1) (p1, c2, w2)" using assms(5,6) by (rule control_step.steer)
  with r1 have r2: "(control_step fp sha256)\<^sup>*\<^sup>* s (p1, c2, w2)" by simp
  have "lease_epoch lease \<le> steer_epoch c1"
    using reach_sys_guar [OF assms(1,2)] assms(4) L by (auto simp: ctl_guar_def)
  moreover have "steer_epoch c2 = Suc (steer_epoch c1)"
    using accept_steer_epoch [OF steer_committed(3) [OF assms(5)] assms(6)] .
  moreover have "steer_epoch c2 \<le> steer_epoch c3"
    using reach_sys_guar [OF assms(1) r2 assms(7)] by (simp add: ctl_guar_def)
  ultimately have "lease_epoch lease \<noteq> steer_epoch c3" by simp
  then show ?thesis by (intro conjI stale_lease_refused)
qed

lemma run_commit_Inl:
  "run_commit commit k c w = (Inl err, c', w') \<Longrightarrow> c' = c \<and> commit w = (Inl err, w')"
  by (auto simp: run_commit_def split: prod.splits sum.splits)

text \<open>
  C4. An operation that reports its closure's error has changed nothing but the store the
  closure itself wrote: the control, its phase and its pending steers are exactly as before.
\<close>

theorem failed_closure_keeps_control:
  "(commit_steer_request_with p clk k commit c w = (Inl err, c', w') \<longrightarrow> c' = c \<and> commit w = (Inl err, w')) \<and>
   (commit_start_checkpoint_with p clk commit c w = (Inl err, c', w') \<longrightarrow> c' = c \<and> commit w = (Inl err, w')) \<and>
   (commit_preparation_checkpoint_with p clk e commit c w = (Inl err, c', w') \<longrightarrow> c' = c \<and> commit w = (Inl err, w')) \<and>
   (commit_preparation_with p clk e commit c w = (Inl err, c', w') \<longrightarrow> c' = c \<and> commit w = (Inl err, w')) \<and>
   (commit_execution_step_with p clk lease commit c w = (Inl err, c', w') \<longrightarrow> c' = c \<and> commit w = (Inl err, w')) \<and>
   (commit_terminal_result_with p clk lease commit c w = (Inl err, c', w') \<longrightarrow> c' = c \<and> commit w = (Inl err, w')) \<and>
   (commit_preparation_terminal_with p clk e commit c w = (Inl err, c', w') \<longrightarrow> c' = c \<and> commit w = (Inl err, w')) \<and>
   (commit_pending_steers_with_applied_objective p clk commits applied c w = (Inl err, c', w') \<longrightarrow>
      c' = c \<and> commits (pending_steers (ctl_state c)) w = (Inl err, w'))"
  by (auto simp: stop_first_eqs terminal_ops Let_def dest!: run_commit_Inl split: option.splits if_splits)


text \<open>
  C6. The steer queue of a reachable control: epochs ascend strictly and are at most the
  control's epoch, queue ids are unique, at most 16 steers wait, and an empty queue means that
  the current epoch has been applied.
\<close>

theorem steer_queue_invariant:
  assumes "sys_init sha256 s" "(control_step fp sha256)\<^sup>*\<^sup>* s (p, c, w)"
  shows "sorted_wrt (<) (map sr_epoch (pending_steers (ctl_state c))) \<and>
    (\<forall>t \<in> set (pending_steers (ctl_state c)). sr_epoch t \<le> steer_epoch c) \<and>
    distinct (map sr_queue_id (pending_steers (ctl_state c))) \<and>
    length (pending_steers (ctl_state c)) \<le> MAX_PENDING_STEERS \<and>
    applied_steer_epoch (ctl_state c) \<le> steer_epoch c \<and>
    (pending_steers (ctl_state c) = [] \<longrightarrow> applied_steer_epoch (ctl_state c) = steer_epoch c)"
  using ctl_invD(3) [OF reach_sys_inv [OF assms]] by (auto simp: queue_ok_def)

lemma open_segment_sel:
  "pending_steers (ctl_state (open_applied_objective_segment clk c)) = pending_steers (ctl_state c)"
  "applied_steer_epoch (ctl_state (open_applied_objective_segment clk c)) = applied_steer_epoch (ctl_state c)"
  "phase (ctl_state (open_applied_objective_segment clk c)) = phase (ctl_state c)"
  "steer_epoch (open_applied_objective_segment clk c) = steer_epoch c"
  by (simp_all add: open_applied_objective_segment_def Let_def)

lemma steers_committed:
  assumes "commit_pending_steers_with_applied_objective p clk commits applied c w =
      (Inr (SteersCommitted v ss), c', w')"
  shows "ss = pending_steers (ctl_state c)" "commits ss w = (Inr v, w')"
    "c' = (if applied v then open_applied_objective_segment (clock_from 1 clk) (drained c) else drained c)"
    "phase (ctl_state c) \<noteq> TerminalCommitted" "ss \<noteq> []"
proof -
  have D: "upd (\<lambda>s. apply_epoch_of (pending_steers (ctl_state c))
      (s\<lparr>pending_steers := drop (length (pending_steers (ctl_state c))) (pending_steers s)\<rparr>)) c = drained c"
    by (simp add: drained_def upd_def)
  show "ss = pending_steers (ctl_state c)" "commits ss w = (Inr v, w')"
    "c' = (if applied v then open_applied_objective_segment (clock_from 1 clk) (drained c) else drained c)"
    "phase (ctl_state c) \<noteq> TerminalCommitted" "ss \<noteq> []"
    using assms by (auto simp: stop_first_eqs Let_def D run_commit_def split: option.splits if_splits prod.splits sum.splits)
qed

text \<open>
  C7. Applying a steer batch makes the run leasable again: when the pending steers of a
  reachable executing control are committed, the queue is empty, the current epoch is applied,
  and an execution lease for that epoch is granted unless the run has meanwhile been stopped.
\<close>

theorem applied_steers_make_leasable:
  assumes "sys_init sha256 s" "(control_step fp sha256)\<^sup>*\<^sup>* s (p, c, w)"
    and "phase (ctl_state c) = Executing"
    and "commit_pending_steers_with_applied_objective p clk commits applied c w =
      (Inr (SteersCommitted v ss), c', w')"
    and "new_stop q (clk' 0) c' = None"
  shows "pending_steers (ctl_state c') = [] \<and> applied_steer_epoch (ctl_state c') = steer_epoch c \<and>
    execution_epoch_lease q clk' c' = (LeaseAcquired \<lparr>lease_epoch = steer_epoch c\<rparr>, c')"
proof -
  note c' = steers_committed(3) [OF assms(4)]
  have "applied_steer_epoch (ctl_state (drained c)) = steer_epoch c"
    by (rule drained_applied [OF reach_sys_inv [OF assms(1,2)]])
  then have "pending_steers (ctl_state c') = []" "applied_steer_epoch (ctl_state c') = steer_epoch c"
    "phase (ctl_state c') = Executing" "steer_epoch c' = steer_epoch c"
    using assms(3) by (simp_all add: c' open_segment_sel)
  with assms(5) show ?thesis by (simp add: stop_first_eqs)
qed

text \<open>
  C8. An accepted steer request persists first and then queues: the closure has succeeded, the
  steer carries the next epoch and the requested id, it is the last of the queue, the partial
  output and the result frontier of the superseded objective are gone. Every other answer
  (duplicate, full queue, stopped, terminal) leaves the store, the queue and the epoch alone.
\<close>

theorem steer_request_outcomes:
  assumes "steer_epoch c < u64_max"
    and "commit_steer_request_with p clk k commit c w = (Inr r, c', w')"
  shows "(\<exists>v. r = RequestCommitted v \<lparr>sr_queue_id = k, sr_epoch = Suc (steer_epoch c)\<rparr> \<and>
      commit w = (Inr v, w') \<and> steer_epoch c' = Suc (steer_epoch c) \<and>
      pending_steers (ctl_state c') =
        pending_steers (ctl_state c) @ [\<lparr>sr_queue_id = k, sr_epoch = Suc (steer_epoch c)\<rparr>] \<and>
      partial_output (ctl_state c') = [] \<and> results (ctl_state c') = frontier_default \<and>
      k \<notin> sr_queue_id ` set (pending_steers (ctl_state c)) \<and>
      length (pending_steers (ctl_state c')) \<le> MAX_PENDING_STEERS) \<or>
    (w' = w \<and> steer_epoch c' = steer_epoch c \<and> pending_steers (ctl_state c') = pending_steers (ctl_state c) \<and>
      (r = RequestDuplicate \<and> k \<in> sr_queue_id ` set (pending_steers (ctl_state c)) \<or>
       r = RequestCapacityReached \<and> length (pending_steers (ctl_state c)) \<ge> MAX_PENDING_STEERS \<or>
       r = RequestTerminalCommitted \<and> phase (ctl_state c) = TerminalCommitted \<or>
       (\<exists>y. r = RequestStopped y \<and> stop_reason (ctl_state c') = Some y)))"
proof (cases "\<exists>v st. r = RequestCommitted v st")
  case True
  then obtain v st where r: "r = RequestCommitted v st" by blast
  note S = steer_committed [OF assms(2) [unfolded r]]
  show ?thesis
    using S assms(1) by (auto simp: r accept_steer_def Let_def note_progress_def)
next
  case False
  then show ?thesis
    using assms(2)
    by (auto simp: stop_first_eqs run_commit_def case_prod_unfold split: option.splits if_splits prod.splits sum.splits)
qed

text \<open>
  C9. A cancellation is never lost: once the user's flag or the parent's flag of a reachable
  control is set, it stays set however the process goes on, and unless a terminal result was
  committed first, the next look at the stop reason finds the run stopped.
\<close>

theorem cancellation_is_never_lost:
  assumes "sys_init sha256 s" "(control_step fp sha256)\<^sup>*\<^sup>* s (p, c, w)"
    and "cancellation_requested p c"
    and "(control_step fp sha256)\<^sup>*\<^sup>* (p, c, w) (p', c', w')"
  shows "cancellation_requested p' c' \<and>
    (phase (ctl_state c') \<noteq> TerminalCommitted \<longrightarrow> fst (control_stop_reason p' clk c') \<noteq> None)"
proof -
  have "sys_guar (p, c, w) (p', c', w')" by (rule run.reach_guar [OF assms(1,2,4)])
  moreover have "flags_ok p c" using run.reach_inv [OF assms(1,2)] by (simp add: sys_inv_def)
  ultimately have "cancellation_requested p' c'"
    using assms(3)
    by (auto simp: cancellation_requested_def sys_guar_def ctl_guar_def flags_grow_def flags_ok_def split: option.splits)
  then show ?thesis
    by (auto simp: control_stop_reason_def refresh_eq new_stop_def split: option.split)
qed

section \<open>The properties on the example run\<close>

lemma ex_terminal_result:
  "commit_terminal_result_with ex_proc ex_clock ex_lease ex_commit ex_control 0 =
     (Inr (TermCommitted True), ex_done, 1)"
  by (simp add: terminal_ops stop_first_eqs ex_clock_def ex_not_stopped lease_blocked_def ex_control_eval
      ex_lease_def run_commit_def ex_commit_def ex_done_def)

lemma ex_clock_from: "clock_from k ex_clock = ex_clock"
  by (simp add: fun_eq_iff ex_clock_def)

lemma ex_steered_eval:
  "accept_steer ex_clock (lit ''q'') ex_control = (ex_queued, ex_steered)"
  "phase (ctl_state ex_steered) = Executing" "stop_reason (ctl_state ex_steered) = None"
  "pending_steers (ctl_state ex_steered) = [ex_queued]" "steer_epoch ex_steered = 1"
  "started_at (ctl_state ex_steered) = 0" "last_progress_at (ctl_state ex_steered) = 0"
  "budget ex_steered = budget ex_control" "user_cancelled ex_steered = 0" "parent_cancelled ex_steered = None"
  "active_model_calls (ctl_state ex_steered) = 0" "active_tool_calls (ctl_state ex_steered) = 0"
  by (simp_all add: accept_steer_def ex_steered_def ex_queued_def Let_def ex_control_eval note_progress_def
      ex_clock_def wrap_add_def u64_max_def)

lemma ex_steer_request:
  "commit_steer_request_with ex_proc ex_clock (lit ''q'') ex_commit ex_control 0 =
     (Inr (RequestCommitted True ex_queued), ex_steered, 1)"
  by (simp add: stop_first_eqs ex_clock_from ex_clock_def [of 0] ex_not_stopped ex_control_eval MAX_PENDING_STEERS_def
      run_commit_def ex_commit_def ex_steered_eval)

lemma ex_steered_not_stopped: "new_stop ex_proc 0 ex_steered = None"
  by (simp add: new_stop_def ex_steered_eval ex_control_eval cancellation_requested_def idle_timeout_def
      for_effort_def lit_def from_secs_def)

lemma ex_steers_applied:
  "commit_pending_steers_with_applied_objective ex_proc ex_clock (\<lambda>_. ex_commit) id ex_steered 1 =
     (Inr (SteersCommitted True [ex_queued]), ex_applied, 2)"
  by (simp add: stop_first_eqs ex_clock_from ex_clock_def [of 0] ex_steered_not_stopped ex_steered_eval
      run_commit_def ex_commit_def ex_applied_def drained_def upd_def Let_def)

lemma ex_applied_not_stopped: "new_stop ex_proc 0 ex_applied = None"
  by (simp add: new_stop_def ex_applied_def open_applied_objective_segment_def Let_def drained_def apply_epoch_of_def
     ex_steered_eval ex_control_eval cancellation_requested_def idle_timeout_def ex_clock_def
      for_effort_def lit_def from_secs_def)

lemma ex_reach_done: "(control_step ex_hash ex_sha256)\<^sup>*\<^sup>* (ex_proc, ex_control, 0::nat) (ex_proc, ex_done, 1)"
  using control_step.terminal_result [OF ex_terminal_result] by (rule r_into_rtranclp)

lemma ex_reach_steered: "(control_step ex_hash ex_sha256)\<^sup>*\<^sup>* (ex_proc, ex_control, 0::nat) (ex_proc, ex_steered, 1)"
  using control_step.steer [OF ex_steer_request]
  by (intro r_into_rtranclp) (simp add: ex_control_eval u64_max_def)

lemma ex_reach_stopped: "(control_step ex_hash ex_sha256)\<^sup>*\<^sup>* (ex_proc, ex_control, 0::nat) (ex_proc, ex_stopped, 0)"
  unfolding ex_stopped_def by (intro r_into_rtranclp control_step.stop)

theorem terminal_commit_is_final_witness:
  "phase (ctl_state ex_done) = TerminalCommitted \<and> steer_epoch ex_done = steer_epoch ex_done \<and>
    (\<exists>r. commit_terminal_result_with ex_proc ex_clock ex_lease ex_commit ex_done 1 = (Inr r, ex_done, 1) \<and>
         commit_preparation_terminal_with ex_proc ex_clock 0 ex_commit ex_done 1 = (Inr r, ex_done, 1) \<and>
         (r = TermAlreadyCommitted \<or> (\<exists>y. r = TermStopped y)))"
  by (rule terminal_commit_is_final [OF ex_init ex_reach_done _ rtranclp.rtrancl_refl]) (simp add: ex_done_def)


theorem steer_fences_leases_witness:
  "(\<exists>r d. commit_execution_step_with ex_proc ex_clock ex_lease ex_commit ex_steered 1 = (Inr r, d, 1) \<and> (\<forall>v. r \<noteq> StepCommitted v)) \<and>
    (\<exists>r d. commit_terminal_result_with ex_proc ex_clock ex_lease ex_commit ex_steered 1 = (Inr r, d, 1) \<and> (\<forall>v. r \<noteq> TermCommitted v)) \<and>
    fst (begin_tool_call_with_epoch ex_hash ex_proc ex_clock ex_lease [] [] [] ex_steered) \<noteq> ToolStarted 1"
proof (rule steer_fences_leases [OF ex_init rtranclp.rtrancl_refl _ rtranclp.rtrancl_refl ex_steer_request _ rtranclp.rtrancl_refl])
  show "execution_epoch_lease ex_proc ex_clock ex_control = (LeaseAcquired ex_lease, ex_control)"
    by (simp add: stop_first_eqs ex_clock_def ex_not_stopped ex_control_eval ex_lease_def)
qed (simp add: ex_control_eval u64_max_def)

theorem failed_closure_keeps_control_witness:
  "commit_execution_step_with ex_proc ex_clock ex_lease ex_failing ex_control 7 =
     (Inl (lit ''disk full''), ex_control, 7) \<and> ex_failing 7 = (Inl (lit ''disk full''), 7)"
proof -
  have "\<exists>c'. commit_execution_step_with ex_proc ex_clock ex_lease ex_failing ex_control 7 =
     (Inl (lit ''disk full''), c', 7)"
    by (simp add: stop_first_eqs ex_clock_def ex_not_stopped lease_blocked_def ex_control_eval
      ex_lease_def run_commit_def ex_failing_def)
  then obtain c' where c': "commit_execution_step_with ex_proc ex_clock ex_lease ex_failing ex_control 7 =
     (Inl (lit ''disk full''), c', 7)" ..
  have "c' = ex_control \<and> ex_failing 7 = (Inl (lit ''disk full''), 7)"
    using failed_closure_keeps_control [of ex_proc ex_clock "[]" ex_failing ex_control 7 "lit ''disk full''" c' 7 0 ex_lease] c'
    by blast
  with c' show ?thesis by simp
qed


theorem steer_queue_invariant_witness:
  "sorted_wrt (<) (map sr_epoch (pending_steers (ctl_state ex_steered))) \<and>
   pending_steers (ctl_state ex_steered) = [ex_queued] \<and> sr_epoch ex_queued \<le> steer_epoch ex_steered"
  using steer_queue_invariant [OF ex_init ex_reach_steered] by (simp add: ex_steered_eval)

theorem applied_steers_make_leasable_witness:
  "pending_steers (ctl_state ex_applied) = [] \<and> applied_steer_epoch (ctl_state ex_applied) = steer_epoch ex_steered \<and>
    execution_epoch_lease ex_proc ex_clock ex_applied = (LeaseAcquired \<lparr>lease_epoch = steer_epoch ex_steered\<rparr>, ex_applied)"
  by (rule applied_steers_make_leasable [OF ex_init ex_reach_steered _ ex_steers_applied])
    (simp_all add: ex_steered_eval ex_clock_def ex_applied_not_stopped)

theorem steer_request_outcomes_witness:
  "ex_commit 0 = (Inr True, 1) \<and> steer_epoch ex_steered = Suc (steer_epoch ex_control) \<and>
   pending_steers (ctl_state ex_steered) = pending_steers (ctl_state ex_control) @ [ex_queued] \<and>
   partial_output (ctl_state ex_steered) = [] \<and> results (ctl_state ex_steered) = frontier_default"
  using steer_request_outcomes [OF _ ex_steer_request]
  by (auto simp: ex_control_eval u64_max_def ex_queued_def)

theorem cancellation_is_never_lost_witness:
  "\<exists>p'. request_cancel ex_proc ex_control = (True, p', upd (or_stop UserCancelled) ex_control) \<and>
     cancellation_requested p' (upd (or_stop UserCancelled) ex_control) \<and>
     fst (control_stop_reason p' ex_clock (upd (or_stop UserCancelled) ex_control)) \<noteq> None"
proof -
  define p' where "p' = ex_proc\<lparr>flag := (flag ex_proc)(user_cancelled ex_control := True)\<rparr>"
  have r: "request_cancel ex_proc ex_control = (True, p', upd (or_stop UserCancelled) ex_control)"
    by (simp add: request_cancel_def ex_control_eval p'_def)
  have "cancellation_requested p' (upd (or_stop UserCancelled) ex_control)"
    by (simp add: cancellation_requested_def p'_def)
  with ex_init r_into_rtranclp [of "control_step ex_hash ex_sha256", OF control_step.cancel [OF r, of _ _ "0::nat"]]
  have "cancellation_requested p' (upd (or_stop UserCancelled) ex_control) \<and>
    (phase (ctl_state (upd (or_stop UserCancelled) ex_control)) \<noteq> TerminalCommitted \<longrightarrow>
     fst (control_stop_reason p' ex_clock (upd (or_stop UserCancelled) ex_control)) \<noteq> None)"
    by (rule cancellation_is_never_lost) (rule rtranclp.rtrancl_refl)
  with r show ?thesis by (simp add: or_stop_def ex_control_eval)
qed

end
