(* ===== verification/Tool_Properties.thy ===== *)
theory Tool_Properties
  imports Control_Properties
begin

text \<open>
  The properties of tool-call admission: what the repeated-action guard detects, batches as a
  refinement of serial calls, and the bounds of admitted calls.
\<close>

section \<open>Cycles\<close>

lemma nth_concat_replicate:
  "i < n * length ys \<Longrightarrow> concat (replicate n ys) ! i = ys ! (i mod length ys)"
proof (induction n arbitrary: i)
  case (Suc n)
  show ?case
  proof (cases "i < length ys")
    case True
    then show ?thesis by (simp add: nth_append)
  next
    case False
    with Suc.prems have "i - length ys < n * length ys" by auto
    with Suc.IH have "concat (replicate n ys) ! (i - length ys) = ys ! ((i - length ys) mod length ys)" by blast
    with False show ?thesis by (simp add: nth_append le_mod_geq)
  qed
qed simp

lemma length_concat_replicate [simp]: "length (concat (replicate n ys)) = n * length ys"
  by (induction n) simp_all

lemma periodic_iff:
  assumes p: "0 < p" and n: "0 < n" and len: "length zs = p * n"
  shows "(\<forall>i \<in> {p..<p * n}. zs ! i = zs ! (i mod p)) \<longleftrightarrow> (\<exists>ys. zs = concat (replicate n ys) \<and> length ys = p)"
proof
  assume per: "\<forall>i \<in> {p..<p * n}. zs ! i = zs ! (i mod p)"
  have le: "p \<le> p * n" using n by simp
  let ?ys = "take p zs"
  have ys: "length ?ys = p" using len le by simp
  have "zs = concat (replicate n ?ys)"
  proof (rule nth_equalityI)
    show "length zs = length (concat (replicate n ?ys))" using len ys by (simp add: mult.commute)
    fix i assume i: "i < length zs"
    have "concat (replicate n ?ys) ! i = ?ys ! (i mod p)"
      using i len ys by (subst nth_concat_replicate) (auto simp: mult.commute)
    also have "\<dots> = zs ! (i mod p)" using p by simp
    also have "\<dots> = zs ! i"
    proof (cases "i < p")
      case False
      then have "i \<in> {p..<p * n}" using i len by simp
      with per show ?thesis by metis
    qed simp
    finally show "zs ! i = concat (replicate n ?ys) ! i" by simp
  qed
  with ys show "\<exists>ys. zs = concat (replicate n ys) \<and> length ys = p" by blast
next
  assume "\<exists>ys. zs = concat (replicate n ys) \<and> length ys = p"
  then obtain ys where zs: "zs = concat (replicate n ys)" and ys: "length ys = p" by blast
  show "\<forall>i \<in> {p..<p * n}. zs ! i = zs ! (i mod p)"
  proof
    fix i assume i: "i \<in> {p..<p * n}"
    have "i mod p < p" using p by simp
    moreover have "p \<le> p * n" using n by simp
    ultimately have "i mod p < p * n" by linarith
    then show "zs ! i = zs ! (i mod p)"
      using i ys p by (simp add: zs nth_concat_replicate mult.commute)
  qed
qed


definition recent_cycle :: "u64 list \<Rightarrow> nat \<Rightarrow> nat \<Rightarrow> bool" where
  "recent_cycle actions p n \<longleftrightarrow> (\<exists>pre ys. actions = pre @ concat (replicate n ys) \<and> length ys = p)"

lemma cycle_at_iff:
  assumes p: "0 < p" and n: "0 < n" and max: "p * n \<le> u64_max"
  shows "(let required = wrap_mul p n in
      if length xs < required then False
      else let start = length xs - required in
        list_all (\<lambda>i. xs ! (start + i) = xs ! (start + i mod p)) [p..<required]) \<longleftrightarrow> recent_cycle xs p n"
proof -
  have w: "wrap_mul p n = p * n" using max by (simp add: wrap_mul_def)
  show ?thesis
  proof (cases "length xs < p * n")
    case True
    then have "\<not> recent_cycle xs p n" by (auto simp: recent_cycle_def mult.commute)
    with True show ?thesis by (simp add: w)
  next
    case False
    define k where "k = length xs - p * n"
    define zs where "zs = drop k xs"
    have len: "length zs = p * n" using False by (simp add: zs_def k_def)
    have k: "k \<le> length xs" by (simp add: k_def)
    have nth: "zs ! i = xs ! (k + i)" for i using k by (simp add: zs_def)
    have "recent_cycle xs p n \<longleftrightarrow> (\<exists>ys. zs = concat (replicate n ys) \<and> length ys = p)"
    proof
      assume "recent_cycle xs p n"
      then obtain pre ys where x: "xs = pre @ concat (replicate n ys)" "length ys = p"
        by (auto simp: recent_cycle_def)
      then have "k = length pre" by (simp add: k_def mult.commute)
      with x show "\<exists>ys. zs = concat (replicate n ys) \<and> length ys = p" by (auto simp: zs_def)
    next
      assume "\<exists>ys. zs = concat (replicate n ys) \<and> length ys = p"
      then show "recent_cycle xs p n"
        unfolding recent_cycle_def zs_def by (metis append_take_drop_id)
    qed
    also have "\<dots> \<longleftrightarrow> (\<forall>i \<in> {p..<p * n}. zs ! i = zs ! (i mod p))"
      using periodic_iff [OF p n len] by blast
    finally show ?thesis
      using False by (simp add: w nth k_def [symmetric] list_all_iff)
  qed
qed

text \<open>
  C18. The repeated-action guard fires exactly on cycles: \<open>has_repeated_action_cycle\<close> is true
  iff the recent actions end in some pattern of one, two or three actions repeated
  \<open>max(repetitions, 2)\<close> times (for every repetition count whose triple fits 64 bits).
\<close>

theorem repeated_cycle_characterisation:
  assumes "3 * max reps 2 \<le> u64_max"
  shows "has_repeated_action_cycle actions reps \<longleftrightarrow>
    (\<exists>pre pattern. length pattern \<in> {1, 2, 3} \<and> actions = pre @ concat (replicate (max reps 2) pattern))"
proof -
  have m: "p * max reps 2 \<le> u64_max" if "p \<in> {1, 2, 3}" for p
    using assms that by auto
  have "has_repeated_action_cycle actions reps \<longleftrightarrow>
      (\<exists>p \<in> {1, 2, 3}. recent_cycle actions p (max reps 2))"
    unfolding has_repeated_action_cycle_def
    using cycle_at_iff [OF _ _ m [of 1], of actions] cycle_at_iff [OF _ _ m [of 2], of actions]
      cycle_at_iff [OF _ _ m [of 3], of actions]
    by (simp del: One_nat_def add: Let_def [of "max reps 2"])
  then show ?thesis by (auto simp: recent_cycle_def)
qed

section \<open>Serial admission as the reference for batches\<close>

text \<open>The serial path: one \<open>begin_tool_call_locked\<close> per call, each with its own clock, until
  one is refused.\<close>

fun admit_serially ::
  "hasher \<Rightarrow> (nat \<Rightarrow> clock) \<Rightarrow> ustring \<Rightarrow> (ustring \<times> ustring) list \<Rightarrow> AgentRunControl
     \<Rightarrow> (RunStopReason + usize list) \<times> AgentRunControl"
where
  "admit_serially fp clks scope [] c = (Inr [], c)"
| "admit_serially fp clks scope ((tool, input) # calls) c =
     (case begin_tool_call_locked fp (clks 0) scope tool input c of
        (Inl r, c') \<Rightarrow> (Inl r, c')
      | (Inr n, c') \<Rightarrow>
          (case admit_serially fp (\<lambda>i. clks (Suc i)) scope calls c' of
             (Inl r, c'') \<Rightarrow> (Inl r, c'')
           | (Inr ns, c'') \<Rightarrow> (Inr (n # ns), c'')))"

definition recent_of :: "AgentRunControl \<Rightarrow> ustring \<Rightarrow> u64 list" where
  "recent_of c scope = (case recent_actions (ctl_state c) scope of None \<Rightarrow> [] | Some xs \<Rightarrow> xs)"

text \<open>A control without its clock readings and its recent actions, which are compared apart: an
  absent entry is an empty list.\<close>

definition timeless :: "AgentRunControl \<Rightarrow> AgentRunControl" where
  "timeless c = upd (\<lambda>s. s\<lparr>last_progress_at := 0, telemetry := telemetry_default, stage := [],
     detail := [], recent_actions := Map.empty\<rparr>) c"

definition put_hist :: "ustring \<Rightarrow> (u64 \<times> usize) option \<Rightarrow> (ustring \<rightharpoonup> u64 \<times> usize) \<Rightarrow> (ustring \<rightharpoonup> u64 \<times> usize)" where
  "put_hist scope hist m = (case hist of None \<Rightarrow> m | Some h \<Rightarrow> m(scope \<mapsto> h))"

definition put_lease :: "ustring \<Rightarrow> u64 option \<Rightarrow> (ustring \<rightharpoonup> u64) \<Rightarrow> (ustring \<rightharpoonup> u64)" where
  "put_lease scope lease m = (if lease = None then m(scope := None) else m)"

definition after_calls ::
  "ustring \<Rightarrow> nat \<Rightarrow> u64 option \<Rightarrow> (u64 \<times> usize) option \<Rightarrow> AgentRunControl \<Rightarrow> AgentRunControl"
where
  "after_calls scope n lease hist c =
     upd (\<lambda>s. s\<lparr>action_history := put_hist scope hist (action_history s),
        continuation_actions := put_lease scope lease (continuation_actions s),
        active_tool_calls := active_tool_calls s + n\<rparr>) (c\<lparr>tool_calls := tool_calls c + n\<rparr>)"

lemma after_calls_zero:
  assumes "lease = continuation_actions (ctl_state c) scope" "hist = action_history (ctl_state c) scope"
  shows "after_calls scope 0 lease hist c = c"
proof -
  have "put_hist scope hist (action_history (ctl_state c)) = action_history (ctl_state c)"
    using assms(2) by (auto simp: put_hist_def fun_eq_iff split: option.split)
  moreover have "put_lease scope lease (continuation_actions (ctl_state c)) = continuation_actions (ctl_state c)"
    using assms(1) by (auto simp: put_lease_def fun_eq_iff)
  moreover have "s\<lparr>action_history := action_history s, continuation_actions := continuation_actions s,
      active_tool_calls := active_tool_calls s\<rparr> = s" for s :: RunMutableState
    by (cases s) simp
  moreover have "c\<lparr>tool_calls := tool_calls c, ctl_state := ctl_state c\<rparr> = c"
    by (cases c) simp
  ultimately show ?thesis by (simp add: after_calls_def upd_def)
qed

lemma checked_tool_upd:
  "checked_tool n (c\<lparr>tool_calls := k\<rparr>) = (fst (checked_tool n c), (snd (checked_tool n c))\<lparr>tool_calls := k\<rparr>)"
  by (simp add: checked_tool_def)

text \<open>One admitted call in closed form: a continuation under its lease, and an ordinary call
  that passes the guard.\<close>

lemma admit_continuation:
  assumes "continuation_actions (ctl_state c) scope = Some (fp (HashStrs tool input))"
    and "tool_calls c < u64_max" "active_tool_calls (ctl_state c) < u64_max"
    and "checked_tool (Suc (tool_calls c)) c = (True, d)"
  shows "\<exists>c1. begin_tool_call_locked fp clk scope tool input c = (Inr (Suc (tool_calls c)), c1) \<and>
    timeless c1 = timeless (after_calls scope 1 (continuation_actions (ctl_state c) scope) None d) \<and>
    recent_actions (ctl_state c1) = recent_actions (ctl_state c)"
proof -
  note F = checked_tool_facts(5,7) [of "Suc (tool_calls c)" c, unfolded assms(4), simplified]
  have a: "active_tool_calls (ctl_state d) = active_tool_calls (ctl_state c)"
    using assms(4) by (auto simp: checked_tool_def extend_tool_budget_if_progressed_def Let_def split: if_splits)
  have cnt: "counted_tool_call fp scope tool input c = c\<lparr>tool_calls := Suc (tool_calls c)\<rparr>"
    using assms(1,2) by (simp add: counted_tool_call_def)
  show ?thesis
    using assms F a
    by (simp add: begin_tool_call_locked_eq cnt checked_tool_upd timeless_def after_calls_def put_hist_def put_lease_def
        start_tool_call_def upd_def note_progress_def sat_add_exact)
qed

lemma admit_ordinary:
  assumes lease: "continuation_actions (ctl_state c) scope \<noteq> Some (fp (HashStrs tool input))"
    and u: "tool_calls c < u64_max" "active_tool_calls (ctl_state c) < u64_max"
    and d: "checked_tool (Suc (tool_calls c)) c = (True, d)"
    and h: "h = bump_history (fp (HashStrs tool input)) (action_history (ctl_state c) scope)"
      "snd h \<le> max_identical_actions (budget c)"
    and r: "recent = keep_recent (recent_of c scope @ [fp (HashStrs tool input)])"
      "\<not> has_repeated_action_cycle recent (wrap_add (max_identical_actions (budget c)) 1)"
  shows "\<exists>c1. begin_tool_call_locked fp clk scope tool input c = (Inr (Suc (tool_calls c)), c1) \<and>
    timeless c1 = timeless (after_calls scope 1 None (Some h) d) \<and>
    recent_actions (ctl_state c1) = (recent_actions (ctl_state c))(scope \<mapsto> recent)"
proof -
  note F = checked_tool_facts(4,5,6,7,8) [of "Suc (tool_calls c)" c, unfolded d, simplified]
  have a: "active_tool_calls (ctl_state d) = active_tool_calls (ctl_state c)"
    using d by (auto simp: checked_tool_def extend_tool_budget_if_progressed_def Let_def split: if_splits)
  define k where "k = (\<lambda>c. upd (\<lambda>s. s\<lparr>continuation_actions := (continuation_actions s)(scope := None)\<rparr>)
     (c\<lparr>tool_calls := Suc (tool_calls c)\<rparr>))"
  have cnt: "counted_tool_call fp scope tool input c = k c"
  proof (cases "continuation_actions (ctl_state c) scope")
    case None
    then have "(continuation_actions (ctl_state c))(scope := None) = continuation_actions (ctl_state c)"
      by (auto simp: fun_eq_iff)
    with None show ?thesis using u(1)
      by (cases c; cases "ctl_state c") (simp add: counted_tool_call_def k_def upd_def)
  next
    case (Some x)
    then show ?thesis using u(1) lease by (simp add: counted_tool_call_def k_def)
  qed
  have chk: "checked_tool (Suc (tool_calls c)) (k c) = (True, k d)"
    using d unfolding k_def checked_tool_def
    by (auto simp: extend_tool_budget_if_progressed_def Let_def upd_def split: if_splits)
  have kd: "action_history (ctl_state (k d)) = action_history (ctl_state c)"
    "recent_actions (ctl_state (k d)) = recent_actions (ctl_state c)" "budget (k d) = budget c"
    using F by (simp_all add: k_def)
  have g: "guarded_action scope (fp (HashStrs tool input)) (k d) =
      (True, upd (\<lambda>s. s\<lparr>action_history := (action_history s)(scope \<mapsto> h),
        recent_actions := (recent_actions s)(scope \<mapsto> recent)\<rparr>) (k d))"
    using h r by (simp add: guarded_action_def Let_def kd recent_of_def not_less upd_def)
  have "begin_tool_call_locked fp clk scope tool input c = (Inr (Suc (tool_calls c)),
      start_tool_call clk tool (upd (\<lambda>s. s\<lparr>action_history := (action_history s)(scope \<mapsto> h),
        recent_actions := (recent_actions s)(scope \<mapsto> recent)\<rparr>) (k d)))"
    using lease u by (simp add: begin_tool_call_locked_eq cnt chk g)
  then show ?thesis
    using u F a
    by (simp add: k_def timeless_def after_calls_def put_hist_def put_lease_def start_tool_call_def upd_def note_progress_def
        sat_add_exact)
qed


lemma timeless_sel:
  assumes "timeless c = timeless c'"
  shows "tool_calls c = tool_calls c'" "budget c = budget c'"
    "action_history (ctl_state c) = action_history (ctl_state c')"
    "continuation_actions (ctl_state c) = continuation_actions (ctl_state c')"
    "active_tool_calls (ctl_state c) = active_tool_calls (ctl_state c')"
    "tool_call_limit (ctl_state c) = tool_call_limit (ctl_state c')"
proof -
  from arg_cong [OF assms, of tool_calls] show "tool_calls c = tool_calls c'" by (simp add: timeless_def)
  from arg_cong [OF assms, of budget] show "budget c = budget c'" by (simp add: timeless_def)
  from arg_cong [OF assms, of "\<lambda>c. action_history (ctl_state c)"]
  show "action_history (ctl_state c) = action_history (ctl_state c')" by (simp add: timeless_def)
  from arg_cong [OF assms, of "\<lambda>c. continuation_actions (ctl_state c)"]
  show "continuation_actions (ctl_state c) = continuation_actions (ctl_state c')" by (simp add: timeless_def)
  from arg_cong [OF assms, of "\<lambda>c. active_tool_calls (ctl_state c)"]
  show "active_tool_calls (ctl_state c) = active_tool_calls (ctl_state c')" by (simp add: timeless_def)
  from arg_cong [OF assms, of "\<lambda>c. tool_call_limit (ctl_state c)"]
  show "tool_call_limit (ctl_state c) = tool_call_limit (ctl_state c')" by (simp add: timeless_def)
qed

text \<open>The limit check and the effect of calls commute with \<open>timeless\<close> and with each
  other.\<close>

type_synonym tool_limits = "usize \<times> usize \<times> usize"

definition tool_check :: "RunBudget \<Rightarrow> usize \<Rightarrow> usize \<Rightarrow> tool_limits \<Rightarrow> bool \<times> tool_limits" where
  "tool_check b n deltas t =
     (case t of (limit, spent, extensions) \<Rightarrow>
        if n \<le> limit then (True, t)
        else if n > max_tool_calls b \<or> deltas \<le> spent then (False, t)
        else let limit' = min (sat_add limit (max (tool_calls_per_extension b) 1)) (max_tool_calls b)
             in (n \<le> limit', (limit', deltas, sat_add extensions 1)))"

definition set_limits :: "tool_limits \<Rightarrow> AgentRunControl \<Rightarrow> AgentRunControl" where
  "set_limits t c = upd (\<lambda>s. s\<lparr>tool_call_limit := fst t, tool_extension_goal_delta := fst (snd t),
     budget_extensions := snd (snd t)\<rparr>) c"

definition limits_of :: "AgentRunControl \<Rightarrow> tool_limits" where
  "limits_of c = (tool_call_limit (ctl_state c), tool_extension_goal_delta (ctl_state c), budget_extensions (ctl_state c))"

definition tool_checked :: "usize \<Rightarrow> AgentRunControl \<Rightarrow> bool \<times> tool_limits" where
  "tool_checked n c = tool_check (budget c) n (goal_delta_count (ctl_state c)) (limits_of c)"

lemma set_limits_id [simp]: "set_limits (limits_of c) c = c"
proof -
  have "s\<lparr>tool_call_limit := tool_call_limit s, tool_extension_goal_delta := tool_extension_goal_delta s,
      budget_extensions := budget_extensions s\<rparr> = s" for s :: RunMutableState by (cases s) simp
  then show ?thesis by (simp add: set_limits_def limits_of_def upd_def control_idem)
qed

lemma checked_tool_eq: "checked_tool n c = (fst (tool_checked n c), set_limits (snd (tool_checked n c)) c)"
proof (cases "n \<le> tool_call_limit (ctl_state c)")
  case True
  then have "tool_checked n c = (True, limits_of c)"
    by (simp add: tool_checked_def tool_check_def limits_of_def)
  with True show ?thesis by (simp add: checked_tool_def)
next
  case False
  show ?thesis
  proof (cases "n > max_tool_calls (budget c) \<or> goal_delta_count (ctl_state c) \<le> tool_extension_goal_delta (ctl_state c)")
    case True
    then have "tool_checked n c = (False, limits_of c)"
      using False by (simp add: tool_checked_def tool_check_def limits_of_def)
    moreover have "checked_tool n c = (False, c)"
      using True False by (simp add: checked_tool_def extend_tool_budget_if_progressed_def control_idem)
    ultimately show ?thesis by simp
  next
    case nTrue: False
    then show ?thesis
      using False by (simp add: checked_tool_def tool_checked_def tool_check_def limits_of_def
          extend_tool_budget_if_progressed_def Let_def set_limits_def upd_def)
  qed
qed

lemma tool_checked_timeless [simp]: "tool_checked n (timeless c) = tool_checked n c"
  by (simp add: tool_checked_def timeless_def limits_of_def)

lemma tool_checked_after_calls [simp]: "tool_checked n (after_calls scope k lease hist c) = tool_checked n c"
  by (simp add: tool_checked_def after_calls_def limits_of_def)

lemma set_limits_timeless: "set_limits t (timeless c) = timeless (set_limits t c)"
  by (simp add: set_limits_def timeless_def upd_def)

lemma set_limits_after_calls:
  "set_limits t (after_calls scope n lease hist c) = after_calls scope n lease hist (set_limits t c)"
  by (simp add: set_limits_def after_calls_def upd_def)

lemma set_limits_set_limits [simp]: "set_limits t (set_limits u c) = set_limits t c"
  by (simp add: set_limits_def upd_def)

lemma tool_checked_set_limits [simp]:
  "tool_checked n (set_limits t c) = tool_check (budget c) n (goal_delta_count (ctl_state c)) t"
  by (simp add: tool_checked_def set_limits_def limits_of_def)

text \<open>Checking an earlier call first leads to the same limits.\<close>

lemma tool_check_earlier:
  assumes "fst (tool_check b n d t)" "k \<le> n"
  shows "fst (tool_check b k d t)" and "tool_check b n d (snd (tool_check b k d t)) = tool_check b n d t"
  using assms by (auto simp: tool_check_def Let_def split: prod.splits if_splits)

lemma after_calls_timeless: "after_calls scope n lease hist (timeless c) = timeless (after_calls scope n lease hist c)"
  by (simp add: after_calls_def timeless_def upd_def)

lemma after_calls_comp:
  assumes "hist \<noteq> None \<Longrightarrow> hist' \<noteq> None" "lease = None \<Longrightarrow> lease' = None"
  shows "after_calls scope n lease' hist' (after_calls scope 1 lease hist c) = after_calls scope (Suc n) lease' hist' c"
proof -
  have h: "put_hist scope hist' (put_hist scope hist m) = put_hist scope hist' m" for m
    using assms(1) by (cases hist; cases hist') (auto simp: put_hist_def)
  have l: "put_lease scope lease' (put_lease scope lease m) = put_lease scope lease' m" for m
    using assms(2) by (auto simp: put_lease_def)
  show ?thesis by (simp add: after_calls_def upd_def h l)
qed

lemma scan_keeps_history:
  "batch_scan fp m calls lease hist recent = ScanDone lease' hist' recent' \<Longrightarrow> hist \<noteq> None \<Longrightarrow> hist' \<noteq> None"
  by (induction fp m calls lease hist recent rule: batch_scan.induct)
    (auto simp: Let_def split: if_splits option.splits)

lemma scan_drops_lease:
  "batch_scan fp m calls None hist recent = ScanDone lease' hist' recent' \<Longrightarrow> lease' = None"
  by (induction fp m calls "None :: u64 option" hist recent rule: batch_scan.induct)
    (auto simp: Let_def split: if_splits option.splits)



lemma bumped_history:
  assumes "(case hist of
        Some (prev, n) \<Rightarrow> if prev = g then map_option (\<lambda>n'. (g, n')) (checked_add n 1) else Some (g, 1)
      | None \<Rightarrow> Some (g, 1)) = Some h"
  shows "h = bump_history g hist"
  using assms by (auto simp: bump_history_def checked_add_def split: option.splits prod.splits if_splits)

text \<open>One call of a scan that goes through is admitted serially; \<open>lease1\<close> and
  \<open>hist1\<close> are what the scan carries on.\<close>

lemma scan_step_admitted:
  assumes scan: "batch_scan fp (max_identical_actions (budget c)) ((tool, input) # calls)
      (continuation_actions (ctl_state c) scope) (action_history (ctl_state c) scope) (recent_of c scope) =
      ScanDone lease hist recent"
    and ok: "fst (tool_checked (Suc (tool_calls c)) c)"
    and u: "tool_calls c < u64_max" "active_tool_calls (ctl_state c) < u64_max"
  shows "\<exists>c1 lease1 hist1 recent1.
    begin_tool_call_locked fp clk scope tool input c = (Inr (Suc (tool_calls c)), c1) \<and>
    timeless c1 = timeless (after_calls scope 1 lease1 hist1 (set_limits (snd (tool_checked (Suc (tool_calls c)) c)) c)) \<and>
    recent_of c1 = (recent_of c)(scope := recent1) \<and>
    (hist1 \<noteq> None \<longrightarrow> hist \<noteq> None) \<and> (lease1 = None \<longrightarrow> lease = None) \<and>
    batch_scan fp (max_identical_actions (budget c)) calls (put_lease scope lease1 (continuation_actions (ctl_state c)) scope)
      (put_hist scope hist1 (action_history (ctl_state c)) scope) recent1 = ScanDone lease hist recent"
proof -
  let ?g = "fp (HashStrs tool input)" and ?k = "Suc (tool_calls c)"
  define d where "d = set_limits (snd (tool_checked ?k c)) c"
  have d: "checked_tool ?k c = (True, d)" using ok by (simp add: checked_tool_eq d_def)
  show ?thesis
  proof (cases "continuation_actions (ctl_state c) scope = Some ?g")
    case True
    from admit_continuation [where fp = fp and scope = scope and tool = tool and input = input and clk = clk, OF True u d] obtain c1 where c1:
      "begin_tool_call_locked fp clk scope tool input c = (Inr ?k, c1)"
      "timeless c1 = timeless (after_calls scope 1 (continuation_actions (ctl_state c) scope) None d)"
      "recent_actions (ctl_state c1) = recent_actions (ctl_state c)" by blast
    have "recent_of c1 = (recent_of c)(scope := recent_of c scope)" using c1(3) by (simp add: recent_of_def fun_eq_iff)
    then show ?thesis
      using c1(1,2) scan True unfolding d_def
      by (intro exI [of _ c1] exI [of _ "continuation_actions (ctl_state c) scope"] exI [of _ None]
          exI [of _ "recent_of c scope"]) (simp add: put_lease_def put_hist_def Let_def)
  next
    case False
    define h where "h = bump_history ?g (action_history (ctl_state c) scope)"
    define r where "r = keep_recent (recent_of c scope @ [?g])"
    have rest: "snd h \<le> max_identical_actions (budget c)"
      "\<not> has_repeated_action_cycle r (wrap_add (max_identical_actions (budget c)) 1)"
      "batch_scan fp (max_identical_actions (budget c)) calls None (Some h) r = ScanDone lease hist recent"
      using scan False bumped_history [where hist = "action_history (ctl_state c) scope" and g = ?g]
      unfolding h_def r_def by (auto simp: Let_def split: option.splits if_splits)
    from admit_ordinary [where fp = fp and scope = scope and tool = tool and input = input and clk = clk,
      OF False u d h_def rest(1) r_def rest(2)] obtain c1 where c1:
      "begin_tool_call_locked fp clk scope tool input c = (Inr ?k, c1)"
      "timeless c1 = timeless (after_calls scope 1 None (Some h) d)"
      "recent_actions (ctl_state c1) = (recent_actions (ctl_state c))(scope \<mapsto> r)" by blast
    have "recent_of c1 = (recent_of c)(scope := r)" using c1(3) by (simp add: recent_of_def fun_eq_iff)
    then show ?thesis
      using c1(1,2) rest(3) scan_keeps_history [OF rest(3)] scan_drops_lease [OF rest(3)] unfolding d_def
      by (intro exI [of _ c1] exI [of _ None] exI [of _ "Some h"] exI [of _ r])
        (simp add: put_lease_def put_hist_def)
  qed
qed

lemma batch_matches_serial:
  assumes "batch_scan fp (max_identical_actions (budget c)) calls (continuation_actions (ctl_state c) scope)
      (action_history (ctl_state c) scope) (recent_of c scope) = ScanDone lease hist recent"
    and "fst (tool_checked (tool_calls c + length calls) c)"
    and "tool_calls c + length calls \<le> u64_max" "active_tool_calls (ctl_state c) + length calls \<le> u64_max"
    and "calls = [] \<Longrightarrow> tool_calls c \<le> tool_call_limit (ctl_state c)"
  shows "\<exists>c''. admit_serially fp clks scope calls c =
      (Inr [Suc (tool_calls c)..<Suc (tool_calls c + length calls)], c'') \<and>
    timeless c'' = timeless (after_calls scope (length calls) lease hist
      (set_limits (snd (tool_checked (tool_calls c + length calls) c)) c)) \<and>
    recent_of c'' = (recent_of c)(scope := recent)"
  using assms
proof (induction calls arbitrary: c clks)
  case Nil
  then have "tool_checked (tool_calls c) c = (True, limits_of c)"
    by (simp add: tool_checked_def tool_check_def limits_of_def)
  with Nil show ?case by (auto simp: after_calls_zero)
next
  case (Cons call calls)
  obtain tool input where call: "call = (tool, input)" by fastforce
  let ?N = "tool_calls c + length (call # calls)" and ?k = "Suc (tool_calls c)"
  define T where "T = snd (tool_checked ?N c)"
  have E: "fst (tool_checked ?k c)"
    "tool_check (budget c) ?N (goal_delta_count (ctl_state c)) (snd (tool_checked ?k c)) = tool_checked ?N c"
    using tool_check_earlier [OF Cons.prems(2) [unfolded tool_checked_def], of ?k] by (simp_all add: tool_checked_def)
  have u: "tool_calls c < u64_max" "active_tool_calls (ctl_state c) < u64_max" using Cons.prems(3,4) by auto
  from scan_step_admitted [OF Cons.prems(1) [unfolded call] E(1) u, of "clks 0"]
  obtain c1 lease1 hist1 recent1 where c1:
    "begin_tool_call_locked fp (clks 0) scope tool input c = (Inr ?k, c1)"
    "timeless c1 = timeless (after_calls scope 1 lease1 hist1 (set_limits (snd (tool_checked ?k c)) c))"
    "recent_of c1 = (recent_of c)(scope := recent1)"
    "hist1 \<noteq> None \<Longrightarrow> hist \<noteq> None" "lease1 = None \<Longrightarrow> lease = None"
    "batch_scan fp (max_identical_actions (budget c)) calls (put_lease scope lease1 (continuation_actions (ctl_state c)) scope)
      (put_hist scope hist1 (action_history (ctl_state c)) scope) recent1 = ScanDone lease hist recent" by blast
  note S = timeless_sel [OF c1(2)]
  have tc: "tool_calls c1 = ?k" using S(1) by (simp add: after_calls_def set_limits_def)
  then have N1: "tool_calls c1 + length calls = ?N" by simp
  have chk: "tool_checked ?N c1 = tool_checked ?N c"
    using arg_cong [OF c1(2), of "tool_checked ?N"] E(2) by simp
  have "\<exists>c''. admit_serially fp (\<lambda>i. clks (Suc i)) scope calls c1 =
      (Inr [Suc (tool_calls c1)..<Suc (tool_calls c1 + length calls)], c'') \<and>
    timeless c'' = timeless (after_calls scope (length calls) lease hist
      (set_limits (snd (tool_checked (tool_calls c1 + length calls) c1)) c1)) \<and>
    recent_of c'' = (recent_of c1)(scope := recent)"
  proof (rule Cons.IH)
    show "batch_scan fp (max_identical_actions (budget c1)) calls (continuation_actions (ctl_state c1) scope)
        (action_history (ctl_state c1) scope) (recent_of c1 scope) = ScanDone lease hist recent"
      using c1(3,6) S(2,3,4) by (simp add: after_calls_def set_limits_def)
    show "fst (tool_checked (tool_calls c1 + length calls) c1)" unfolding N1 chk by (rule Cons.prems(2))
    show "tool_calls c1 + length calls \<le> u64_max" unfolding N1 by (rule Cons.prems(3))
    show "active_tool_calls (ctl_state c1) + length calls \<le> u64_max"
      using S(5) Cons.prems(4) by (simp add: after_calls_def set_limits_def)
    have "?k \<le> fst (snd (tool_checked ?k c))"
      using E(1) by (auto simp: tool_checked_def tool_check_def Let_def split: prod.splits if_splits)
    then show "tool_calls c1 \<le> tool_call_limit (ctl_state c1)"
      using S(6) tc by (simp add: after_calls_def set_limits_def)
  qed
  then obtain c'' where c'': "admit_serially fp (\<lambda>i. clks (Suc i)) scope calls c1 =
      (Inr [Suc ?k..<Suc ?N], c'')"
    "timeless c'' = timeless (after_calls scope (length calls) lease hist (set_limits T c1))"
    "recent_of c'' = (recent_of c1)(scope := recent)"
    unfolding N1 chk unfolding T_def tc by blast
  have "timeless c'' = after_calls scope (length calls) lease hist (set_limits T (timeless c1))"
    unfolding c''(2) by (simp add: after_calls_timeless set_limits_timeless)
  also have "\<dots> = timeless (after_calls scope (length calls) lease hist (after_calls scope 1 lease1 hist1 (set_limits T c)))"
    unfolding c1(2) by (simp add: after_calls_timeless set_limits_timeless set_limits_after_calls)
  also have "\<dots> = timeless (after_calls scope (length (call # calls)) lease hist (set_limits T c))"
    using after_calls_comp [OF c1(4,5)] by simp
  finally have "timeless c'' = \<dots>" .
  moreover have "[?k..<Suc ?N] = ?k # [Suc ?k..<Suc ?N]" by (subst upt_rec) simp
  moreover have "recent_of c'' = (recent_of c)(scope := recent)" using c''(3) c1(3) by simp
  moreover have "admit_serially fp clks scope (call # calls) c = (Inr (?k # [Suc ?k..<Suc ?N]), c'')"
    unfolding call by (simp del: upt_Suc add: c1(1) c''(1) [unfolded call])
  ultimately show ?case unfolding T_def by metis
qed

lemma commit_batch_timeless:
  "timeless (commit_batch clk scope calls (tool_calls c + length calls) lease hist recent c) =
   timeless (after_calls scope (length calls) lease hist c)"
proof -
  have id: "s\<lparr>action_history := action_history s\<rparr> = s" "s\<lparr>continuation_actions := continuation_actions s\<rparr> = s"
    for s :: RunMutableState by (cases s; simp)+
  have h: "(case hist of None \<Rightarrow> s | Some h \<Rightarrow> s\<lparr>action_history := (action_history s)(scope \<mapsto> h)\<rparr>) =
      s\<lparr>action_history := put_hist scope hist (action_history s)\<rparr>" for s :: RunMutableState
    by (simp add: put_hist_def id split: option.split)
  have l: "(if continuation_actions s scope \<noteq> None \<and> lease = None
      then s\<lparr>continuation_actions := (continuation_actions s)(scope := None)\<rparr> else s) =
      s\<lparr>continuation_actions := put_lease scope lease (continuation_actions s)\<rparr>" for s :: RunMutableState
  proof (cases "continuation_actions s scope = None")
    case True
    then have "(continuation_actions s)(scope := None) = continuation_actions s" by (auto simp: fun_eq_iff)
    with True show ?thesis by (simp add: put_lease_def id)
  qed (simp add: put_lease_def id)
  show ?thesis
    unfolding commit_batch_def Let_def h l
    by (simp add: timeless_def after_calls_def upd_def note_progress_def)
qed

lemma recent_of_commit_batch:
  "recent_of (commit_batch clk scope calls n lease hist recent c) = (recent_of c)(scope := recent)"
  by (auto simp: recent_of_def commit_batch_def Let_def fun_eq_iff split: option.split)

lemma recent_of_set_limits [simp]: "recent_of (set_limits t c) = recent_of c"
  by (rule ext) (simp add: recent_of_def set_limits_def)


section \<open>Bounds of single admissions\<close>

lemma tool_call_admitted:
  assumes "begin_tool_call_locked fp clk scope tool input c = (Inr n, c')"
  shows "n = wrap_add (tool_calls c) 1" "tool_calls c' = n" "n \<le> tool_call_limit (ctl_state c')"
    "budget c' = budget c" "stop_reason (ctl_state c') = stop_reason (ctl_state c)"
proof -
  define c2 where "c2 = counted_tool_call fp scope tool input c"
  obtain ok c3 where c3: "checked_tool (wrap_add (tool_calls c) 1) c2 = (ok, c3)" by fastforce
  note F = checked_tool_facts(2,3,4,5) [where c = c2 and n = "wrap_add (tool_calls c) 1", unfolded c3, simplified]
  have c2: "tool_calls c2 = wrap_add (tool_calls c) 1" "budget c2 = budget c"
    "stop_reason (ctl_state c2) = stop_reason (ctl_state c)"
    by (simp_all add: c2_def counted_tool_call_def Let_def)
  show "n = wrap_add (tool_calls c) 1" "tool_calls c' = n" "n \<le> tool_call_limit (ctl_state c')"
    "budget c' = budget c" "stop_reason (ctl_state c') = stop_reason (ctl_state c)"
    using assms F c2
    unfolding begin_tool_call_locked_eq c2_def [symmetric] c3
    by (auto simp: start_tool_call_def guarded_action_def Let_def split: if_splits)
qed

lemma ordinary_call_admitted:
  assumes "begin_tool_call_locked fp clk scope tool input c = (Inr n, c')"
    and "continuation_actions (ctl_state c) scope \<noteq> Some (fp (HashStrs tool input))"
  defines "h \<equiv> bump_history (fp (HashStrs tool input)) (action_history (ctl_state c) scope)"
  shows "action_history (ctl_state c') scope = Some h" "snd h \<le> max_identical_actions (budget c)"
    "continuation_actions (ctl_state c') scope = None"
    "\<not> has_repeated_action_cycle (recent_of c' scope) (wrap_add (max_identical_actions (budget c)) 1)"
proof -
  define c2 where "c2 = counted_tool_call fp scope tool input c"
  obtain ok c3 where c3: "checked_tool (wrap_add (tool_calls c) 1) c2 = (ok, c3)" by fastforce
  note F = checked_tool_facts(4,6,8) [where c = c2 and n = "wrap_add (tool_calls c) 1", unfolded c3, simplified]
  have c2: "action_history (ctl_state c2) = action_history (ctl_state c)" "budget c2 = budget c"
    "continuation_actions (ctl_state c2) scope = None"
    using assms(2) by (auto simp: c2_def counted_tool_call_def Let_def)
  show "action_history (ctl_state c') scope = Some h" "snd h \<le> max_identical_actions (budget c)"
    "continuation_actions (ctl_state c') scope = None"
    "\<not> has_repeated_action_cycle (recent_of c' scope) (wrap_add (max_identical_actions (budget c)) 1)"
    using assms(1,2) F c2
    unfolding begin_tool_call_locked_eq c2_def [symmetric] c3 h_def
    by (auto simp: start_tool_call_def guarded_action_def recent_of_def Let_def split: if_splits)
qed

lemma identical_run:
  assumes "admit_serially fp clks scope (replicate n (tool, input)) c = (Inr ns, c')"
    and "continuation_actions (ctl_state c) scope \<noteq> Some (fp (HashStrs tool input))"
    and "max_identical_actions (budget c) < u64_max" "k \<le> max_identical_actions (budget c)"
    and "k = 0 \<or> action_history (ctl_state c) scope = Some (fp (HashStrs tool input), k)"
    and "\<And>g i. action_history (ctl_state c) scope = Some (g, i) \<Longrightarrow> i < u64_max"
  shows "k + n \<le> max_identical_actions (budget c)"
  using assms
proof (induction n arbitrary: k c clks ns)
  case (Suc n)
  let ?g = "fp (HashStrs tool input)" and ?m = "max_identical_actions (budget c)"
  from Suc.prems(1) obtain i c1 js where
    one: "begin_tool_call_locked fp (clks 0) scope tool input c = (Inr i, c1)"
    and rest: "admit_serially fp (\<lambda>j. clks (Suc j)) scope (replicate n (tool, input)) c1 = (Inr js, c')"
    by (auto split: prod.splits sum.splits)
  note O = ordinary_call_admitted [OF one Suc.prems(2)]
  define h where "h = bump_history ?g (action_history (ctl_state c) scope)"
  have h: "fst h = ?g" "snd h \<ge> Suc k"
    using Suc.prems(3,4,5,6) unfolding h_def
    by (auto simp: bump_history_def Suc_le_eq split: option.split prod.split)
  have b: "budget c1 = budget c" by (rule tool_call_admitted(4) [OF one])
  have "snd h + n \<le> max_identical_actions (budget c1)"
  proof (rule Suc.IH [OF rest])
    show "continuation_actions (ctl_state c1) scope \<noteq> Some ?g" using O(3) by simp
    show "max_identical_actions (budget c1) < u64_max" "snd h \<le> max_identical_actions (budget c1)"
      using Suc.prems(3) O(2) by (simp_all add: b h_def)
    show "snd h = 0 \<or> action_history (ctl_state c1) scope = Some (?g, snd h)"
      using O(1) h(1) by (metis h_def prod.collapse)
    show "i < u64_max" if "action_history (ctl_state c1) scope = Some (g, i)" for g i
      using that O(1,2) Suc.prems(3) by (metis le_less_trans option.inject snd_conv)
  qed
  with h(2) show ?case by (simp add: b)
qed simp

text \<open>
  No action is repeated beyond the budget: if \<open>n\<close> identical calls in a row are admitted
  in a scope that holds no continuation lease for them and whose stored repetition count has
  not run out of 64 bits, then \<open>n\<close> is at most \<open>max_identical_actions\<close>.
\<close>

theorem identical_calls_are_bounded:
  assumes "admit_serially fp clks scope (replicate n (tool, input)) c = (Inr ns, c')"
    and "continuation_actions (ctl_state c) scope \<noteq> Some (fp (HashStrs tool input))"
    and "max_identical_actions (budget c) < u64_max"
    and "case action_history (ctl_state c) scope of None \<Rightarrow> True | Some (_, i) \<Rightarrow> i < u64_max"
  shows "n \<le> max_identical_actions (budget c)"
  using identical_run [OF assms(1-3), of 0] assms(4)
  by (cases "action_history (ctl_state c) scope") auto

text \<open>
  An admitted tool call is numbered and within budget: in a reachable, running control the
  call gets the next number, the counter moves to it, and it is at most the (possibly just
  extended) limit and at most \<open>max_tool_calls\<close>; a refused call gives the counter back and stops
  the run with the reason it reports.
\<close>

theorem tool_call_within_budget:
  assumes "sys_init sha256 s" "(control_step fp sha256)\<^sup>*\<^sup>* s (p, c, w)"
    and "tool_calls c < u64_max"
    and "begin_tool_call fp p clk scope tool input c = (r, c')"
  shows "(case r of
      Inr n \<Rightarrow> n = tool_calls c + 1 \<and> tool_calls c' = n \<and> n \<le> tool_call_limit (ctl_state c') \<and>
        n \<le> max_tool_calls (budget c) \<and> stop_reason (ctl_state c') = None
    | Inl reason \<Rightarrow> tool_calls c' = tool_calls c \<and> stop_reason (ctl_state c') = Some reason)"
proof (cases "new_stop p (clk 0) c")
  case (Some x)
  then show ?thesis using assms(4) by (auto simp: begin_tool_call_def stop_first_eqs)
next
  case None
  let ?op = "begin_tool_call_locked fp (clock_from 1 clk) scope tool input c"
  have op: "?op = (r, c')" using assms(4) None by (simp add: begin_tool_call_def stop_first_eqs)
  have none: "stop_reason (ctl_state c) = None" by (rule new_stop_None [OF None])
  show ?thesis
  proof (cases r)
    case (Inr n)
    have "advances sha256 c c'" using advances_begin_tool_call_locked [OF none] op by (metis snd_conv)
    then have "ctl_inv sha256 c'" using reach_sys_inv [OF assms(1,2)] by (simp add: advances_def)
    then have "tool_call_limit (ctl_state c') \<le> max_tool_calls (budget c')"
      using ctl_invD(5) by (auto simp: limit_ok_def)
    with tool_call_admitted [OF op [unfolded Inr]] assms(3) none show ?thesis by (simp add: Inr)
  next
    case (Inl x)
    define c2 where "c2 = counted_tool_call fp scope tool input c"
    obtain ok c3 where c3: "checked_tool (wrap_add (tool_calls c) 1) c2 = (ok, c3)" by fastforce
    have t3: "tool_calls c3 = wrap_add (tool_calls c) 1"
      using checked_tool_facts(5) [where c = c2 and n = "wrap_add (tool_calls c) 1"] c3
      by (simp add: c2_def counted_tool_call_def Let_def)
    show ?thesis
      using op t3 assms(3) unfolding Inl begin_tool_call_locked_eq c2_def [symmetric] c3
      by (auto simp: refuse_tool_call_def guarded_action_def Let_def wrap_sub_exact split: if_splits)
  qed
qed

lemma model_call_admitted:
  assumes "ctl_inv sha256 c" "begin_model_call_locked clk stg c = (Inr n, c')"
  shows "n = Suc (model_calls c)" "model_calls c' = n" "n \<le> model_call_limit (ctl_state c')"
    "budget c' = budget c" "stage_usage (ctl_state c') = stage_usage (ctl_state c)"
proof -
  obtain ok d where d: "checked_model c = (ok, d)" by fastforce
  note F = checked_model_facts(3,4) [where c = c, unfolded d, simplified]
  have b: "budget d = budget c" "stage_usage (ctl_state d) = stage_usage (ctl_state c)"
    using d by (auto simp: checked_model_def extend_model_budget_if_progressed_def Let_def split: if_splits)
  show "n = Suc (model_calls c)" "model_calls c' = n" "n \<le> model_call_limit (ctl_state c')"
    "budget c' = budget c" "stage_usage (ctl_state c') = stage_usage (ctl_state c)"
    using assms(2) F b unfolding begin_model_call_locked_eq [OF assms(1)] d
    by (auto split: if_splits)
qed

lemma stage_call_admitted:
  assumes "ctl_inv sha256 c" "begin_stage_model_call_locked clk stg cls c = (Inr n, c')"
  shows "\<not> stage_reserve_reached cls (clk 0) c" "n = Suc (model_calls c)" "model_calls c' = n"
    "\<exists>u. stage_usage (ctl_state c') cls = Some u \<and>
       su_model_calls u = Suc (case stage_usage (ctl_state c) cls of None \<Rightarrow> 0 | Some u \<Rightarrow> su_model_calls u) \<and>
       su_model_calls u \<le> sb_max_model_calls (stage_budget (budget c) cls)"
proof -
  define sb where "sb = stage_budget (budget c) cls"
  define u where "u = (case stage_usage (ctl_state c) cls of
     Some u \<Rightarrow> u | None \<Rightarrow> \<lparr>su_started_at = clk 0, su_model_calls = 0\<rparr>)"
  define u' where "u' = u\<lparr>su_model_calls := sat_add (su_model_calls u) 1\<rparr>"
  define c2 where "c2 = upd (\<lambda>s. s\<lparr>stage_usage := (stage_usage s)(cls \<mapsto> u')\<rparr>) c"
  have ok: "\<not> stage_reserve_reached cls (clk 0) c" "su_model_calls u < sb_max_model_calls sb"
    "begin_model_call_locked (clock_from 1 clk) stg c2 = (Inr n, c')"
    using assms(2)
    unfolding begin_stage_model_call_locked_def Let_def sb_def [symmetric] u_def [symmetric]
      u'_def [symmetric] c2_def [symmetric]
    by (auto split: if_splits prod.splits sum.splits)
  have "sb_max_model_calls sb \<le> max_model_calls (budget c)"
    unfolding sb_def using budget_wf_bounds(7) [OF ctl_invD(2) [OF assms(1)]] by (rule stage_budget_calls(2))
  then have "su_model_calls u < u64_max"
    using ok(2) budget_wf_bounds(1) [OF ctl_invD(2) [OF assms(1)]] by linarith
  then have u': "su_model_calls u' = Suc (su_model_calls u)" by (simp add: u'_def sat_add_exact)
  have "advances sha256 c c2"
    unfolding c2_def using u' ok(2) by (intro advances_stage_usage) (simp add: sb_def)
  then have "ctl_inv sha256 c2" using assms(1) by (simp add: advances_def)
  note M = model_call_admitted [OF this ok(3)]
  show "\<not> stage_reserve_reached cls (clk 0) c" by (rule ok(1))
  show "n = Suc (model_calls c)" "model_calls c' = n" using M(1,2) by (simp_all add: c2_def)
  show "\<exists>u. stage_usage (ctl_state c') cls = Some u \<and>
       su_model_calls u = Suc (case stage_usage (ctl_state c) cls of None \<Rightarrow> 0 | Some u \<Rightarrow> su_model_calls u) \<and>
       su_model_calls u \<le> sb_max_model_calls (stage_budget (budget c) cls)"
    using M(5) u' ok(2) by (auto simp: c2_def sb_def u_def split: option.splits)
qed


section \<open>Where a batch and the serial path disagree\<close>

lemma tool_refusal_reason:
  assumes "begin_tool_call_locked fp clk scope tool input c = (Inl r, c')"
    and "wrap_add (tool_calls c) 1 \<le> tool_call_limit (ctl_state c)"
  shows "r = RepeatedAction"
proof -
  define c2 where "c2 = counted_tool_call fp scope tool input c"
  have "tool_call_limit (ctl_state c2) = tool_call_limit (ctl_state c)"
    by (simp add: c2_def counted_tool_call_def Let_def)
  then have "checked_tool (wrap_add (tool_calls c) 1) c2 = (True, c2)"
    using assms(2) by (simp add: checked_tool_def)
  with assms(1) show ?thesis
    unfolding begin_tool_call_locked_eq c2_def [symmetric] by (auto split: if_splits prod.splits)
qed

lemma tool_call_limit_kept:
  assumes "begin_tool_call_locked fp clk scope tool input c = (Inr n, c')"
    and "wrap_add (tool_calls c) 1 \<le> tool_call_limit (ctl_state c)"
  shows "tool_call_limit (ctl_state c') = tool_call_limit (ctl_state c)"
proof -
  define c2 where "c2 = counted_tool_call fp scope tool input c"
  have l: "tool_call_limit (ctl_state c2) = tool_call_limit (ctl_state c)"
    by (simp add: c2_def counted_tool_call_def Let_def)
  then have "checked_tool (wrap_add (tool_calls c) 1) c2 = (True, c2)"
    using assms(2) by (simp add: checked_tool_def)
  with assms(1) l show ?thesis
    unfolding begin_tool_call_locked_eq c2_def [symmetric]
    by (auto simp: start_tool_call_def guarded_action_def Let_def split: if_splits)
qed

lemma serial_refusal_reason:
  assumes "admit_serially fp clks scope calls c = (Inl r, c')"
    and "tool_calls c + length calls \<le> tool_call_limit (ctl_state c)"
    and "tool_call_limit (ctl_state c) \<le> u64_max"
  shows "r = RepeatedAction"
  using assms
proof (induction calls arbitrary: c clks)
  case (Cons call calls)
  obtain tool input where call: "call = (tool, input)" by fastforce
  have w: "wrap_add (tool_calls c) 1 = Suc (tool_calls c)" using Cons.prems by simp
  obtain x c1 where one: "begin_tool_call_locked fp (clks 0) scope tool input c = (x, c1)" by fastforce
  show ?case
  proof (cases x)
    case (Inl y)
    then show ?thesis using Cons.prems tool_refusal_reason [OF one [unfolded Inl]] w by (simp add: call one)
  next
    case (Inr n)
    note A = tool_call_admitted [OF one [unfolded Inr]] and L = tool_call_limit_kept [OF one [unfolded Inr]]
    have "admit_serially fp (\<lambda>i. clks (Suc i)) scope calls c1 = (Inl r, c')"
      using Cons.prems(1) by (auto simp: call one Inr split: prod.splits sum.splits)
    then show ?thesis using Cons.IH A L w Cons.prems by simp
  qed
qed simp

lemma admit_serially_append:
  "admit_serially fp clks scope xs c = (Inl r, c') \<Longrightarrow> admit_serially fp clks scope (xs @ ys) c = (Inl r, c')"
  by (induction fp clks scope xs c rule: admit_serially.induct)
    (auto split: prod.splits sum.splits)

text \<open>
  A read-only batch and the serial path can stop a run for different reasons: when more
  identical calls than the guard allows fit the remaining budget, but the whole batch does not
  and no goal delta is unspent, the batch stops with \<open>ToolCallBudgetExceeded\<close> while the
  serial calls stop with \<open>RepeatedAction\<close>.
\<close>

theorem batch_stop_reason_can_differ:
  assumes "continuation_actions (ctl_state c) scope \<noteq> Some (fp (HashStrs tool input))"
    and "max_identical_actions (budget c) < u64_max" "max_identical_actions (budget c) < n"
    and "case action_history (ctl_state c) scope of None \<Rightarrow> True | Some (_, i) \<Rightarrow> i < u64_max"
    and "tool_calls c + n \<le> tool_call_limit (ctl_state c)"
    and "tool_call_limit (ctl_state c) < tool_calls c + (n + m)" "tool_calls c + (n + m) \<le> u64_max"
    and "active_tool_calls (ctl_state c) + (n + m) \<le> u64_max" "2 \<le> n + m"
    and "goal_delta_count (ctl_state c) \<le> tool_extension_goal_delta (ctl_state c)"
  shows "fst (begin_tool_call_batch_locked fp clk scope (replicate (n + m) (tool, input)) True c) =
      BatchStopped ToolCallBudgetExceeded \<and>
    fst (admit_serially fp clks scope (replicate (n + m) (tool, input)) c) = Inl RepeatedAction"
proof -
  have "fst (begin_tool_call_batch_locked fp clk scope (replicate (n + m) (tool, input)) True c) =
      BatchStopped ToolCallBudgetExceeded"
    using assms(6-10)
    by (simp add: begin_tool_call_batch_locked_eq checked_add_def checked_tool_def
        extend_tool_budget_if_progressed_def)
  moreover obtain r c1 where one: "admit_serially fp clks scope (replicate n (tool, input)) c = (r, c1)"
    by fastforce
  have "r = Inl RepeatedAction"
  proof (cases r)
    case (Inl x)
    then show ?thesis
      using serial_refusal_reason [OF one [unfolded Inl]] assms(5,6,7) by simp
  next
    case (Inr ns)
    have "0 + n \<le> max_identical_actions (budget c)"
      by (rule identical_run [OF one [unfolded Inr] assms(1,2)]) (use assms(4) in auto)
    then show ?thesis using assms(3) by simp
  qed
  with one have "fst (admit_serially fp clks scope (replicate (n + m) (tool, input)) c) = Inl RepeatedAction"
    using admit_serially_append by (simp add: replicate_add)
  ultimately show ?thesis by simp
qed

section \<open>The properties on the example run\<close>

lemma ex_fast_eval:
  "max_identical_actions (budget ex_control) = 3" "max_tool_calls (budget ex_control) = 24"
  "max_model_calls (budget ex_control) = 12" "terminal_model_call_reserve (budget ex_control) = 2"
  by (simp_all add: ex_control_eval for_effort_def lit_def)

theorem repeated_cycle_characterisation_witness:
  "has_repeated_action_cycle [9, 1, 2, 1, 2] 2"
proof -
  have "[9, 1, 2, 1, 2 :: u64] = [9] @ concat (replicate (max 2 2) [1, 2])" by (simp add: numeral_2_eq_2)
  moreover have "3 * max 2 2 \<le> u64_max" by (simp add: u64_max_def)
  moreover have "length [1, 2 :: u64] \<in> {1, 2, 3}" by simp
  ultimately show ?thesis using repeated_cycle_characterisation [of 2 "[9, 1, 2, 1, 2]"] by blast
qed

lemma ex_batch:
  "\<exists>c'. begin_tool_call_batch_locked ex_hash ex_clock (lit ''s'') [(lit ''read'', lit ''a''), (lit ''read'', lit ''b'')]
     True ex_control = (BatchStarted 1 2, c')"
  by (simp add: begin_tool_call_batch_locked_def ex_control_eval checked_add_def u64_max_def for_effort_def lit_def
      ex_hash_def keep_recent_def has_repeated_action_cycle_def wrap_add_def wrap_mul_def Let_def)


lemma ex_serial:
  "\<exists>ns c'. admit_serially ex_hash (\<lambda>_. ex_clock) (lit ''s'') (replicate 2 (lit ''read'', lit ''a'')) ex_control = (Inr ns, c')"
  by (simp add: numeral_2_eq_2 begin_tool_call_locked_def ex_control_eval u64_max_def for_effort_def lit_def
      ex_hash_def keep_recent_def has_repeated_action_cycle_def wrap_add_def wrap_mul_def Let_def bump_history_def
      start_tool_call_def note_progress_def)

theorem identical_calls_are_bounded_witness:
  "(\<exists>ns c'. admit_serially ex_hash (\<lambda>_. ex_clock) (lit ''s'') (replicate 2 (lit ''read'', lit ''a'')) ex_control = (Inr ns, c'))
   \<and> 2 \<le> max_identical_actions (budget ex_control)"
proof -
  obtain ns c' where "admit_serially ex_hash (\<lambda>_. ex_clock) (lit ''s'') (replicate 2 (lit ''read'', lit ''a'')) ex_control = (Inr ns, c')"
    using ex_serial by blast
  then have "2 \<le> max_identical_actions (budget ex_control)"
    by (rule identical_calls_are_bounded) (simp_all add: ex_control_eval(1-7,9-) ex_fast_eval u64_max_def)
  with ex_serial show ?thesis ..
qed

lemma ex_tool_call:
  "\<exists>c'. begin_tool_call ex_hash ex_proc ex_clock (lit ''s'') (lit ''read'') (lit ''a'') ex_control = (Inr 1, c')"
  unfolding begin_tool_call_def stop_first_eqs ex_clock_def ex_not_stopped
  by (simp add: begin_tool_call_locked_def ex_control_eval u64_max_def for_effort_def lit_def
      ex_hash_def keep_recent_def has_repeated_action_cycle_def wrap_add_def wrap_mul_def Let_def bump_history_def)

theorem tool_call_within_budget_witness:
  "\<exists>c'. begin_tool_call ex_hash ex_proc ex_clock (lit ''s'') (lit ''read'') (lit ''a'') ex_control = (Inr 1, c') \<and>
     tool_calls c' = 1 \<and> 1 \<le> tool_call_limit (ctl_state c') \<and> stop_reason (ctl_state c') = None"
proof -
  obtain c' where c': "begin_tool_call ex_hash ex_proc ex_clock (lit ''s'') (lit ''read'') (lit ''a'') ex_control = (Inr 1, c')"
    using ex_tool_call by blast
  from tool_call_within_budget [OF ex_init rtranclp.rtrancl_refl _ this] c' show ?thesis
    by (simp add: ex_control_eval u64_max_def)
qed

lemma ex_stage_call:
  "\<exists>c'. begin_stage_model_call ex_proc ex_clock (lit ''worker'') Worker ex_control = (Inr 1, c')"
  unfolding begin_stage_model_call_def stop_first_eqs ex_clock_def ex_not_stopped
  by (simp add: begin_stage_model_call_locked_def stage_reserve_reached_def begin_model_call_locked_def Let_def
     ex_control_eval u64_max_def for_effort_def lit_def stage_budget_def protected_time_reserve_def
     protected_model_call_reserve_def is_finalizer_def from_secs_def wrap_add_def sat_add_def)


theorem batch_stop_reason_can_differ_witness:
  "fst (begin_tool_call_batch_locked ex_hash ex_clock (lit ''s'') (replicate (4 + 9) (lit ''read'', lit ''a'')) True ex_control) =
      BatchStopped ToolCallBudgetExceeded \<and>
   fst (admit_serially ex_hash (\<lambda>_. ex_clock) (lit ''s'') (replicate (4 + 9) (lit ''read'', lit ''a'')) ex_control) =
      Inl RepeatedAction"
  by (rule batch_stop_reason_can_differ) (simp_all add: ex_control_eval(1-7,9-) ex_fast_eval u64_max_def)

end
