(* ===== verification/Snapshot_Properties.thy ===== *)
theory Snapshot_Properties
  imports Tool_Properties
begin

text \<open>
  The properties of suspension, continuation, treatments and goal-delta credit: round trips
  through \<open>RunControlSnapshot\<close>, what a continuation keeps and resets, how treatments share a
  budget and are absorbed, and when staged credit equals live credit.
\<close>

section \<open>Suspension and restoration\<close>

lemma back_by_elapsed: "d \<le> now \<Longrightarrow> now - back_by d now = d"
  by (simp add: back_by_def)

lemma stage_usage_roundtrip:
  assumes "\<And>cls u. usage cls = Some u \<Longrightarrow> ss_elapsed u \<le> now"
  shows "snapshot_stage_usage (\<lambda>_. now) (restore_stage_usage usage now) = usage"
proof
  fix cls
  show "snapshot_stage_usage (\<lambda>_. now) (restore_stage_usage usage now) cls = usage cls"
    using assms [of cls]
    by (cases "usage cls") (simp_all add: snapshot_stage_usage_def restore_stage_usage_def back_by_elapsed)
qed

lemma frontier_restore_id: "frontier_restore (rf_best_known f) (rf_candidates f) = f"
  by (simp add: frontier_restore_def)

lemma restored_control:
  assumes inv: "ctl_inv sha256 c" and sn: "sn = snapshot_locked now at c"
  shows "control_from_snapshot sha256 now' sn p =
    (\<lparr>budget = budget c, user_cancelled = next_flag p, parent_cancelled = None,
      model_calls = model_calls c, tool_calls = tool_calls c, agent_turns = agent_turns c,
      repair_attempts = repair_attempts c, steer_epoch = steer_epoch c,
      ctl_state = (ctl_state c)\<lparr>started_at := back_by (sn_elapsed_active sn) now', last_progress_at := now',
        stage := lit ''resuming'', detail := [], active_model_calls := 0, active_tool_calls := 0,
        telemetry := telemetry_restore (telemetry_snapshot (telemetry (ctl_state c))),
        stage_usage := restore_stage_usage (sn_stage_usage sn) now'\<rparr>\<rparr>, snd (alloc_flag p))"
proof -
  have "ledger_canonical sha256 (resources (ctl_state c))"
    using ctl_invD(14) [OF inv] by (simp add: ledger_ok_def)
  then have L: "ledger_from_snapshot sha256 (ledger_snapshot (resources (ctl_state c))) q =
      (resources (ctl_state c), q)" for q by (rule ledger_snapshot_restore)
  show ?thesis
    unfolding control_from_snapshot_def sn
    by (simp add: snapshot_locked_def Let_def L alloc_flag_def frontier_restore_id)
qed


lemma restored_inv:
  assumes inv: "ctl_inv sha256 c" and sn: "sn = snapshot_locked now at c"
  shows "ctl_inv sha256 (fst (control_from_snapshot sha256 now' sn p))"
proof -
  have st: "stages_ok (budget c) (restore_stage_usage (sn_stage_usage sn) now')"
    using ctl_invD(11) [OF inv]
    by (auto simp: sn snapshot_locked_def Let_def stages_ok_def restore_stage_usage_def snapshot_stage_usage_def)
  show ?thesis
    using ctl_invD [OF inv] st unfolding restored_control [OF inv sn] ctl_inv_def by simp
qed

text \<open>
  C28. Suspending and resuming loses nothing: restoring the snapshot of a reachable control
  gives a control whose own snapshot, taken at the moment of restoration, is the snapshot it was
  restored from (counters, histories, credit, queue, epochs, phase, results, pending resource
  reservations, telemetry, elapsed times), and which satisfies the invariant, so every property
  of reachable controls holds for the resumed run. The resume clock must not lie before the
  elapsed times it counts back.
\<close>

theorem suspend_resume_roundtrip:
  assumes "sys_init sha256 s" "(control_step fp sha256)\<^sup>*\<^sup>* s (p, c, w)"
    and "sn = snapshot_locked now at c"
    and "sn_elapsed_active sn \<le> now'"
    and "\<forall>cls u. sn_stage_usage sn cls = Some u \<longrightarrow> ss_elapsed u \<le> now'"
    and "control_from_snapshot sha256 now' sn q = (c', q')"
  shows "snapshot_locked now' (\<lambda>_. now') c' = sn \<and> ctl_inv sha256 c' \<and>
    \<not> flag q' (user_cancelled c') \<and> parent_cancelled c' = None"
proof -
  note inv = reach_sys_inv [OF assms(1,2)]
  note R = restored_control [OF inv assms(3), of now' q]
  have "min (now' - back_by (sn_elapsed_active sn) now') (max_duration (budget c)) = sn_elapsed_active sn"
    using assms(4) by (simp add: back_by_elapsed assms(3) snapshot_locked_def Let_def)
  moreover have "snapshot_stage_usage (\<lambda>_. now') (restore_stage_usage (sn_stage_usage sn) now') = sn_stage_usage sn"
    by (rule stage_usage_roundtrip) (use assms(5) in blast)
  ultimately have "snapshot_locked now' (\<lambda>_. now') c' = sn"
    using assms(6) R by (auto simp: snapshot_locked_def Let_def telemetry_roundtrip assms(3))
  moreover have "ctl_inv sha256 c'"
    using restored_inv [OF inv assms(3), of now' q] assms(6) by simp
  moreover have "\<not> flag q' (user_cancelled c')" "parent_cancelled c' = None"
    using assms(6) R by (auto simp: alloc_flag_def)
  ultimately show ?thesis by simp
qed

lemma continuation_ledger:
  assumes "ledger_canonical sha256 l"
  shows "committed_tokens (lg_lineage (start_new_segment sha256 l)) = committed_tokens (lg_lineage l)"
    and "lg_segment (start_new_segment sha256 l) = run_usage_default"
    and "lg_pending_attempts (start_new_segment sha256 l) = []"
  using assms settle_all_committed(1) [of "lg_lineage l" "lg_pending_attempts l" sha256]
  by (simp_all add: start_new_segment_def ledger_canonical_def ledger_wf_def)

text \<open>
  C29. Continuing a stopped run: a user-cancelled run is refused; a run stopped for any other
  reason gets a fresh segment (no stop reason, executing, all counters zero, unspent goal-delta
  credit closed, an empty resource segment) that satisfies the invariant, while the steer queue,
  the epochs, the results and the tokens committed over the run's lineage carry over.
\<close>

theorem continuation_outcomes:
  assumes "sys_init sha256 s" "(control_step fp sha256)\<^sup>*\<^sup>* s (p, c, w)"
    and "stop_reason (ctl_state c) = Some reason"
    and "control_from_snapshot_for_continuation sha256 now' (snapshot_locked now at c) q = (r, q')"
  shows "if reason = UserCancelled then r = Inl UserCancelled \<and> q' = q
    else (\<exists>c'. r = Inr c' \<and> ctl_inv sha256 c' \<and> stop_reason (ctl_state c') = None \<and>
      phase (ctl_state c') = Executing \<and> budget c' = budget c \<and>
      model_calls c' = 0 \<and> tool_calls c' = 0 \<and> agent_turns c' = 0 \<and> repair_attempts c' = 0 \<and>
      model_extension_goal_delta (ctl_state c') = goal_delta_count (ctl_state c) \<and>
      pending_steers (ctl_state c') = pending_steers (ctl_state c) \<and>
      steer_epoch c' = steer_epoch c \<and>
      applied_steer_epoch (ctl_state c') = applied_steer_epoch (ctl_state c) \<and>
      results (ctl_state c') = results (ctl_state c) \<and>
      lg_segment (resources (ctl_state c')) = run_usage_default \<and>
      committed_tokens (lg_lineage (resources (ctl_state c'))) =
        committed_tokens (lg_lineage (resources (ctl_state c))))"
proof (cases "reason = UserCancelled")
  case True
  then show ?thesis
    using assms(3,4) by (auto simp: control_from_snapshot_for_continuation_def snapshot_locked_def Let_def)
next
  case False
  note inv = reach_sys_inv [OF assms(1,2)]
  note I = ctl_invD [OF inv]
  define l where "l = resources (ctl_state c)"
  have can: "ledger_canonical sha256 l" using I(14) by (simp add: ledger_ok_def l_def)
  note L = ledger_snapshot_restore [OF can, of q] and C = continuation_ledger [OF can]
  have ok: "ledger_ok sha256 (budget c) False (start_new_segment sha256 l)"
    using ledger_canonical_start_new_segment [OF can I(1)]
    by (simp add: ledger_ok_def C(2) run_usage_default_def committed_tokens_def sat_add_def)
  have fresh: "control_from_snapshot_for_continuation sha256 now' (snapshot_locked now at c) q =
     (case alloc_flag q of (a, q2) \<Rightarrow> (Inr \<lparr>budget = budget c, user_cancelled = a, parent_cancelled = None,
         model_calls = 0, tool_calls = 0, agent_turns = 0, repair_attempts = 0, steer_epoch = steer_epoch c,
         ctl_state = (ctl_state c)\<lparr>started_at := now', last_progress_at := now', stage := lit ''continuing'',
           detail := [], model_extension_goal_delta := goal_delta_count (ctl_state c),
           tool_extension_goal_delta := goal_delta_count (ctl_state c),
           agent_turn_extension_goal_delta := goal_delta_count (ctl_state c),
           model_call_limit := max (min (initial_model_calls (budget c)) (max_model_calls (budget c))) 1,
           tool_call_limit := max (min (initial_tool_calls (budget c)) (max_tool_calls (budget c))) 1,
           agent_turn_limit := max (min (initial_agent_turns (budget c)) (max_agent_turns (budget c))) 1,
           stop_reason := None, active_model_calls := 0, active_tool_calls := 0,
           telemetry := telemetry_default, phase := Executing, stage_usage := Map.empty,
           resources := start_new_segment sha256 l\<rparr>\<rparr>, q2))"
    using assms(3) False L [unfolded l_def]
    by (cases reason) (simp_all add: control_from_snapshot_for_continuation_def snapshot_locked_def Let_def
        l_def frontier_restore_id split: prod.split)
  have credit: "credit_ok d d d d x" if "credit_ok d m t a x" for d m t a x
    using that by (auto simp: credit_ok_def)
  show ?thesis
    using assms(4) False C(1,2) ok I credit [OF I(10)]
    unfolding fresh
    by (auto simp: ctl_inv_def stages_ok_def limit_ok_def budget_wf_def l_def split: prod.splits)
qed

section \<open>Treatments\<close>

lemma two_refusals: "(if P then None else if Q then None else Some x) = Some b \<Longrightarrow> \<not> P \<and> \<not> Q \<and> b = x"
  by (auto split: if_splits)

text \<open>A granted treatment budget in terms of what the parent has left.\<close>

lemma treatment_budget_Some:
  assumes "treatment_budget now n c = Some b"
  obtains k mc tc turns uc ut ua rp tk ph where
    "k = max n 1" "mc = max_model_calls (budget c) - model_calls c"
    "tc = max_tool_calls (budget c) - tool_calls c" "turns = max_agent_turns (budget c) - agent_turns c"
    "uc = min (model_call_limit (ctl_state c) - model_calls c) mc"
    "ut = min (tool_call_limit (ctl_state c) - tool_calls c) tc"
    "ua = min (agent_turn_limit (ctl_state c) - agent_turns c) turns"
    "rp = max_repair_attempts (budget c) - repair_attempts c"
    "tk = max_total_tokens (budget c) - committed_tokens (lg_segment (resources (ctl_state c)))"
    "ph = max_physical_model_attempts (budget c) - ru_physical_attempts (lg_segment (resources (ctl_state c)))"
    "mc div k \<noteq> 0" "tc div k \<noteq> 0" "turns div k \<noteq> 0" "uc div k \<noteq> 0" "ut div k \<noteq> 0" "ua div k \<noteq> 0"
    "rp div k \<noteq> 0" "tk div k \<noteq> 0" "ph div k \<noteq> 0"
    "max_duration b = max_duration (budget c) - (now - started_at (ctl_state c))"
    "initial_model_calls b = uc div k" "max_model_calls b = mc div k"
    "initial_tool_calls b = ut div k" "max_tool_calls b = tc div k"
    "initial_agent_turns b = ua div k" "max_agent_turns b = turns div k"
    "max_repair_attempts b = rp div k" "max_total_tokens b = tk div k"
    "max_physical_model_attempts b = ph div k"
    "terminal_model_call_reserve b = min (terminal_model_call_reserve (budget c) div k) (mc div k - 1)"
    "terminal_token_reserve b = min (terminal_token_reserve (budget c) div k) (tk div k - 1)"
    "terminal_physical_model_attempt_reserve b =
       min (terminal_physical_model_attempt_reserve (budget c) div k) (ph div k - 1)"
proof -
  define k where "k = max n 1"
  define mc where "mc = max_model_calls (budget c) - model_calls c"
  define tc where "tc = max_tool_calls (budget c) - tool_calls c"
  define turns where "turns = max_agent_turns (budget c) - agent_turns c"
  define uc where "uc = min (model_call_limit (ctl_state c) - model_calls c) mc"
  define ut where "ut = min (tool_call_limit (ctl_state c) - tool_calls c) tc"
  define ua where "ua = min (agent_turn_limit (ctl_state c) - agent_turns c) turns"
  define rp where "rp = max_repair_attempts (budget c) - repair_attempts c"
  define tk where "tk = max_total_tokens (budget c) - committed_tokens (lg_segment (resources (ctl_state c)))"
  define ph where "ph = max_physical_model_attempts (budget c) - ru_physical_attempts (lg_segment (resources (ctl_state c)))"
  note R = two_refusals [OF assms [unfolded treatment_budget_def Let_def, folded k_def mc_def tc_def turns_def rp_def tk_def ph_def,
        folded uc_def ut_def ua_def]]
  have pos: "mc div k \<noteq> 0" "tc div k \<noteq> 0" "turns div k \<noteq> 0" "uc div k \<noteq> 0" "ut div k \<noteq> 0"
    "ua div k \<noteq> 0" "rp div k \<noteq> 0" "tk div k \<noteq> 0" "ph div k \<noteq> 0"
    using conjunct1 [OF conjunct2 [OF R]] by (simp_all only: de_Morgan_disj simp_thms)
  have b: "b = (budget c)\<lparr>max_duration := max_duration (budget c) - (now - started_at (ctl_state c)),
       initial_model_calls := uc div k, max_model_calls := mc div k,
       model_calls_per_extension := max (model_calls_per_extension (budget c) div k) 1,
       initial_tool_calls := ut div k, max_tool_calls := tc div k,
       tool_calls_per_extension := max (tool_calls_per_extension (budget c) div k) 1,
       initial_agent_turns := ua div k, max_agent_turns := turns div k,
       agent_turns_per_extension := max (agent_turns_per_extension (budget c) div k) 1,
       max_repair_attempts := rp div k,
       terminal_model_call_reserve := min (terminal_model_call_reserve (budget c) div k) (mc div k - 1),
       max_total_tokens := tk div k, max_physical_model_attempts := ph div k,
       terminal_token_reserve := min (terminal_token_reserve (budget c) div k) (tk div k - 1),
       terminal_physical_model_attempt_reserve :=
         min (terminal_physical_model_attempt_reserve (budget c) div k) (ph div k - 1)\<rparr>"
    by (rule conjunct2 [OF conjunct2 [OF R]])
  show thesis
    by (rule that [OF k_def mc_def tc_def turns_def uc_def ut_def ua_def rp_def tk_def ph_def pos])
      (simp_all add: b)
qed

lemma treatment_budget_shares:
  assumes "treatment_budget now n c = Some b"
  shows "max n 1 * max_model_calls b \<le> max_model_calls (budget c) - model_calls c"
    "max n 1 * max_tool_calls b \<le> max_tool_calls (budget c) - tool_calls c"
    "max n 1 * max_agent_turns b \<le> max_agent_turns (budget c) - agent_turns c"
    "max n 1 * max_repair_attempts b \<le> max_repair_attempts (budget c) - repair_attempts c"
    "max n 1 * max_total_tokens b \<le> max_total_tokens (budget c) - committed_tokens (lg_segment (resources (ctl_state c)))"
    "max n 1 * max_physical_model_attempts b \<le>
       max_physical_model_attempts (budget c) - ru_physical_attempts (lg_segment (resources (ctl_state c)))"
    "max_duration b = max_duration (budget c) - (now - started_at (ctl_state c))"
  by (rule treatment_budget_Some [OF assms], metis times_div_less_eq_dividend)+

lemma treatment_budget_wf:
  assumes wf: "budget_wf (budget c)" and tb: "treatment_budget now n c = Some b"
  shows "budget_wf b"
proof -
  note B = budget_wf_bounds [OF wf]
  obtain k mc tc turns uc ut ua rp tk ph where E:
    "mc = max_model_calls (budget c) - model_calls c"
    "tc = max_tool_calls (budget c) - tool_calls c" "turns = max_agent_turns (budget c) - agent_turns c"
    "uc = min (model_call_limit (ctl_state c) - model_calls c) mc"
    "ut = min (tool_call_limit (ctl_state c) - tool_calls c) tc"
    "ua = min (agent_turn_limit (ctl_state c) - agent_turns c) turns"
    "rp = max_repair_attempts (budget c) - repair_attempts c"
    "tk = max_total_tokens (budget c) - committed_tokens (lg_segment (resources (ctl_state c)))"
    "ph = max_physical_model_attempts (budget c) - ru_physical_attempts (lg_segment (resources (ctl_state c)))"
    and pos: "mc div k \<noteq> 0" "tc div k \<noteq> 0" "turns div k \<noteq> 0" "uc div k \<noteq> 0" "ut div k \<noteq> 0" "ua div k \<noteq> 0"
    "rp div k \<noteq> 0" "tk div k \<noteq> 0" "ph div k \<noteq> 0"
    and sel: "initial_model_calls b = uc div k" "max_model_calls b = mc div k"
    "initial_tool_calls b = ut div k" "max_tool_calls b = tc div k"
    "initial_agent_turns b = ua div k" "max_agent_turns b = turns div k"
    "max_repair_attempts b = rp div k" "max_total_tokens b = tk div k"
    "max_physical_model_attempts b = ph div k"
    "terminal_model_call_reserve b = min (terminal_model_call_reserve (budget c) div k) (mc div k - 1)"
    "terminal_token_reserve b = min (terminal_token_reserve (budget c) div k) (tk div k - 1)"
    "terminal_physical_model_attempt_reserve b =
       min (terminal_physical_model_attempt_reserve (budget c) div k) (ph div k - 1)"
    by (rule treatment_budget_Some [OF tb])
  have lt: "mc < u64_max" "tc < u64_max" "turns < u64_max" "rp < u64_max" "tk < u64_max" "ph < u64_max"
    using B unfolding E by linarith+
  have le: "uc div k \<le> mc div k" "ut div k \<le> tc div k" "ua div k \<le> turns div k"
    unfolding E(4,5,6) by (simp_all add: div_le_mono)
  have bound: "x div k < u64_max" if "x < u64_max" for x
    using that le_less_trans [OF div_le_dividend] by blast
  have res: "min x (y - 1) < y" if "y \<noteq> 0" for x y :: nat using that by simp
  have one: "1 \<le> x" if "x \<noteq> 0" for x :: nat using that by simp
  show ?thesis
    unfolding budget_wf_def sel
    by (intro conjI le one pos bound lt res)
qed

text \<open>
  C30. Treatments share what is left: when \<open>isolated_treatment\<close> splits a reachable control
  by \<open>n\<close>, the treatment's budget is well formed, \<open>n\<close> such budgets together fit into what the
  parent has left of every metered resource, the treatment starts at the parent's epoch in a
  state that satisfies the invariant, and it shares exactly one thing with the parent: the
  parent's cancellation flag, beside a fresh flag of its own.
\<close>

theorem treatments_share_the_rest:
  assumes "sys_init sha256 s" "(control_step fp sha256)\<^sup>*\<^sup>* s (p, c, w)"
    and "isolated_treatment clk n c p = (Inr child, c', p')"
  shows "c' = c \<and> budget_wf (budget child) \<and> ctl_inv sha256 child \<and> steer_epoch child = steer_epoch c \<and>
    parent_cancelled child = Some (user_cancelled c) \<and> user_cancelled child \<noteq> user_cancelled c \<and>
    (phase (ctl_state c) \<noteq> TerminalCommitted \<longrightarrow> \<not> cancellation_requested p' child) \<and>
    max n 1 * max_model_calls (budget child) \<le> max_model_calls (budget c) - model_calls c \<and>
    max n 1 * max_tool_calls (budget child) \<le> max_tool_calls (budget c) - tool_calls c \<and>
    max n 1 * max_agent_turns (budget child) \<le> max_agent_turns (budget c) - agent_turns c \<and>
    max n 1 * max_repair_attempts (budget child) \<le> max_repair_attempts (budget c) - repair_attempts c \<and>
    max n 1 * max_total_tokens (budget child) \<le>
      max_total_tokens (budget c) - committed_tokens (lg_segment (resources (ctl_state c))) \<and>
    max n 1 * max_physical_model_attempts (budget child) \<le>
      max_physical_model_attempts (budget c) - ru_physical_attempts (lg_segment (resources (ctl_state c))) \<and>
    max_duration (budget child) \<le> max_duration (budget c)"
proof -
  note inv = reach_sys_inv [OF assms(1,2)]
  have fl: "flags_ok p c" using run.reach_inv [OF assms(1,2)] by (simp add: sys_inv_def)
  obtain r0 c0 where ref0: "refresh_stop_reason p (clk 0) c = (r0, c0)" by fastforce
  with assms(3) obtain b where ref: "refresh_stop_reason p (clk 0) c = (None, c')"
    and tb: "treatment_budget (clk 0) n c' = Some b"
    and ch: "child = (fst (with_budget_at_steer_epoch (clk 1) b (steer_epoch c') p))\<lparr>parent_cancelled := Some (user_cancelled c')\<rparr>"
    and p': "p' = snd (with_budget_at_steer_epoch (clk 1) b (steer_epoch c') p)"
    by (cases r0) (auto simp: isolated_treatment_def case_prod_unfold split: option.splits)
  note N = refresh_None [OF ref]
  have c': "c' = c" by (rule N(1))
  note tb = tb [unfolded c'] and ch = ch [unfolded c'] and p' = p' [unfolded c']
  have wf: "budget_wf b" by (rule treatment_budget_wf [OF ctl_invD(2) [OF inv] tb])
  have e: "steer_epoch c \<le> u64_max" using ctl_invD(3) [OF inv] by (simp add: queue_ok_def)
  have W: "ctl_inv sha256 (fst (with_budget_at_steer_epoch (clk 1) b (steer_epoch c) p))"
    by (rule with_budget_inv [OF ctl_invD(1) [OF inv] wf e])
  have "ctl_inv sha256 child" using W unfolding ch ctl_inv_def by simp
  moreover have sel: "budget child = b" "steer_epoch child = steer_epoch c" "user_cancelled child = next_flag p"
    "parent_cancelled child = Some (user_cancelled c)"
    by (simp_all add: ch with_budget_at_steer_epoch_def Let_def case_prod_unfold alloc_flag_def)
  moreover have "flag p' (next_flag p) = False" "a < next_flag p \<Longrightarrow> flag p' a = flag p a" for a
    by (simp_all add: p' with_budget_at_steer_epoch_def Let_def case_prod_unfold alloc_flag_def ledger_flags)
  moreover have "\<not> flag p (user_cancelled c) \<or> phase (ctl_state c) = TerminalCommitted"
    using N(3) by (auto simp: cancellation_requested_def)
  ultimately show ?thesis
    using c' wf fl treatment_budget_shares [OF tb]
    by (auto simp: cancellation_requested_def flags_ok_def split: option.splits)
qed


definition absorb_one ::
  "(nat list \<Rightarrow> nat list) \<Rightarrow> AgentRunControl \<Rightarrow> AgentRunControl \<Rightarrow> process \<Rightarrow> AgentRunControl \<times> process"
where
  "absorb_one sha256 t c p =
     (case absorb_completed_segment sha256 (ledger_snapshot (resources (ctl_state t))) (resources (ctl_state c)) p of
        (l, p') \<Rightarrow>
       (upd (\<lambda>s. s\<lparr>budget_extensions := sat_add (budget_extensions s) (budget_extensions (ctl_state t)),
               resources := l,
               telemetry := telemetry_absorb (telemetry_snapshot (telemetry (ctl_state t))) (telemetry s)\<rparr>)
          (c\<lparr>model_calls := wrap_add (model_calls c) (model_calls t),
             tool_calls := wrap_add (tool_calls c) (tool_calls t),
             agent_turns := wrap_add (agent_turns c) (agent_turns t),
             repair_attempts := wrap_add (repair_attempts c) (repair_attempts t)\<rparr>), p'))"

lemma absorb_one_sel [simp]:
  "budget (fst (absorb_one sha256 t c p)) = budget c"
  "user_cancelled (fst (absorb_one sha256 t c p)) = user_cancelled c"
  "stop_reason (ctl_state (fst (absorb_one sha256 t c p))) = stop_reason (ctl_state c)"
  by (simp_all add: absorb_one_def case_prod_unfold)

lemma absorb_loop_Cons:
  "\<exists>ext'. absorb_loop sha256 (t # ts) ext c p =
    (if parent_cancelled t \<noteq> Some (user_cancelled c) then (None, upd (or_stop ProviderUnavailable) c, p)
     else absorb_loop sha256 ts ext' (fst (absorb_one sha256 t c p)) (snd (absorb_one sha256 t c p)))"
  unfolding absorb_loop.simps Let_def absorb_one_def by (auto simp only: case_prod_unfold fst_conv snd_conv)

lemma absorb_loop_sel:
  assumes "absorb_loop sha256 ts ext c p = (r, c', p')"
  shows "budget c' = budget c \<and> user_cancelled c' = user_cancelled c \<and>
    (\<forall>x. stop_reason (ctl_state c) = Some x \<longrightarrow> stop_reason (ctl_state c') = Some x) \<and>
    (r = None \<longrightarrow> stop_reason (ctl_state c') \<noteq> None) \<and>
    (r \<noteq> None \<longrightarrow> (\<forall>t \<in> set ts. parent_cancelled t = Some (user_cancelled c)) \<and>
      stop_reason (ctl_state c') = stop_reason (ctl_state c))"
  using assms
proof (induction ts arbitrary: ext c p)
  case (Cons t ts)
  obtain ext' where E: "absorb_loop sha256 (t # ts) ext c p =
    (if parent_cancelled t \<noteq> Some (user_cancelled c) then (None, upd (or_stop ProviderUnavailable) c, p)
     else absorb_loop sha256 ts ext' (fst (absorb_one sha256 t c p)) (snd (absorb_one sha256 t c p)))"
    using absorb_loop_Cons by blast
  show ?case
  proof (cases "parent_cancelled t \<noteq> Some (user_cancelled c)")
    case True
    then show ?thesis using Cons.prems unfolding E by (auto split: option.split)
  next
    case False
    then show ?thesis
      using Cons.IH [of ext' "fst (absorb_one sha256 t c p)" "snd (absorb_one sha256 t c p)"] Cons.prems
      unfolding E by simp
  qed
qed auto

text \<open>
  Absorbing treatments is all or stop: when \<open>absorb_isolated_treatments\<close> succeeds, every
  control it absorbed was a treatment of this one, and the summed counters, resources and limits
  are within the parent's budget; when it fails, the run has a stop reason. A stop reason the
  run already had stays.
\<close>

theorem absorbed_treatments_fit_or_stop:
  assumes "absorb_isolated_treatments sha256 now ts c p = (r, c', p')"
  shows "budget c' = budget c \<and> (stop_reason (ctl_state c) = Some x \<longrightarrow> stop_reason (ctl_state c') = Some x) \<and>
    (case r of
       Inr _ \<Rightarrow> (\<forall>t \<in> set ts. parent_cancelled t = Some (user_cancelled c)) \<and>
         model_calls c' \<le> max_model_calls (budget c) \<and> model_calls c' \<le> model_call_limit (ctl_state c') \<and>
         tool_calls c' \<le> max_tool_calls (budget c) \<and> tool_calls c' \<le> tool_call_limit (ctl_state c') \<and>
         agent_turns c' \<le> max_agent_turns (budget c) \<and> agent_turns c' \<le> agent_turn_limit (ctl_state c') \<and>
         repair_attempts c' \<le> max_repair_attempts (budget c) \<and>
         ru_physical_attempts (lg_segment (resources (ctl_state c'))) \<le> max_physical_model_attempts (budget c) \<and>
         committed_tokens (lg_segment (resources (ctl_state c'))) \<le> max_total_tokens (budget c)
     | Inl _ \<Rightarrow> stop_reason (ctl_state c') \<noteq> None)"
proof -
  obtain e c1 p1 where L: "absorb_loop sha256 ts (0, 0, 0) c p = (e, c1, p1)" by (metis prod_cases3)
  note A = absorb_loop_sel [OF L]
  show ?thesis
  proof (cases e)
    case None
    then show ?thesis using assms A by (auto simp: absorb_isolated_treatments_def L)
  next
    case (Some ext)
    obtain mx tx ax where ext: "ext = (mx, tx, ax)" by (metis prod_cases3)
    then show ?thesis
      using assms A Some
      by (auto simp: absorb_isolated_treatments_def L treatments_exceed_def Let_def not_less
          split: if_splits option.splits)
  qed
qed

section \<open>Goal deltas\<close>

text \<open>The fields goal-delta credit reads and writes.\<close>

definition same_credit :: "AgentRunControl \<Rightarrow> AgentRunControl \<Rightarrow> bool" where
  "same_credit c d \<longleftrightarrow>
     steer_epoch c = steer_epoch d \<and> phase (ctl_state c) = phase (ctl_state d) \<and>
     stop_reason (ctl_state c) = stop_reason (ctl_state d) \<and>
     pending_steers (ctl_state c) = pending_steers (ctl_state d) \<and>
     applied_steer_epoch (ctl_state c) = applied_steer_epoch (ctl_state d) \<and>
     goal_delta_fingerprints (ctl_state c) = goal_delta_fingerprints (ctl_state d) \<and>
     goal_delta_count (ctl_state c) = goal_delta_count (ctl_state d) \<and>
     checkpoint_fingerprints (ctl_state c) = checkpoint_fingerprints (ctl_state d) \<and>
     checkpoint_count (ctl_state c) = checkpoint_count (ctl_state d)"

lemma record_goal_delta_flags:
  "cancellation_requested p (snd (record_goal_delta_locked fp q now e d c)) = cancellation_requested p c"
  by (simp add: cancellation_requested_def record_goal_delta_locked_def Let_def)

lemma same_credit_record:
  assumes "same_credit c d" "\<not> cancellation_requested p c" "\<not> cancellation_requested q d"
  shows "fst (record_goal_delta_locked fp p t e g c) = fst (record_goal_delta_locked fp q u e g d) \<and>
    same_credit (snd (record_goal_delta_locked fp p t e g c)) (snd (record_goal_delta_locked fp q u e g d))"
  using assms
  by (auto simp: same_credit_def record_goal_delta_locked_def goal_delta_blocked_def Let_def note_progress_def)

lemma same_credit_count:
  assumes "same_credit c d" "\<not> cancellation_requested p c" "\<not> cancellation_requested q d"
  shows "fst (count_goal_deltas fp p t e gs c) = fst (count_goal_deltas fp q u e gs d) \<and>
    same_credit (snd (count_goal_deltas fp p t e gs c)) (snd (count_goal_deltas fp q u e gs d))"
  using assms
proof (induction gs arbitrary: c d t u)
  case (Cons g gs)
  obtain ok c1 where c1: "record_goal_delta_locked fp p (t 0) e g c = (ok, c1)" by fastforce
  obtain ok' d1 where d1: "record_goal_delta_locked fp q (u 0) e g d = (ok', d1)" by fastforce
  have "ok = ok'" "same_credit c1 d1"
    using same_credit_record [OF Cons.prems, of fp "t 0" e g "u 0"] c1 d1 by simp_all
  moreover have "\<not> cancellation_requested p c1" "\<not> cancellation_requested q d1"
    using Cons.prems(2,3) record_goal_delta_flags c1 d1 by (metis snd_conv)+
  ultimately show ?case
    using Cons.IH [of c1 d1 "clock_from 1 t" "clock_from 1 u"]
    by (simp add: c1 d1 case_prod_unfold del: clock_from_apply)
qed simp

lemma staged_control_credit:
  assumes inv: "ctl_inv sha256 c" and fl: "flags_ok p c"
    and st: "control_from_snapshot sha256 now' (snapshot_locked now at c) p = (staged, p1)"
  shows "same_credit staged c" "\<not> cancellation_requested p1 staged"
    "cancellation_requested p1 c = cancellation_requested p c"
  using st fl unfolding restored_control [OF inv refl]
  by (auto simp: same_credit_def cancellation_requested_def alloc_flag_def flags_ok_def split: option.splits)

text \<open>
  Staged credit is live credit: when the run is not cancelled, \<open>commit_goal_deltas_at_with\<close>
  hands its closure a snapshot that already contains exactly the goal-delta credit the live
  control ends up with: as many deltas accepted, the same counts, receipts and checkpoints.
\<close>

theorem staged_goal_deltas_match_live:
  assumes "sys_init sha256 s" "(control_step fp sha256)\<^sup>*\<^sup>* s (p, c, w)"
    and "\<not> cancellation_requested p c"
    and "staged_goal_deltas fp sha256 t0 t1 t2 at e ds c p = (n, sn, p1)"
    and "commit_goal_deltas_at_with fp sha256 t0 t1 t2 t3 at e ds commit c p x = (Inr (v, m), c', p', x')"
  shows "n = m \<and> commit sn x = (Inr v, x') \<and>
    sn_goal_delta_count sn = goal_delta_count (ctl_state c') \<and>
    sn_goal_delta_fingerprints sn = goal_delta_fingerprints (ctl_state c') \<and>
    sn_checkpoint_count sn = checkpoint_count (ctl_state c') \<and>
    sn_checkpoint_fingerprints sn = checkpoint_fingerprints (ctl_state c')"
proof -
  have inv: "ctl_inv sha256 c" and fl: "flags_ok p c"
    using run.reach_inv [OF assms(1,2)] by (simp_all add: sys_inv_def)
  obtain staged q where st: "control_from_snapshot sha256 (t0 1) (snapshot_locked (t0 0) at c) p = (staged, q)"
    by fastforce
  note S = staged_control_credit [OF inv fl st]
  obtain k staged' where cnt: "count_goal_deltas fp q t1 e ds staged = (k, staged')" by fastforce
  have sn: "n = k" "sn = snapshot_locked (t2 0) at staged'" "p1 = q"
    using assms(4) by (simp_all add: staged_goal_deltas_def st [unfolded One_nat_def] cnt)
  obtain m' c'' where live: "count_goal_deltas fp q t3 e ds c = (m', c'')" by fastforce
  have "commit sn x = (Inr v, x') \<and> m' = m \<and> c'' = c'"
    using assms(5) unfolding commit_goal_deltas_at_with_def assms(4)
    by (auto simp: sn(3) live split: prod.splits sum.splits)
  moreover have "k = m' \<and> same_credit staged' c''"
    using same_credit_count [OF S(1,2), of q fp t1 e ds t3] assms(3) S(3) cnt live by simp
  ultimately show ?thesis
    by (simp add: sn same_credit_def snapshot_locked_def Let_def)
qed

text \<open>
  The exception to C19 is a treatment whose parent was cancelled: the staged copy does not
  hold the parent's flag, so a new delta is credited in the persisted snapshot while the live
  control refuses it, and the two counts that \<open>debug_assert_eq!\<close> compares differ.
\<close>

theorem parent_cancel_splits_goal_delta_credit:
  assumes "ctl_inv sha256 c" "flags_ok p c" "parent_cancelled c = Some a" "flag p a"
    and "phase (ctl_state c) \<noteq> TerminalCommitted" "stop_reason (ctl_state c) = None"
    and "pending_steers (ctl_state c) = []" "applied_steer_epoch (ctl_state c) = e" "steer_epoch c = e"
    and "r \<in> set (gd_receipt_ids d)"
    and "fp (HashStrU64 (lit ''goal_delta_receipt'') r) \<notin> goal_delta_fingerprints (ctl_state c)"
  shows "fst (staged_goal_deltas fp sha256 t0 t1 t2 at e [d] c p) = 1 \<and>
    fst (count_goal_deltas fp p t3 e [d] c) = 0"
proof -
  obtain staged q where st: "control_from_snapshot sha256 (t0 1) (snapshot_locked (t0 0) at c) p = (staged, q)"
    by fastforce
  note S = staged_control_credit [OF assms(1,2) st]
  have "\<not> goal_delta_blocked q e staged"
    using S(1,2) assms(5-9) by (simp add: goal_delta_blocked_def same_credit_def)
  moreover have "\<not> list_all (\<lambda>r. r \<in> goal_delta_fingerprints (ctl_state staged))
      (map (\<lambda>r. fp (HashStrU64 (lit ''goal_delta_receipt'') r)) (gd_receipt_ids d))"
    using S(1) assms(10,11) by (auto simp: same_credit_def list_all_iff)
  ultimately have "fst (record_goal_delta_locked fp q t e d staged)" for t
    by (simp add: record_goal_delta_locked_def Let_def)
  then have "fst (count_goal_deltas fp q t1 e [d] staged) = 1" by (simp add: case_prod_unfold)
  moreover have "goal_delta_blocked p e c"
    using assms(3,4) by (simp add: goal_delta_blocked_def cancellation_requested_def)
  then have "fst (count_goal_deltas fp p t3 e [d] c) = 0"
    by (simp add: record_goal_delta_locked_def)
  ultimately show ?thesis
    by (simp only: staged_goal_deltas_def st Let_def prod.case case_prod_unfold fst_conv snd_conv simp_thms)
qed

text \<open>
  A goal delta is credited once: after an accepted delta, the same delta (or any whose
  receipts are among those already credited) is refused and changes nothing, so the budget
  cannot be extended twice on the same evidence.
\<close>

theorem goal_delta_credited_once:
  assumes "record_goal_delta_at fp p now e d c = (True, c')"
    and "set (gd_receipt_ids d') \<subseteq> set (gd_receipt_ids d)"
  shows "goal_delta_count (ctl_state c') = sat_add (goal_delta_count (ctl_state c)) 1 \<and>
    record_goal_delta_at fp p' now' e' d' c' = (False, c')"
proof -
  let ?rs = "\<lambda>d. map (\<lambda>r. fp (HashStrU64 (lit ''goal_delta_receipt'') r)) (gd_receipt_ids d)"
  have "goal_delta_count (ctl_state c') = sat_add (goal_delta_count (ctl_state c)) 1 \<and>
      set (?rs d) \<subseteq> goal_delta_fingerprints (ctl_state c')"
    using assms(1) unfolding record_goal_delta_at_def record_goal_delta_locked_def Let_def
    by (auto split: if_splits)
  moreover have "set (?rs d') \<subseteq> set (?rs d)" using assms(2) by auto
  ultimately have c: "goal_delta_count (ctl_state c') = sat_add (goal_delta_count (ctl_state c)) 1"
    and "list_all (\<lambda>r. r \<in> goal_delta_fingerprints (ctl_state c')) (?rs d')"
    by (auto simp: list_all_iff)
  then show ?thesis by (simp add: record_goal_delta_at_def record_goal_delta_locked_def)
qed

section \<open>The properties on the example run\<close>

theorem suspend_resume_roundtrip_witness:
  "snapshot_locked 5 (\<lambda>_. 5) (fst (control_from_snapshot ex_sha256 5 (snapshot_locked 3 (\<lambda>_. 3) ex_steered) ex_proc)) =
     snapshot_locked 3 (\<lambda>_. 3) ex_steered \<and>
   sn_pending_steers (snapshot_locked 3 (\<lambda>_. 3) ex_steered) = [ex_queued]"
proof -
  obtain c' q' where r: "control_from_snapshot ex_sha256 5 (snapshot_locked 3 (\<lambda>_. 3) ex_steered) ex_proc = (c', q')"
    by fastforce
  have u: "stage_usage (ctl_state ex_steered) = Map.empty"
    by (simp add: ex_steered_def accept_steer_def Let_def note_progress_def ex_control_eval)
  have "snapshot_locked 5 (\<lambda>_. 5) c' = snapshot_locked 3 (\<lambda>_. 3) ex_steered \<and> ctl_inv ex_sha256 c' \<and>
      \<not> flag q' (user_cancelled c') \<and> parent_cancelled c' = None"
    by (rule suspend_resume_roundtrip [OF ex_init ex_reach_steered refl _ _ r])
      (simp_all add: snapshot_locked_def Let_def snapshot_stage_usage_def u ex_steered_eval)
  moreover have "sn_pending_steers (snapshot_locked 3 (\<lambda>_. 3) ex_steered) = [ex_queued]"
    by (simp add: snapshot_locked_def Let_def ex_steered_eval)
  ultimately show ?thesis by (simp only: r fst_conv)
qed

theorem continuation_outcomes_witness:
  "\<exists>c' q'. control_from_snapshot_for_continuation ex_sha256 9 (snapshot_locked 3 (\<lambda>_. 3) ex_stopped) ex_proc = (Inr c', q') \<and>
     stop_reason (ctl_state ex_stopped) = Some ProviderUnavailable \<and> stop_reason (ctl_state c') = None \<and>
     phase (ctl_state c') = Executing \<and> model_calls c' = 0"
proof -
  obtain r q' where r: "control_from_snapshot_for_continuation ex_sha256 9 (snapshot_locked 3 (\<lambda>_. 3) ex_stopped) ex_proc = (r, q')"
    by fastforce
  have s: "stop_reason (ctl_state ex_stopped) = Some ProviderUnavailable"
    by (simp add: ex_stopped_def request_stop_def set_stop_reason_def ex_control_eval)
  from continuation_outcomes [OF ex_init ex_reach_stopped s r] r s show ?thesis by auto
qed

lemma ex_isolated:
  "\<exists>child p'. isolated_treatment ex_clock 2 ex_control ex_proc = (Inr child, ex_control, p')"
proof -
  have "treatment_budget 0 2 ex_control \<noteq> None"
    unfolding treatment_budget_def Let_def ex_control_eval ex_ledger
    by (simp add: for_effort_def lit_def from_secs_def budget_default_defs run_usage_default_def
        committed_tokens_def sat_add_def eval_nat_numeral(3) [symmetric] del: One_nat_def)
  then obtain b where "treatment_budget 0 2 ex_control = Some b" by blast
  then show ?thesis
    unfolding isolated_treatment_def stop_first_eq
    by (simp add: ex_clock_def ex_not_stopped split: prod.split)
qed

theorem treatments_share_the_rest_witness:
  "\<exists>child p'. isolated_treatment ex_clock 2 ex_control ex_proc = (Inr child, ex_control, p') \<and>
     parent_cancelled child = Some (user_cancelled ex_control) \<and>
     2 * max_model_calls (budget child) \<le> max_model_calls (budget ex_control) - model_calls ex_control"
proof -
  obtain child p' where r: "isolated_treatment ex_clock 2 ex_control ex_proc = (Inr child, ex_control, p')"
    using ex_isolated by blast
  have "max 2 1 = (2::nat)" by simp
  with treatments_share_the_rest [OF ex_init rtranclp.rtrancl_refl r] r show ?thesis by metis
qed

lemma ex_absorbed_segment:
  "lg_segment (fst (absorb_completed_segment ex_sha256 (ledger_snapshot (resources (ctl_state ex_control)))
     (resources (ctl_state ex_control)) ex_proc)) = run_usage_default"
  unfolding absorb_completed_segment_def ledger_from_persisted_snapshot_def ledger_from_snapshot_def
    settle_all_pending_as_unknown_def ledger_snapshot_def
  by (simp add: ex_ledger case_prod_unfold Let_def bump_mutation_revision_def merge_run_usage_def bounded_usage_def
      merge_models_def merge_counts_def run_usage_default_def counts_default_def sat_add_def)

lemma ex_absorbed:
  "\<exists>c' p'. absorb_isolated_treatments ex_sha256 0 [ex_treatment] ex_control ex_proc = (Inr (), c', p')"
  by (simp add: absorb_isolated_treatments_def ex_treatment_def ex_control_eval Let_def case_prod_unfold treatments_exceed_def
     for_effort_def lit_def ex_absorbed_segment run_usage_default_def committed_tokens_def sat_add_def u64_max_def)

theorem absorbed_treatments_fit_or_stop_witness:
  "\<exists>c' p'. absorb_isolated_treatments ex_sha256 0 [ex_treatment] ex_control ex_proc = (Inr (), c', p') \<and>
     parent_cancelled ex_treatment = Some (user_cancelled ex_control) \<and> model_calls c' \<le> model_call_limit (ctl_state c')"
proof -
  obtain c' p' where r: "absorb_isolated_treatments ex_sha256 0 [ex_treatment] ex_control ex_proc = (Inr (), c', p')"
    using ex_absorbed by blast
  from absorbed_treatments_fit_or_stop [OF r, of NoProgress] r show ?thesis by simp
qed

lemma ex_delta_accepted:
  "\<exists>c'. record_goal_delta_at ex_hash ex_proc 0 0 ex_delta ex_control = (True, c')"
  by (simp add: record_goal_delta_at_def record_goal_delta_locked_def goal_delta_blocked_def ex_control_eval
      cancellation_requested_def ex_delta_def ex_hash_def Let_def)

theorem staged_goal_deltas_match_live_witness:
  "\<exists>n sn p1 c' p' x'. staged_goal_deltas ex_hash ex_sha256 ex_clock ex_clock ex_clock (\<lambda>_. 0) 0 [ex_delta] ex_control ex_proc = (n, sn, p1) \<and>
     commit_goal_deltas_at_with ex_hash ex_sha256 ex_clock ex_clock ex_clock ex_clock (\<lambda>_. 0) 0 [ex_delta] (\<lambda>_. ex_commit)
       ex_control ex_proc 0 = (Inr (True, n), c', p', x') \<and>
     ex_commit 0 = (Inr True, x') \<and> sn_goal_delta_count sn = goal_delta_count (ctl_state c')"
proof -
  obtain n sn p1 where s: "staged_goal_deltas ex_hash ex_sha256 ex_clock ex_clock ex_clock (\<lambda>_. 0) 0 [ex_delta] ex_control ex_proc = (n, sn, p1)"
    by (metis prod_cases3)
  obtain m c' where m: "count_goal_deltas ex_hash p1 ex_clock 0 [ex_delta] ex_control = (m, c')" by fastforce
  have r: "commit_goal_deltas_at_with ex_hash ex_sha256 ex_clock ex_clock ex_clock ex_clock (\<lambda>_. 0) 0 [ex_delta] (\<lambda>_. ex_commit)
       ex_control ex_proc 0 = (Inr (True, m), c', p1, 1)"
    by (simp add: commit_goal_deltas_at_with_def s ex_commit_def m del: count_goal_deltas.simps)
  have "\<not> cancellation_requested ex_proc ex_control" by (simp add: cancellation_requested_def ex_control_eval)
  from staged_goal_deltas_match_live [OF ex_init rtranclp.rtrancl_refl this s r] s r show ?thesis by auto
qed

theorem parent_cancel_splits_goal_delta_credit_witness:
  "fst (staged_goal_deltas ex_hash ex_sha256 ex_clock ex_clock ex_clock (\<lambda>_. 0) 0 [ex_delta]
     (ex_control\<lparr>parent_cancelled := Some 1\<rparr>) (ex_proc\<lparr>next_flag := 2, flag := (\<lambda>a. a = 1)\<rparr>)) = 1 \<and>
   fst (count_goal_deltas ex_hash (ex_proc\<lparr>next_flag := 2, flag := (\<lambda>a. a = 1)\<rparr>) ex_clock 0 [ex_delta]
     (ex_control\<lparr>parent_cancelled := Some 1\<rparr>)) = 0"
proof (rule parent_cancel_splits_goal_delta_credit)
  have "ctl_inv ex_sha256 ex_control"
    unfolding ex_start_def control_new_def control_new_at_steer_epoch_def
    by (rule with_budget_inv [OF ex_sha256_ok for_effort_wf]) simp
  then show "ctl_inv ex_sha256 (ex_control\<lparr>parent_cancelled := Some 1\<rparr>)" by (simp add: ctl_inv_def)
  show "7 \<in> set (gd_receipt_ids ex_delta)" by (simp add: ex_delta_def)
qed (simp_all add: ex_control_eval flags_ok_def)

theorem goal_delta_credited_once_witness:
  "\<exists>c'. record_goal_delta_at ex_hash ex_proc 0 0 ex_delta ex_control = (True, c') \<and>
     goal_delta_count (ctl_state c') = 1 \<and> record_goal_delta_at ex_hash ex_proc 1 0 ex_delta c' = (False, c')"
proof -
  obtain c' where r: "record_goal_delta_at ex_hash ex_proc 0 0 ex_delta ex_control = (True, c')"
    using ex_delta_accepted by blast
  from goal_delta_credited_once [OF r order.refl, of ex_proc 1 0] r show ?thesis
    by (simp add: ex_control_eval sat_add_def u64_max_def)
qed

end
