(* ===== verification/Ledger_Properties.thy ===== *)
theory Ledger_Properties
  imports Ledger_Laws Step_System
begin

text \<open>
  The resource ledger as a step system of its own (reservations, settlements, new segments and
  crash recovery in any order) and its properties: balanced books, protected reserves, single
  settlement, recovery and round trip.
\<close>

section \<open>The ledger as a step system\<close>

inductive ledger_step ::
  "(nat list \<Rightarrow> nat list) \<Rightarrow> RunBudget \<Rightarrow> RunResourceLedger \<Rightarrow> RunResourceLedger \<Rightarrow> bool"
  for sha256 :: "nat list \<Rightarrow> nat list" and b :: RunBudget
where
  reserve: "ledger_reserve sha256 b cls model x y l = (r, l') \<Longrightarrow> ledger_step sha256 b l l'"
| settle: "ledger_settle sha256 b a u l = (st, l') \<Longrightarrow> ledger_step sha256 b l l'"
| new_segment: "ledger_step sha256 b l (start_new_segment sha256 l)"
| recover: "ledger_step sha256 b l (settle_all_pending_as_unknown sha256 l)"

definition ledger_init :: "(nat list \<Rightarrow> nat list) \<Rightarrow> RunBudget \<Rightarrow> RunResourceLedger \<Rightarrow> bool" where
  "ledger_init sha256 b l \<longleftrightarrow> sha256_ok sha256 \<and> budget_wf b \<and> (\<exists>p. l = fst (ledger_new p))"

definition ledger_inv :: "(nat list \<Rightarrow> nat list) \<Rightarrow> RunBudget \<Rightarrow> RunResourceLedger \<Rightarrow> bool" where
  "ledger_inv sha256 b l \<longleftrightarrow> sha256_ok sha256 \<and> budget_wf b \<and> ledger_canonical sha256 l \<and>
     ru_physical_attempts (lg_segment l) \<le> max_physical_model_attempts b"

definition ledger_guar :: "RunResourceLedger \<Rightarrow> RunResourceLedger \<Rightarrow> bool" where
  "ledger_guar l l' \<longleftrightarrow> lg_ledger_id l' = lg_ledger_id l \<and>
     (lg_next_attempt_id l \<le> u64_max \<longrightarrow>
        lg_next_attempt_id l \<le> lg_next_attempt_id l' \<and> lg_next_attempt_id l' \<le> u64_max) \<and>
     (ru_total_tokens (lg_lineage l) \<le> u64_max \<longrightarrow>
        ru_total_tokens (lg_lineage l) \<le> ru_total_tokens (lg_lineage l') \<and>
        ru_total_tokens (lg_lineage l') \<le> u64_max)"

text \<open>An example: a fresh ledger, one attempt of 150 tokens reserved on it, and the attempt settled
with unknown usage.\<close>

definition ex_digest :: "nat list \<Rightarrow> nat list" where
  "ex_digest bs = replicate 32 0"

definition ex_fast :: RunBudget where
  "ex_fast = for_effort (lit ''fast'')"

definition ex_books :: RunResourceLedger where
  "ex_books = \<lparr>lg_mutation_revision = 0, lg_ledger_id = 1, lg_next_attempt_id = 1,
     lg_segment = run_usage_default, lg_lineage = run_usage_default, lg_pending_attempts = []\<rparr>"

definition ex_attempt :: PhysicalModelAttempt where
  "ex_attempt = \<lparr>pa_ledger_id = 1, pa_attempt_id = 1, pa_model = lit ''m'', pa_reserved_tokens = 150\<rparr>"

definition ex_reserved :: RunResourceLedger where
  "ex_reserved = snd (ledger_reserve ex_digest ex_fast Actor (lit ''m'') 100 50 ex_books)"

definition ex_settled :: RunResourceLedger where
  "ex_settled = snd (ledger_settle ex_digest ex_fast ex_attempt None ex_reserved)"

lemma start_new_segment_sel [simp]:
  "lg_ledger_id (start_new_segment sha256 l) = lg_ledger_id l"
  "lg_next_attempt_id (start_new_segment sha256 l) = lg_next_attempt_id l"
  "lg_lineage (start_new_segment sha256 l) = lg_lineage (settle_all_pending_as_unknown sha256 l)"
  "lg_segment (start_new_segment sha256 l) = run_usage_default"
  by (simp_all add: start_new_segment_def)

lemma ledger_step_inv:
  assumes "ledger_step sha256 b l l'" "ledger_inv sha256 b l"
  shows "ledger_inv sha256 b l' \<and> ledger_guar l l'"
  using assms
proof (induction rule: ledger_step.induct)
  case (reserve cls model x y l r l')
  then have B: "max_total_tokens b < u64_max" "max_physical_model_attempts b < u64_max"
    by (simp_all add: ledger_inv_def budget_wf_def)
  show ?case
  proof (cases r)
    case (Inl e)
    then show ?thesis using reserve reserve_Inl [of sha256 b cls model x y l e l'] by (simp add: ledger_guar_def)
  next
    case (Inr a)
    note ok = reserve(1) [unfolded Inr]
    have "ru_physical_attempts (lg_segment l') \<le> max_physical_model_attempts b"
      using reserve_within_allowance(2) [OF ok B] by linarith
    moreover have "ledger_canonical sha256 l'"
      using ledger_canonical_reserve [OF _ _ ok B] reserve(2) by (simp add: ledger_inv_def)
    moreover have "ledger_guar l l'"
      unfolding reserve_Inr(3) [OF ok] by (simp add: ledger_guar_def sat_add_def)
    ultimately show ?thesis using reserve(2) by (simp add: ledger_inv_def)
  qed
next
  case (settle a u l st l')
  then have can: "ledger_canonical sha256 l" and sha: "sha256_ok sha256" by (simp_all add: ledger_inv_def)
  then have bt: "bt_wf (lg_pending_attempts l)" by (simp add: ledger_canonical_def ledger_wf_def)
  have "ledger_canonical sha256 l'" by (rule ledger_canonical_settle [OF can sha settle(1)])
  moreover have "ru_physical_attempts (lg_segment l') = ru_physical_attempts (lg_segment l) \<and> ledger_guar l l'"
    using bt settle(1) by (cases rule: settle_cases) (auto simp: ledger_guar_def sat_add_def)
  ultimately show ?case using settle(2) by (simp add: ledger_inv_def)
next
  case (new_segment l)
  then have can: "ledger_canonical sha256 l" and sha: "sha256_ok sha256" by (simp_all add: ledger_inv_def)
  then show ?case
    using new_segment ledger_canonical_start_new_segment [OF can sha]
    by (simp add: ledger_inv_def ledger_guar_def run_usage_default_def fold_settle_total ledger_canonical_def sat_add_def)
next
  case (recover l)
  then have can: "ledger_canonical sha256 l" and sha: "sha256_ok sha256" by (simp_all add: ledger_inv_def)
  then show ?case
    using recover ledger_canonical_settle_all [OF can sha]
    by (simp add: ledger_inv_def ledger_guar_def fold_settle_total ledger_canonical_def sat_add_def)
qed

interpretation ledger: step_system "ledger_init sha256 b" "ledger_step sha256 b" "ledger_inv sha256 b" ledger_guar
  for sha256 b
proof
  show "ledger_inv sha256 b l" if "ledger_init sha256 b l" for l
    using that ledger_canonical_new
    by (auto simp: ledger_init_def ledger_inv_def ledger_new_def run_usage_default_def split: prod.split)
  show "ledger_inv sha256 b t" if "ledger_inv sha256 b s" "ledger_step sha256 b s t" for s t
    using that ledger_step_inv by blast
  show "ledger_guar s t" if "ledger_inv sha256 b s" "ledger_step sha256 b s t" for s t
    using that ledger_step_inv by blast
  show "ledger_guar s s" for s by (simp add: ledger_guar_def)
  show "ledger_guar s u" if "ledger_guar s t" "ledger_guar t u" for s t u
    using that by (auto simp: ledger_guar_def)
qed

section \<open>Properties\<close>


text \<open>
  Booked tokens never disappear: along every execution of the ledger (reservations,
  settlements, new segments, crash recovery) the lineage's total only grows and attempt ids are
  never handed out again.
\<close>

theorem lineage_never_shrinks:
  assumes "ledger_init sha256 b l0" "(ledger_step sha256 b)\<^sup>*\<^sup>* l0 l" "(ledger_step sha256 b)\<^sup>*\<^sup>* l l'"
  shows "ru_total_tokens (lg_lineage l) \<le> ru_total_tokens (lg_lineage l') \<and>
    lg_next_attempt_id l \<le> lg_next_attempt_id l' \<and> lg_ledger_id l' = lg_ledger_id l"
proof -
  have "lg_next_attempt_id l0 = 1"
    using assms(1) by (auto simp: ledger_init_def ledger_new_def split: prod.split)
  then have "lg_next_attempt_id l \<le> u64_max"
    using ledger.reach_guar [OF assms(1) rtranclp.rtrancl_refl assms(2)] by (simp add: ledger_guar_def u64_max_def)
  moreover have "ledger_guar l l'" by (rule ledger.reach_guar [OF assms(1-3)])
  moreover have "ledger_inv sha256 b l" by (rule ledger.reach_inv [OF assms(1,2)])
  ultimately show ?thesis
    by (auto simp: ledger_guar_def ledger_inv_def ledger_canonical_def)
qed

text \<open>
  C37. An admitted reservation protects the terminal reserve: after a reservation for a class
  other than the finalizer, the tokens spent and reserved leave the whole terminal token reserve
  free and the attempts leave the terminal attempts free; a refused one leaves the ledger as it
  was.
\<close>

theorem reservation_protects_finalizer:
  assumes "budget_wf b" "cls \<noteq> Finalizer"
    and "ledger_reserve sha256 b cls model prompt completion l = (r, l')"
  shows "case r of
      Inr a \<Rightarrow> ru_total_tokens (lg_segment l') + ru_reserved_tokens (lg_segment l') + terminal_token_reserve b
          \<le> max_total_tokens b \<and>
        ru_physical_attempts (lg_segment l') + terminal_physical_model_attempt_reserve b
          \<le> max_physical_model_attempts b \<and>
        pa_reserved_tokens a = sat_add prompt completion \<and>
        (bt_wf (lg_pending_attempts l) \<longrightarrow>
           bt_get (lg_pending_attempts l') (pa_attempt_id a) =
             Some \<lparr>pm_model = pa_model a, pm_reserved_tokens = pa_reserved_tokens a\<rparr>)
    | Inl e \<Rightarrow> l' = l"
proof (cases r)
  case (Inl e)
  then show ?thesis using assms(3) reserve_Inl by fastforce
next
  case (Inr a)
  have B: "max_total_tokens b < u64_max" "max_physical_model_attempts b < u64_max"
    "terminal_token_reserve b < max_total_tokens b"
    "terminal_physical_model_attempt_reserve b < max_physical_model_attempts b"
    using assms(1) by (simp_all add: budget_wf_def)
  note ok = assms(3) [unfolded Inr]
  note W = reserve_within_allowance [OF ok B(1,2)]
  have P: "protected_token_reserve b cls = terminal_token_reserve b"
    "protected_physical_model_attempt_reserve b cls = terminal_physical_model_attempt_reserve b"
    using assms(2) by (simp_all add: protected_token_reserve_def protected_physical_model_attempt_reserve_def)
  show ?thesis
    using W B P by (simp add: Inr reserve_Inr(2,3) [OF ok] bt.get_put_same) linarith
qed

text \<open>
  The terminal reserve is there when it is needed: as long as the spent and reserved tokens
  and the attempts leave the terminal reserves free (as C24 guarantees for all other classes), a
  finalizer reservation of at most the terminal token reserve is granted, provided a pending slot
  and a fresh attempt id are left.
\<close>

theorem finalizer_reservation_granted:
  assumes "budget_wf b"
    and "committed_tokens (lg_segment l) + terminal_token_reserve b \<le> max_total_tokens b"
    and "ru_physical_attempts (lg_segment l) + terminal_physical_model_attempt_reserve b
        \<le> max_physical_model_attempts b"
    and "0 < terminal_physical_model_attempt_reserve b"
    and "sat_add prompt completion \<le> terminal_token_reserve b"
    and "length (lg_pending_attempts l) < MAX_PENDING_RESOURCE_ATTEMPTS"
    and "bt_get (lg_pending_attempts l) (lg_next_attempt_id l) = None"
  shows "\<exists>a l'. ledger_reserve sha256 b Finalizer model prompt completion l = (Inr a, l') \<and>
    committed_tokens (lg_segment l') \<le> max_total_tokens b"
proof -
  have "admission_error b Finalizer (sat_add prompt completion) l = None"
    using assms
    by (auto simp: admission_error_def Let_def protected_token_reserve_def
        protected_physical_model_attempt_reserve_def bt_contains_key_def sat_add_def not_less min_def
        split: if_splits)
  then obtain a l' where ok: "ledger_reserve sha256 b Finalizer model prompt completion l = (Inr a, l')"
    by (simp add: ledger_reserve_def Let_def)
  have "max_total_tokens b < u64_max" "max_physical_model_attempts b < u64_max"
    using assms(1) by (simp_all add: budget_wf_def)
  from reserve_within_allowance(1) [OF ok this] have "committed_tokens (lg_segment l') \<le> max_total_tokens b"
    by (simp add: protected_token_reserve_def committed_tokens_def sat_add_def)
  with ok show ?thesis by blast
qed

text \<open>
  Every attempt is settled at most once: a settlement that succeeds releases exactly the
  attempt's reservation, books the reported tokens (the whole reservation when the usage is
  unknown), and any second settlement of the same attempt is refused and changes nothing.
\<close>

theorem attempt_settled_once:
  assumes "ledger_init sha256 b l0" "(ledger_step sha256 b)\<^sup>*\<^sup>* l0 l"
    and "ledger_settle sha256 b a u l = (st, l')" "st_settled st"
  shows "ru_reserved_tokens (lg_segment l) = ru_reserved_tokens (lg_segment l') + pa_reserved_tokens a \<and>
    ru_total_tokens (lg_segment l') = sat_add (ru_total_tokens (lg_segment l))
      (au_total_tokens (attempt_usage_or_unknown (pa_reserved_tokens a) u)) \<and>
    bt_get (lg_pending_attempts l') (pa_attempt_id a) = None \<and>
    (\<forall>u'. ledger_settle sha256 b a u' l' = (not_settled, l'))"
proof -
  have "ledger_inv sha256 b l" by (rule ledger.reach_inv [OF assms(1,2)])
  then have wf: "ledger_wf sha256 l" by (simp add: ledger_inv_def ledger_canonical_def)
  then have bt: "bt_wf (lg_pending_attempts l)"
    and sum: "ru_reserved_tokens (lg_segment l) = pending_sum (lg_pending_attempts l)"
    by (simp_all add: ledger_wf_def)
  have again: "\<forall>u'. ledger_settle sha256 b a u' l' = (not_settled, l')"
    using settle_again_refused [OF wf assms(3,4)] by blast
  from bt assms(3) show ?thesis
  proof (cases rule: settle_cases)
    case refused
    then show ?thesis using assms(4) by (simp add: not_settled_def)
  next
    case (booked pm s)
    have "pending_sum (lg_pending_attempts l) \<ge> pa_reserved_tokens a"
      using pending_sum_remove [OF bt booked(1)] booked(4) by simp
    then show ?thesis using booked sum again by (simp add: bt_get_remove)
  qed
qed

text \<open>
  Recovery after a crash neither loses nor frees tokens: restoring the persisted snapshot of
  a reachable ledger leaves no pending attempt, books every pending reservation as spent, and
  keeps the committed tokens of the segment and of the lineage unchanged.
\<close>

theorem crash_recovery_keeps_commitments:
  assumes "ledger_init sha256 b l0" "(ledger_step sha256 b)\<^sup>*\<^sup>* l0 l"
    and "ledger_from_persisted_snapshot sha256 (ledger_snapshot l) p = (l', p')"
  shows "lg_pending_attempts l' = [] \<and> ru_reserved_tokens (lg_segment l') = 0 \<and>
    committed_tokens (lg_segment l') = committed_tokens (lg_segment l) \<and>
    committed_tokens (lg_lineage l') = committed_tokens (lg_lineage l) \<and>
    ru_physical_attempts (lg_segment l') = ru_physical_attempts (lg_segment l)"
proof -
  have "ledger_inv sha256 b l" by (rule ledger.reach_inv [OF assms(1,2)])
  then have can: "ledger_canonical sha256 l" by (simp add: ledger_inv_def)
  then have "l' = settle_all_pending_as_unknown sha256 l"
    using assms(3) ledger_snapshot_restore [OF can] by (simp add: ledger_from_persisted_snapshot_def)
  then show ?thesis
    using can settle_all_committed [of "lg_segment l" "lg_pending_attempts l" sha256]
      settle_all_committed [of "lg_lineage l" "lg_pending_attempts l" sha256]
    by (simp add: ledger_canonical_def ledger_wf_def)
qed

text \<open>
  Snapshots of a reachable ledger restore to the very same ledger, pending reservations
  included, and consume no new ledger id.
\<close>

theorem ledger_snapshot_roundtrip:
  assumes "ledger_init sha256 b l0" "(ledger_step sha256 b)\<^sup>*\<^sup>* l0 l"
  shows "ledger_from_snapshot sha256 (ledger_snapshot l) p = (l, p)"
proof -
  have "ledger_inv sha256 b l" by (rule ledger.reach_inv [OF assms])
  then show ?thesis by (simp add: ledger_inv_def ledger_snapshot_restore)
qed

text \<open>
  Model identifiers are bounded and stable: whatever name a provider reports, the key the
  ledger files it under has at most 128 bytes, and a key is its own key.
\<close>

theorem model_identifier_bounded:
  assumes "sha256_ok sha256"
  shows "str_len (bounded_model_identifier sha256 raw) \<le> MAX_RESOURCE_MODEL_KEY_BYTES \<and>
    bounded_model_identifier sha256 (bounded_model_identifier sha256 raw) = bounded_model_identifier sha256 raw"
  using bounded_model_identifier_len [OF assms] bounded_model_identifier_idem [OF assms] by simp

section \<open>The properties on an example ledger\<close>

lemma ex_ledger_init: "ledger_init ex_digest ex_fast ex_books"
  unfolding ledger_init_def
  by (intro conjI exI [of _ "\<lparr>next_ledger = 1, next_flag = 0, flag = (\<lambda>_. False)\<rparr>"])
    (simp_all add: sha256_ok_def ex_digest_def ex_fast_def for_effort_wf ex_books_def ledger_new_def next_ledger_id_def)

lemma ex_admitted: "admission_error ex_fast cls 150 ex_books = None"
  unfolding admission_error_def Let_def ex_books_def ex_fast_def
  by (cases cls) (simp_all add: for_effort_def lit_def budget_default_defs run_usage_default_def committed_tokens_def
      sat_add_def protected_physical_model_attempt_reserve_def protected_token_reserve_def
      MAX_PENDING_RESOURCE_ATTEMPTS_def bt_contains_key_def)

lemma ex_model: "bounded_model_key ex_digest [] (lit ''m'') = lit ''m''"
proof -
  have "trim (lit ''m'') = [109]" by (simp add: trim_def lit_def is_whitespace_def)
  moreover have "str_len [109] = 1" by (simp add: str_len_def as_bytes_def utf8_char_def)
  ultimately show ?thesis
    unfolding bounded_model_key_def bounded_model_identifier_def Let_def
    by (simp add: MAX_RESOURCE_MODEL_KEY_BYTES_def bt_contains_key_def OTHER_MODELS_KEY_def lit_def
       MAX_RESOURCE_LEDGER_MODELS_def)
qed

lemma ex_reserve:
  "ledger_reserve ex_digest ex_fast Actor (lit ''m'') 100 50 ex_books = (Inr ex_attempt, ex_reserved)"
proof -
  have "sat_add 100 50 = 150" "bounded_model_key ex_digest (ru_models (lg_lineage ex_books)) (lit ''m'') = lit ''m''"
    by (simp_all add: sat_add_def u64_max_def ex_books_def run_usage_default_def ex_model)
  then show ?thesis
    by (simp add: ledger_reserve_def ex_reserved_def ex_admitted Let_def ex_attempt_def)
      (simp add: ex_books_def)
qed

lemma ex_reserved_eval:
  "lg_pending_attempts ex_reserved = [(1, \<lparr>pm_model = lit ''m'', pm_reserved_tokens = 150\<rparr>)]"
  "lg_ledger_id ex_reserved = 1"
proof -
  have "sat_add 100 50 = 150" "bounded_model_key ex_digest (ru_models (lg_lineage ex_books)) (lit ''m'') = lit ''m''"
    by (simp_all add: sat_add_def u64_max_def ex_books_def run_usage_default_def ex_model)
  then show "lg_pending_attempts ex_reserved = [(1, \<lparr>pm_model = lit ''m'', pm_reserved_tokens = 150\<rparr>)]"
    "lg_ledger_id ex_reserved = 1"
    by (simp_all add: ledger_reserve_def ex_reserved_def ex_admitted Let_def bump_mutation_revision_def)
      (simp_all add: ex_books_def)
qed

lemma ex_settle:
  "ledger_settle ex_digest ex_fast ex_attempt None ex_reserved =
     (fst (ledger_settle ex_digest ex_fast ex_attempt None ex_reserved), ex_settled)"
  by (simp add: ex_settled_def)

lemma ex_settle_ok: "st_settled (fst (ledger_settle ex_digest ex_fast ex_attempt None ex_reserved))"
  by (simp add: ledger_settle_def ex_reserved_eval ex_attempt_def Let_def bt_get_def)

lemma ex_reach_reserved: "(ledger_step ex_digest ex_fast)\<^sup>*\<^sup>* ex_books ex_reserved"
  by (rule r_into_rtranclp) (rule ledger_step.reserve [OF ex_reserve])

lemma ex_reach_settled: "(ledger_step ex_digest ex_fast)\<^sup>*\<^sup>* ex_reserved ex_settled"
  by (rule r_into_rtranclp) (rule ledger_step.settle [OF ex_settle])


theorem lineage_never_shrinks_witness:
  "ru_total_tokens (lg_lineage ex_reserved) \<le> ru_total_tokens (lg_lineage ex_settled) \<and>
    lg_next_attempt_id ex_reserved \<le> lg_next_attempt_id ex_settled \<and> lg_ledger_id ex_settled = lg_ledger_id ex_reserved"
  by (rule lineage_never_shrinks [OF ex_ledger_init ex_reach_reserved ex_reach_settled])

theorem reservation_protects_finalizer_witness:
  "ru_total_tokens (lg_segment ex_reserved) + ru_reserved_tokens (lg_segment ex_reserved) + terminal_token_reserve ex_fast
     \<le> max_total_tokens ex_fast \<and> pa_reserved_tokens ex_attempt = sat_add 100 50"
  using reservation_protects_finalizer [OF _ _ ex_reserve] by (simp add: ex_fast_def for_effort_wf)

theorem finalizer_reservation_granted_witness:
  "\<exists>a l'. ledger_reserve ex_digest ex_fast Finalizer (lit ''m'') 100 50 ex_books = (Inr a, l') \<and>
     committed_tokens (lg_segment l') \<le> max_total_tokens ex_fast"
proof (rule finalizer_reservation_granted)
  show "budget_wf ex_fast" by (simp add: ex_fast_def for_effort_wf)
qed (simp_all add: ex_books_def ex_fast_def for_effort_def lit_def budget_default_defs run_usage_default_def
      committed_tokens_def sat_add_def MAX_PENDING_RESOURCE_ATTEMPTS_def bt_get_def)

theorem attempt_settled_once_witness:
  "ru_reserved_tokens (lg_segment ex_reserved) = ru_reserved_tokens (lg_segment ex_settled) + 150 \<and>
   bt_get (lg_pending_attempts ex_settled) 1 = None \<and>
   ledger_settle ex_digest ex_fast ex_attempt None ex_settled = (not_settled, ex_settled)"
  using attempt_settled_once [OF ex_ledger_init ex_reach_reserved ex_settle ex_settle_ok]
  by (simp add: ex_attempt_def)

theorem crash_recovery_keeps_commitments_witness:
  "\<exists>l' p'. ledger_from_persisted_snapshot ex_digest (ledger_snapshot ex_reserved)
       \<lparr>next_ledger = 9, next_flag = 0, flag = (\<lambda>_. False)\<rparr> = (l', p') \<and>
     lg_pending_attempts l' = [] \<and> ru_reserved_tokens (lg_segment l') = 0 \<and>
     committed_tokens (lg_segment l') = committed_tokens (lg_segment ex_reserved)"
proof -
  obtain l' p' where r: "ledger_from_persisted_snapshot ex_digest (ledger_snapshot ex_reserved)
       \<lparr>next_ledger = 9, next_flag = 0, flag = (\<lambda>_. False)\<rparr> = (l', p')"
    by fastforce
  from crash_recovery_keeps_commitments [OF ex_ledger_init ex_reach_reserved r] r show ?thesis by blast
qed

theorem ledger_snapshot_roundtrip_witness:
  "ledger_from_snapshot ex_digest (ledger_snapshot ex_reserved) \<lparr>next_ledger = 9, next_flag = 0, flag = (\<lambda>_. False)\<rparr> =
     (ex_reserved, \<lparr>next_ledger = 9, next_flag = 0, flag = (\<lambda>_. False)\<rparr>)"
  by (rule ledger_snapshot_roundtrip [OF ex_ledger_init ex_reach_reserved])

theorem model_identifier_bounded_witness:
  "str_len (bounded_model_identifier ex_digest (replicate 500 109)) \<le> MAX_RESOURCE_MODEL_KEY_BYTES \<and>
    bounded_model_identifier ex_digest (bounded_model_identifier ex_digest (replicate 500 109)) =
    bounded_model_identifier ex_digest (replicate 500 109)"
  by (rule model_identifier_bounded) (simp add: sha256_ok_def ex_digest_def)

end
