(* ===== verification/Harness.thy ===== *)
theory Harness
  imports BTree_Map Run_Control Step_System
begin

text \<open>
  Model of \<open>crates/agent-harness/src/lib.rs\<close>: the registry of active runs with its
  \<open>RegisteredRun\<close> guards, and the registry of exclusive keys with its leases. An
  \<open>Arc<AgentRunControl>\<close> is an address into a heap of controls; \<open>Arc::ptr_eq\<close> is equality
  of addresses. A poisoned mutex is the flag \<open>poisoned\<close>: the operations that map it to an
  error return \<open>Inl\<close>, the drop handlers recover the inner map. The registries use the
  \<open>keyed_store\<close> contract of their maps.
\<close>

section \<open>The run registry\<close>

record HarnessRegistryError =
  he_label :: ustring

definition poisoned_error :: "ustring \<Rightarrow> HarnessRegistryError" where
  "poisoned_error label = \<lparr>he_label = label\<rparr>"

definition display_error :: "HarnessRegistryError \<Rightarrow> ustring" where
  "display_error e = he_label e @ lit '' lock poisoned''"

type_synonym control_addr = nat

record RunRegistry =
  rr_label :: ustring
  rr_poisoned :: bool
  rr_entries :: "(ustring, control_addr) btree"

record RegisteredRun =
  rg_key :: ustring
  rg_control :: control_addr

record run_heap =
  rh_process :: process
  rh_controls :: "control_addr \<Rightarrow> AgentRunControl"

definition run_registry_new :: "ustring \<Rightarrow> RunRegistry" where
  "run_registry_new label = \<lparr>rr_label = label, rr_poisoned = False, rr_entries = []\<rparr>"

definition register ::
  "ustring \<Rightarrow> control_addr \<Rightarrow> RunRegistry \<Rightarrow> (HarnessRegistryError + RegisteredRun option) \<times> RunRegistry"
where
  "register key control r =
     (if rr_poisoned r then (Inl (poisoned_error (rr_label r)), r)
      else if bt_contains_key (rr_entries r) key then (Inr None, r)
      else (Inr (Some \<lparr>rg_key = key, rg_control = control\<rparr>),
            r\<lparr>rr_entries := bt_insert key control (rr_entries r)\<rparr>))"

definition registry_get ::
  "ustring \<Rightarrow> RunRegistry \<Rightarrow> HarnessRegistryError + control_addr option"
where
  "registry_get key r =
     (if rr_poisoned r then Inl (poisoned_error (rr_label r)) else Inr (bt_get (rr_entries r) key))"

definition registry_contains_any :: "ustring list \<Rightarrow> RunRegistry \<Rightarrow> HarnessRegistryError + bool" where
  "registry_contains_any keys r =
     (if rr_poisoned r then Inl (poisoned_error (rr_label r))
      else Inr (list_ex (bt_contains_key (rr_entries r)) keys))"

definition registry_is_empty :: "RunRegistry \<Rightarrow> HarnessRegistryError + bool" where
  "registry_is_empty r =
     (if rr_poisoned r then Inl (poisoned_error (rr_label r)) else Inr (rr_entries r = []))"

definition cancel_at :: "control_addr \<Rightarrow> run_heap \<Rightarrow> run_heap" where
  "cancel_at a h =
     (case request_cancel (rh_process h) (rh_controls h a) of (_, p, c) \<Rightarrow>
        h\<lparr>rh_process := p, rh_controls := (rh_controls h)(a := c)\<rparr>)"

definition cancel_all ::
  "RunRegistry \<Rightarrow> run_heap \<Rightarrow> (HarnessRegistryError + unit) \<times> run_heap"
where
  "cancel_all r h =
     (if rr_poisoned r then (Inl (poisoned_error (rr_label r)), h)
      else (Inr (), fold cancel_at (map snd (rr_entries r)) h))"

text \<open>\<open>keys.iter().filter_map(|key| entries.remove(key)).collect()\<close>.\<close>

fun remove_keys ::
  "ustring list \<Rightarrow> (ustring, control_addr) btree \<Rightarrow> control_addr list \<times> (ustring, control_addr) btree"
where
  "remove_keys [] m = ([], m)"
| "remove_keys (k # ks) m =
     (case bt_get m k of
        None \<Rightarrow> remove_keys ks (bt_remove k m)
      | Some a \<Rightarrow> (case remove_keys ks (bt_remove k m) of (as, m') \<Rightarrow> (a # as, m')))"

definition registry_remove_many ::
  "ustring list \<Rightarrow> bool \<Rightarrow> RunRegistry \<Rightarrow> run_heap
     \<Rightarrow> (HarnessRegistryError + unit) \<times> RunRegistry \<times> run_heap"
where
  "registry_remove_many keys cancel r h =
     (if rr_poisoned r then (Inl (poisoned_error (rr_label r)), r, h)
      else case remove_keys keys (rr_entries r) of (controls, m) \<Rightarrow>
        (Inr (), r\<lparr>rr_entries := m\<rparr>, if cancel then fold cancel_at controls h else h))"

definition remove_if_current :: "ustring \<Rightarrow> control_addr \<Rightarrow> RunRegistry \<Rightarrow> RunRegistry" where
  "remove_if_current key control r =
     (if bt_get (rr_entries r) key = Some control
      then r\<lparr>rr_entries := bt_remove key (rr_entries r)\<rparr> else r)"

definition drop_registered_run :: "RegisteredRun \<Rightarrow> RunRegistry \<Rightarrow> RunRegistry" where
  "drop_registered_run g r = remove_if_current (rg_key g) (rg_control g) r"

section \<open>The exclusive key registry\<close>

record ExclusiveKeyRegistry =
  ek_label :: ustring
  ek_poisoned :: bool
  ek_keys :: "ustring set"

record ExclusiveKeyLease =
  ekl_key :: ustring

definition exclusive_new :: "ustring \<Rightarrow> ExclusiveKeyRegistry" where
  "exclusive_new label = \<lparr>ek_label = label, ek_poisoned = False, ek_keys = {}\<rparr>"

definition try_acquire ::
  "ustring \<Rightarrow> ExclusiveKeyRegistry
     \<Rightarrow> (HarnessRegistryError + ExclusiveKeyLease option) \<times> ExclusiveKeyRegistry"
where
  "try_acquire key r =
     (if ek_poisoned r then (Inl (poisoned_error (ek_label r)), r)
      else if key \<in> ek_keys r then (Inr None, r)
      else (Inr (Some \<lparr>ekl_key = key\<rparr>), r\<lparr>ek_keys := insert key (ek_keys r)\<rparr>))"

definition exclusive_contains :: "ustring \<Rightarrow> ExclusiveKeyRegistry \<Rightarrow> HarnessRegistryError + bool" where
  "exclusive_contains key r =
     (if ek_poisoned r then Inl (poisoned_error (ek_label r)) else Inr (key \<in> ek_keys r))"

definition exclusive_contains_any ::
  "ustring list \<Rightarrow> ExclusiveKeyRegistry \<Rightarrow> HarnessRegistryError + bool"
where
  "exclusive_contains_any keys r =
     (if ek_poisoned r then Inl (poisoned_error (ek_label r))
      else Inr (list_ex (\<lambda>k. k \<in> ek_keys r) keys))"

definition exclusive_snapshot :: "ExclusiveKeyRegistry \<Rightarrow> HarnessRegistryError + ustring set" where
  "exclusive_snapshot r =
     (if ek_poisoned r then Inl (poisoned_error (ek_label r)) else Inr (ek_keys r))"

definition exclusive_remove_many ::
  "ustring list \<Rightarrow> ExclusiveKeyRegistry \<Rightarrow> (HarnessRegistryError + unit) \<times> ExclusiveKeyRegistry"
where
  "exclusive_remove_many keys r =
     (if ek_poisoned r then (Inl (poisoned_error (ek_label r)), r)
      else (Inr (), r\<lparr>ek_keys := ek_keys r - set keys\<rparr>))"

definition exclusive_clear ::
  "ExclusiveKeyRegistry \<Rightarrow> (HarnessRegistryError + unit) \<times> ExclusiveKeyRegistry"
where
  "exclusive_clear r =
     (if ek_poisoned r then (Inl (poisoned_error (ek_label r)), r) else (Inr (), r\<lparr>ek_keys := {}\<rparr>))"

definition exclusive_release :: "ustring \<Rightarrow> ExclusiveKeyRegistry \<Rightarrow> ExclusiveKeyRegistry" where
  "exclusive_release key r = r\<lparr>ek_keys := ek_keys r - {key}\<rparr>"

definition drop_lease :: "ExclusiveKeyLease \<Rightarrow> ExclusiveKeyRegistry \<Rightarrow> ExclusiveKeyRegistry" where
  "drop_lease l r = exclusive_release (ekl_key l) r"

end
