(* ===== verification/Harness_Properties.thy ===== *)
theory Harness_Properties
  imports Harness Instances
begin

text \<open>
  The registries of the harness as step systems together with the guards and leases they hand
  out: no leaks and no evictions in the run registry, mutual exclusion in the key registry, and
  the limit of that exclusion.
\<close>

section \<open>Example registries\<close>

definition ex_guard :: RegisteredRun where
  "ex_guard = \<lparr>rg_key = lit ''run'', rg_control = 5\<rparr>"

definition ex_registry :: RunRegistry where
  "ex_registry = \<lparr>rr_label = lit ''active runs'', rr_poisoned = False, rr_entries = [(lit ''run'', 5)]\<rparr>"

definition ex_heap :: run_heap where
  "ex_heap = \<lparr>rh_process = ex_proc, rh_controls = (\<lambda>_. ex_control)\<rparr>"

definition ex_keys :: "bool \<Rightarrow> ExclusiveKeyRegistry" where
  "ex_keys held = \<lparr>ek_label = lit ''threads'', ek_poisoned = False, ek_keys = (if held then {lit ''t''} else {})\<rparr>"

definition ex_key_lease :: ExclusiveKeyLease where
  "ex_key_lease = \<lparr>ekl_key = lit ''t''\<rparr>"

section \<open>Runs and their guards\<close>

text \<open>A registry with its live guards. A control is registered under a key at most once, as the
  callers do: they create the control for the registration.\<close>

inductive registry_step :: "RunRegistry \<times> RegisteredRun list \<Rightarrow> RunRegistry \<times> RegisteredRun list \<Rightarrow> bool" where
  registered: "register k a r = (Inr (Some g), r') \<Longrightarrow> g \<notin> set gs \<Longrightarrow> registry_step (r, gs) (r', g # gs)"
| refused: "register k a r = (Inr None, r') \<Longrightarrow> registry_step (r, gs) (r', gs)"
| dropped: "g \<in> set gs \<Longrightarrow> registry_step (r, gs) (drop_registered_run g r, remove1 g gs)"
| removed: "registry_remove_many ks cancel r h = (x, r', h') \<Longrightarrow> registry_step (r, gs) (r', gs)"

definition registry_init :: "RunRegistry \<times> RegisteredRun list \<Rightarrow> bool" where
  "registry_init s \<longleftrightarrow> (\<exists>label. s = (run_registry_new label, []))"

definition registry_inv :: "RunRegistry \<times> RegisteredRun list \<Rightarrow> bool" where
  "registry_inv s \<longleftrightarrow> bt_wf (rr_entries (fst s)) \<and> distinct (snd s) \<and>
     (\<forall>k a. bt_get (rr_entries (fst s)) k = Some a \<longrightarrow> \<lparr>rg_key = k, rg_control = a\<rparr> \<in> set (snd s))"

definition registry_guar :: "RunRegistry \<times> RegisteredRun list \<Rightarrow> RunRegistry \<times> RegisteredRun list \<Rightarrow> bool" where
  "registry_guar s t \<longleftrightarrow> rr_label (fst t) = rr_label (fst s) \<and> rr_poisoned (fst t) = rr_poisoned (fst s)"

lemma remove_keys_props:
  "bt_wf m \<Longrightarrow> bt_wf (snd (remove_keys ks m)) \<and>
   bt_get (snd (remove_keys ks m)) = (\<lambda>k. if k \<in> set ks then None else bt_get m k)"
proof (induction ks m rule: remove_keys.induct)
  case (2 k ks m)
  then show ?case
    by (auto simp: bt.wf_del bt_get_remove case_prod_unfold fun_eq_iff split: option.split)
qed auto

lemma drop_registered_run_entries:
  "bt_wf (rr_entries r) \<Longrightarrow> bt_wf (rr_entries (drop_registered_run g r)) \<and>
   bt_get (rr_entries (drop_registered_run g r)) =
     (if bt_get (rr_entries r) (rg_key g) = Some (rg_control g)
      then (bt_get (rr_entries r))(rg_key g := None) else bt_get (rr_entries r))"
  by (simp add: drop_registered_run_def remove_if_current_def bt.wf_del bt.get_del)

lemma registry_step_inv:
  assumes "registry_step s t" "registry_inv s"
  shows "registry_inv t \<and> registry_guar s t"
  using assms
proof (induction rule: registry_step.induct)
  case (registered k a r g r' gs)
  then show ?case
    by (auto simp: register_def registry_inv_def registry_guar_def bt.wf_put bt.get_put split: if_splits)
next
  case (refused k a r r' gs)
  then show ?case by (auto simp: register_def registry_guar_def split: if_splits)
next
  case (dropped g gs r)
  have wf: "bt_wf (rr_entries r)" and d: "distinct gs"
    and live: "\<And>k a. bt_get (rr_entries r) k = Some a \<Longrightarrow> \<lparr>rg_key = k, rg_control = a\<rparr> \<in> set gs"
    using dropped(2) by (auto simp: registry_inv_def)
  note D = drop_registered_run_entries [OF wf, of g]
  have "\<lparr>rg_key = k, rg_control = a\<rparr> \<in> set (remove1 g gs)"
    if "bt_get (rr_entries (drop_registered_run g r)) k = Some a" for k a
  proof -
    have "bt_get (rr_entries r) k = Some a" and "\<lparr>rg_key = k, rg_control = a\<rparr> \<noteq> g"
      using that D by (auto split: if_splits)
    with live d show ?thesis by (simp add: in_set_remove1)
  qed
  with D d show ?case
    by (auto simp: registry_inv_def registry_guar_def drop_registered_run_def remove_if_current_def)
next
  case (removed ks cancel r h x r' h' gs)
  then show ?case
    using remove_keys_props [of "rr_entries r" ks]
    by (auto simp: registry_remove_many_def registry_inv_def registry_guar_def case_prod_unfold split: if_splits)
qed

interpretation registry: step_system registry_init registry_step registry_inv registry_guar
proof
  show "registry_inv s" if "registry_init s" for s
    using that by (auto simp: registry_init_def registry_inv_def run_registry_new_def)
  show "registry_inv t" if "registry_inv s" "registry_step s t" for s t using that registry_step_inv by blast
  show "registry_guar s t" if "registry_inv s" "registry_step s t" for s t using that registry_step_inv by blast
  show "registry_guar s s" for s by (simp add: registry_guar_def)
  show "registry_guar s u" if "registry_guar s t" "registry_guar t u" for s t u
    using that by (simp add: registry_guar_def)
qed

text \<open>
  C38. The run registry neither leaks nor evicts: in every reachable state each registered run
  is held by a live guard (so a registry whose guards are all dropped is empty), and dropping a
  guard removes its own registration only: a successor registered under the same key with
  another control, and every other key, stay registered.
\<close>

theorem run_registry_guards:
  assumes "registry_init s" "registry_step\<^sup>*\<^sup>* s (r, gs)"
  shows "(\<forall>k a. bt_get (rr_entries r) k = Some a \<longrightarrow> \<lparr>rg_key = k, rg_control = a\<rparr> \<in> set gs) \<and>
    (gs = [] \<longrightarrow> registry_is_empty r = Inr True \<or> rr_poisoned r) \<and>
    (\<forall>g k a. bt_get (rr_entries r) k = Some a \<longrightarrow> \<lparr>rg_key = k, rg_control = a\<rparr> \<noteq> g \<longrightarrow>
       bt_get (rr_entries (drop_registered_run g r)) k = Some a)"
proof -
  have inv: "registry_inv (r, gs)" by (rule registry.reach_inv [OF assms])
  have "bt_wf (rr_entries r)" using inv by (simp add: registry_inv_def)
  note D = drop_registered_run_entries [OF this]
  have "rr_entries r = []" if "gs = []"
  proof (cases "rr_entries r")
    case (Cons e es)
    then have "bt_get (rr_entries r) (fst e) = Some (snd e)" by (simp add: bt_get_Cons)
    then show ?thesis using inv that by (simp add: registry_inv_def)
  qed
  with inv show ?thesis by (auto simp: registry_inv_def registry_is_empty_def D)
qed

section \<open>Cancelling registered runs\<close>

definition cancelled_at :: "control_addr \<Rightarrow> run_heap \<Rightarrow> bool" where
  "cancelled_at a h \<longleftrightarrow> phase (ctl_state (rh_controls h a)) = TerminalCommitted \<or>
     (flag (rh_process h) (user_cancelled (rh_controls h a)) \<and>
      stop_reason (ctl_state (rh_controls h a)) \<noteq> None)"

lemma cancel_at_self: "cancelled_at a (cancel_at a h)"
  by (simp add: cancelled_at_def cancel_at_def request_cancel_def split: option.split)

lemma cancel_at_keeps: "cancelled_at a h \<Longrightarrow> cancelled_at a (cancel_at b h)"
  by (auto simp: cancelled_at_def cancel_at_def request_cancel_def split: option.split)

lemma fold_cancel_at: "a \<in> set as \<or> cancelled_at a h \<Longrightarrow> cancelled_at a (fold cancel_at as h)"
  by (induction as arbitrary: h) (auto simp: cancel_at_self cancel_at_keeps)

lemma remove_keys_controls:
  "bt_wf m \<Longrightarrow> bt_get m k = Some a \<Longrightarrow> k \<in> set ks \<Longrightarrow> a \<in> set (fst (remove_keys ks m))"
proof (induction ks m rule: remove_keys.induct)
  case (2 j ks m)
  then show ?case
    by (cases "j = k"; cases "bt_get m j") (auto simp: case_prod_unfold bt.wf_del bt_get_remove)
qed simp

text \<open>
  \<open>cancel_all\<close> reaches every registered run: after it, each control in the registry has
  committed its terminal result or has its cancellation flag set and a stop reason; removing keys
  with \<open>cancel\<close> does the same for the removed runs, which are then no longer registered.
\<close>

theorem cancel_all_reaches_every_run:
  assumes "\<not> rr_poisoned r" "bt_wf (rr_entries r)" "bt_get (rr_entries r) k = Some a"
  shows "cancelled_at a (snd (cancel_all r h)) \<and>
    (k \<in> set ks \<longrightarrow> cancelled_at a (snd (snd (registry_remove_many ks True r h))) \<and>
       registry_get k (fst (snd (registry_remove_many ks True r h))) = Inr None)"
proof -
  have "a \<in> set (map snd (rr_entries r))"
    using assms(3) by (auto simp: bt_get_def dest!: map_of_SomeD intro: rev_image_eqI)
  then have "cancelled_at a (snd (cancel_all r h))"
    using assms(1) by (simp add: cancel_all_def fold_cancel_at del: set_map)
  moreover have "cancelled_at a (snd (snd (registry_remove_many ks True r h))) \<and>
      registry_get k (fst (snd (registry_remove_many ks True r h))) = Inr None" if "k \<in> set ks"
    using assms(1) remove_keys_controls [OF assms(2,3) that] remove_keys_props [OF assms(2), of ks] that
    by (simp add: registry_remove_many_def case_prod_unfold fold_cancel_at registry_get_def)
  ultimately show ?thesis by blast
qed

section \<open>Exclusive keys\<close>

inductive lease_step ::
  "ExclusiveKeyRegistry \<times> ExclusiveKeyLease list \<Rightarrow> ExclusiveKeyRegistry \<times> ExclusiveKeyLease list \<Rightarrow> bool"
where
  acquired: "try_acquire k r = (Inr (Some l), r') \<Longrightarrow> lease_step (r, ls) (r', l # ls)"
| unavailable: "try_acquire k r = (Inr None, r') \<Longrightarrow> lease_step (r, ls) (r', ls)"
| released: "l \<in> set ls \<Longrightarrow> lease_step (r, ls) (drop_lease l r, remove1 l ls)"

definition lease_init :: "ExclusiveKeyRegistry \<times> ExclusiveKeyLease list \<Rightarrow> bool" where
  "lease_init s \<longleftrightarrow> (\<exists>label. s = (exclusive_new label, []))"

definition lease_inv :: "ExclusiveKeyRegistry \<times> ExclusiveKeyLease list \<Rightarrow> bool" where
  "lease_inv s \<longleftrightarrow> distinct (snd s) \<and> ek_keys (fst s) = ekl_key ` set (snd s)"

definition lease_guar ::
  "ExclusiveKeyRegistry \<times> ExclusiveKeyLease list \<Rightarrow> ExclusiveKeyRegistry \<times> ExclusiveKeyLease list \<Rightarrow> bool"
where
  "lease_guar s t \<longleftrightarrow> ek_label (fst t) = ek_label (fst s) \<and> ek_poisoned (fst t) = ek_poisoned (fst s)"

lemma lease_eq_iff: "l = m \<longleftrightarrow> ekl_key l = ekl_key m" for l m :: ExclusiveKeyLease
  by (cases l; cases m) simp

lemma lease_step_inv:
  assumes "lease_step s t" "lease_inv s"
  shows "lease_inv t \<and> lease_guar s t"
  using assms
proof (induction rule: lease_step.induct)
  case (acquired k r l r' ls)
  then show ?case
    by (auto simp: try_acquire_def lease_inv_def lease_guar_def image_iff split: if_splits)
next
  case (unavailable k r r' ls)
  then show ?case by (auto simp: try_acquire_def lease_guar_def split: if_splits)
next
  case (released l ls r)
  then have d: "distinct ls" and k: "ek_keys r = ekl_key ` set ls" by (simp_all add: lease_inv_def)
  have "ek_keys r - {ekl_key l} = ekl_key ` (set ls - {l})" using k by (auto simp: lease_eq_iff)
  with d show ?case
    by (simp add: lease_inv_def lease_guar_def drop_lease_def exclusive_release_def)
qed

interpretation leases: step_system lease_init lease_step lease_inv lease_guar
proof
  show "lease_inv s" if "lease_init s" for s
    using that by (auto simp: lease_init_def lease_inv_def exclusive_new_def)
  show "lease_inv t" if "lease_inv s" "lease_step s t" for s t using that lease_step_inv by blast
  show "lease_guar s t" if "lease_inv s" "lease_step s t" for s t using that lease_step_inv by blast
  show "lease_guar s s" for s by (simp add: lease_guar_def)
  show "lease_guar s u" if "lease_guar s t" "lease_guar t u" for s t u using that by (simp add: lease_guar_def)
qed

text \<open>
  Leases exclude each other: as long as keys are only acquired and dropped, in every
  reachable state the held keys are exactly those of the live leases, no two live leases have the
  same key, and acquiring a key succeeds iff no live lease has it.
\<close>

theorem leases_exclude_each_other:
  assumes "lease_init s" "lease_step\<^sup>*\<^sup>* s (r, ls)" "\<not> ek_poisoned r"
  shows "distinct (map ekl_key ls) \<and> exclusive_snapshot r = Inr (ekl_key ` set ls) \<and>
    (fst (try_acquire k r) = Inr None \<longleftrightarrow> k \<in> ekl_key ` set ls)"
proof -
  have "lease_inv (r, ls)" by (rule leases.reach_inv [OF assms(1,2)])
  moreover have "inj_on ekl_key (set ls)" by (simp add: inj_on_def lease_eq_iff)
  ultimately show ?thesis
    using assms(3) by (auto simp: lease_inv_def distinct_map exclusive_snapshot_def try_acquire_def)
qed

text \<open>
  C39. \<open>clear\<close> and \<open>remove_many\<close> break this exclusion: a lease dropped after its key was
  cleared and acquired again releases the successor's key, so a third caller acquires it while
  the successor still holds its lease. (The run registry compares the control before it removes
  an entry; the key registry has nothing to compare.)
\<close>

theorem stale_lease_releases_successor:
  assumes "try_acquire k r = (Inr (Some l1), r1)"
    and "exclusive_clear r1 = (Inr (), r2) \<or> exclusive_remove_many [k] r1 = (Inr (), r2)"
    and "try_acquire k r2 = (Inr (Some l2), r3)"
  shows "k \<in> ek_keys r3 \<and> k \<notin> ek_keys (drop_lease l1 r3) \<and>
    (\<exists>l3 r4. try_acquire k (drop_lease l1 r3) = (Inr (Some l3), r4) \<and> ekl_key l3 = ekl_key l2)"
  using assms
  by (auto simp: try_acquire_def exclusive_clear_def exclusive_remove_many_def drop_lease_def
      exclusive_release_def split: if_splits)

section \<open>The properties on example registries\<close>

lemma ex_registered: "registry_step\<^sup>*\<^sup>* (run_registry_new (lit ''active runs''), []) (ex_registry, [ex_guard])"
proof (rule r_into_rtranclp, rule registry_step.registered)
  show "register (lit ''run'') 5 (run_registry_new (lit ''active runs'')) = (Inr (Some ex_guard), ex_registry)"
    by (simp add: register_def run_registry_new_def ex_guard_def ex_registry_def bt_contains_key_def bt_get_def)
qed simp

theorem run_registry_guards_witness:
  "bt_get (rr_entries ex_registry) (lit ''run'') = Some 5 \<and> \<lparr>rg_key = lit ''run'', rg_control = 5\<rparr> \<in> set [ex_guard] \<and>
   bt_get (rr_entries (drop_registered_run \<lparr>rg_key = lit ''run'', rg_control = 6\<rparr> ex_registry)) (lit ''run'') = Some 5"
proof -
  have "registry_init (run_registry_new (lit ''active runs''), [])" unfolding registry_init_def by blast
  note P = run_registry_guards [OF this ex_registered]
  have g: "bt_get (rr_entries ex_registry) (lit ''run'') = Some 5" by (simp add: ex_registry_def bt_get_def)
  moreover have "\<lparr>rg_key = lit ''run'', rg_control = 5\<rparr> \<noteq> \<lparr>rg_key = lit ''run'', rg_control = 6\<rparr>" by simp
  ultimately show ?thesis using P by blast
qed

theorem cancel_all_reaches_every_run_witness:
  "cancelled_at 5 (snd (cancel_all ex_registry ex_heap)) \<and>
   cancelled_at 5 (snd (snd (registry_remove_many [lit ''run''] True ex_registry ex_heap))) \<and>
   registry_get (lit ''run'') (fst (snd (registry_remove_many [lit ''run''] True ex_registry ex_heap))) = Inr None"
  using cancel_all_reaches_every_run [of ex_registry "lit ''run''" 5 ex_heap "[lit ''run'']"]
  by (simp add: ex_registry_def bt_get_def bt_wf_def)

lemma ex_acquire: "try_acquire (lit ''t'') (ex_keys False) = (Inr (Some ex_key_lease), ex_keys True)"
  by (simp add: try_acquire_def ex_keys_def ex_key_lease_def)

theorem leases_exclude_each_other_witness:
  "exclusive_snapshot (ex_keys True) = Inr {lit ''t''} \<and> fst (try_acquire (lit ''t'') (ex_keys True)) = Inr None"
proof -
  have "lease_init (exclusive_new (lit ''threads''), [])" unfolding lease_init_def by blast
  moreover have "lease_step\<^sup>*\<^sup>* (exclusive_new (lit ''threads''), []) (ex_keys True, [ex_key_lease])"
    using lease_step.acquired [OF ex_acquire] by (intro r_into_rtranclp) (simp add: ex_keys_def exclusive_new_def)
  moreover have "\<not> ek_poisoned (ex_keys True)" by (simp add: ex_keys_def)
  ultimately have "distinct (map ekl_key [ex_key_lease]) \<and>
      exclusive_snapshot (ex_keys True) = Inr (ekl_key ` set [ex_key_lease]) \<and>
      (fst (try_acquire (lit ''t'') (ex_keys True)) = Inr None \<longleftrightarrow> lit ''t'' \<in> ekl_key ` set [ex_key_lease])"
    by (rule leases_exclude_each_other)
  then show ?thesis by (simp add: ex_key_lease_def)
qed

theorem stale_lease_releases_successor_witness:
  "lit ''t'' \<in> ek_keys (ex_keys True) \<and> lit ''t'' \<notin> ek_keys (drop_lease ex_key_lease (ex_keys True)) \<and>
    (\<exists>l3 r4. try_acquire (lit ''t'') (drop_lease ex_key_lease (ex_keys True)) = (Inr (Some l3), r4) \<and>
       ekl_key l3 = ekl_key ex_key_lease)"
  by (rule stale_lease_releases_successor [OF ex_acquire _ ex_acquire])
    (simp add: exclusive_clear_def ex_keys_def)

end
