(* ===== verification/Work_Queue.thy ===== *)
theory Work_Queue
  imports Prelude Step_System "HOL-Library.Multiset"
begin

text \<open>
  Model of \<open>crates/agent-application/src/loss_aware_work_queue.rs\<close>: a bounded work queue that
  hands every payload back to its caller, either as the result of the work or because the work
  was rejected, exhausted, abandoned or cancelled. Payloads have an arbitrary type \<open>'p\<close>; the
  callers' clock readings in milliseconds are arguments.

  The second half states the queue as a step system together with the claimed jobs its callers
  hold and the payloads that went in and came out, and proves the properties of the queue.
\<close>

section \<open>The queue\<close>

text \<open>The attempt counters are \<open>u32\<close>.\<close>

definition u32_max :: nat where
  "u32_max = 4294967295"

definition sat_add32 :: "nat \<Rightarrow> nat \<Rightarrow> nat" where
  "sat_add32 a b = min (a + b) u32_max"

record WorkQueuePolicy =
  wp_capacity :: usize
  wp_max_attempts :: nat
  wp_base_backoff_ms :: u64
  wp_max_backoff_ms :: u64

definition validate_policy :: "WorkQueuePolicy \<Rightarrow> ustring + WorkQueuePolicy" where
  "validate_policy p =
     (if wp_capacity p = 0 then Inl (lit ''work queue capacity must be positive'')
      else if wp_max_attempts p = 0 then Inl (lit ''work queue max attempts must be positive'')
      else if wp_base_backoff_ms p = 0 then Inl (lit ''work queue base backoff must be positive'')
      else if wp_max_backoff_ms p < wp_base_backoff_ms p
      then Inl (lit ''work queue max backoff must cover the base backoff'')
      else Inr p)"

datatype WorkEnqueueOutcome = WorkQueued | WorkDuplicate | WorkCapacityExceeded

record 'p WorkEnqueueResult =
  we_outcome :: WorkEnqueueOutcome
  we_rejected :: "'p option"

datatype WorkRetryOutcome = RetryScheduled u64 nat | RetryExhausted nat

record 'p WorkRetryResult =
  wr_outcome :: WorkRetryOutcome
  wr_exhausted :: "'p option"

record WorkQueueMetrics =
  wm_accepted :: u64
  wm_duplicates :: u64
  wm_capacity_rejections :: u64
  wm_claimed :: u64
  wm_retries :: u64
  wm_completed :: u64
  wm_exhausted :: u64
  wm_abandoned :: u64
  wm_pending :: usize
  wm_in_flight :: usize

definition metrics_default :: WorkQueueMetrics where
  "metrics_default =
     \<lparr>wm_accepted = 0, wm_duplicates = 0, wm_capacity_rejections = 0, wm_claimed = 0,
      wm_retries = 0, wm_completed = 0, wm_exhausted = 0, wm_abandoned = 0, wm_pending = 0,
      wm_in_flight = 0\<rparr>"

record 'p PendingWork =
  pw_id :: ustring
  pw_payload :: 'p
  pw_attempts :: nat
  pw_not_before_ms :: u64

record 'p ClaimedWork =
  cw_id :: ustring
  cw_payload :: 'p
  cw_attempt :: nat

record 'p LossAwareWorkQueue =
  wq_policy :: WorkQueuePolicy
  wq_pending :: "'p PendingWork list"
  wq_known_ids :: "ustring set"
  wq_metrics :: WorkQueueMetrics

definition work_queue_new :: "WorkQueuePolicy \<Rightarrow> ustring + 'p LossAwareWorkQueue" where
  "work_queue_new policy =
     (case validate_policy policy of
        Inl e \<Rightarrow> Inl e
      | Inr p \<Rightarrow> Inr \<lparr>wq_policy = p, wq_pending = [], wq_known_ids = {},
                       wq_metrics = metrics_default\<rparr>)"

definition enqueue_work ::
  "ustring \<Rightarrow> 'p \<Rightarrow> u64 \<Rightarrow> 'p LossAwareWorkQueue \<Rightarrow> 'p WorkEnqueueResult \<times> 'p LossAwareWorkQueue"
where
  "enqueue_work i payload now q =
     (if i \<in> wq_known_ids q then
        (\<lparr>we_outcome = WorkDuplicate, we_rejected = Some payload\<rparr>,
         q\<lparr>wq_metrics := (wq_metrics q)\<lparr>wm_duplicates := sat_add (wm_duplicates (wq_metrics q)) 1\<rparr>\<rparr>)
      else if card (wq_known_ids q) \<ge> wp_capacity (wq_policy q) then
        (\<lparr>we_outcome = WorkCapacityExceeded, we_rejected = Some payload\<rparr>,
         q\<lparr>wq_metrics := (wq_metrics q)
             \<lparr>wm_capacity_rejections := sat_add (wm_capacity_rejections (wq_metrics q)) 1\<rparr>\<rparr>)
      else
        (\<lparr>we_outcome = WorkQueued, we_rejected = None\<rparr>,
         q\<lparr>wq_known_ids := insert i (wq_known_ids q),
           wq_pending := wq_pending q @
             [\<lparr>pw_id = i, pw_payload = payload, pw_attempts = 0, pw_not_before_ms = now\<rparr>],
           wq_metrics := (wq_metrics q)\<lparr>wm_accepted := sat_add (wm_accepted (wq_metrics q)) 1\<rparr>\<rparr>))"

text \<open>\<open>position\<close> of the first element that satisfies \<open>P\<close>, then \<open>remove\<close> at it.\<close>

fun remove_first :: "('a \<Rightarrow> bool) \<Rightarrow> 'a list \<Rightarrow> ('a \<times> 'a list) option" where
  "remove_first P [] = None"
| "remove_first P (x # xs) =
     (if P x then Some (x, xs) else map_option (\<lambda>(y, ys). (y, x # ys)) (remove_first P xs))"

definition claim_ready ::
  "u64 \<Rightarrow> 'p LossAwareWorkQueue \<Rightarrow> 'p ClaimedWork option \<times> 'p LossAwareWorkQueue"
where
  "claim_ready now q =
     (case remove_first (\<lambda>job. pw_not_before_ms job \<le> now) (wq_pending q) of
        None \<Rightarrow> (None, q)
      | Some (job, rest) \<Rightarrow>
          (Some \<lparr>cw_id = pw_id job, cw_payload = pw_payload job,
                 cw_attempt = sat_add32 (pw_attempts job) 1\<rparr>,
           q\<lparr>wq_pending := rest,
             wq_metrics := (wq_metrics q)\<lparr>wm_claimed := sat_add (wm_claimed (wq_metrics q)) 1\<rparr>\<rparr>))"

text \<open>\<open>min\<close> of an iterator: \<open>None\<close> when it is empty.\<close>

definition next_ready_delay_ms :: "u64 \<Rightarrow> 'p LossAwareWorkQueue \<Rightarrow> u64 option" where
  "next_ready_delay_ms now q =
     (let ds = map (\<lambda>job. pw_not_before_ms job - now) (wq_pending q)
      in if ds = [] then None else Some (Min (set ds)))"

definition complete_work :: "'p ClaimedWork \<Rightarrow> 'p LossAwareWorkQueue \<Rightarrow> 'p \<times> 'p LossAwareWorkQueue" where
  "complete_work job q =
     (cw_payload job,
      q\<lparr>wq_known_ids := wq_known_ids q - {cw_id job},
        wq_metrics := (wq_metrics q)\<lparr>wm_completed := sat_add (wm_completed (wq_metrics q)) 1\<rparr>\<rparr>)"

definition retry_delay_ms :: "WorkQueuePolicy \<Rightarrow> nat \<Rightarrow> u64" where
  "retry_delay_ms policy completed_attempts =
     (let exponent = min (completed_attempts - 1) 31
      in min (sat_mul (wp_base_backoff_ms policy) (2 ^ exponent)) (wp_max_backoff_ms policy))"

definition retry_work ::
  "'p ClaimedWork \<Rightarrow> u64 \<Rightarrow> 'p LossAwareWorkQueue \<Rightarrow> 'p WorkRetryResult \<times> 'p LossAwareWorkQueue"
where
  "retry_work job now q =
     (if cw_attempt job \<ge> wp_max_attempts (wq_policy q) then
        (\<lparr>wr_outcome = RetryExhausted (cw_attempt job), wr_exhausted = Some (cw_payload job)\<rparr>,
         q\<lparr>wq_known_ids := wq_known_ids q - {cw_id job},
           wq_metrics := (wq_metrics q)\<lparr>wm_exhausted := sat_add (wm_exhausted (wq_metrics q)) 1\<rparr>\<rparr>)
      else
        let delay = retry_delay_ms (wq_policy q) (cw_attempt job) in
        (\<lparr>wr_outcome = RetryScheduled delay (sat_add32 (cw_attempt job) 1), wr_exhausted = None\<rparr>,
         q\<lparr>wq_pending := wq_pending q @
             [\<lparr>pw_id = cw_id job, pw_payload = cw_payload job, pw_attempts = cw_attempt job,
               pw_not_before_ms = sat_add now delay\<rparr>],
           wq_metrics := (wq_metrics q)\<lparr>wm_retries := sat_add (wm_retries (wq_metrics q)) 1\<rparr>\<rparr>))"

definition abandon_work :: "'p ClaimedWork \<Rightarrow> 'p LossAwareWorkQueue \<Rightarrow> 'p \<times> 'p LossAwareWorkQueue" where
  "abandon_work job q =
     (cw_payload job,
      q\<lparr>wq_known_ids := wq_known_ids q - {cw_id job},
        wq_metrics := (wq_metrics q)\<lparr>wm_abandoned := sat_add (wm_abandoned (wq_metrics q)) 1\<rparr>\<rparr>)"

definition cancel_pending ::
  "ustring \<Rightarrow> 'p LossAwareWorkQueue \<Rightarrow> 'p option \<times> 'p LossAwareWorkQueue"
where
  "cancel_pending i q =
     (case remove_first (\<lambda>job. pw_id job = i) (wq_pending q) of
        None \<Rightarrow> (None, q)
      | Some (job, rest) \<Rightarrow>
          (Some (pw_payload job),
           q\<lparr>wq_pending := rest, wq_known_ids := wq_known_ids q - {i},
             wq_metrics := (wq_metrics q)\<lparr>wm_abandoned := sat_add (wm_abandoned (wq_metrics q)) 1\<rparr>\<rparr>))"

definition drain_pending :: "'p LossAwareWorkQueue \<Rightarrow> 'p list \<times> 'p LossAwareWorkQueue" where
  "drain_pending q =
     (let payloads = map pw_payload (wq_pending q)
      in (payloads,
          q\<lparr>wq_pending := [],
            wq_known_ids := foldl (\<lambda>ids job. ids - {pw_id job}) (wq_known_ids q) (wq_pending q),
            wq_metrics := (wq_metrics q)
              \<lparr>wm_abandoned := sat_add (wm_abandoned (wq_metrics q)) (length payloads)\<rparr>\<rparr>))"

definition queue_metrics :: "'p LossAwareWorkQueue \<Rightarrow> WorkQueueMetrics" where
  "queue_metrics q =
     (wq_metrics q)\<lparr>wm_pending := length (wq_pending q),
       wm_in_flight := card (wq_known_ids q) - length (wq_pending q)\<rparr>"

section \<open>The queue as a step system\<close>

text \<open>
  A state holds the queue, the jobs its callers have claimed and not given back, the payloads
  accepted so far and the payloads handed back so far (completed, exhausted, abandoned,
  cancelled or drained). A job is used once: \<open>complete\<close>, \<open>retry\<close> and \<open>abandon\<close> take it by
  value.
\<close>

record 'p work_state =
  ws_queue :: "'p LossAwareWorkQueue"
  ws_claimed :: "'p ClaimedWork list"
  ws_in :: "'p multiset"
  ws_out :: "'p multiset"

inductive work_step :: "'p work_state \<Rightarrow> 'p work_state \<Rightarrow> bool" where
  enqueued: "enqueue_work i x now (ws_queue s) = (\<lparr>we_outcome = WorkQueued, we_rejected = r\<rparr>, q) \<Longrightarrow>
    work_step s (s\<lparr>ws_queue := q, ws_in := add_mset x (ws_in s)\<rparr>)"
| not_enqueued: "enqueue_work i x now (ws_queue s) = (\<lparr>we_outcome = oc, we_rejected = Some y\<rparr>, q) \<Longrightarrow>
    work_step s (s\<lparr>ws_queue := q\<rparr>)"
| claimed: "claim_ready now (ws_queue s) = (Some job, q) \<Longrightarrow>
    work_step s (s\<lparr>ws_queue := q, ws_claimed := job # ws_claimed s\<rparr>)"
| completed: "job \<in> set (ws_claimed s) \<Longrightarrow> complete_work job (ws_queue s) = (x, q) \<Longrightarrow>
    work_step s (s\<lparr>ws_queue := q, ws_claimed := remove1 job (ws_claimed s), ws_out := add_mset x (ws_out s)\<rparr>)"
| exhausted: "job \<in> set (ws_claimed s) \<Longrightarrow>
    retry_work job now (ws_queue s) = (\<lparr>wr_outcome = oc, wr_exhausted = Some x\<rparr>, q) \<Longrightarrow>
    work_step s (s\<lparr>ws_queue := q, ws_claimed := remove1 job (ws_claimed s), ws_out := add_mset x (ws_out s)\<rparr>)"
| retried: "job \<in> set (ws_claimed s) \<Longrightarrow>
    retry_work job now (ws_queue s) = (\<lparr>wr_outcome = oc, wr_exhausted = None\<rparr>, q) \<Longrightarrow>
    work_step s (s\<lparr>ws_queue := q, ws_claimed := remove1 job (ws_claimed s)\<rparr>)"
| abandoned: "job \<in> set (ws_claimed s) \<Longrightarrow> abandon_work job (ws_queue s) = (x, q) \<Longrightarrow>
    work_step s (s\<lparr>ws_queue := q, ws_claimed := remove1 job (ws_claimed s), ws_out := add_mset x (ws_out s)\<rparr>)"
| cancelled: "cancel_pending i (ws_queue s) = (Some x, q) \<Longrightarrow>
    work_step s (s\<lparr>ws_queue := q, ws_out := add_mset x (ws_out s)\<rparr>)"
| drained: "drain_pending (ws_queue s) = (xs, q) \<Longrightarrow>
    work_step s (s\<lparr>ws_queue := q, ws_out := mset xs + ws_out s\<rparr>)"

definition work_init :: "'p work_state \<Rightarrow> bool" where
  "work_init s \<longleftrightarrow> (\<exists>policy q. work_queue_new policy = Inr q \<and> wp_max_attempts policy \<le> u32_max \<and>
     s = \<lparr>ws_queue = q, ws_claimed = [], ws_in = {#}, ws_out = {#}\<rparr>)"

text \<open>The ids the queue knows are those of the pending and of the claimed jobs, each once.\<close>

definition ids_ok :: "'p work_state \<Rightarrow> bool" where
  "ids_ok s \<longleftrightarrow>
     distinct (map pw_id (wq_pending (ws_queue s)) @ map cw_id (ws_claimed s)) \<and>
     wq_known_ids (ws_queue s) = pw_id ` set (wq_pending (ws_queue s)) \<union> cw_id ` set (ws_claimed s)"

definition attempts_ok :: "'p work_state \<Rightarrow> bool" where
  "attempts_ok s \<longleftrightarrow>
     (\<forall>job \<in> set (wq_pending (ws_queue s)). pw_attempts job < wp_max_attempts (wq_policy (ws_queue s))) \<and>
     (\<forall>job \<in> set (ws_claimed s). 1 \<le> cw_attempt job \<and> cw_attempt job \<le> wp_max_attempts (wq_policy (ws_queue s)))"

definition payloads_ok :: "'p work_state \<Rightarrow> bool" where
  "payloads_ok s \<longleftrightarrow>
     ws_in s = mset (map pw_payload (wq_pending (ws_queue s))) + mset (map cw_payload (ws_claimed s)) + ws_out s"

definition books_ok :: "'p work_state \<Rightarrow> bool" where
  "books_ok s \<longleftrightarrow> (let m = wq_metrics (ws_queue s) in
     wm_accepted m = min (size (ws_in s)) u64_max \<and>
     (size (ws_in s) \<le> u64_max \<longrightarrow> wm_completed m + wm_exhausted m + wm_abandoned m = size (ws_out s)))"

definition work_inv :: "'p work_state \<Rightarrow> bool" where
  "work_inv s \<longleftrightarrow> ids_ok s \<and> attempts_ok s \<and> payloads_ok s \<and> books_ok s \<and>
     length (wq_pending (ws_queue s)) + length (ws_claimed s) \<le> wp_capacity (wq_policy (ws_queue s)) \<and>
     validate_policy (wq_policy (ws_queue s)) = Inr (wq_policy (ws_queue s)) \<and>
     wp_max_attempts (wq_policy (ws_queue s)) \<le> u32_max"

definition work_guar :: "'p work_state \<Rightarrow> 'p work_state \<Rightarrow> bool" where
  "work_guar s t \<longleftrightarrow> wq_policy (ws_queue t) = wq_policy (ws_queue s) \<and> ws_in s \<subseteq># ws_in t \<and> ws_out s \<subseteq># ws_out t"

text \<open>An example: a queue with one job, pending and then claimed.\<close>

definition ex_policy :: WorkQueuePolicy where
  "ex_policy = \<lparr>wp_capacity = 2, wp_max_attempts = 3, wp_base_backoff_ms = 100, wp_max_backoff_ms = 1000\<rparr>"

definition ex_queue :: "nat LossAwareWorkQueue" where
  "ex_queue = \<lparr>wq_policy = ex_policy, wq_pending = [], wq_known_ids = {}, wq_metrics = metrics_default\<rparr>"

definition ex_work :: "nat work_state" where
  "ex_work = \<lparr>ws_queue = ex_queue, ws_claimed = [], ws_in = {#}, ws_out = {#}\<rparr>"

definition ex_job :: "nat ClaimedWork" where
  "ex_job = \<lparr>cw_id = lit ''a'', cw_payload = 7, cw_attempt = 1\<rparr>"

definition ex_waiting :: "nat LossAwareWorkQueue" where
  "ex_waiting = ex_queue\<lparr>wq_known_ids := {lit ''a''},
     wq_pending := [\<lparr>pw_id = lit ''a'', pw_payload = 7, pw_attempts = 0, pw_not_before_ms = 10\<rparr>],
     wq_metrics := metrics_default\<lparr>wm_accepted := 1\<rparr>\<rparr>"

definition ex_running :: "nat work_state" where
  "ex_running = ex_work\<lparr>ws_queue := snd (claim_ready 10 ex_waiting), ws_claimed := [ex_job], ws_in := {#7#}\<rparr>"

section \<open>The invariant\<close>

lemma remove_first_Some:
  "remove_first P xs = Some (x, ys) \<Longrightarrow>
   \<exists>as bs. xs = as @ x # bs \<and> ys = as @ bs \<and> P x \<and> (\<forall>y \<in> set as. \<not> P y)"
proof (induction xs arbitrary: ys)
  case (Cons z zs)
  show ?case
  proof (cases "P z")
    case True
    with Cons.prems show ?thesis by (intro exI [of _ "[]"] exI [of _ zs]) auto
  next
    case False
    with Cons.prems obtain ws where ws: "remove_first P zs = Some (x, ws)" "ys = z # ws"
      by (auto split: option.splits)
    from Cons.IH [OF ws(1)] obtain as bs where "zs = as @ x # bs" "ws = as @ bs" "P x" "\<forall>y \<in> set as. \<not> P y"
      by blast
    with False ws(2) show ?thesis by (intro exI [of _ "z # as"] exI [of _ bs]) simp
  qed
qed simp

lemma remove_first_None: "remove_first P xs = None \<longleftrightarrow> (\<forall>x \<in> set xs. \<not> P x)"
  by (induction xs) auto

lemma foldl_remove_ids: "foldl (\<lambda>ids job. ids - {pw_id job}) A jobs = A - pw_id ` set jobs"
  by (induction jobs arbitrary: A) auto

lemma ids_card:
  assumes "ids_ok s"
  shows "card (wq_known_ids (ws_queue s)) = length (wq_pending (ws_queue s)) + length (ws_claimed s)"
proof -
  have "wq_known_ids (ws_queue s) = set (map pw_id (wq_pending (ws_queue s)) @ map cw_id (ws_claimed s))"
    using assms by (auto simp: ids_ok_def)
  moreover have "distinct (map pw_id (wq_pending (ws_queue s)) @ map cw_id (ws_claimed s))"
    using assms by (simp add: ids_ok_def)
  ultimately show ?thesis by (metis distinct_card length_append length_map)
qed

lemma payloads_ok_sizes:
  "payloads_ok s \<Longrightarrow>
   size (ws_in s) = length (wq_pending (ws_queue s)) + length (ws_claimed s) + size (ws_out s)"
  by (simp add: payloads_ok_def)

lemma claimed_split:
  assumes "job \<in> set (ws_claimed s)"
  obtains as bs where "ws_claimed s = as @ job # bs" "remove1 job (ws_claimed s) = as @ bs"
  using split_list_first [OF assms] by (metis remove1.simps(2) remove1_append)

text \<open>Giving a claimed job back for good: its id is forgotten and its payload handed out.\<close>

lemma give_back_inv:
  assumes "work_inv s" "job \<in> set (ws_claimed s)"
    and q: "wq_pending q = wq_pending (ws_queue s)" "wq_policy q = wq_policy (ws_queue s)"
      "wq_known_ids q = wq_known_ids (ws_queue s) - {cw_id job}"
      "wm_accepted (wq_metrics q) = wm_accepted (wq_metrics (ws_queue s))"
    and m: "size (ws_in s) \<le> u64_max \<Longrightarrow>
      wm_completed (wq_metrics q) + wm_exhausted (wq_metrics q) + wm_abandoned (wq_metrics q) = Suc (size (ws_out s))"
  shows "work_inv (s\<lparr>ws_queue := q, ws_claimed := remove1 job (ws_claimed s),
    ws_out := add_mset (cw_payload job) (ws_out s)\<rparr>)" (is "work_inv ?t")
proof -
  from assms(2) obtain as bs where c: "ws_claimed s = as @ job # bs" "remove1 job (ws_claimed s) = as @ bs"
    by (rule claimed_split)
  have "ids_ok ?t" using assms(1) q c by (auto simp: work_inv_def ids_ok_def)
  moreover have "attempts_ok ?t" using assms(1) q c by (auto simp: work_inv_def attempts_ok_def)
  moreover have "payloads_ok ?t" using assms(1) q c by (simp add: work_inv_def payloads_ok_def)
  moreover have "books_ok ?t" using assms(1) q m by (simp add: work_inv_def books_ok_def Let_def)
  moreover have "length (wq_pending (ws_queue ?t)) + length (ws_claimed ?t) \<le> wp_capacity (wq_policy (ws_queue ?t))"
    using assms(1) q c by (simp add: work_inv_def)
  ultimately show ?thesis using assms(1) q by (simp add: work_inv_def)
qed

text \<open>As long as the accepted payloads fit 64 bits, no counter of payloads handed out saturates.\<close>

lemma out_counter:
  assumes "work_inv s" "size (ws_in s) \<le> u64_max" "job \<in> set (ws_claimed s)"
  shows "wm_completed (wq_metrics (ws_queue s)) + wm_exhausted (wq_metrics (ws_queue s)) +
    wm_abandoned (wq_metrics (ws_queue s)) = size (ws_out s)" "size (ws_out s) < u64_max"
proof -
  show "wm_completed (wq_metrics (ws_queue s)) + wm_exhausted (wq_metrics (ws_queue s)) +
    wm_abandoned (wq_metrics (ws_queue s)) = size (ws_out s)"
    using assms(1,2) by (simp add: work_inv_def books_ok_def Let_def)
  have "0 < length (ws_claimed s)" using assms(3) by (cases "ws_claimed s") auto
  moreover have "payloads_ok s" using assms(1) by (simp add: work_inv_def)
  ultimately show "size (ws_out s) < u64_max" using assms(2) payloads_ok_sizes [of s] by linarith
qed

lemma enqueued_inv:
  assumes "work_inv s" "enqueue_work i x now (ws_queue s) = (\<lparr>we_outcome = WorkQueued, we_rejected = r\<rparr>, q)"
  shows "work_inv (s\<lparr>ws_queue := q, ws_in := add_mset x (ws_in s)\<rparr>)" (is "work_inv ?t")
proof -
  have new: "i \<notin> wq_known_ids (ws_queue s)" "card (wq_known_ids (ws_queue s)) < wp_capacity (wq_policy (ws_queue s))"
    and q: "wq_policy q = wq_policy (ws_queue s)" "wq_known_ids q = insert i (wq_known_ids (ws_queue s))"
      "wq_pending q = wq_pending (ws_queue s) @
         [\<lparr>pw_id = i, pw_payload = x, pw_attempts = 0, pw_not_before_ms = now\<rparr>]"
      "wq_metrics q = (wq_metrics (ws_queue s))\<lparr>wm_accepted := sat_add (wm_accepted (wq_metrics (ws_queue s))) 1\<rparr>"
    using assms(2) by (auto simp: enqueue_work_def split: if_splits)
  have inv: "ids_ok s" "attempts_ok s" "payloads_ok s" "books_ok s"
    and pol: "validate_policy (wq_policy (ws_queue s)) = Inr (wq_policy (ws_queue s))"
      "wp_max_attempts (wq_policy (ws_queue s)) \<le> u32_max"
    using assms(1) by (simp_all add: work_inv_def)
  have "0 < wp_max_attempts (wq_policy (ws_queue s))" using pol by (auto simp: validate_policy_def split: if_splits)
  then have "attempts_ok ?t" using inv(2) q by (auto simp: attempts_ok_def)
  moreover have "ids_ok ?t" using inv(1) new(1) q by (auto simp: ids_ok_def)
  moreover have "payloads_ok ?t" using inv(3) q by (simp add: payloads_ok_def)
  moreover have "books_ok ?t" using inv(4) q by (auto simp: books_ok_def Let_def sat_add_def)
  moreover have "length (wq_pending q) + length (ws_claimed s) \<le> wp_capacity (wq_policy q)"
    using new(2) ids_card [OF inv(1)] q by simp
  ultimately show ?thesis using pol q by (simp add: work_inv_def)
qed

lemma claimed_inv:
  assumes "work_inv s" "claim_ready now (ws_queue s) = (Some job, q)"
  shows "work_inv (s\<lparr>ws_queue := q, ws_claimed := job # ws_claimed s\<rparr>)" (is "work_inv ?t")
proof -
  obtain p as bs where p: "wq_pending (ws_queue s) = as @ p # bs" "wq_pending q = as @ bs"
      "job = \<lparr>cw_id = pw_id p, cw_payload = pw_payload p, cw_attempt = sat_add32 (pw_attempts p) 1\<rparr>"
    and q: "wq_policy q = wq_policy (ws_queue s)" "wq_known_ids q = wq_known_ids (ws_queue s)"
      "wq_metrics q = (wq_metrics (ws_queue s))\<lparr>wm_claimed := sat_add (wm_claimed (wq_metrics (ws_queue s))) 1\<rparr>"
    using assms(2) by (auto simp: claim_ready_def dest!: remove_first_Some split: option.splits)
  have inv: "ids_ok s" "attempts_ok s" "payloads_ok s" "books_ok s"
    and m: "wp_max_attempts (wq_policy (ws_queue s)) \<le> u32_max"
    using assms(1) by (simp_all add: work_inv_def)
  have "attempts_ok ?t" using inv(2) p q m by (auto simp: attempts_ok_def sat_add32_def u32_max_def)
  moreover have "ids_ok ?t" using inv(1) p q by (auto simp: ids_ok_def)
  moreover have "payloads_ok ?t" using inv(3) p by (simp add: payloads_ok_def)
  moreover have "books_ok ?t" using inv(4) q by (simp add: books_ok_def Let_def)
  ultimately show ?thesis using assms(1) p q by (simp add: work_inv_def)
qed

lemma retried_inv:
  assumes "work_inv s" "job \<in> set (ws_claimed s)"
    and "retry_work job now (ws_queue s) = (\<lparr>wr_outcome = oc, wr_exhausted = None\<rparr>, q)"
  shows "work_inv (s\<lparr>ws_queue := q, ws_claimed := remove1 job (ws_claimed s)\<rparr>)" (is "work_inv ?t")
proof -
  from assms(2) obtain as bs where c: "ws_claimed s = as @ job # bs" "remove1 job (ws_claimed s) = as @ bs"
    by (rule claimed_split)
  obtain p where p: "wq_pending q = wq_pending (ws_queue s) @ [p]" "pw_id p = cw_id job"
      "pw_payload p = cw_payload job" "pw_attempts p = cw_attempt job"
      "cw_attempt job < wp_max_attempts (wq_policy (ws_queue s))"
    and q: "wq_policy q = wq_policy (ws_queue s)" "wq_known_ids q = wq_known_ids (ws_queue s)"
      "wm_accepted (wq_metrics q) = wm_accepted (wq_metrics (ws_queue s))"
      "wm_completed (wq_metrics q) = wm_completed (wq_metrics (ws_queue s))"
      "wm_exhausted (wq_metrics q) = wm_exhausted (wq_metrics (ws_queue s))"
      "wm_abandoned (wq_metrics q) = wm_abandoned (wq_metrics (ws_queue s))"
    using assms(3) by (auto simp: retry_work_def Let_def split: if_splits)
  have inv: "ids_ok s" "attempts_ok s" "payloads_ok s" "books_ok s"
    using assms(1) by (simp_all add: work_inv_def)
  have "attempts_ok ?t" using inv(2) p q c by (auto simp: attempts_ok_def)
  moreover have "ids_ok ?t" using inv(1) p q c by (auto simp: ids_ok_def)
  moreover have "payloads_ok ?t" using inv(3) p c by (simp add: payloads_ok_def)
  moreover have "books_ok ?t" using inv(4) q by (simp add: books_ok_def Let_def)
  ultimately show ?thesis using assms(1) p q c by (simp add: work_inv_def)
qed

text \<open>Taking the pending jobs \<open>js\<close> out for good.\<close>

lemma take_out_inv:
  assumes "work_inv s" "mset (wq_pending (ws_queue s)) = mset rest + mset js"
    and q: "wq_pending q = rest" "wq_policy q = wq_policy (ws_queue s)"
      "wq_known_ids q = wq_known_ids (ws_queue s) - pw_id ` set js"
      "wq_metrics q = (wq_metrics (ws_queue s))
         \<lparr>wm_abandoned := sat_add (wm_abandoned (wq_metrics (ws_queue s))) (length js)\<rparr>"
  shows "work_inv (s\<lparr>ws_queue := q, ws_out := mset (map pw_payload js) + ws_out s\<rparr>)" (is "work_inv ?t")
proof -
  have P: "set (wq_pending (ws_queue s)) = set rest \<union> set js"
    using assms(2) by (metis set_mset_mset set_mset_union)
  have L: "length (wq_pending (ws_queue s)) = length rest + length js"
    using assms(2) by (metis size_mset size_union)
  have M: "mset (map f (wq_pending (ws_queue s))) = mset (map f rest) + mset (map f js)" for f
    using arg_cong [OF assms(2), of "image_mset f"] by simp
  have inv: "ids_ok s" "attempts_ok s" "payloads_ok s" "books_ok s"
    using assms(1) by (simp_all add: work_inv_def)
  have D: "distinct (map pw_id rest @ map pw_id js @ map cw_id (ws_claimed s))"
    using inv(1) M [of pw_id] unfolding ids_ok_def
    by (metis append.assoc mset_append mset_eq_imp_distinct_iff)
  have "ids_ok ?t" using inv(1) D q P by (auto simp: ids_ok_def)
  moreover have "attempts_ok ?t" using inv(2) q P by (auto simp: attempts_ok_def)
  moreover have "payloads_ok ?t" using inv(3) q M [of pw_payload] by (simp add: payloads_ok_def)
  moreover have "books_ok ?t"
  proof -
    have "size (ws_in s) \<le> u64_max \<Longrightarrow> sat_add (wm_abandoned (wq_metrics (ws_queue s))) (length js) =
        wm_abandoned (wq_metrics (ws_queue s)) + length js"
      using inv(4) payloads_ok_sizes [OF inv(3)] L by (auto simp: books_ok_def Let_def sat_add_def)
    then show ?thesis using inv(4) q by (auto simp: books_ok_def Let_def)
  qed
  ultimately show ?thesis using assms(1) q L by (simp add: work_inv_def)
qed

lemma work_step_inv:
  assumes "work_step s t" "work_inv s"
  shows "work_inv t"
  using assms
proof (induction rule: work_step.induct)
  case (enqueued i x now s r q)
  show ?case by (rule enqueued_inv [OF enqueued(2,1)])
next
  case (not_enqueued i x now s oc y q)
  then have "wq_pending q = wq_pending (ws_queue s)" "wq_policy q = wq_policy (ws_queue s)"
    "wq_known_ids q = wq_known_ids (ws_queue s)"
    "wm_accepted (wq_metrics q) = wm_accepted (wq_metrics (ws_queue s))"
    "wm_completed (wq_metrics q) = wm_completed (wq_metrics (ws_queue s))"
    "wm_exhausted (wq_metrics q) = wm_exhausted (wq_metrics (ws_queue s))"
    "wm_abandoned (wq_metrics q) = wm_abandoned (wq_metrics (ws_queue s))"
    by (auto simp: enqueue_work_def split: if_splits)
  with not_enqueued(2) show ?case
    by (auto simp add: work_inv_def ids_ok_def attempts_ok_def payloads_ok_def books_ok_def Let_def)
next
  case (claimed now s job q)
  show ?case by (rule claimed_inv [OF claimed(2,1)])
next
  case (completed job s x q)
  then have x: "x = cw_payload job" and q: "q = snd (complete_work job (ws_queue s))"
    by (simp_all add: complete_work_def)
  show ?case unfolding x
    by (rule give_back_inv [OF completed(3,1)])
      (use out_counter [OF completed(3) _ completed(1)] in \<open>auto simp: q complete_work_def sat_add_def\<close>)
next
  case (exhausted job s now oc x q)
  then have x: "x = cw_payload job" and q: "q = (ws_queue s)\<lparr>wq_known_ids := wq_known_ids (ws_queue s) - {cw_id job},
      wq_metrics := (wq_metrics (ws_queue s))\<lparr>wm_exhausted := sat_add (wm_exhausted (wq_metrics (ws_queue s))) 1\<rparr>\<rparr>"
    by (auto simp: retry_work_def Let_def split: if_splits)
  show ?case unfolding x
    by (rule give_back_inv [OF exhausted(3,1)])
      (use out_counter [OF exhausted(3) _ exhausted(1)] in \<open>auto simp: q sat_add_def\<close>)
next
  case (retried job s now oc q)
  show ?case by (rule retried_inv [OF retried(3,1,2)])
next
  case (abandoned job s x q)
  then have x: "x = cw_payload job" and q: "q = snd (abandon_work job (ws_queue s))"
    by (simp_all add: abandon_work_def)
  show ?case unfolding x
    by (rule give_back_inv [OF abandoned(3,1)])
      (use out_counter [OF abandoned(3) _ abandoned(1)] in \<open>auto simp: q abandon_work_def sat_add_def\<close>)
next
  case (cancelled i s x q)
  then obtain p as bs where p: "wq_pending (ws_queue s) = as @ p # bs" "wq_pending q = as @ bs" "pw_id p = i"
      "x = pw_payload p"
    and q: "wq_policy q = wq_policy (ws_queue s)" "wq_known_ids q = wq_known_ids (ws_queue s) - {i}"
      "wq_metrics q = (wq_metrics (ws_queue s))\<lparr>wm_abandoned := sat_add (wm_abandoned (wq_metrics (ws_queue s))) 1\<rparr>"
    by (auto simp: cancel_pending_def dest!: remove_first_Some split: option.splits)
  have "work_inv (s\<lparr>ws_queue := q, ws_out := mset (map pw_payload [p]) + ws_out s\<rparr>)"
    by (rule take_out_inv [OF cancelled(2)]) (use p q in auto)
  then show ?case using p by simp
next
  case (drained s xs q)
  then have xs: "xs = map pw_payload (wq_pending (ws_queue s))" and q: "q = snd (drain_pending (ws_queue s))"
    by (auto simp: drain_pending_def Let_def)
  have "work_inv (s\<lparr>ws_queue := q, ws_out := mset (map pw_payload (wq_pending (ws_queue s))) + ws_out s\<rparr>)"
    by (rule take_out_inv [OF drained(2), where rest = "[]"])
      (auto simp: q drain_pending_def Let_def foldl_remove_ids)
  then show ?case by (simp add: xs)
qed

lemma work_step_guar: "work_step s t \<Longrightarrow> work_guar s t"
proof (induction rule: work_step.induct)
  case (claimed now s job q)
  then show ?case by (auto simp: claim_ready_def work_guar_def split: option.splits)
next
  case (cancelled i s x q)
  then show ?case by (auto simp: cancel_pending_def work_guar_def split: option.splits)
qed (auto simp: enqueue_work_def complete_work_def retry_work_def abandon_work_def drain_pending_def work_guar_def
    Let_def split: if_splits)

interpretation work: step_system work_init work_step work_inv work_guar
proof
  show "work_inv s" if "work_init s" for s :: "'a work_state"
    using that by (auto simp: work_init_def work_queue_new_def work_inv_def ids_ok_def attempts_ok_def
        payloads_ok_def books_ok_def metrics_default_def validate_policy_def split: sum.splits if_splits)
  show "work_inv t" if "work_inv s" "work_step s t" for s t :: "'a work_state" using that work_step_inv by blast
  show "work_guar s t" if "work_inv s" "work_step s t" for s t :: "'a work_state" using that work_step_guar by blast
  show "work_guar s s" for s :: "'a work_state" by (simp add: work_guar_def)
  show "work_guar s u" if "work_guar s t" "work_guar t u" for s t u :: "'a work_state"
    using that by (auto simp: work_guar_def)
qed

section \<open>Properties of the queue\<close>

text \<open>
  C34. Work is never lost: in every reachable state the payloads the queue accepted are exactly
  those still pending, those claimed by callers, and those handed back; a payload that is not
  accepted is handed back at once. The reported metrics agree with this: pending and in-flight
  counts are exact, and until the 64-bit counters run out every accepted job is pending, in
  flight, completed, exhausted or abandoned.
\<close>

theorem work_is_never_lost:
  assumes "work_init s0" "work_step\<^sup>*\<^sup>* s0 s"
  shows "ws_in s = mset (map pw_payload (wq_pending (ws_queue s))) + mset (map cw_payload (ws_claimed s)) + ws_out s \<and>
    (let m = queue_metrics (ws_queue s) in
       wm_pending m = length (wq_pending (ws_queue s)) \<and> wm_in_flight m = length (ws_claimed s) \<and>
       (size (ws_in s) \<le> u64_max \<longrightarrow> wm_accepted m =
          wm_pending m + wm_in_flight m + wm_completed m + wm_exhausted m + wm_abandoned m)) \<and>
    (we_rejected (fst (enqueue_work i x now (ws_queue s))) =
       (if we_outcome (fst (enqueue_work i x now (ws_queue s))) = WorkQueued then None else Some x))"
proof -
  have inv: "work_inv s" by (rule work.reach_inv [OF assms])
  then have "ids_ok s" "payloads_ok s" "books_ok s" by (simp_all add: work_inv_def)
  then show ?thesis
    using ids_card [of s] payloads_ok_sizes [of s]
    by (auto simp: payloads_ok_def books_ok_def queue_metrics_def Let_def enqueue_work_def)
qed

text \<open>
  The queue is bounded and its ids are unique: in every reachable state at most
  \<open>capacity\<close> jobs are pending or claimed, no two of them have the same id, the known ids are
  theirs, and no job is claimed more than \<open>max_attempts\<close> times.
\<close>

theorem work_queue_bounds:
  assumes "work_init s0" "work_step\<^sup>*\<^sup>* s0 s"
  shows "length (wq_pending (ws_queue s)) + length (ws_claimed s) \<le> wp_capacity (wq_policy (ws_queue s)) \<and>
    distinct (map pw_id (wq_pending (ws_queue s)) @ map cw_id (ws_claimed s)) \<and>
    wq_known_ids (ws_queue s) = pw_id ` set (wq_pending (ws_queue s)) \<union> cw_id ` set (ws_claimed s) \<and>
    (\<forall>job \<in> set (ws_claimed s). 1 \<le> cw_attempt job \<and> cw_attempt job \<le> wp_max_attempts (wq_policy (ws_queue s)))"
  using work.reach_inv [OF assms] by (simp add: work_inv_def ids_ok_def attempts_ok_def)

lemma retry_delay_bounds:
  assumes "validate_policy p = Inr p" "wp_base_backoff_ms p \<le> u64_max"
  shows "wp_base_backoff_ms p \<le> retry_delay_ms p n" "retry_delay_ms p n \<le> wp_max_backoff_ms p"
proof -
  have "wp_base_backoff_ms p * 1 \<le> wp_base_backoff_ms p * 2 ^ k" for k
    by (intro mult_le_mono) simp_all
  then have "wp_base_backoff_ms p \<le> sat_mul (wp_base_backoff_ms p) (2 ^ k)" for k
    using assms(2) by (simp add: sat_mul_def)
  moreover have "wp_base_backoff_ms p \<le> wp_max_backoff_ms p"
    using assms(1) by (simp add: validate_policy_def split: if_splits)
  ultimately show "wp_base_backoff_ms p \<le> retry_delay_ms p n" by (simp add: retry_delay_ms_def Let_def)
  show "retry_delay_ms p n \<le> wp_max_backoff_ms p" by (simp add: retry_delay_ms_def Let_def)
qed

text \<open>
  C36. Retries back off and end: retrying a claimed job of a reachable state reschedules it
  after a delay between the base and the maximal backoff that doubles with every attempt, so it
  cannot be claimed earlier, or, after \<open>max_attempts\<close> attempts, hands its payload back and
  forgets its id.
\<close>

theorem retries_back_off_and_end:
  assumes "work_init s0" "work_step\<^sup>*\<^sup>* s0 s" "job \<in> set (ws_claimed s)"
    and "retry_work job now (ws_queue s) = (r, q)"
    and "wp_base_backoff_ms (wq_policy (ws_queue s)) \<le> u64_max"
  shows "if cw_attempt job = wp_max_attempts (wq_policy (ws_queue s))
    then r = \<lparr>wr_outcome = RetryExhausted (cw_attempt job), wr_exhausted = Some (cw_payload job)\<rparr> \<and>
      cw_id job \<notin> wq_known_ids q
    else (\<exists>d. r = \<lparr>wr_outcome = RetryScheduled d (cw_attempt job + 1), wr_exhausted = None\<rparr> \<and>
      wp_base_backoff_ms (wq_policy q) \<le> d \<and> d \<le> wp_max_backoff_ms (wq_policy q) \<and>
      (cw_attempt job \<le> 32 \<longrightarrow>
         d = min (sat_mul (wp_base_backoff_ms (wq_policy q)) (2 ^ (cw_attempt job - 1))) (wp_max_backoff_ms (wq_policy q))) \<and>
      wq_pending q = wq_pending (ws_queue s) @ [\<lparr>pw_id = cw_id job, pw_payload = cw_payload job,
        pw_attempts = cw_attempt job, pw_not_before_ms = sat_add now d\<rparr>])"
proof -
  have inv: "work_inv s" by (rule work.reach_inv [OF assms(1,2)])
  then have pol: "validate_policy (wq_policy (ws_queue s)) = Inr (wq_policy (ws_queue s))"
    and m: "cw_attempt job \<le> wp_max_attempts (wq_policy (ws_queue s))" "wp_max_attempts (wq_policy (ws_queue s)) \<le> u32_max"
    using assms(3) by (auto simp: work_inv_def attempts_ok_def)
  show ?thesis
  proof (cases "cw_attempt job = wp_max_attempts (wq_policy (ws_queue s))")
    case True
    then show ?thesis using assms(4) by (auto simp: retry_work_def)
  next
    case False
    then have "cw_attempt job < wp_max_attempts (wq_policy (ws_queue s))" using m(1) by simp
    moreover from this have "sat_add32 (cw_attempt job) 1 = cw_attempt job + 1"
      using m(2) by (simp add: sat_add32_def)
    moreover have "cw_attempt job \<le> 32 \<Longrightarrow> min (cw_attempt job - 1) 31 = cw_attempt job - 1" by simp
    ultimately show ?thesis
      using assms(4) retry_delay_bounds [OF pol assms(5), of "cw_attempt job"] False
      by (auto simp: retry_work_def Let_def retry_delay_ms_def)
  qed
qed

text \<open>
  The announced delay is exact: \<open>next_ready_delay_ms\<close> is \<open>None\<close> exactly for a queue with
  nothing pending; otherwise after that delay a job can be claimed and before it none can.
\<close>

theorem next_ready_delay_is_exact:
  assumes "next_ready_delay_ms now q = r"
  shows "case r of
      None \<Rightarrow> wq_pending q = [] \<and> fst (claim_ready later q) = None
    | Some d \<Rightarrow> fst (claim_ready (now + d) q) \<noteq> None \<and> (\<forall>d' < d. fst (claim_ready (now + d') q) = None)"
proof -
  have claim: "fst (claim_ready t q) = None \<longleftrightarrow> (\<forall>job \<in> set (wq_pending q). t < pw_not_before_ms job)" for t
    using remove_first_None [of "\<lambda>job. pw_not_before_ms job \<le> t" "wq_pending q"]
    by (auto simp: claim_ready_def not_le split: option.split)
  show ?thesis
  proof (cases "wq_pending q = []")
    case True
    then show ?thesis using assms claim by (auto simp: next_ready_delay_ms_def)
  next
    case False
    let ?D = "(\<lambda>job. pw_not_before_ms job - now) ` set (wq_pending q)"
    have r: "r = Some (Min ?D)" using assms False by (simp add: next_ready_delay_ms_def)
    have "Min ?D \<in> ?D" using False by (intro Min_in) auto
    then obtain job where "job \<in> set (wq_pending q)" "Min ?D = pw_not_before_ms job - now" by auto
    then have "fst (claim_ready (now + Min ?D) q) \<noteq> None" unfolding claim by force
    moreover have "fst (claim_ready (now + d') q) = None" if "d' < Min ?D" for d'
      unfolding claim
    proof
      fix job assume "job \<in> set (wq_pending q)"
      then have "Min ?D \<le> pw_not_before_ms job - now" by (intro Min_le) auto
      with that show "now + d' < pw_not_before_ms job" by simp
    qed
    ultimately show ?thesis by (simp add: r)
  qed
qed

section \<open>The properties on an example queue\<close>

lemma ex_work_init: "work_init ex_work"
  unfolding work_init_def
  by (intro exI [of _ ex_policy] exI [of _ ex_queue])
    (simp add: ex_work_def ex_queue_def work_queue_new_def validate_policy_def ex_policy_def u32_max_def)

lemma ex_reach_running: "work_step\<^sup>*\<^sup>* ex_work ex_running"
proof -
  have "enqueue_work (lit ''a'') 7 10 (ws_queue ex_work) = (\<lparr>we_outcome = WorkQueued, we_rejected = None\<rparr>, ex_waiting)"
    by (simp add: enqueue_work_def ex_work_def ex_queue_def ex_waiting_def ex_policy_def metrics_default_def sat_add_def u64_max_def)
  then have "work_step ex_work (ex_work\<lparr>ws_queue := ex_waiting, ws_in := add_mset 7 (ws_in ex_work)\<rparr>)" (is "work_step _ ?s")
    by (rule work_step.enqueued)
  moreover have "claim_ready 10 (ws_queue ?s) = (Some ex_job, snd (claim_ready 10 ex_waiting))"
    by (simp add: claim_ready_def ex_waiting_def ex_job_def sat_add32_def u32_max_def)
  then have "work_step ?s (?s\<lparr>ws_queue := snd (claim_ready 10 ex_waiting), ws_claimed := ex_job # ws_claimed ?s\<rparr>)"
    by (rule work_step.claimed)
  moreover have "?s\<lparr>ws_queue := snd (claim_ready 10 ex_waiting), ws_claimed := ex_job # ws_claimed ?s\<rparr> = ex_running"
    by (simp add: ex_running_def ex_work_def)
  ultimately show ?thesis by simp
qed

theorem work_is_never_lost_witness:
  "ws_in ex_running = {#7#} \<and> wm_in_flight (queue_metrics (ws_queue ex_running)) = 1 \<and>
   we_rejected (fst (enqueue_work (lit ''a'') 8 20 (ws_queue ex_running))) = Some 8"
  using work_is_never_lost [OF ex_work_init ex_reach_running, of "lit ''a''" 8 20]
  by (simp add: ex_running_def Let_def enqueue_work_def claim_ready_def ex_waiting_def)

theorem work_queue_bounds_witness:
  "length (wq_pending (ws_queue ex_running)) + length (ws_claimed ex_running) \<le> 2 \<and>
   wq_known_ids (ws_queue ex_running) = {lit ''a''}"
  using work_queue_bounds [OF ex_work_init ex_reach_running]
  by (simp add: ex_running_def claim_ready_def ex_waiting_def ex_queue_def ex_policy_def ex_job_def)

theorem retries_back_off_and_end_witness:
  "\<exists>q. retry_work ex_job 10 (ws_queue ex_running) =
     (\<lparr>wr_outcome = RetryScheduled 100 2, wr_exhausted = None\<rparr>, q)"
proof -
  obtain r q where r: "retry_work ex_job 10 (ws_queue ex_running) = (r, q)" by fastforce
  have p: "wq_policy (ws_queue ex_running) = ex_policy" "ex_job \<in> set (ws_claimed ex_running)"
    by (simp_all add: ex_running_def claim_ready_def ex_waiting_def ex_queue_def)
  have pol: "wq_policy q = ex_policy" using r p by (auto simp: retry_work_def Let_def split: if_splits)
  from retries_back_off_and_end [OF ex_work_init ex_reach_running p(2) r] p(1) pol
  have "\<exists>d. r = \<lparr>wr_outcome = RetryScheduled d 2, wr_exhausted = None\<rparr> \<and> d = 100"
    by (simp add: ex_policy_def ex_job_def u64_max_def sat_mul_def)
  with r show ?thesis by blast
qed

theorem next_ready_delay_is_exact_witness:
  "next_ready_delay_ms 4 ex_waiting = Some 6 \<and> fst (claim_ready 10 ex_waiting) \<noteq> None \<and>
   fst (claim_ready 9 ex_waiting) = None"
proof -
  have r: "next_ready_delay_ms 4 ex_waiting = Some 6" by (simp add: next_ready_delay_ms_def ex_waiting_def)
  have "fst (claim_ready (4 + 6) ex_waiting) \<noteq> None \<and> (\<forall>d' < 6. fst (claim_ready (4 + d') ex_waiting) = None)"
    using next_ready_delay_is_exact [OF r] by simp
  then show ?thesis using r by (auto dest: spec [of _ 5])
qed

end
