(* ===== verification/Text_Search.thy ===== *)
theory Text_Search
  imports Prelude
begin

text \<open>
  The searching and splitting operations of \<open>str\<close> the text-processing components share, the
  characters they name, and their laws.
\<close>

section \<open>Characters and operations\<close>

definition ch_tab :: nat where "ch_tab = 9"
definition ch_newline :: nat where "ch_newline = 10"
definition ch_return :: nat where "ch_return = 13"
definition ch_space :: nat where "ch_space = 32"
definition ch_dquote :: nat where "ch_dquote = 34"
definition ch_hash :: nat where "ch_hash = 35"
definition ch_dollar :: nat where "ch_dollar = 36"
definition ch_amp :: nat where "ch_amp = 38"
definition ch_quote :: nat where "ch_quote = 39"
definition ch_lparen :: nat where "ch_lparen = 40"
definition ch_minus :: nat where "ch_minus = 45"
definition ch_slash :: nat where "ch_slash = 47"
definition ch_equals :: nat where "ch_equals = 61"
definition ch_greater :: nat where "ch_greater = 62"
definition ch_backslash :: nat where "ch_backslash = 92"
definition ch_underscore :: nat where "ch_underscore = 95"
definition ch_backtick :: nat where "ch_backtick = 96"
definition ch_pipe :: nat where "ch_pipe = 124"

lemmas char_defs = ch_tab_def ch_newline_def ch_return_def ch_space_def ch_dquote_def ch_hash_def
  ch_dollar_def ch_amp_def ch_quote_def ch_lparen_def ch_minus_def ch_slash_def ch_equals_def
  ch_greater_def ch_backslash_def ch_underscore_def ch_backtick_def ch_pipe_def

text \<open>\<open>str::split\<close> at the characters that satisfy \<open>P\<close>: always at least one piece.\<close>

fun split_pred :: "(nat \<Rightarrow> bool) \<Rightarrow> ustring \<Rightarrow> ustring list" where
  "split_pred P [] = [[]]"
| "split_pred P (c # cs) =
     (if P c then [] # split_pred P cs
      else case split_pred P cs of [] \<Rightarrow> [[c]] | w # ws \<Rightarrow> (c # w) # ws)"

definition split_whitespace :: "ustring \<Rightarrow> ustring list" where
  "split_whitespace s = filter (\<lambda>w. w \<noteq> []) (split_pred is_whitespace s)"

text \<open>\<open>rsplit('/').next()\<close>: the piece after the last slash.\<close>

definition after_last_slash :: "ustring \<Rightarrow> ustring" where
  "after_last_slash s = last (split_pred (\<lambda>c. c = ch_slash) s)"

definition trim_start_matches :: "nat \<Rightarrow> ustring \<Rightarrow> ustring" where
  "trim_start_matches c s = dropWhile (\<lambda>d. d = c) s"

definition one_of :: "ustring \<Rightarrow> string list \<Rightarrow> bool" where
  "one_of s names = list_ex (\<lambda>n. s = lit n) names"

text \<open>\<open>str::split_once\<close> for a string pattern.\<close>

fun split_once :: "ustring \<Rightarrow> ustring \<Rightarrow> (ustring \<times> ustring) option" where
  "split_once p [] = (if p = [] then Some ([], []) else None)"
| "split_once p (c # cs) =
     (if starts_with (c # cs) p then Some ([], drop (length p) (c # cs))
      else map_option (\<lambda>(a, b). (c # a, b)) (split_once p cs))"

section \<open>Splitting\<close>

lemma split_pred_not_Nil [simp]: "split_pred P s \<noteq> []"
  by (cases s) (simp_all split: list.split)

lemma split_pred_append_hit: "P c \<Longrightarrow> split_pred P (s @ c # t) = split_pred P s @ split_pred P t"
  by (induction s) (auto split: list.splits)

lemma split_pred_no_hit: "\<forall>c \<in> set s. \<not> P c \<Longrightarrow> split_pred P s = [s]"
  by (induction s) auto

lemma split_whitespace_Cons_ws: "is_whitespace c \<Longrightarrow> split_whitespace (c # s) = split_whitespace s"
  by (simp add: split_whitespace_def)

lemma split_whitespace_snoc_ws: "is_whitespace c \<Longrightarrow> split_whitespace (s @ [c]) = split_whitespace s"
  by (simp add: split_whitespace_def split_pred_append_hit)

lemma split_whitespace_dropWhile: "split_whitespace (dropWhile is_whitespace s) = split_whitespace s"
  by (induction s) (simp_all add: split_whitespace_Cons_ws)

lemma split_whitespace_trim: "split_whitespace (trim s) = split_whitespace s"
proof -
  have "split_whitespace (rev (dropWhile is_whitespace (rev t))) = split_whitespace t" for t
    by (induction t rule: rev_induct) (simp_all add: split_whitespace_snoc_ws)
  then show ?thesis by (simp add: trim_def split_whitespace_dropWhile)
qed

lemma split_whitespace_Nil_iff: "split_whitespace s = [] \<longleftrightarrow> (\<forall>c \<in> set s. is_whitespace c)"
proof (induction s)
  case (Cons c s)
  show ?case
  proof (cases "is_whitespace c")
    case True
    then show ?thesis using Cons by (simp add: split_whitespace_Cons_ws)
  next
    case False
    then show ?thesis by (simp add: split_whitespace_def split: list.split)
  qed
qed (simp add: split_whitespace_def)

lemma trim_Nil_iff: "trim s = [] \<longleftrightarrow> (\<forall>c \<in> set s. is_whitespace c)"
proof
  assume "trim s = []"
  then have "split_whitespace s = []" using split_whitespace_trim [of s] by (simp add: split_whitespace_def)
  then show "\<forall>c \<in> set s. is_whitespace c" by (simp add: split_whitespace_Nil_iff)
next
  assume "\<forall>c \<in> set s. is_whitespace c"
  then have "dropWhile is_whitespace s = []" by simp
  then show "trim s = []" by (simp only: trim_def rev.simps dropWhile.simps)
qed

section \<open>Searching\<close>

lemma lit_eq_iff: "lit a = lit b \<longleftrightarrow> a = b"
  by (auto simp: lit_def inj_map_eq_map inj_def)

lemma starts_with_append [simp]: "starts_with (p @ s) p"
  by (induction p) simp_all

lemma starts_with_prefix: "starts_with (s @ b) p \<Longrightarrow> length p \<le> length s \<Longrightarrow> starts_with s p"
  by (induction s p rule: starts_with.induct) auto

lemma starts_with_more: "starts_with s p \<Longrightarrow> starts_with (s @ b) p"
  by (induction s p rule: starts_with.induct) auto

lemma split_once_append:
  assumes "split_once p (h @ p) = Some (h, [])" "p \<noteq> []"
  shows "split_once p (h @ p @ b) = Some (h, b)"
  using assms
proof (induction h)
  case Nil
  have "split_once p s = Some ([], drop (length p) s)" if "starts_with s p" for s
    using that Nil(2) by (cases s; cases p) auto
  then show ?case by simp
next
  case (Cons c h)
  have no: "\<not> starts_with (c # h @ p) p"
  proof
    assume "starts_with (c # h @ p) p"
    then have "split_once p (c # h @ p) = Some ([], drop (length p) (c # h @ p))" by simp
    then show False using Cons.prems(1) by simp
  qed
  have "\<not> starts_with (c # h @ p @ b) p"
    using no starts_with_prefix [of "c # h @ p" b p] by auto
  moreover have "split_once p (h @ p) = Some (h, [])" using Cons.prems(1) no by auto
  ultimately show ?case using Cons.IH Cons.prems(2) by simp
qed

lemma starts_with_member: "starts_with s (p # ps) \<Longrightarrow> p \<in> set s"
  by (cases s) auto

lemma str_contains_member: "str_contains s (p # ps) \<Longrightarrow> p \<in> set s"
  by (induction s) (auto dest: starts_with_member)

lemma split_once_length:
  "split_once p s = Some (a, b) \<Longrightarrow> p \<noteq> [] \<Longrightarrow> length b < length s"
  by (induction s arbitrary: a b) (auto split: if_splits)

end
