(* ===== verification/Exec_Policy.thy ===== *)
theory Exec_Policy
  imports Text_Search
begin

text \<open>
  Model of \<open>crates/agent-core/src/exec_policy.rs\<close>: the shell tokenizer behind session prefix
  grants, the match of a command against a granted prefix, the prefix a grant records, and the
  heuristic for destructive commands. A loop over \<open>command.chars()\<close> is a recursion over the
  characters with the loop's variables as arguments; a \<open>return None\<close> inside it is \<open>None\<close>.
\<close>

section \<open>Tokens\<close>

record ExecPrefixRule =
  xr_prefix :: ustring

definition MAX_EXEC_POLICY_COMMAND_LEN :: nat where
  "MAX_EXEC_POLICY_COMMAND_LEN = 2000"

text \<open>The characters the tokenizer rejects outside quotes: \<open>;|&(){}<>$*?~\<close>.\<close>

definition is_shell_meta :: "nat \<Rightarrow> bool" where
  "is_shell_meta c \<longleftrightarrow> c \<in> set (lit '';|&(){}<>$*?~'')"

fun token_loop ::
  "ustring \<Rightarrow> ustring list \<Rightarrow> ustring \<Rightarrow> nat option \<Rightarrow> bool
     \<Rightarrow> (ustring list \<times> ustring \<times> nat option \<times> bool) option"
where
  "token_loop [] words word quote escaped = Some (words, word, quote, escaped)"
| "token_loop (c # cs) words word quote escaped =
     (if escaped then token_loop cs words (word @ [c]) quote False
      else if c = ch_backslash then token_loop cs words word quote True
      else case quote of
        Some q \<Rightarrow>
          if c = q then token_loop cs words word None False
          else if q = ch_dquote \<and> c = ch_dollar then None
          else token_loop cs words (word @ [c]) quote False
      | None \<Rightarrow>
          if c = ch_quote \<or> c = ch_dquote then token_loop cs words word (Some c) False
          else if is_whitespace c then
            if c = ch_newline \<or> c = ch_return then None
            else if word \<noteq> [] then token_loop cs (words @ [word]) [] None False
            else token_loop cs words word None False
          else if is_shell_meta c then None
          else token_loop cs words (word @ [c]) None False)"

definition shell_command_tokens :: "ustring \<Rightarrow> ustring list option" where
  "shell_command_tokens command =
     (if trim command = [] \<or> str_len command > MAX_EXEC_POLICY_COMMAND_LEN
         \<or> str_contains command [ch_dollar, ch_lparen] \<or> ch_backtick \<in> set command \<or> ch_hash \<in> set command
      then None
      else case token_loop command [] [] None False of
        None \<Rightarrow> None
      | Some (words, word, quote, escaped) \<Rightarrow>
          if escaped \<or> quote \<noteq> None then None
          else
            let words' = (if word \<noteq> [] then words @ [word] else words)
            in if words' = [] then None else Some words')"

section \<open>Dangerous commands\<close>

definition is_danger_separator :: "nat \<Rightarrow> bool" where
  "is_danger_separator c \<longleftrightarrow>
     c = ch_space \<or> c = ch_tab \<or> c = ch_newline \<or> c = ch_return \<or> c \<in> set (lit '';|&(){}<>'')
     \<or> c = ch_dquote \<or> c = ch_quote \<or> c = ch_backtick"

fun danger_loop :: "ustring \<Rightarrow> ustring list \<Rightarrow> ustring \<Rightarrow> bool \<Rightarrow> ustring list" where
  "danger_loop [] segments current escaped = (if current \<noteq> [] then segments @ [current] else segments)"
| "danger_loop (c # cs) segments current escaped =
     (if escaped then danger_loop cs segments (current @ [c]) False
      else if c = ch_backslash then danger_loop cs segments (current @ [c]) True
      else if is_danger_separator c then
        if current \<noteq> [] then danger_loop cs (segments @ [current]) [] False
        else danger_loop cs segments current False
      else danger_loop cs segments (current @ [c]) False)"

definition danger_scan_segments :: "ustring \<Rightarrow> ustring list" where
  "danger_scan_segments command =
     (if str_len command > MAX_EXEC_POLICY_COMMAND_LEN then [] else danger_loop command [] [] False)"

definition flag_boolean_flags :: "ustring \<Rightarrow> bool \<times> bool" where
  "flag_boolean_flags flg =
     (let body = trim_start_matches ch_minus flg in
      if body = [] \<or> ch_equals \<in> set body then (False, False)
      else (list_ex (\<lambda>c. c \<in> set (lit ''rR'')) body, list_ex (\<lambda>c. c \<in> set (lit ''f'')) body))"

fun rm_loop :: "ustring list \<Rightarrow> bool \<Rightarrow> bool \<Rightarrow> bool" where
  "rm_loop [] recursive force = (recursive \<and> force)"
| "rm_loop (a # as) recursive force =
     (if a = lit ''--recursive'' then rm_loop as True force
      else if a = lit ''--force'' then rm_loop as recursive True
      else if starts_with a (lit ''-'') \<and> str_len a > 1 \<and> \<not> starts_with a (lit ''--'')
      then (case flag_boolean_flags a of (r, f) \<Rightarrow> rm_loop as (recursive \<or> r) (force \<or> f))
      else recursive \<and> force)"

definition rm_arguments_are_recursive_force :: "ustring list \<Rightarrow> bool" where
  "rm_arguments_are_recursive_force arguments = rm_loop arguments False False"

definition writes_to_block_device :: "ustring \<Rightarrow> bool" where
  "writes_to_block_device fragment =
     (let target = trim (trim_start_matches ch_amp (trim fragment))
      in list_ex (\<lambda>p. starts_with target (lit p))
           [''/dev/sd'', ''/dev/hd'', ''/dev/nvme'', ''/dev/disk'', ''/dev/da'', ''/dev/mmcblk'',
            ''/dev/vd'', ''/dev/xvd''])"

fun dd_loop :: "ustring list \<Rightarrow> bool \<Rightarrow> bool \<Rightarrow> bool" where
  "dd_loop [] has_input has_output = (has_input \<and> has_output)"
| "dd_loop (a # as) has_input has_output =
     (if starts_with a (lit ''of='') then
        writes_to_block_device (drop 3 a) \<or> dd_loop as has_input True
      else if starts_with a (lit ''if='') then dd_loop as True has_output
      else if list_ex (\<lambda>p. starts_with a (lit p)) [''bs='', ''count='', ''status='', ''conv='', ''seek='', ''skip='']
      then dd_loop as has_input has_output
      else has_input \<and> has_output)"

definition dd_arguments_are_dangerous :: "ustring list \<Rightarrow> bool" where
  "dd_arguments_are_dangerous arguments = dd_loop arguments False False"

definition chmod_arguments_are_dangerous :: "ustring list \<Rightarrow> bool" where
  "chmod_arguments_are_dangerous arguments =
     list_ex (\<lambda>a. one_of (trim a) [''777'', ''0777'', ''a+rwx'', ''u+rwx,g+rwx,o+rwx'']) (take 3 arguments)"

definition tee_arguments_target_block_device :: "ustring list \<Rightarrow> bool" where
  "tee_arguments_target_block_device arguments =
     list_ex writes_to_block_device (filter (\<lambda>a. \<not> starts_with a (lit ''-'')) arguments)"

definition segment_is_shell_interpreter :: "ustring \<Rightarrow> bool" where
  "segment_is_shell_interpreter segment =
     (let tokens = split_whitespace segment;
          rest = (case tokens of t # ts \<Rightarrow> (if t = lit ''sudo'' then ts else tokens) | [] \<Rightarrow> [])
      in case rest of
           [] \<Rightarrow> False
         | e # _ \<Rightarrow> one_of (after_last_slash e) [''sh'', ''bash'', ''zsh'', ''dash'', ''ksh''])"

text \<open>\<open>while let Some(position) = remainder.find('>')\<close>: the text after the bracket, less one more
  bracket, is checked and scanned on.\<close>

definition strip_one :: "nat \<Rightarrow> ustring \<Rightarrow> ustring" where
  "strip_one c s = (case s of d # ds \<Rightarrow> (if d = c then ds else s) | [] \<Rightarrow> [])"

lemma length_strip_one: "length (strip_one c s) \<le> length s"
  by (cases s) (simp_all add: strip_one_def)

function redirect_scan :: "ustring \<Rightarrow> bool" where
  "redirect_scan [] = False"
| "redirect_scan (c # cs) =
     (if c = ch_greater
      then writes_to_block_device (strip_one ch_greater cs) \<or> redirect_scan (strip_one ch_greater cs)
      else redirect_scan cs)"
  by pat_completeness auto
termination
  by (relation "measure length") (auto simp: less_Suc_eq_le length_strip_one)

definition downloads_into_shell :: "ustring \<Rightarrow> bool" where
  "downloads_into_shell command =
     (let pipes = split_pred (\<lambda>c. c = ch_pipe) command in
      length pipes > 1 \<and>
      (case split_whitespace (trim (hd pipes)) of
         [] \<Rightarrow> False
       | e # _ \<Rightarrow> one_of (after_last_slash e) [''curl'', ''wget'', ''fetch'']) \<and>
      list_ex segment_is_shell_interpreter (tl pipes))"

fun dangerous_segments :: "ustring list \<Rightarrow> bool" where
  "dangerous_segments [] = False"
| "dangerous_segments (s # ss) =
     (let e = after_last_slash s in
      one_of e [''sudo'', ''doas''] \<or> e = lit ''mkfs'' \<or> starts_with e (lit ''mkfs.'')
      \<or> one_of e [''shutdown'', ''reboot'', ''halt'', ''poweroff'']
      \<or> (e = lit ''dd'' \<and> dd_arguments_are_dangerous ss)
      \<or> (e = lit ''rm'' \<and> rm_arguments_are_recursive_force ss)
      \<or> (e = lit ''chmod'' \<and> chmod_arguments_are_dangerous ss)
      \<or> (e = lit ''tee'' \<and> tee_arguments_target_block_device ss)
      \<or> dangerous_segments ss)"

definition is_dangerous_command :: "ustring \<Rightarrow> bool" where
  "is_dangerous_command command =
     (let trimmed = trim command in
      if trimmed = [] then False
      else str_contains trimmed (lit '':|:&'') \<or> redirect_scan trimmed \<or> downloads_into_shell trimmed
        \<or> dangerous_segments (danger_scan_segments trimmed))"

section \<open>Prefix rules\<close>

definition prefix_rule_matches :: "ExecPrefixRule \<Rightarrow> ustring \<Rightarrow> bool" where
  "prefix_rule_matches rule command =
     (if is_dangerous_command command then False
      else case shell_command_tokens (xr_prefix rule) of
        None \<Rightarrow> False
      | Some rule_tokens \<Rightarrow>
          (case shell_command_tokens command of
             None \<Rightarrow> False
           | Some command_tokens \<Rightarrow>
               length command_tokens \<ge> length rule_tokens \<and>
               take (length rule_tokens) command_tokens = rule_tokens))"

definition command_prefix_for_grant :: "ustring \<Rightarrow> ustring option" where
  "command_prefix_for_grant command =
     (if is_dangerous_command command then None
      else map_option (join_strs (lit '' '')) (shell_command_tokens command))"

end
