(* ===== verification/Shell_Commands.thy ===== *)
theory Shell_Commands
  imports Exec_Policy
begin

text \<open>
  Model of the shell command analysis of \<open>crates/tools\<close>: the segment tokenizer, the lookup of the
  executable of a segment and the session reuse check of \<open>shell.rs\<close>, and the permission
  classification of \<open>shell_classification.rs\<close>. A \<open>for\<close> loop over characters that only updates
  its variables is a fold of one step over them; a loop that returns early is a recursion.
  \<open>str::to_lowercase\<close> maps by the Unicode tables and is the parameter \<open>to_lower\<close>.
\<close>

section \<open>Segments\<close>

definition is_ascii_alphanumeric :: "nat \<Rightarrow> bool" where
  "is_ascii_alphanumeric c \<longleftrightarrow> (48 \<le> c \<and> c \<le> 57) \<or> (65 \<le> c \<and> c \<le> 90) \<or> (97 \<le> c \<and> c \<le> 122)"

definition char_to_ascii_lowercase :: "nat \<Rightarrow> nat" where
  "char_to_ascii_lowercase c = (if 65 \<le> c \<and> c \<le> 90 then c + 32 else c)"

record segment_state =
  ss_segments :: "ustring list list"
  ss_segment :: "ustring list"
  ss_token :: ustring
  ss_quote :: "nat option"
  ss_escaped :: bool

definition flush_token :: "segment_state \<Rightarrow> segment_state" where
  "flush_token st =
     (if ss_token st \<noteq> [] then st\<lparr>ss_segment := ss_segment st @ [ss_token st], ss_token := []\<rparr> else st)"

definition flush_segment :: "segment_state \<Rightarrow> segment_state" where
  "flush_segment st =
     (if ss_segment st \<noteq> [] then st\<lparr>ss_segments := ss_segments st @ [ss_segment st], ss_segment := []\<rparr> else st)"

definition push_char :: "nat \<Rightarrow> segment_state \<Rightarrow> segment_state" where
  "push_char c st = st\<lparr>ss_token := ss_token st @ [c]\<rparr>"

definition is_segment_separator :: "nat \<Rightarrow> bool" where
  "is_segment_separator c \<longleftrightarrow> c \<in> set (lit '';|&(){}'')"

definition segment_step :: "nat \<Rightarrow> segment_state \<Rightarrow> segment_state" where
  "segment_step c st =
     (if ss_escaped st then (push_char c st)\<lparr>ss_escaped := False\<rparr>
      else if c = ch_backslash then st\<lparr>ss_escaped := True\<rparr>
      else case ss_quote st of
        Some active_quote \<Rightarrow> if c = active_quote then st\<lparr>ss_quote := None\<rparr> else push_char c st
      | None \<Rightarrow>
          if c = ch_quote \<or> c = ch_dquote then st\<lparr>ss_quote := Some c\<rparr>
          else if is_whitespace c then
            (if c = ch_newline then flush_segment (flush_token st) else flush_token st)
          else if is_segment_separator c then flush_segment (flush_token st)
          else push_char (char_to_ascii_lowercase c) st)"

definition segment_start :: segment_state where
  "segment_start = \<lparr>ss_segments = [], ss_segment = [], ss_token = [], ss_quote = None, ss_escaped = False\<rparr>"

definition shell_command_segments :: "ustring \<Rightarrow> ustring list list" where
  "shell_command_segments command =
     (let st = fold segment_step command segment_start;
          st' = (if ss_escaped st then push_char ch_backslash st else st)
      in ss_segments (flush_segment (flush_token st')))"

section \<open>Executables\<close>

definition trim_matches :: "(nat \<Rightarrow> bool) \<Rightarrow> ustring \<Rightarrow> ustring" where
  "trim_matches P s = rev (dropWhile P (rev (dropWhile P s)))"

definition executable_basename :: "ustring \<Rightarrow> ustring" where
  "executable_basename token =
     to_ascii_lowercase
       (trim_matches (\<lambda>c. \<not> is_ascii_alphanumeric c \<and> c \<noteq> ch_underscore) (after_last_slash token))"

definition is_environment_assignment :: "ustring \<Rightarrow> bool" where
  "is_environment_assignment token =
     (if ch_equals \<in> set token
      then let name = takeWhile (\<lambda>c. c \<noteq> ch_equals) token
           in name \<noteq> [] \<and> list_all (\<lambda>c. is_ascii_alphanumeric c \<or> c = ch_underscore) name
      else False)"

definition is_flag :: "ustring \<Rightarrow> bool" where
  "is_flag token = starts_with token (lit ''-'')"

function first_executable_token :: "ustring list \<Rightarrow> ustring option" where
  "first_executable_token [] = None"
| "first_executable_token (token # rest) =
     (if is_environment_assignment token then first_executable_token rest
      else if executable_basename token = lit ''env''
      then first_executable_token (dropWhile (\<lambda>t. is_flag t \<or> is_environment_assignment t) rest)
      else if one_of (executable_basename token) [''command'', ''builtin'', ''nohup'', ''time'']
      then first_executable_token (dropWhile is_flag rest)
      else Some token)"
  by pat_completeness auto
termination
  by (relation "measure length") (auto simp: less_Suc_eq_le length_dropWhile_le)

definition first_executable :: "ustring list \<Rightarrow> ustring option" where
  "first_executable segment = map_option executable_basename (first_executable_token segment)"

definition executables_for_segments :: "ustring list list \<Rightarrow> ustring option list" where
  "executables_for_segments segments = map first_executable segments"

text \<open>\<open>position\<close> with the element and the slice after it.\<close>

fun split_first :: "('a \<Rightarrow> bool) \<Rightarrow> 'a list \<Rightarrow> ('a \<times> 'a list) option" where
  "split_first P [] = None"
| "split_first P (x # xs) = (if P x then Some (x, xs) else split_first P xs)"

section \<open>Reuse of a session permission\<close>

fun indirection_loop :: "ustring \<Rightarrow> nat option \<Rightarrow> bool \<Rightarrow> bool" where
  "indirection_loop [] quote escaped = False"
| "indirection_loop (c # cs) quote escaped =
     (if quote = Some ch_quote then indirection_loop cs (if c = ch_quote then None else quote) escaped
      else if escaped then indirection_loop cs quote False
      else if c = ch_backslash then indirection_loop cs quote True
      else if quote = Some ch_dquote \<and> c = ch_dquote then indirection_loop cs None False
      else if quote \<noteq> Some ch_dquote \<and> c = ch_quote then indirection_loop cs (Some ch_quote) False
      else if quote \<noteq> Some ch_dquote \<and> c = ch_dquote then indirection_loop cs (Some ch_dquote) False
      else if c = ch_backtick \<or> (c \<in> set (lit ''$<>='') \<and> starts_with cs [ch_lparen]) then True
      else indirection_loop cs quote False)"

definition has_active_shell_indirection :: "ustring \<Rightarrow> bool" where
  "has_active_shell_indirection command = indirection_loop command None False"

definition env_requires_one_shot :: "ustring list \<Rightarrow> bool" where
  "env_requires_one_shot segment =
     (case dropWhile is_environment_assignment segment of
        [] \<Rightarrow> False
      | token # tokens \<Rightarrow>
          if executable_basename token \<noteq> lit ''env'' then False
          else case find (\<lambda>t. \<not> is_environment_assignment t \<and> \<not> one_of t [''-i'', ''--ignore-environment''])
                      (takeWhile (\<lambda>t. t \<noteq> lit ''--'') tokens) of
            None \<Rightarrow> False
          | Some t \<Rightarrow> is_flag t)"

definition interpreter_reads_standard_input :: "ustring list \<Rightarrow> ustring \<Rightarrow> bool" where
  "interpreter_reads_standard_input segment executable =
     (case split_first (\<lambda>t. executable_basename t = executable) segment of
        None \<Rightarrow> True
      | Some (_, arguments) \<Rightarrow>
          arguments = [] \<or> list_ex (\<lambda>a. a = lit ''-'') arguments \<or>
          (list_all is_flag arguments \<and> \<not> list_all (\<lambda>a. one_of a [''--help'', ''--version'']) arguments))"

definition CONTROL_WORDS :: "string list" where
  "CONTROL_WORDS = [''if'', ''then'', ''elif'', ''else'', ''fi'', ''for'', ''while'', ''until'', ''do'', ''done'',
     ''case'', ''esac'', ''select'', ''function'', ''coproc'', ''repeat'', ''noglob'', ''nocorrect'', ''!'']"

definition STDIN_INTERPRETERS :: "string list" where
  "STDIN_INTERPRETERS = [''sh'', ''bash'', ''zsh'', ''dash'', ''ksh'', ''python'', ''python3'', ''node'', ''ruby'',
     ''perl'', ''php'']"

definition segment_can_reuse :: "ustring list \<Rightarrow> bool" where
  "segment_can_reuse segment =
     (if (case find (\<lambda>t. \<not> is_environment_assignment t) segment of
            None \<Rightarrow> False | Some t \<Rightarrow> one_of t CONTROL_WORDS) then False
      else case first_executable segment of
        None \<Rightarrow> list_all is_environment_assignment segment
      | Some executable \<Rightarrow>
          let executable_token = (case first_executable_token segment of None \<Rightarrow> [] | Some t \<Rightarrow> t);
              dynamic_executable = (ch_dollar \<in> set executable_token \<or> ch_backtick \<in> set executable_token);
              opaque_builtin = one_of executable_token [''source'', ''.''];
              indirect_find = (executable = lit ''find'' \<and>
                list_ex (\<lambda>t. one_of t [''-exec'', ''-execdir'', ''-ok'', ''-okdir'']) segment);
              opaque_env = env_requires_one_shot segment;
              interpreter_without_explicit_source = (one_of executable STDIN_INTERPRETERS \<and>
                interpreter_reads_standard_input segment executable)
          in \<not> dynamic_executable \<and> \<not> opaque_builtin \<and> \<not> indirect_find \<and> \<not> opaque_env \<and>
             \<not> interpreter_without_explicit_source \<and>
             \<not> one_of executable [''eval'', ''exec'', ''xargs'', ''nice'', ''ionice'', ''timeout''])"

definition shell_command_can_reuse_session_permission :: "ustring \<Rightarrow> bool" where
  "shell_command_can_reuse_session_permission command =
     (if length command > 2000 \<or> has_active_shell_indirection command then False
      else list_all segment_can_reuse (shell_command_segments command))"

section \<open>Classification\<close>

datatype PermissionRisk = RiskRead | RiskWrite | RiskExecute | RiskNetwork | RiskSensitive | RiskDestructive

record ShellCommandClassification =
  sc_risk :: PermissionRisk
  sc_reason :: "string option"
  sc_auto_grant_eligible :: bool
  sc_prefix_grant_eligible :: bool
  sc_session_reusable :: bool
  sc_network_egress :: bool
  sc_sensitive_read :: bool

definition destructive :: "string \<Rightarrow> ShellCommandClassification" where
  "destructive reason =
     \<lparr>sc_risk = RiskDestructive, sc_reason = Some reason, sc_auto_grant_eligible = False,
      sc_prefix_grant_eligible = False, sc_session_reusable = False, sc_network_egress = False,
      sc_sensitive_read = False\<rparr>"

definition KNOWN_SHELL_EXECUTABLES :: "string list" where
  "KNOWN_SHELL_EXECUTABLES = ['':'', ''echo'', ''printf'', ''cd'', ''pwd'', ''true'', ''false'', ''test'', ''read'',
     ''export'', ''set'', ''unset'', ''shift'', ''exit'', ''return'', ''wait'', ''break'',
     ''continue'', ''trap'', ''umask'', ''type'', ''let'', ''declare'', ''local'', ''readonly'',
     ''getopts'', ''jobs'', ''bg'', ''fg'', ''disown'', ''suspend'', ''times'', ''ulimit'', ''ls'',
     ''cat'', ''head'', ''tail'', ''less'', ''more'', ''grep'', ''egrep'', ''fgrep'', ''rg'',
     ''find'', ''fd'', ''file'', ''stat'', ''du'', ''df'', ''wc'', ''sort'', ''uniq'', ''cut'',
     ''paste'', ''tr'', ''column'', ''comm'', ''cmp'', ''diff'', ''sed'', ''awk'', ''md5'',
     ''md5sum'', ''shasum'', ''sha1sum'', ''sha256sum'', ''basename'', ''dirname'', ''realpath'',
     ''readlink'', ''touch'', ''mkdir'', ''cp'', ''mv'', ''ln'', ''chmod'', ''date'', ''uname'',
     ''hostname'', ''whoami'', ''id'', ''uptime'', ''env'', ''printenv'', ''sleep'', ''yes'',
     ''seq'', ''tee'', ''xxd'', ''od'', ''strings'', ''watch'', ''pbcopy'', ''pbpaste'', ''open'',
     ''which'', ''whereis'', ''tar'', ''zip'', ''unzip'', ''gzip'', ''gunzip'', ''xz'', ''zcat'',
     ''bzip2'', ''bunzip'', ''jq'', ''yq'', ''sqlite3'', ''lsof'', ''ps'', ''pgrep'', ''top'',
     ''htop'', ''netstat'', ''ifconfig'', ''ping'', ''dig'', ''nslookup'', ''host'',
     ''traceroute'', ''caffeinate'', ''sw_vers'', ''system_profiler'', ''sips'', ''curl'',
     ''wget'', ''ssh'', ''scp'', ''sftp'', ''rsync'', ''git'', ''cargo'', ''rustc'', ''rustup'',
     ''rustfmt'', ''node'', ''npm'', ''npx'', ''pnpm'', ''yarn'', ''bun'', ''deno'', ''python'',
     ''python3'', ''pip'', ''pip3'', ''uv'', ''make'', ''cmake'', ''ninja'', ''go'', ''docker'',
     ''kubectl'', ''helm'', ''terraform'', ''pod'', ''brew'', ''gh'', ''protoc'', ''java'',
     ''javac'', ''gradle'', ''mvn'', ''xcrun'', ''xcodebuild'', ''swift'', ''swiftc'',
     ''codesign'', ''plutil'', ''defaults'', ''lipo'', ''otool'', ''security'', ''sh'', ''bash'',
     ''zsh'', ''dash'', ''ksh'', ''timeout'', ''nice'', ''ionice'']"

definition SCRIPT_FILE_INTERPRETERS :: "string list" where
  "SCRIPT_FILE_INTERPRETERS = [''sh'', ''bash'', ''zsh'', ''dash'', ''ksh'', ''python'', ''python3'', ''node'',
     ''ruby'', ''perl'', ''php'']"

definition short_option_enables :: "ustring \<Rightarrow> nat \<Rightarrow> bool" where
  "short_option_enables argument option_char =
     (is_flag argument \<and> \<not> starts_with argument (lit ''--'') \<and> option_char \<in> set (drop 1 argument))"

definition shell_interpreters :: "string list" where
  "shell_interpreters = [''sh'', ''bash'', ''zsh'', ''dash'', ''ksh'']"

definition language_interpreters :: "string list" where
  "language_interpreters = [''python'', ''python3'', ''node'', ''ruby'', ''perl'', ''php'']"

definition opaque_interpreter_execution :: "ustring list \<Rightarrow> ustring \<Rightarrow> bool" where
  "opaque_interpreter_execution segment executable =
     (let found = split_first (\<lambda>t. executable_basename t = executable) segment;
          nested = (if one_of executable [''find'', ''xargs'']
            then split_first (\<lambda>t. one_of (executable_basename t)
                   (''eval'' # shell_interpreters @ language_interpreters)) segment
            else None)
      in case (case nested of Some hit \<Rightarrow> Some hit | None \<Rightarrow> found) of
           None \<Rightarrow> False
         | Some (token, arguments) \<Rightarrow>
             let inner = executable_basename token in
             if inner = lit ''eval'' then True
             else if one_of inner shell_interpreters
             then list_ex (\<lambda>a. short_option_enables a (of_char (CHR ''c'')) \<or> a = lit ''--command''
                    \<or> starts_with a (lit ''--command='')) arguments
             else if one_of inner language_interpreters
             then list_ex (\<lambda>a. short_option_enables a (of_char (CHR ''c'')) \<or> short_option_enables a (of_char (CHR ''e''))
                    \<or> a = lit ''--eval'' \<or> starts_with a (lit ''--eval='')) arguments
             else False)"

definition git_segment_is_destructive :: "ustring list \<Rightarrow> bool" where
  "git_segment_is_destructive segment =
     (case split_first (\<lambda>t. t = lit ''clean'') segment of
        Some (_, rest) \<Rightarrow> list_ex (\<lambda>t. is_flag t \<and> of_char (CHR ''f'') \<in> set t) rest
      | None \<Rightarrow>
          if lit ''reset'' \<in> set segment \<and> lit ''--hard'' \<in> set segment then True
          else if lit ''checkout'' \<in> set segment \<and> lit ''--'' \<in> set segment then True
          else lit ''restore'' \<in> set segment)"

definition diskutil_segment_is_destructive :: "ustring list \<Rightarrow> bool" where
  "diskutil_segment_is_destructive segment =
     list_ex (\<lambda>t. one_of t [''erasevolume'', ''erasedisk'', ''partitiondisk'', ''apfs'', ''deletevolume'', ''secureerase''])
       segment"

text \<open>The body of the first loop of \<open>classify_shell_permission\<close>: the reason one segment is
  destructive.\<close>

definition destructive_reason :: "ustring list \<Rightarrow> ustring \<Rightarrow> string option" where
  "destructive_reason segment executable =
     (if opaque_interpreter_execution segment executable then Some ''opaque interpreter execution''
      else if one_of executable [''rm'', ''rmdir'', ''unlink'', ''shred'', ''truncate''] then Some ''filesystem deletion''
      else if one_of executable [''sudo'', ''su''] then Some ''privilege escalation''
      else if one_of executable [''shutdown'', ''reboot'', ''halt'', ''poweroff''] then Some ''system shutdown''
      else if one_of executable [''kill'', ''killall'', ''pkill''] then Some ''process termination''
      else if one_of executable [''dd'', ''mkfs'', ''newfs''] then Some ''raw disk mutation''
      else if executable = lit ''find'' \<and> lit ''-delete'' \<in> set segment then Some ''recursive filesystem deletion''
      else if executable = lit ''git'' \<and> git_segment_is_destructive segment then Some ''destructive git operation''
      else if executable = lit ''diskutil'' \<and> diskutil_segment_is_destructive segment then Some ''disk mutation''
      else if executable = lit ''launchctl'' \<and>
        list_ex (\<lambda>t. one_of t [''bootout'', ''unload'', ''remove'', ''kill'']) segment then Some ''service termination''
      else if executable = lit ''defaults'' \<and> lit ''delete'' \<in> set segment then Some ''preference deletion''
      else if executable = lit ''xargs'' \<and>
        list_ex (\<lambda>t. one_of (executable_basename t) [''rm'', ''rmdir'', ''unlink'']) segment then Some ''filesystem deletion''
      else None)"

fun first_destructive :: "(ustring list \<times> ustring option) list \<Rightarrow> string option" where
  "first_destructive [] = None"
| "first_destructive ((segment, found) # segments) =
     (case found of
        None \<Rightarrow> first_destructive segments
      | Some executable \<Rightarrow>
          (case destructive_reason segment executable of
             Some reason \<Rightarrow> Some reason
           | None \<Rightarrow> first_destructive segments))"

text \<open>The destination of a pipe: its first word that is neither a wrapper nor a flag.\<close>

definition pipe_target :: "ustring \<Rightarrow> ustring option" where
  "pipe_target remaining =
     find (\<lambda>t. \<not> one_of (to_ascii_lowercase (after_last_slash t)) [''sudo'', ''env'', ''nohup'', ''time''] \<and> \<not> is_flag t)
       (split_whitespace remaining)"

definition pipe_target_is_interpreter :: "ustring \<Rightarrow> bool" where
  "pipe_target_is_interpreter remaining =
     (case pipe_target remaining of
        None \<Rightarrow> False
      | Some target \<Rightarrow>
          let basename = executable_basename target
          in one_of basename SCRIPT_FILE_INTERPRETERS \<or> basename = lit ''eval'')"

fun pipe_loop :: "ustring \<Rightarrow> nat option \<Rightarrow> bool \<Rightarrow> bool" where
  "pipe_loop [] quote escaped = False"
| "pipe_loop (c # cs) quote escaped =
     (if escaped then pipe_loop cs quote False
      else if c = ch_backslash then pipe_loop cs quote True
      else case quote of
        Some active_quote \<Rightarrow> pipe_loop cs (if c = active_quote then None else quote) False
      | None \<Rightarrow>
          if c = ch_quote \<or> c = ch_dquote then pipe_loop cs (Some c) False
          else if c \<noteq> ch_pipe then pipe_loop cs None False
          else (case cs of
             d # ds \<Rightarrow> if d = ch_pipe then pipe_loop ds None False else pipe_target_is_interpreter cs
           | [] \<Rightarrow> pipe_target_is_interpreter cs))"

definition pipes_output_to_interpreter :: "ustring \<Rightarrow> bool" where
  "pipes_output_to_interpreter command = pipe_loop command None False"

definition command_performs_network_egress :: "ustring list \<Rightarrow> bool" where
  "command_performs_network_egress executables =
     list_ex (\<lambda>name. one_of name [''curl'', ''wget'', ''ssh'', ''scp'', ''sftp'', ''nc'', ''netcat'', ''rsync'']) executables"

definition destructive_cli_verbs :: "ustring \<Rightarrow> string list option" where
  "destructive_cli_verbs executable =
     (if executable = lit ''kubectl'' then Some [''delete'', ''drain'', ''cordon'', ''taint'']
      else if executable = lit ''helm'' then Some [''uninstall'']
      else if one_of executable [''npm'', ''pnpm'', ''yarn''] then Some [''publish'', ''unpublish'', ''deprecate'']
      else if executable = lit ''gh'' then Some [''delete'']
      else if executable = lit ''brew'' then Some [''uninstall'', ''remove'']
      else if executable = lit ''docker'' then Some [''rm'', ''rmi'', ''prune'', ''push'']
      else if executable = lit ''terraform'' then Some [''destroy'', ''apply'']
      else if executable = lit ''security''
      then Some [''delete-keychain'', ''delete-generic-password'', ''delete-internet-password'']
      else None)"

definition segment_runs_destructive_cli_verbs :: "ustring list \<Rightarrow> ustring \<Rightarrow> bool" where
  "segment_runs_destructive_cli_verbs segment executable =
     (case destructive_cli_verbs executable of
        None \<Rightarrow> False
      | Some verbs \<Rightarrow> list_ex (\<lambda>t. one_of t verbs) (filter (\<lambda>t. \<not> is_flag t) (drop 1 segment)))"

definition sensitive_patterns :: "string list" where
  "sensitive_patterns = [''~/.ssh'', ''~/.aws'', ''~/.gnupg'', ''~/.netrc'', ''~/.config/gcloud'', ''/etc/shadow'',
     ''/etc/sudoers'', ''.env'', ''id_rsa'', ''id_ed25519'', ''credentials'', ''security find-generic-password'',
     ''security find-internet-password'', ''security dump-keychain'', ''security export'']"

definition command_reads_sensitive_location :: "(ustring \<Rightarrow> ustring) \<Rightarrow> ustring \<Rightarrow> bool" where
  "command_reads_sensitive_location to_lower command =
     (let lower = to_lower command in list_ex (\<lambda>p. str_contains lower (lit p)) sensitive_patterns)"

fun script_loop :: "ustring list \<Rightarrow> bool \<Rightarrow> bool \<Rightarrow> bool \<Rightarrow> bool" where
  "script_loop [] module_execution positional skip_next = (positional \<and> \<not> module_execution)"
| "script_loop (argument # arguments) module_execution positional skip_next =
     (if skip_next then script_loop arguments module_execution positional False
      else if argument = lit ''-'' then script_loop arguments module_execution positional False
      else if argument = lit ''-m'' \<or> starts_with argument (lit ''--module'') then script_loop arguments True positional True
      else if is_flag argument then script_loop arguments module_execution positional False
      else script_loop arguments module_execution True False)"

definition segment_runs_script_file :: "ustring list \<Rightarrow> ustring \<Rightarrow> bool" where
  "segment_runs_script_file segment executable =
     (if \<not> one_of executable SCRIPT_FILE_INTERPRETERS then False
      else case split_first (\<lambda>t. executable_basename t = executable) segment of
        None \<Rightarrow> False
      | Some (_, arguments) \<Rightarrow> script_loop arguments False False False)"

text \<open>The second loop: \<open>None\<close> when a segment runs a destructive verb, else whether every executable
  is recognised and whether a script file runs.\<close>

fun recognition_loop :: "(ustring list \<times> ustring option) list \<Rightarrow> bool \<Rightarrow> bool \<Rightarrow> (bool \<times> bool) option" where
  "recognition_loop [] recognized script = Some (recognized, script)"
| "recognition_loop ((segment, found) # segments) recognized script =
     (case found of
        None \<Rightarrow> recognition_loop segments recognized script
      | Some executable \<Rightarrow>
          if segment_runs_destructive_cli_verbs segment executable then None
          else recognition_loop segments
            (recognized \<and> one_of executable KNOWN_SHELL_EXECUTABLES)
            (script \<or> segment_runs_script_file segment executable))"

definition segment_executables :: "ustring list list \<Rightarrow> ustring list" where
  "segment_executables segments = List.map_filter first_executable segments"

definition downloads_and_executes :: "ustring list \<Rightarrow> bool" where
  "downloads_and_executes executables \<longleftrightarrow>
     list_ex (\<lambda>name. one_of name [''curl'', ''wget'']) executables \<and>
     list_ex (\<lambda>name. one_of name [''sh'', ''bash'', ''zsh'', ''dash'', ''ksh'', ''eval'']) executables"

definition classify_shell_permission ::
  "(ustring \<Rightarrow> ustring) \<Rightarrow> ustring \<Rightarrow> ShellCommandClassification"
where
  "classify_shell_permission to_lower command =
     (let segments = shell_command_segments command in
      case first_destructive (zip segments (executables_for_segments segments)) of
        Some reason \<Rightarrow> destructive reason
      | None \<Rightarrow>
          if pipes_output_to_interpreter command then destructive ''piped code execution''
          else
            let executables = segment_executables segments in
            if downloads_and_executes executables then destructive ''downloaded code execution''
            else case recognition_loop (zip segments (executables_for_segments segments)) True False of
              None \<Rightarrow> destructive ''remote or control-plane destructive verb''
            | Some (recognized, script_file_execution) \<Rightarrow>
                let restricted = (\<not> recognized \<or> script_file_execution);
                    network_egress = command_performs_network_egress executables;
                    sensitive_read = command_reads_sensitive_location to_lower command
                in \<lparr>sc_risk = RiskExecute, sc_reason = None,
                    sc_auto_grant_eligible = (\<not> restricted \<and> \<not> network_egress \<and> \<not> sensitive_read),
                    sc_prefix_grant_eligible = (\<not> restricted),
                    sc_session_reusable = (recognized \<and> shell_command_can_reuse_session_permission command),
                    sc_network_egress = network_egress,
                    sc_sensitive_read = sensitive_read\<rparr>)"

end
