(* ===== verification/Exec_Policy_Properties.thy ===== *)
theory Exec_Policy_Properties
  imports Exec_Policy
begin

text \<open>
  Properties of the execution policy: what the two tokenizers of \<open>exec_policy.rs\<close> agree on, what a
  session prefix grant covers, and where quoting makes the tokenizer and the danger guard differ.
\<close>

section \<open>Plain text and single steps\<close>

text \<open>Characters without a meaning to either tokenizer, and text of such characters, spaces and
  tabs.\<close>

definition plain_char :: "nat \<Rightarrow> bool" where
  "plain_char c \<longleftrightarrow> \<not> is_whitespace c \<and> \<not> is_shell_meta c \<and> c \<noteq> ch_quote \<and> c \<noteq> ch_dquote \<and>
     c \<noteq> ch_backslash \<and> c \<noteq> ch_hash \<and> c \<noteq> ch_backtick"

definition plain_text :: "ustring \<Rightarrow> bool" where
  "plain_text s \<longleftrightarrow> list_all (\<lambda>c. plain_char c \<or> c = ch_space \<or> c = ch_tab) s"

definition flush_word :: "ustring list \<Rightarrow> ustring \<Rightarrow> ustring list" where
  "flush_word words word = (if word \<noteq> [] then words @ [word] else words)"

text \<open>One character of the loop.\<close>

definition token_step ::
  "nat \<Rightarrow> ustring list \<Rightarrow> ustring \<Rightarrow> nat option \<Rightarrow> bool \<Rightarrow> (ustring list \<times> ustring \<times> nat option \<times> bool) option"
where
  "token_step c ws w q e =
     (if e then Some (ws, w @ [c], q, False)
      else if c = ch_backslash then Some (ws, w, q, True)
      else case q of
        Some d \<Rightarrow>
          if c = d then Some (ws, w, None, False)
          else if d = ch_dquote \<and> c = ch_dollar then None
          else Some (ws, w @ [c], q, False)
      | None \<Rightarrow>
          if c = ch_quote \<or> c = ch_dquote then Some (ws, w, Some c, False)
          else if is_whitespace c then
            if c = ch_newline \<or> c = ch_return then None
            else if w \<noteq> [] then Some (ws @ [w], [], None, False)
            else Some (ws, w, None, False)
          else if is_shell_meta c then None
          else Some (ws, w @ [c], None, False))"

definition words_len :: "ustring list \<Rightarrow> nat" where
  "words_len ws = sum_list (map (\<lambda>w. str_len w + 1) ws)"

lemma whitespace_space_tab: "is_whitespace ch_space" "is_whitespace ch_tab"
  "ch_space \<noteq> ch_newline" "ch_space \<noteq> ch_return" "ch_tab \<noteq> ch_newline" "ch_tab \<noteq> ch_return"
  "ch_space \<noteq> ch_quote" "ch_space \<noteq> ch_dquote" "ch_space \<noteq> ch_backslash" "ch_tab \<noteq> ch_quote"
  "ch_tab \<noteq> ch_dquote" "ch_tab \<noteq> ch_backslash" "ch_space \<noteq> ch_dollar" "ch_space \<noteq> ch_backtick"
  "ch_space \<noteq> ch_hash" "ch_tab \<noteq> ch_dollar" "ch_tab \<noteq> ch_backtick" "ch_tab \<noteq> ch_hash"
  by (simp_all add: char_defs is_whitespace_def)

lemma plain_char_facts:
  assumes "plain_char c"
  shows "\<not> is_danger_separator c" "c \<noteq> ch_dollar" "c \<noteq> ch_greater" "c \<noteq> ch_pipe" "c \<noteq> ch_amp"
  using assms
  by (auto simp: plain_char_def is_danger_separator_def is_shell_meta_def is_whitespace_def char_defs lit_def)

lemma separator_space_tab: "is_danger_separator ch_space" "is_danger_separator ch_tab"
  by (simp_all add: is_danger_separator_def)

section \<open>Both tokenizers split plain text at white space\<close>

lemma token_loop_plain:
  assumes "plain_text cs"
  shows "\<exists>ws w. token_loop cs words word None False = Some (ws, w, None, False) \<and>
    flush_word ws w = words @ filter (\<lambda>w. w \<noteq> []) ((word @ hd (split_pred is_whitespace cs)) # tl (split_pred is_whitespace cs))"
  using assms
proof (induction cs arbitrary: words word)
  case Nil
  then show ?case by (simp add: flush_word_def)
next
  case (Cons c cs)
  then have pt: "plain_text cs" and c: "plain_char c \<or> c = ch_space \<or> c = ch_tab" by (simp_all add: plain_text_def)
  show ?case
  proof (cases "plain_char c")
    case True
    obtain p ps where sp: "split_pred is_whitespace cs = p # ps"
      by (meson neq_Nil_conv split_pred_not_Nil)
    from True show ?thesis using Cons.IH [OF pt, of words "word @ [c]"] by (auto simp: plain_char_def sp)
  next
    case False
    with c have w: "is_whitespace c" "c \<noteq> ch_newline" "c \<noteq> ch_return" "c \<noteq> ch_quote" "c \<noteq> ch_dquote" "c \<noteq> ch_backslash"
      using whitespace_space_tab by auto
    show ?thesis
    proof (cases "word = []")
      case True
      then show ?thesis
        using w Cons.IH [OF pt, of words "[]"] by (cases "split_pred is_whitespace cs") auto
    next
      case False
      then show ?thesis
        using w Cons.IH [OF pt, of "words @ [word]" "[]"] by (cases "split_pred is_whitespace cs") auto
    qed
  qed
qed

lemma danger_loop_plain:
  assumes "plain_text cs"
  shows "danger_loop cs words word False =
    words @ filter (\<lambda>w. w \<noteq> []) ((word @ hd (split_pred is_whitespace cs)) # tl (split_pred is_whitespace cs))"
  using assms
proof (induction cs arbitrary: words word)
  case (Cons c cs)
  then have pt: "plain_text cs" and c: "plain_char c \<or> c = ch_space \<or> c = ch_tab" by (simp_all add: plain_text_def)
  obtain p ps where sp: "split_pred is_whitespace cs = p # ps"
    by (meson neq_Nil_conv split_pred_not_Nil)
  show ?case
  proof (cases "plain_char c")
    case True
    then show ?thesis
      using Cons.IH [OF pt, of words "word @ [c]"] plain_char_facts(1) [OF True]
      by (auto simp: plain_char_def sp)
  next
    case False
    with c have w: "is_whitespace c" "is_danger_separator c" "c \<noteq> ch_backslash"
      using whitespace_space_tab separator_space_tab by auto
    then show ?thesis
      using Cons.IH [OF pt, of words "[]"] Cons.IH [OF pt, of "words @ [word]" "[]"] by (simp add: sp)
  qed
qed simp

lemma plain_text_members:
  assumes "plain_text s"
  shows "ch_backtick \<notin> set s" "ch_hash \<notin> set s" "ch_dollar \<notin> set s"
proof -
  have "c \<noteq> ch_backtick \<and> c \<noteq> ch_hash \<and> c \<noteq> ch_dollar" if "c \<in> set s" for c
  proof -
    have "plain_char c \<or> c = ch_space \<or> c = ch_tab" using assms that by (simp add: plain_text_def list_all_iff)
    then show ?thesis
    proof
      assume "plain_char c"
      then show ?thesis using plain_char_facts(2) by (simp add: plain_char_def)
    qed (auto simp: char_defs)
  qed
  then show "ch_backtick \<notin> set s" "ch_hash \<notin> set s" "ch_dollar \<notin> set s" by blast+
qed

lemma shell_command_tokens_plain:
  assumes "plain_text c" "trim c \<noteq> []" "str_len c \<le> MAX_EXEC_POLICY_COMMAND_LEN"
  shows "shell_command_tokens c = Some (split_whitespace c)"
proof -
  obtain ws w where t: "token_loop c [] [] None False = Some (ws, w, None, False)"
    and f: "flush_word ws w = split_whitespace c"
    using token_loop_plain [OF assms(1), of "[]" "[]"] split_pred_not_Nil [of is_whitespace c]
    by (auto simp: split_whitespace_def simp del: filter.simps)
  have "\<not> str_contains c [ch_dollar, ch_lparen]"
    using plain_text_members(3) [OF assms(1)] str_contains_member [of c ch_dollar "[ch_lparen]"] by auto
  moreover have "split_whitespace c \<noteq> []" using assms(2) by (simp add: split_whitespace_Nil_iff trim_Nil_iff)
  ultimately show ?thesis
    using assms plain_text_members(1,2) [OF assms(1)] t f
    by (auto simp: shell_command_tokens_def Let_def flush_word_def)
qed

lemma danger_scan_segments_plain:
  assumes "plain_text c" "str_len c \<le> MAX_EXEC_POLICY_COMMAND_LEN"
  shows "danger_scan_segments c = split_whitespace c"
  using danger_loop_plain [OF assms(1), of "[]" "[]"] assms(2) split_pred_not_Nil [of is_whitespace c]
  by (auto simp: danger_scan_segments_def split_whitespace_def simp del: filter.simps)

lemma trim_subset: "\<exists>xs ys. s = xs @ trim s @ ys"
proof -
  have "s = takeWhile is_whitespace s @ dropWhile is_whitespace s" by simp
  moreover have "t = rev (dropWhile is_whitespace (rev t)) @ rev (takeWhile is_whitespace (rev t))" for t
    by (metis rev_append rev_rev_ident takeWhile_dropWhile_id)
  ultimately show ?thesis unfolding trim_def by (metis (no_types))
qed

lemma plain_text_trim: "plain_text s \<Longrightarrow> plain_text (trim s)" "str_len (trim s) \<le> str_len s"
proof -
  obtain xs ys where s: "s = xs @ trim s @ ys" using trim_subset by blast
  show "plain_text s \<Longrightarrow> plain_text (trim s)" by (subst (asm) s) (simp add: plain_text_def)
  have "str_len s = str_len xs + str_len (trim s) + str_len ys" by (subst s) simp
  then show "str_len (trim s) \<le> str_len s" by simp
qed

lemma dangerous_segments_iff:
  "dangerous_segments ss \<longleftrightarrow> (\<exists>i < length ss.
     let e = after_last_slash (ss ! i); rest = drop (Suc i) ss in
      one_of e [''sudo'', ''doas''] \<or> e = lit ''mkfs'' \<or> starts_with e (lit ''mkfs.'')
      \<or> one_of e [''shutdown'', ''reboot'', ''halt'', ''poweroff'']
      \<or> (e = lit ''dd'' \<and> dd_arguments_are_dangerous rest)
      \<or> (e = lit ''rm'' \<and> rm_arguments_are_recursive_force rest)
      \<or> (e = lit ''chmod'' \<and> chmod_arguments_are_dangerous rest)
      \<or> (e = lit ''tee'' \<and> tee_arguments_target_block_device rest))"
  by (induction ss) (simp_all add: Let_def Ex_less_Suc2 disj_assoc)

section \<open>What a prefix rule accepts\<close>

lemma prefix_rule_matches_iff:
  "prefix_rule_matches rule c \<longleftrightarrow> \<not> is_dangerous_command c \<and>
     (\<exists>rt ct. shell_command_tokens (xr_prefix rule) = Some rt \<and> shell_command_tokens c = Some ct \<and>
        (\<exists>more. ct = rt @ more))"
  by (auto simp: prefix_rule_matches_def split: option.split)
    (metis append_take_drop_id)

text \<open>
  On commands without quoting the danger guard sees what the tokenizer sees: when a prefix
  rule matches a command of plain characters, spaces and tabs, no token of the command names a
  privileged, formatting or shutdown tool, and no \<open>rm\<close>, \<open>dd\<close>, \<open>chmod\<close> or \<open>tee\<close>
  among them has the arguments the guard calls destructive.
\<close>

theorem danger_guard_sees_the_tokens:
  assumes "plain_text c" "prefix_rule_matches rule c"
  shows "\<exists>ts. shell_command_tokens c = Some ts \<and> (\<forall>i < length ts.
     \<not> one_of (after_last_slash (ts ! i)) [''sudo'', ''doas'', ''mkfs'', ''shutdown'', ''reboot'', ''halt'', ''poweroff''] \<and>
     (after_last_slash (ts ! i) = lit ''rm'' \<longrightarrow> \<not> rm_arguments_are_recursive_force (drop (Suc i) ts)) \<and>
     (after_last_slash (ts ! i) = lit ''dd'' \<longrightarrow> \<not> dd_arguments_are_dangerous (drop (Suc i) ts)) \<and>
     (after_last_slash (ts ! i) = lit ''chmod'' \<longrightarrow> \<not> chmod_arguments_are_dangerous (drop (Suc i) ts)) \<and>
     (after_last_slash (ts ! i) = lit ''tee'' \<longrightarrow> \<not> tee_arguments_target_block_device (drop (Suc i) ts)))"
proof -
  obtain ts where ts: "shell_command_tokens c = Some ts" and safe: "\<not> is_dangerous_command c"
    using assms(2) by (auto simp: prefix_rule_matches_iff)
  then have ne: "trim c \<noteq> []" and len: "str_len c \<le> MAX_EXEC_POLICY_COMMAND_LEN"
    by (auto simp: shell_command_tokens_def split: if_splits)
  have "ts = split_whitespace c" using ts shell_command_tokens_plain [OF assms(1) ne len] by simp
  moreover have "danger_scan_segments (trim c) = split_whitespace c"
    using danger_scan_segments_plain [OF plain_text_trim(1) [OF assms(1)]] plain_text_trim(2) [of c] len
    by (simp add: split_whitespace_trim)
  ultimately have nd: "\<not> dangerous_segments ts"
    using safe ne by (simp add: is_dangerous_command_def Let_def)
  then show ?thesis
    unfolding dangerous_segments_iff Let_def by (intro exI [of _ ts]) (auto simp: ts one_of_def)
qed

section \<open>Tokens of a command\<close>

lemma token_loop_Cons:
  "token_loop (c # cs) ws w q e =
     (case token_step c ws w q e of None \<Rightarrow> None | Some (ws', w', q', e') \<Rightarrow> token_loop cs ws' w' q' e')"
  by (cases q) (simp_all add: token_step_def)

lemma token_loop_append:
  "token_loop (a @ b) ws w q e =
     (case token_loop a ws w q e of None \<Rightarrow> None | Some (ws', w', q', e') \<Rightarrow> token_loop b ws' w' q' e')"
proof (induction a arbitrary: ws w q e)
  case (Cons c a)
  show ?case
    unfolding append_Cons token_loop_Cons by (cases "token_step c ws w q e") (simp_all add: Cons split: prod.split)
qed simp

lemma token_loop_word:
  "list_all plain_char p \<Longrightarrow> token_loop p ws w None False = Some (ws, w @ p, None, False)"
  by (induction p arbitrary: w) (auto simp: plain_char_def)

lemma token_loop_quoted:
  assumes "list_all (\<lambda>c. c \<noteq> ch_dquote \<and> c \<noteq> ch_backslash \<and> c \<noteq> ch_dollar) p"
  shows "token_loop p ws w (Some ch_dquote) False = Some (ws, w @ p, Some ch_dquote, False)"
  using assms by (induction p arbitrary: w) auto

lemma len_utf8_pos: "1 \<le> len_utf8 c"
  by (simp add: len_utf8_def utf8_char_def)

lemma token_step_bounds:
  assumes "token_step c ws w q e = Some (ws', w', q', e')" "\<forall>x \<in> set ws. x \<noteq> []"
  shows "(\<forall>x \<in> set ws'. x \<noteq> []) \<and> words_len ws' + str_len w' \<le> words_len ws + str_len w + len_utf8 c"
proof -
  have pos: "1 \<le> len_utf8 c" by (rule len_utf8_pos)
  show ?thesis
    using assms pos by (cases q) (auto simp: token_step_def words_len_def split: if_splits)
qed

lemma token_loop_bounds:
  assumes "token_loop cs ws w q e = Some (ws', w', q', e')" "\<forall>x \<in> set ws. x \<noteq> []"
  shows "(\<forall>x \<in> set ws'. x \<noteq> []) \<and> words_len ws' + str_len w' \<le> words_len ws + str_len w + str_len cs"
  using assms
proof (induction cs arbitrary: ws w q e)
  case (Cons c cs)
  then obtain vs v p f where st: "token_step c ws w q e = Some (vs, v, p, f)"
    and rest: "token_loop cs vs v p f = Some (ws', w', q', e')"
    unfolding token_loop_Cons by (auto split: option.splits)
  note S = token_step_bounds [OF st Cons.prems(2)]
  with Cons.IH [OF rest] show ?case by simp
qed simp

lemma str_len_join: "ws \<noteq> [] \<Longrightarrow> str_len (join_strs (lit '' '') ws) + 1 = words_len ws"
  by (induction "lit '' ''" ws rule: join_strs.induct) (simp_all add: words_len_def lit_def len_utf8_def utf8_char_def)

lemma tokens_facts:
  assumes "shell_command_tokens c = Some ts"
  shows "ts \<noteq> []" "\<forall>t \<in> set ts. t \<noteq> []" "str_len (join_strs (lit '' '') ts) \<le> MAX_EXEC_POLICY_COMMAND_LEN"
proof -
  obtain ws w where l: "token_loop c [] [] None False = Some (ws, w, None, False)"
    and ts: "ts = (if w \<noteq> [] then ws @ [w] else ws)" "ts \<noteq> []"
    and len: "str_len c \<le> MAX_EXEC_POLICY_COMMAND_LEN"
    using assms by (auto simp: shell_command_tokens_def Let_def split: if_splits option.splits prod.splits)
  note B = token_loop_bounds [OF l, simplified]
  show "ts \<noteq> []" by (rule ts(2))
  show "\<forall>t \<in> set ts. t \<noteq> []" using B ts by auto
  have "words_len ts \<le> str_len c + 1" using B ts by (auto simp: words_len_def)
  then show "str_len (join_strs (lit '' '') ts) \<le> MAX_EXEC_POLICY_COMMAND_LEN"
    using str_len_join [OF ts(2)] len by linarith
qed

lemma lit_space: "lit '' '' = [ch_space]"
  by (simp add: lit_def char_defs)

lemma join_plain: "\<forall>t \<in> set ts. list_all plain_char t \<Longrightarrow> plain_text (join_strs (lit '' '') ts)"
proof (induction "lit '' ''" ts rule: join_strs.induct)
  case (2 s)
  then show ?case by (auto simp: plain_text_def list_all_iff)
next
  case (3 s t ss)
  then show ?case by (auto simp: plain_text_def list_all_iff lit_space)
qed (simp add: plain_text_def)

lemma split_join:
  "\<forall>t \<in> set ts. t \<noteq> [] \<and> list_all plain_char t \<Longrightarrow> split_whitespace (join_strs (lit '' '') ts) = ts"
proof (induction "lit '' ''" ts rule: join_strs.induct)
  case 1
  then show ?case by (simp add: split_whitespace_def)
next
  case (2 s)
  then have "split_pred is_whitespace s = [s]" by (intro split_pred_no_hit) (simp add: list_all_iff plain_char_def)
  with 2 show ?case by (simp add: split_whitespace_def)
next
  case (3 s t ss)
  then have "split_pred is_whitespace s = [s]" by (intro split_pred_no_hit) (simp add: list_all_iff plain_char_def)
  moreover have "split_whitespace (join_strs (lit '' '') (t # ss)) = t # ss" using 3 by simp
  ultimately show ?case
    using 3(2) by (simp add: split_whitespace_def lit_space split_pred_append_hit whitespace_space_tab)
qed

lemma tokens_join:
  assumes "ts \<noteq> []" "\<forall>t \<in> set ts. t \<noteq> [] \<and> list_all plain_char t"
    and "str_len (join_strs (lit '' '') ts) \<le> MAX_EXEC_POLICY_COMMAND_LEN"
  shows "shell_command_tokens (join_strs (lit '' '') ts) = Some ts"
proof -
  have "trim (join_strs (lit '' '') ts) \<noteq> []"
    using split_join [OF assms(2)] assms(1) by (metis split_whitespace_Nil_iff trim_Nil_iff)
  then show ?thesis
    using shell_command_tokens_plain [OF join_plain _ assms(3)] split_join assms(2) by auto
qed

lemma plain_word_members:
  assumes "list_all plain_char w"
  shows "ch_dollar \<notin> set w" "ch_backtick \<notin> set w" "ch_hash \<notin> set w"
  using assms plain_text_members [of w] by (auto simp: plain_text_def list_all_iff)

text \<open>
  C22. A grant covers what was approved: when the tokens of an approved command are plain, the
  prefix the grant records tokenizes back to exactly these tokens, matches the approved command,
  and matches another command that is not dangerous iff its tokens begin with them.
\<close>

theorem grant_covers_its_command:
  assumes "command_prefix_for_grant c = Some p" "shell_command_tokens c = Some ts"
    and "\<forall>t \<in> set ts. list_all plain_char t"
  shows "shell_command_tokens p = Some ts \<and> prefix_rule_matches \<lparr>xr_prefix = p\<rparr> c \<and>
    (prefix_rule_matches \<lparr>xr_prefix = p\<rparr> d \<longleftrightarrow>
       \<not> is_dangerous_command d \<and> (\<exists>more. shell_command_tokens d = Some (ts @ more)))"
proof -
  have p: "p = join_strs (lit '' '') ts" and safe: "\<not> is_dangerous_command c"
    using assms(1,2) by (auto simp: command_prefix_for_grant_def split: if_splits)
  have t: "shell_command_tokens p = Some ts"
    unfolding p using tokens_facts [OF assms(2)] assms(3) by (intro tokens_join) auto
  then show ?thesis using safe assms(2) by (auto simp: prefix_rule_matches_iff)
qed

text \<open>
  A grant for a command with a quoted blank covers another command instead: approving
  \<open>w "x y"\<close> records the prefix \<open>w x y\<close>, which does not match the approved command but
  matches \<open>w x y\<close>, a command with three words.
\<close>

theorem quoted_grant_covers_another_command:
  assumes "list_all plain_char w" "list_all plain_char x" "list_all plain_char y" "w \<noteq> []" "x \<noteq> []" "y \<noteq> []"
    and "str_len w + str_len x + str_len y \<le> 1996"
    and "\<not> is_dangerous_command (w @ [ch_space, ch_dquote] @ x @ [ch_space] @ y @ [ch_dquote])"
    and "\<not> is_dangerous_command (w @ [ch_space] @ x @ [ch_space] @ y)"
  shows "command_prefix_for_grant (w @ [ch_space, ch_dquote] @ x @ [ch_space] @ y @ [ch_dquote]) =
      Some (w @ [ch_space] @ x @ [ch_space] @ y) \<and>
    \<not> prefix_rule_matches \<lparr>xr_prefix = w @ [ch_space] @ x @ [ch_space] @ y\<rparr>
        (w @ [ch_space, ch_dquote] @ x @ [ch_space] @ y @ [ch_dquote]) \<and>
    prefix_rule_matches \<lparr>xr_prefix = w @ [ch_space] @ x @ [ch_space] @ y\<rparr> (w @ [ch_space] @ x @ [ch_space] @ y)"
proof -
  let ?q = "x @ [ch_space] @ y"
  let ?c = "w @ [ch_space, ch_dquote] @ ?q @ [ch_dquote]" and ?p = "w @ [ch_space] @ x @ [ch_space] @ y"
  have q: "list_all (\<lambda>c. c \<noteq> ch_dquote \<and> c \<noteq> ch_backslash \<and> c \<noteq> ch_dollar) ?q"
    using assms(2,3) plain_char_facts(2) by (auto simp: list_all_iff plain_char_def whitespace_space_tab)
  have one: "len_utf8 ch_space = 1" "len_utf8 ch_dquote = 1" by (simp_all add: char_defs len_utf8_def utf8_char_def)
  have t: "token_loop w [] [] None False = Some ([], w, None, False)"
    "token_loop [ch_space, ch_dquote] [] w None False = Some ([w], [], Some ch_dquote, False)"
    "token_loop ?q [w] [] (Some ch_dquote) False = Some ([w], ?q, Some ch_dquote, False)"
    "token_loop [ch_dquote] [w] ?q (Some ch_dquote) False = Some ([w], ?q, None, False)"
    using token_loop_word [OF assms(1), of "[]" "[]"] token_loop_quoted [OF q, of "[w]" "[]"] assms(4)
    by (simp_all only: append_Nil) (simp_all add: char_defs is_whitespace_def)
  have "token_loop ?c [] [] None False = Some ([w], ?q, None, False)"
    by (simp only: token_loop_append [of w] token_loop_append [of "[ch_space, ch_dquote]"] token_loop_append [of ?q]
        t option.case prod.case)
  moreover have "ch_dollar \<notin> set ?c" "ch_backtick \<notin> set ?c" "ch_hash \<notin> set ?c"
    using plain_word_members [OF assms(1)] plain_word_members [OF assms(2)] plain_word_members [OF assms(3)]
    by (simp_all add: char_defs)
  moreover have "\<not> str_contains ?c [ch_dollar, ch_lparen]"
    using calculation(2) str_contains_member [of ?c ch_dollar "[ch_lparen]"] by auto
  moreover have "trim ?c \<noteq> []"
    using assms(1,4) by (cases w) (auto simp: trim_Nil_iff plain_char_def)
  ultimately have tc: "shell_command_tokens ?c = Some [w, ?q]"
    using assms(7) one by (simp add: shell_command_tokens_def MAX_EXEC_POLICY_COMMAND_LEN_def)
  have "shell_command_tokens (join_strs (lit '' '') [w, x, y]) = Some [w, x, y]"
    using assms(1-7) one by (intro tokens_join) (simp_all add: lit_space MAX_EXEC_POLICY_COMMAND_LEN_def)
  then have tp: "shell_command_tokens ?p = Some [w, x, y]" by (simp add: lit_space)
  show ?thesis
    using tc tp assms(8,9) by (simp add: prefix_rule_matches_iff command_prefix_for_grant_def lit_space)
qed

text \<open>
  Quoting hides a destructive command from the guard: for the two spellings below the
  tokenizer produces \<open>rm -rf /\<close> and \<open>sudo ls\<close>, whose plain spellings the guard rejects, but the
  quoted and the escaped command pass it and match the prefix rules \<open>rm\<close> and \<open>sudo\<close>.
\<close>

theorem quoting_hides_dangerous_commands:
  "shell_command_tokens (lit ''rm -r'' @ [ch_dquote] @ lit ''f'' @ [ch_dquote] @ lit '' /'') =
     Some [lit ''rm'', lit ''-rf'', lit ''/''] \<and>
   is_dangerous_command (lit ''rm -rf /'') \<and>
   prefix_rule_matches \<lparr>xr_prefix = lit ''rm''\<rparr> (lit ''rm -r'' @ [ch_dquote] @ lit ''f'' @ [ch_dquote] @ lit '' /'') \<and>
   shell_command_tokens (lit ''s'' @ [ch_backslash] @ lit ''udo ls'') = Some [lit ''sudo'', lit ''ls''] \<and>
   is_dangerous_command (lit ''sudo ls'') \<and>
   prefix_rule_matches \<lparr>xr_prefix = lit ''sudo''\<rparr> (lit ''s'' @ [ch_backslash] @ lit ''udo ls'')"
proof -
  have "shell_command_tokens (lit ''rm -r'' @ [ch_dquote] @ lit ''f'' @ [ch_dquote] @ lit '' /'') =
     Some [lit ''rm'', lit ''-rf'', lit ''/'']"
    "shell_command_tokens (lit ''s'' @ [ch_backslash] @ lit ''udo ls'') = Some [lit ''sudo'', lit ''ls'']"
    "shell_command_tokens (lit ''rm'') = Some [lit ''rm'']" "shell_command_tokens (lit ''sudo'') = Some [lit ''sudo'']"
    by (simp_all add: shell_command_tokens_def lit_def char_defs trim_def is_whitespace_def is_shell_meta_def
        str_len_def as_bytes_def utf8_char_def MAX_EXEC_POLICY_COMMAND_LEN_def)
  moreover have "is_dangerous_command (lit ''rm -rf /'')" "is_dangerous_command (lit ''sudo ls'')"
    by (simp_all add: is_dangerous_command_def lit_def char_defs trim_def is_whitespace_def danger_scan_segments_def
        str_len_def as_bytes_def utf8_char_def MAX_EXEC_POLICY_COMMAND_LEN_def is_danger_separator_def one_of_def
        after_last_slash_def rm_arguments_are_recursive_force_def flag_boolean_flags_def trim_start_matches_def)
  moreover have "\<not> is_dangerous_command (lit ''rm -r'' @ [ch_dquote] @ lit ''f'' @ [ch_dquote] @ lit '' /'')"
    "\<not> is_dangerous_command (lit ''s'' @ [ch_backslash] @ lit ''udo ls'')"
    by (simp_all add: is_dangerous_command_def lit_def char_defs trim_def is_whitespace_def danger_scan_segments_def
        str_len_def as_bytes_def utf8_char_def MAX_EXEC_POLICY_COMMAND_LEN_def is_danger_separator_def one_of_def
        after_last_slash_def rm_arguments_are_recursive_force_def flag_boolean_flags_def trim_start_matches_def
        downloads_into_shell_def split_whitespace_def)
  ultimately show ?thesis by (simp add: prefix_rule_matches_iff)
qed

section \<open>Instances\<close>

lemmas command_eval = lit_def char_defs trim_def is_whitespace_def is_shell_meta_def str_len_def as_bytes_def
  utf8_char_def MAX_EXEC_POLICY_COMMAND_LEN_def is_dangerous_command_def danger_scan_segments_def
  is_danger_separator_def one_of_def after_last_slash_def downloads_into_shell_def split_whitespace_def
  shell_command_tokens_def plain_text_def plain_char_def

lemma ex_list_command:
  "plain_text (lit ''ls -l'')" "\<not> is_dangerous_command (lit ''ls -l'')"
  "shell_command_tokens (lit ''ls -l'') = Some [lit ''ls'', lit ''-l'']"
  "shell_command_tokens (lit ''ls'') = Some [lit ''ls'']"
  by (simp_all add: command_eval)

theorem danger_guard_sees_the_tokens_witness:
  "prefix_rule_matches \<lparr>xr_prefix = lit ''ls''\<rparr> (lit ''ls -l'') \<and>
   \<not> one_of (after_last_slash (lit ''ls'')) [''sudo'', ''doas'', ''mkfs'', ''shutdown'', ''reboot'', ''halt'', ''poweroff'']"
proof -
  have m: "prefix_rule_matches \<lparr>xr_prefix = lit ''ls''\<rparr> (lit ''ls -l'')"
    by (simp add: prefix_rule_matches_iff ex_list_command)
  show ?thesis
    using danger_guard_sees_the_tokens [OF ex_list_command(1) m] m by (auto simp: ex_list_command)
qed

theorem grant_covers_its_command_witness:
  "command_prefix_for_grant (lit ''ls -l'') = Some (lit ''ls -l'') \<and>
   prefix_rule_matches \<lparr>xr_prefix = lit ''ls -l''\<rparr> (lit ''ls -l'')"
proof -
  have g: "command_prefix_for_grant (lit ''ls -l'') = Some (lit ''ls -l'')"
    by (simp add: command_prefix_for_grant_def ex_list_command) (simp add: lit_def)
  have "\<forall>t \<in> set [lit ''ls'', lit ''-l'']. list_all plain_char t" by (simp add: command_eval)
  then show ?thesis using grant_covers_its_command [OF g ex_list_command(3)] g by blast
qed

theorem quoted_grant_covers_another_command_witness:
  "command_prefix_for_grant (lit ''echo'' @ [ch_space, ch_dquote] @ lit ''a'' @ [ch_space] @ lit ''b'' @ [ch_dquote]) =
     Some (lit ''echo'' @ [ch_space] @ lit ''a'' @ [ch_space] @ lit ''b'')"
proof -
  have "list_all plain_char (lit ''echo'')" "list_all plain_char (lit ''a'')" "list_all plain_char (lit ''b'')"
    "lit ''echo'' \<noteq> []" "lit ''a'' \<noteq> []" "lit ''b'' \<noteq> []"
    "str_len (lit ''echo'') + str_len (lit ''a'') + str_len (lit ''b'') \<le> 1996"
    "\<not> is_dangerous_command (lit ''echo'' @ [ch_space, ch_dquote] @ lit ''a'' @ [ch_space] @ lit ''b'' @ [ch_dquote])"
    "\<not> is_dangerous_command (lit ''echo'' @ [ch_space] @ lit ''a'' @ [ch_space] @ lit ''b'')"
    by (simp_all add: command_eval)
  from quoted_grant_covers_another_command [OF this] show ?thesis by blast
qed

end
