(* ===== verification/Shell_Properties.thy ===== *)
theory Shell_Properties
  imports Shell_Commands Exec_Policy_Properties
begin

text \<open>
  Properties of the shell command analysis: how the segment tokenizer composes over separators and
  agrees with the tokenizer of the execution policy, what the permission classification guarantees
  for every segment of a command, and the commands whose inner command it does not see.
\<close>

section \<open>The loops of the classification\<close>

lemma set_zip_executables:
  "set (zip segs (executables_for_segments segs)) = (\<lambda>s. (s, first_executable s)) ` set segs"
  by (induction segs) (simp_all add: executables_for_segments_def)

lemma first_destructive_None_iff:
  "first_destructive ps = None \<longleftrightarrow> (\<forall>(seg, found) \<in> set ps. \<forall>e. found = Some e \<longrightarrow> destructive_reason seg e = None)"
  by (induction ps rule: first_destructive.induct) (auto split: option.splits)

lemma recognition_loop_Some_iff:
  "recognition_loop ps r s = Some (r', s') \<longleftrightarrow>
     (\<forall>(seg, found) \<in> set ps. \<forall>e. found = Some e \<longrightarrow> \<not> segment_runs_destructive_cli_verbs seg e) \<and>
     r' = (r \<and> (\<forall>(seg, found) \<in> set ps. \<forall>e. found = Some e \<longrightarrow> one_of e KNOWN_SHELL_EXECUTABLES)) \<and>
     s' = (s \<or> (\<exists>(seg, found) \<in> set ps. \<exists>e. found = Some e \<and> segment_runs_script_file seg e))"
  by (induction ps r s rule: recognition_loop.induct) (auto split: option.splits)

lemma set_segment_executables:
  "set (segment_executables segs) = {e. \<exists>s \<in> set segs. first_executable s = Some e}"
  by (induction segs) (auto simp: segment_executables_def map_filter_def split: option.split)

text \<open>What one segment has to satisfy for the command to stay \<open>Execute\<close>.\<close>

definition execute_segment :: "ustring list \<Rightarrow> bool" where
  "execute_segment s \<longleftrightarrow> (\<forall>e. first_executable s = Some e \<longrightarrow>
     destructive_reason s e = None \<and> \<not> segment_runs_destructive_cli_verbs s e)"

definition recognised_segment :: "ustring list \<Rightarrow> bool" where
  "recognised_segment s \<longleftrightarrow> (\<forall>e. first_executable s = Some e \<longrightarrow> one_of e KNOWN_SHELL_EXECUTABLES)"

definition script_segment :: "ustring list \<Rightarrow> bool" where
  "script_segment s \<longleftrightarrow> (\<exists>e. first_executable s = Some e \<and> segment_runs_script_file s e)"

definition execute_command :: "ustring \<Rightarrow> bool" where
  "execute_command c \<longleftrightarrow> (\<forall>s \<in> set (shell_command_segments c). execute_segment s) \<and>
     \<not> pipes_output_to_interpreter c \<and> \<not> downloads_and_executes (segment_executables (shell_command_segments c))"

text \<open>The classification without its loops.\<close>

lemma recognition_of_segments:
  assumes "\<forall>s \<in> set segs. execute_segment s"
  shows "recognition_loop (zip segs (executables_for_segments segs)) True False =
    Some (\<forall>s \<in> set segs. recognised_segment s, \<exists>s \<in> set segs. script_segment s)"
  using assms unfolding recognition_loop_Some_iff set_zip_executables
  by (auto simp: execute_segment_def recognised_segment_def script_segment_def)

lemma classify_execute:
  assumes "execute_command c"
  shows "classify_shell_permission to_lower c =
    (let segs = shell_command_segments c;
         recognized = (\<forall>s \<in> set segs. recognised_segment s);
         restricted = (\<not> recognized \<or> (\<exists>s \<in> set segs. script_segment s));
         egress = command_performs_network_egress (segment_executables segs);
         sensitive = command_reads_sensitive_location to_lower c
     in \<lparr>sc_risk = RiskExecute, sc_reason = None,
         sc_auto_grant_eligible = (\<not> restricted \<and> \<not> egress \<and> \<not> sensitive),
         sc_prefix_grant_eligible = (\<not> restricted),
         sc_session_reusable = (recognized \<and> shell_command_can_reuse_session_permission c),
         sc_network_egress = egress, sc_sensitive_read = sensitive\<rparr>)"
proof -
  let ?segs = "shell_command_segments c"
  have x: "\<forall>s \<in> set ?segs. execute_segment s" using assms by (simp add: execute_command_def)
  then have "first_destructive (zip ?segs (executables_for_segments ?segs)) = None"
    unfolding first_destructive_None_iff set_zip_executables by (auto simp: execute_segment_def)
  then show ?thesis
    using assms recognition_of_segments [OF x]
    by (simp add: classify_shell_permission_def execute_command_def Let_def)
qed

lemma classify_destructive:
  assumes "\<not> execute_command c"
  shows "\<exists>reason. classify_shell_permission to_lower c = destructive reason"
proof -
  let ?segs = "shell_command_segments c"
  let ?ps = "zip ?segs (executables_for_segments ?segs)"
  have "first_destructive ?ps \<noteq> None \<or> recognition_loop ?ps True False = None" if s: "s \<in> set ?segs" "\<not> execute_segment s" for s
  proof (rule ccontr)
    assume "\<not> ?thesis"
    then obtain r t where "first_destructive ?ps = None" "recognition_loop ?ps True False = Some (r, t)" by auto
    then show False
      using s unfolding recognition_loop_Some_iff first_destructive_None_iff set_zip_executables
      by (auto simp: execute_segment_def)
  qed
  then consider "first_destructive ?ps \<noteq> None" | "pipes_output_to_interpreter c"
    | "downloads_and_executes (segment_executables ?segs)" | "recognition_loop ?ps True False = None"
    using assms unfolding execute_command_def by metis
  then show ?thesis
    by cases (cases "first_destructive ?ps"; force simp: classify_shell_permission_def Let_def)+
qed

text \<open>
  C19. The classification is consistent and fails closed: it is \<open>Execute\<close> or \<open>Destructive\<close>, it
  carries a reason exactly when it is \<open>Destructive\<close>, a destructive command is neither granted
  automatically nor by prefix nor reused, an automatic grant implies prefix eligibility without
  network egress or a sensitive read, and each of the three allowances implies that every segment
  of the command runs a known executable without a destructive pattern.
\<close>

theorem classification_fails_closed:
  "let k = classify_shell_permission to_lower c in
     (sc_risk k = RiskExecute \<or> sc_risk k = RiskDestructive) \<and>
     (sc_risk k = RiskDestructive \<longleftrightarrow> sc_reason k \<noteq> None) \<and>
     (sc_risk k = RiskDestructive \<longleftrightarrow> \<not> execute_command c) \<and>
     (sc_risk k = RiskDestructive \<longrightarrow>
        \<not> sc_auto_grant_eligible k \<and> \<not> sc_prefix_grant_eligible k \<and> \<not> sc_session_reusable k) \<and>
     (sc_auto_grant_eligible k \<longrightarrow>
        sc_prefix_grant_eligible k \<and> \<not> sc_network_egress k \<and> \<not> sc_sensitive_read k) \<and>
     (sc_auto_grant_eligible k \<or> sc_prefix_grant_eligible k \<or> sc_session_reusable k \<longrightarrow>
        (\<forall>s \<in> set (shell_command_segments c). execute_segment s \<and> recognised_segment s))"
proof (cases "execute_command c")
  case True
  then have "\<forall>s \<in> set (shell_command_segments c). execute_segment s" by (simp add: execute_command_def)
  then show ?thesis using True by (simp add: classify_execute [OF True] Let_def)
next
  case False
  then obtain reason where "classify_shell_permission to_lower c = destructive reason"
    using classify_destructive by blast
  then show ?thesis using False by (simp add: destructive_def)
qed

section \<open>Segments and separators\<close>

text \<open>The tokenizer is outside quotes and escapes at the end of the text.\<close>

definition balanced :: "ustring \<Rightarrow> bool" where
  "balanced c \<longleftrightarrow>
     (let st = fold segment_step c segment_start in ss_quote st = None \<and> \<not> ss_escaped st)"

definition add_segments :: "ustring list list \<Rightarrow> segment_state \<Rightarrow> segment_state" where
  "add_segments pre st = st\<lparr>ss_segments := pre @ ss_segments st\<rparr>"

lemmas segment_ops = flush_token_def flush_segment_def push_char_def

lemma segment_step_add_segments:
  "segment_step c (add_segments pre st) = add_segments pre (segment_step c st)"
  by (cases "ss_quote st") (simp_all add: segment_step_def add_segments_def segment_ops)

lemma fold_segment_step_add_segments:
  "fold segment_step cs (add_segments pre st) = add_segments pre (fold segment_step cs st)"
  by (induction cs arbitrary: st) (simp_all add: segment_step_add_segments)

definition finish_segments :: "segment_state \<Rightarrow> ustring list list" where
  "finish_segments st =
     ss_segments (flush_segment (flush_token (if ss_escaped st then push_char ch_backslash st else st)))"

lemma shell_command_segments_finish: "shell_command_segments c = finish_segments (fold segment_step c segment_start)"
  by (simp add: shell_command_segments_def finish_segments_def Let_def)

lemma finish_add_segments: "finish_segments (add_segments pre st) = pre @ finish_segments st"
  by (simp add: finish_segments_def add_segments_def segment_ops)

lemma separator_step:
  assumes "ss_quote st = None" "\<not> ss_escaped st" "is_segment_separator d \<or> d = ch_newline"
  shows "segment_step d st = add_segments (finish_segments st) segment_start"
proof -
  have d: "d \<noteq> ch_backslash" "d \<noteq> ch_quote" "d \<noteq> ch_dquote" "is_whitespace d \<longrightarrow> d = ch_newline"
    using assms(3) by (auto simp: is_segment_separator_def lit_def char_defs is_whitespace_def)
  have "segment_step d st = flush_segment (flush_token st)"
    using assms d by (auto simp: segment_step_def char_defs is_whitespace_def)
  also have "\<dots> = add_segments (finish_segments st) segment_start"
    using assms by (cases st) (simp add: segment_ops finish_segments_def add_segments_def segment_start_def)
  finally show ?thesis .
qed

lemma segments_of_chain:
  assumes "balanced a" "is_segment_separator d \<or> d = ch_newline"
  shows "shell_command_segments (a @ d # b) = shell_command_segments a @ shell_command_segments b"
  using assms separator_step [of "fold segment_step a segment_start" d]
  by (simp add: shell_command_segments_finish balanced_def Let_def fold_segment_step_add_segments finish_add_segments)

text \<open>
  C20. Chaining hides nothing: behind a balanced first part and a separator (\<open>;\<close>, \<open>|\<close>, \<open>&\<close>, a
  parenthesis, a brace or a newline) the segments of the rest are analysed as if it stood alone, so
  a segment that makes either part destructive makes the whole command destructive, and an
  executable that is not known, or a script file, in either part takes the automatic grant and the
  prefix grant from the whole command.
\<close>

theorem chaining_hides_nothing:
  assumes "balanced a" "is_segment_separator d \<or> d = ch_newline"
    and "s \<in> set (shell_command_segments a) \<or> s \<in> set (shell_command_segments b)"
  shows "shell_command_segments (a @ d # b) = shell_command_segments a @ shell_command_segments b \<and>
    (\<not> execute_segment s \<longrightarrow> sc_risk (classify_shell_permission to_lower (a @ d # b)) = RiskDestructive) \<and>
    (\<not> recognised_segment s \<or> script_segment s \<longrightarrow>
       \<not> sc_auto_grant_eligible (classify_shell_permission to_lower (a @ d # b)) \<and>
       \<not> sc_prefix_grant_eligible (classify_shell_permission to_lower (a @ d # b)))"
proof -
  let ?c = "a @ d # b"
  have segs: "shell_command_segments ?c = shell_command_segments a @ shell_command_segments b"
    by (rule segments_of_chain [OF assms(1,2)])
  then have s: "s \<in> set (shell_command_segments ?c)" using assms(3) by auto
  show ?thesis
  proof (cases "execute_command ?c")
    case True
    then show ?thesis using s segs by (auto simp: classify_execute [OF True] Let_def execute_command_def)
  next
    case False
    then obtain reason where "classify_shell_permission to_lower ?c = destructive reason"
      using classify_destructive by blast
    then show ?thesis using segs by (simp add: destructive_def)
  qed
qed

section \<open>Agreement of the two tokenizers\<close>

text \<open>The policy tokenizer keeps the case of unquoted text, the segment tokenizer lowers it.\<close>

definition same_tokens :: "ustring list \<Rightarrow> ustring list \<Rightarrow> bool" where
  "same_tokens xs ys \<longleftrightarrow> map to_ascii_lowercase xs = map to_ascii_lowercase ys"

definition tokenizers_agree :: "ustring list \<Rightarrow> ustring \<Rightarrow> nat option \<Rightarrow> bool \<Rightarrow> segment_state \<Rightarrow> bool" where
  "tokenizers_agree ws w q e st \<longleftrightarrow> ss_segments st = [] \<and> ss_quote st = q \<and> ss_escaped st = e \<and>
     same_tokens (ss_segment st) ws \<and> to_ascii_lowercase (ss_token st) = to_ascii_lowercase w"

lemma lowercase_facts:
  "to_ascii_lowercase (a @ b) = to_ascii_lowercase a @ to_ascii_lowercase b"
  "to_ascii_lowercase [char_to_ascii_lowercase c] = to_ascii_lowercase [c]"
  "to_ascii_lowercase a = [] \<longleftrightarrow> a = []" "[] = to_ascii_lowercase a \<longleftrightarrow> a = []"
  by (auto simp: to_ascii_lowercase_def char_to_ascii_lowercase_def)

lemma same_token_empty: "to_ascii_lowercase a = to_ascii_lowercase b \<Longrightarrow> a = [] \<longleftrightarrow> b = []"
  by (cases a; cases b) (simp_all add: to_ascii_lowercase_def)

lemma not_meta_not_separator: "\<not> is_shell_meta c \<Longrightarrow> \<not> is_segment_separator c"
  by (auto simp: is_shell_meta_def is_segment_separator_def lit_def)

lemma agree_flush:
  assumes "tokenizers_agree ws w None False st"
  shows "tokenizers_agree (flush_word ws w) [] None False (flush_token st)"
  using assms same_token_empty [of "ss_token st" w]
  by (auto simp: tokenizers_agree_def flush_token_def flush_word_def same_tokens_def lowercase_facts)

lemma agree_push:
  assumes "tokenizers_agree ws w q e st" "to_ascii_lowercase [d] = to_ascii_lowercase [c]"
  shows "tokenizers_agree ws (w @ [c]) q e (push_char d st)"
  using assms by (simp add: tokenizers_agree_def push_char_def lowercase_facts)

lemma agree_step:
  assumes "token_step c ws w q e = Some (ws', w', q', e')" "tokenizers_agree ws w q e st"
  shows "tokenizers_agree ws' w' q' e' (segment_step c st)"
proof -
  have st: "ss_quote st = q" "ss_escaped st = e" using assms(2) by (simp_all add: tokenizers_agree_def)
  note push = agree_push [OF assms(2), of _ c]
  show ?thesis
  proof (cases e)
    case True
    then show ?thesis
      using assms(1) push [of c] st by (auto simp: token_step_def segment_step_def tokenizers_agree_def)
  next
    case e: False
    show ?thesis
    proof (cases "c = ch_backslash \<or> q \<noteq> None \<or> c = ch_quote \<or> c = ch_dquote")
      case True
      then consider "c = ch_backslash" | d where "c \<noteq> ch_backslash" "q = Some d"
        | "c \<noteq> ch_backslash" "q = None" "c = ch_quote \<or> c = ch_dquote" by auto
      then show ?thesis
      proof cases
        case 1
        then show ?thesis
          using assms e st by (simp add: token_step_def segment_step_def) (simp add: tokenizers_agree_def)
      next
        case (2 d)
        show ?thesis
        proof (cases "c = d")
          case True
          with 2 show ?thesis
            using assms e st by (simp add: token_step_def segment_step_def) (simp add: tokenizers_agree_def)
        next
          case False
          with 2 show ?thesis
            using assms(1) push [of c] e st by (simp add: token_step_def segment_step_def split: if_splits)
        qed
      next
        case 3
        then show ?thesis
          using assms e st by (simp add: token_step_def segment_step_def) (auto simp: tokenizers_agree_def)
      qed
    next
      case plain: False
      show ?thesis
      proof (cases "is_whitespace c")
        case True
        then have "c \<noteq> ch_newline" and r: "(ws', w', q', e') = (flush_word ws w, [], None, False)"
          using assms(1) plain e by (auto simp: token_step_def flush_word_def split: if_splits)
        then show ?thesis using agree_flush [of ws w st] assms(2) plain e st True by (simp add: segment_step_def)
      next
        case False
        then have "\<not> is_shell_meta c" and r: "(ws', w', q', e') = (ws, w @ [c], None, False)"
          using assms(1) plain e by (auto simp: token_step_def split: if_splits)
        then show ?thesis
          using push [of "char_to_ascii_lowercase c"] plain e st False not_meta_not_separator [of c]
          by (simp add: segment_step_def lowercase_facts)
      qed
    qed
  qed
qed

lemma agree_loop:
  assumes "token_loop cs ws w q e = Some (ws', w', q', e')" "tokenizers_agree ws w q e st"
  shows "tokenizers_agree ws' w' q' e' (fold segment_step cs st)"
  using assms
proof (induction cs arbitrary: ws w q e st)
  case (Cons c cs)
  then obtain ws1 w1 q1 e1 where s: "token_step c ws w q e = Some (ws1, w1, q1, e1)"
    and l: "token_loop cs ws1 w1 q1 e1 = Some (ws', w', q', e')"
    unfolding token_loop_Cons by (auto split: option.splits)
  show ?case using Cons.IH [OF l agree_step [OF s Cons.prems(2)]] by simp
qed simp

lemma tokens_are_one_segment:
  assumes "shell_command_tokens c = Some ts"
  shows "\<exists>seg. shell_command_segments c = [seg] \<and> same_tokens seg ts"
proof -
  obtain ws w where loop: "token_loop c [] [] None False = Some (ws, w, None, False)"
    and ts: "ts = flush_word ws w" "ts \<noteq> []"
    using assms
    by (auto simp: shell_command_tokens_def Let_def flush_word_def split: if_splits option.splits prod.splits)
  have start: "tokenizers_agree [] [] None False segment_start"
    by (simp add: tokenizers_agree_def segment_start_def same_tokens_def)
  have a: "tokenizers_agree ws w None False (fold segment_step c segment_start)" (is "tokenizers_agree _ _ _ _ ?st")
    by (rule agree_loop [OF loop start])
  note f = agree_flush [OF a]
  have "same_tokens (ss_segment (flush_token ?st)) ts" and "ss_segments (flush_token ?st) = []"
    using f ts(1) by (simp_all add: tokenizers_agree_def)
  moreover have "ss_segment (flush_token ?st) \<noteq> []" using calculation(1) ts(2) by (auto simp: same_tokens_def)
  ultimately show ?thesis
    using a by (simp add: shell_command_segments_finish finish_segments_def tokenizers_agree_def flush_segment_def)
qed

text \<open>
  C21. A prefix rule covers one simple command: a command a prefix rule matches is a single segment
  for the classification too, so nothing is chained, piped or grouped in it, and up to the case of
  ASCII letters the segment consists of the tokens the rule was matched against.
\<close>

theorem prefix_rule_covers_one_segment:
  assumes "prefix_rule_matches rule c"
  shows "\<exists>seg rt more. shell_command_segments c = [seg] \<and> shell_command_tokens (xr_prefix rule) = Some rt \<and>
    shell_command_tokens c = Some (rt @ more) \<and> same_tokens seg (rt @ more)"
  using assms tokens_are_one_segment unfolding prefix_rule_matches_iff by blast

section \<open>Commands the classification does not see\<close>

declare lit_eq_iff [simp]

lemma one_of_lit: "one_of (lit s) names \<longleftrightarrow> s \<in> set names"
  by (induction names) (auto simp: one_of_def)

lemmas token_eval = lit_def char_defs is_whitespace_def is_ascii_alphanumeric_def to_ascii_lowercase_def
  char_to_ascii_lowercase_def after_last_slash_def trim_matches_def

lemmas segment_eval = shell_command_segments_finish finish_segments_def segment_step_def segment_ops
  segment_start_def is_segment_separator_def

lemma plain_executables:
  assumes "w \<in> {''nice'', ''ionice'', ''timeout'', ''cat'', ''ls'', ''sh''}"
  shows "executable_basename (lit w) = lit w" "\<not> is_environment_assignment (lit w)"
  using assms by (auto simp: executable_basename_def is_environment_assignment_def token_eval)

lemma plain_first_executable:
  assumes "w \<in> {''nice'', ''ionice'', ''timeout'', ''cat'', ''ls'', ''sh''}"
  shows "first_executable (lit w # arguments) = Some (lit w)"
  using assms plain_executables [OF assms] by (auto simp: first_executable_def one_of_lit)

lemma plain_segment:
  assumes "w \<in> {''nice'', ''ionice'', ''timeout'', ''cat'', ''ls''} \<or> (w = ''sh'' \<and> arguments = [])"
  shows "execute_segment (lit w # arguments)" "recognised_segment (lit w # arguments)"
    "\<not> script_segment (lit w # arguments)"
proof -
  let ?s = "lit w # arguments"
  have w: "w \<in> {''nice'', ''ionice'', ''timeout'', ''cat'', ''ls'', ''sh''}" using assms by auto
  note e = plain_executables(1) [OF w] plain_first_executable [OF w]
  have "\<not> one_of (lit w) [''find'', ''xargs'']" "w \<noteq> ''eval''"
    "one_of (lit w) shell_interpreters \<longrightarrow> arguments = []" "\<not> one_of (lit w) language_interpreters"
    using assms by (auto simp: one_of_lit shell_interpreters_def language_interpreters_def)
  then have "\<not> opaque_interpreter_execution ?s (lit w)" by (simp add: opaque_interpreter_execution_def e(1) Let_def)
  then have "destructive_reason ?s (lit w) = None" using w
    by (elim insertE; simp add: destructive_reason_def one_of_lit)
  moreover have "\<not> segment_runs_destructive_cli_verbs ?s (lit w)"
    using w by (elim insertE; simp add: segment_runs_destructive_cli_verbs_def destructive_cli_verbs_def one_of_lit)
  moreover have "w \<in> set KNOWN_SHELL_EXECUTABLES" using w by (auto simp: KNOWN_SHELL_EXECUTABLES_def)
  moreover have "\<not> segment_runs_script_file ?s (lit w)"
    using assms e(1) by (auto simp: segment_runs_script_file_def one_of_lit SCRIPT_FILE_INTERPRETERS_def)
  ultimately show "execute_segment ?s" "recognised_segment ?s" "\<not> script_segment ?s"
    by (simp_all add: execute_segment_def recognised_segment_def script_segment_def e(2) one_of_lit)
qed


lemma pipe_loop_skip:
  assumes "list_all (\<lambda>c. c \<noteq> ch_quote \<and> c \<noteq> ch_dquote \<and> c \<noteq> ch_backslash \<and> c \<noteq> ch_pipe) p"
  shows "pipe_loop (p @ r) None False = pipe_loop r None False"
  using assms by (induction p) simp_all

lemma piped_segments:
  "shell_command_segments (lit ''cat x | cat | sh'') = [[lit ''cat'', lit ''x''], [lit ''cat''], [lit ''sh'']]"
  "shell_command_segments (lit ''cat x | sh;ls'') = [[lit ''cat'', lit ''x''], [lit ''sh''], [lit ''ls'']]"
  by (simp_all add: segment_eval token_eval)

lemma piped_checks:
  "pipes_output_to_interpreter (lit ''cat x | sh'')"
  "\<not> pipes_output_to_interpreter (lit ''cat x | cat | sh'')"
  "\<not> pipes_output_to_interpreter (lit ''cat x | sh;ls'')"
  by (simp_all add: pipes_output_to_interpreter_def pipe_target_is_interpreter_def pipe_target_def
      split_whitespace_def is_flag_def executable_basename_def one_of_def SCRIPT_FILE_INTERPRETERS_def token_eval)

lemma piped_not_sensitive:
  "\<not> command_reads_sensitive_location to_ascii_lowercase (lit ''cat x | cat | sh'')"
  "\<not> command_reads_sensitive_location to_ascii_lowercase (lit ''cat x | sh;ls'')"
  by (simp_all add: command_reads_sensitive_location_def sensitive_patterns_def lit_def to_ascii_lowercase_def)

lemma piped_commands_granted:
  assumes "shell_command_segments c = [[lit ''cat'', lit ''x''], [lit u], [lit v]]"
    and "u \<in> {''cat'', ''ls'', ''sh''}" "v \<in> {''cat'', ''ls'', ''sh''}"
    and "\<not> pipes_output_to_interpreter c" "\<not> command_reads_sensitive_location to_lower c"
  shows "sc_auto_grant_eligible (classify_shell_permission to_lower c)"
proof -
  have s: "execute_segment s \<and> recognised_segment s \<and> \<not> script_segment s"
    if "s \<in> set (shell_command_segments c)" for s
    using that assms(2,3) plain_segment [of "''cat''" "[lit ''x'']"] plain_segment [of u "[]"] plain_segment [of v "[]"]
    by (auto simp: assms(1))
  have x: "segment_executables (shell_command_segments c) = [lit ''cat'', lit u, lit v]"
    using assms(2,3) by (auto simp: assms(1) segment_executables_def map_filter_simps plain_first_executable)
  have "\<not> downloads_and_executes [lit ''cat'', lit u, lit v]" "\<not> command_performs_network_egress [lit ''cat'', lit u, lit v]"
    using assms(2,3) by (auto simp: downloads_and_executes_def command_performs_network_egress_def one_of_lit)
  moreover from this(1) have "execute_command c" using s x assms(4) by (simp add: execute_command_def)
  ultimately show ?thesis using s x assms(5) by (simp add: classify_execute Let_def)
qed

text \<open>
  Only the first pipe is looked at: behind text without quotes, escapes and pipes, the check
  for piped code execution judges the first word after the first pipe alone. So it misses an
  interpreter behind a second pipe, and one with a separator directly behind its name:
  \<open>cat x | cat | sh\<close> and \<open>cat x | sh;ls\<close> are \<open>Execute\<close> and granted automatically, where
  \<open>cat x | sh\<close> is \<open>Destructive\<close>.
\<close>

theorem only_the_first_pipe_is_checked:
  assumes "list_all (\<lambda>c. c \<noteq> ch_quote \<and> c \<noteq> ch_dquote \<and> c \<noteq> ch_backslash \<and> c \<noteq> ch_pipe) p"
    and "\<not> starts_with d [ch_pipe]"
  shows "pipes_output_to_interpreter (p @ ch_pipe # d) = pipe_target_is_interpreter d \<and>
    sc_risk (classify_shell_permission to_ascii_lowercase (lit ''cat x | sh'')) = RiskDestructive \<and>
    sc_auto_grant_eligible (classify_shell_permission to_ascii_lowercase (lit ''cat x | cat | sh'')) \<and>
    sc_auto_grant_eligible (classify_shell_permission to_ascii_lowercase (lit ''cat x | sh;ls''))"
proof -
  have "pipes_output_to_interpreter (p @ ch_pipe # d) = pipe_target_is_interpreter d"
    using assms(2) by (cases d) (simp_all add: pipes_output_to_interpreter_def pipe_loop_skip [OF assms(1)] char_defs)
  moreover have "\<not> execute_command (lit ''cat x | sh'')" by (simp add: execute_command_def piped_checks)
  then have "sc_risk (classify_shell_permission to_ascii_lowercase (lit ''cat x | sh'')) = RiskDestructive"
    using classify_destructive by (metis destructive_def ShellCommandClassification.select_convs(1))
  moreover have "sc_auto_grant_eligible (classify_shell_permission to_ascii_lowercase (lit ''cat x | cat | sh''))"
    by (rule piped_commands_granted [OF piped_segments(1) _ _ piped_checks(2) piped_not_sensitive(1)]) simp_all
  moreover have "sc_auto_grant_eligible (classify_shell_permission to_ascii_lowercase (lit ''cat x | sh;ls''))"
    by (rule piped_commands_granted [OF piped_segments(2) _ _ piped_checks(3) piped_not_sensitive(2)]) simp_all
  ultimately show ?thesis by blast
qed

section \<open>Instances\<close>

lemma wrapped_removal:
  "shell_command_segments (lit ''nice rm -rf target'') = [[lit ''nice'', lit ''rm'', lit ''-rf'', lit ''target'']]"
  "\<not> pipes_output_to_interpreter (lit ''nice rm -rf target'')"
  "\<not> command_reads_sensitive_location to_ascii_lowercase (lit ''nice rm -rf target'')"
  by (simp_all add: segment_eval token_eval pipes_output_to_interpreter_def
      command_reads_sensitive_location_def sensitive_patterns_def)

lemma chained_removal:
  "balanced (lit ''ls'')" "shell_command_segments (lit ''ls'') = [[lit ''ls'']]"
  "shell_command_segments (lit ''rm x'') = [[lit ''rm'', lit ''x'']]"
  by (simp_all add: balanced_def segment_eval token_eval)

lemma removal_not_execute: "\<not> execute_segment [lit ''rm'', lit ''x'']"
proof -
  have "first_executable [lit ''rm'', lit ''x''] = Some (lit ''rm'')"
    by (simp add: first_executable_def executable_basename_def is_environment_assignment_def one_of_def token_eval)
  then show ?thesis by (simp add: execute_segment_def destructive_reason_def one_of_lit)
qed

theorem classification_fails_closed_witness:
  "sc_auto_grant_eligible (classify_shell_permission to_ascii_lowercase (lit ''cat x | sh;ls'')) \<and>
   sc_prefix_grant_eligible (classify_shell_permission to_ascii_lowercase (lit ''cat x | sh;ls''))"
  using classification_fails_closed [of to_ascii_lowercase "lit ''cat x | sh;ls''"]
    piped_commands_granted [OF piped_segments(2) _ _ piped_checks(3) piped_not_sensitive(2)]
  by (simp add: Let_def)

theorem chaining_hides_nothing_witness:
  "sc_risk (classify_shell_permission to_ascii_lowercase (lit ''ls'' @ of_char (CHR '';'') # lit ''rm x'')) = RiskDestructive"
  using chaining_hides_nothing [of "lit ''ls''" "of_char (CHR '';'')" "[lit ''rm'', lit ''x'']" "lit ''rm x''" to_ascii_lowercase]
    chained_removal removal_not_execute
  by (simp add: is_segment_separator_def lit_def)

theorem prefix_rule_covers_one_segment_witness:
  "prefix_rule_matches \<lparr>xr_prefix = lit ''ls''\<rparr> (lit ''ls -l'') \<and>
   (\<exists>seg. shell_command_segments (lit ''ls -l'') = [seg])"
proof -
  have m: "prefix_rule_matches \<lparr>xr_prefix = lit ''ls''\<rparr> (lit ''ls -l'')"
    by (simp add: prefix_rule_matches_iff ex_list_command)
  then show ?thesis using prefix_rule_covers_one_segment [OF m] by blast
qed


theorem only_the_first_pipe_is_checked_witness:
  "\<not> pipes_output_to_interpreter (lit ''cat x '' @ ch_pipe # lit '' cat'')"
proof -
  have "\<not> pipe_target_is_interpreter (lit '' cat'')"
    by (simp add: pipe_target_is_interpreter_def pipe_target_def split_whitespace_def is_flag_def
        executable_basename_def one_of_def SCRIPT_FILE_INTERPRETERS_def token_eval)
  then show ?thesis
    using only_the_first_pipe_is_checked [of "lit ''cat x ''" "lit '' cat''"] by (simp add: lit_def char_defs)
qed

end
