(* ===== verification/Number_Text.thy ===== *)
theory Number_Text
  imports Prelude
begin

text \<open>
  Numbers as text: \<open>str::parse\<close> and \<open>to_string\<close> for unsigned integers, digits in a radix, and
  hexadecimal output. Parsing what was printed gives the number back.
\<close>

section \<open>Parsing\<close>

definition to_digit :: "nat \<Rightarrow> nat \<Rightarrow> nat option" where
  "to_digit radix c =
     (let d = (if 48 \<le> c \<and> c \<le> 57 then Some (c - 48)
               else if 97 \<le> c \<and> c \<le> 122 then Some (c - 87)
               else if 65 \<le> c \<and> c \<le> 90 then Some (c - 55) else None)
      in case d of None \<Rightarrow> None | Some v \<Rightarrow> if v < radix then Some v else None)"

fun digits_value :: "ustring \<Rightarrow> nat \<Rightarrow> nat \<Rightarrow> nat option" where
  "digits_value [] limit v = Some v"
| "digits_value (c # cs) limit v =
     (case to_digit 10 c of
        None \<Rightarrow> None
      | Some d \<Rightarrow> if v * 10 + d > limit then None else digits_value cs limit (v * 10 + d))"

text \<open>\<open>str::parse\<close> for an unsigned integer: an optional plus sign and at least one digit.\<close>

definition parse_unsigned :: "nat \<Rightarrow> ustring \<Rightarrow> nat option" where
  "parse_unsigned limit s =
     (let ds = (case s of c # cs \<Rightarrow> (if c = 43 \<and> cs \<noteq> [] then cs else s) | [] \<Rightarrow> [])
      in if ds = [] then None else digits_value ds limit 0)"

section \<open>Printing\<close>

definition hex_char :: "nat \<Rightarrow> nat" where
  "hex_char n = (if n < 10 then 48 + n else 87 + n)"

fun hexadecimal :: "nat \<Rightarrow> ustring" where
  "hexadecimal n = (if n < 16 then [hex_char n] else hexadecimal (n div 16) @ [hex_char (n mod 16)])"

declare hexadecimal.simps [simp del]

text \<open>\<open>format!("{byte:02x}")\<close> of every byte, and \<open>u8::is_ascii_hexdigit\<close>.\<close>

definition hex_bytes :: "nat list \<Rightarrow> ustring" where
  "hex_bytes bs = concat (map (\<lambda>b. [hex_char (b div 16), hex_char (b mod 16)]) bs)"

definition is_ascii_hexdigit :: "nat \<Rightarrow> bool" where
  "is_ascii_hexdigit c \<longleftrightarrow> (48 \<le> c \<and> c \<le> 57) \<or> (65 \<le> c \<and> c \<le> 70) \<or> (97 \<le> c \<and> c \<le> 102)"

section \<open>Printing and parsing\<close>

lemma digits_value_append:
  "digits_value (xs @ ys) limit v =
     (case digits_value xs limit v of None \<Rightarrow> None | Some w \<Rightarrow> digits_value ys limit w)"
  by (induction xs limit v rule: digits_value.induct) (auto split: option.split)

lemma digits_value_decimal: "n \<le> limit \<Longrightarrow> digits_value (decimal n) limit 0 = Some n"
proof (induction n rule: decimal.induct)
  case (1 n)
  have digit: "to_digit 10 (48 + m) = Some m" if "m < 10" for m using that by (simp add: to_digit_def)
  show ?case
  proof (cases "n < 10")
    case True
    with digit 1(2) show ?thesis by (subst decimal.simps) simp
  next
    case False
    with 1 have "digits_value (decimal (n div 10)) limit 0 = Some (n div 10)" by simp
    with False digit [of "n mod 10"] 1(2) show ?thesis
      by (subst decimal.simps) (simp add: digits_value_append)
  qed
qed

lemma decimal_digits: "c \<in> set (decimal n) \<Longrightarrow> 48 \<le> c \<and> c \<le> 57"
proof (induction n rule: decimal.induct)
  case (1 n)
  then show ?case by (subst (asm) (2) decimal.simps) (auto split: if_splits)
qed

lemma decimal_nonempty [simp]: "decimal n \<noteq> []"
  by (subst decimal.simps) simp

lemma parse_decimal [simp]:
  assumes "n \<le> limit"
  shows "parse_unsigned limit (decimal n) = Some n"
proof (cases "decimal n")
  case Nil
  then show ?thesis by simp
next
  case (Cons c cs)
  with decimal_digits [of c n] have "c \<noteq> 43" by auto
  with Cons digits_value_decimal [OF assms] show ?thesis by (simp add: parse_unsigned_def)
qed

lemma digits_value_bound: "digits_value cs limit v = Some w \<Longrightarrow> v \<le> limit \<Longrightarrow> w \<le> limit"
  by (induction cs limit v rule: digits_value.induct) (auto split: option.splits if_splits)

lemma parse_unsigned_bound: "parse_unsigned limit s = Some n \<Longrightarrow> n \<le> limit"
  by (auto simp: parse_unsigned_def Let_def simp del: digits_value.simps split: if_splits dest: digits_value_bound)

lemma hex_bytes_digits:
  assumes "\<forall>b \<in> set bs. b < 256"
  shows "length (hex_bytes bs) = 2 * length bs" "\<forall>c \<in> set (hex_bytes bs). is_ascii_hexdigit c"
proof -
  have "is_ascii_hexdigit (hex_char m)" if "m < 16" for m
    using that by (auto simp: hex_char_def is_ascii_hexdigit_def)
  moreover have "b div 16 < 16" if "b \<in> set bs" for b
    using assms that by (auto simp: less_mult_imp_div_less)
  ultimately show "\<forall>c \<in> set (hex_bytes bs). is_ascii_hexdigit c" by (auto simp: hex_bytes_def)
  show "length (hex_bytes bs) = 2 * length bs" by (induction bs) (simp_all add: hex_bytes_def)
qed

end
