(* ===== verification/Http_Policy.thy ===== *)
theory Http_Policy
  imports Exec_Policy Number_Text "HOL-Library.Word"
begin

text \<open>
  Model of \<open>crates/agent-core/src/http_policy.rs\<close>: the policy of every egress profile, the curl
  arguments it turns into, the audit of public addresses and URLs, and the resolution of redirects.
  Octets and segments of addresses are 8-bit and 16-bit words. \<open>str::parse::<IpAddr>\<close> follows the
  parser of the standard library; the name resolver is the parameter \<open>resolve\<close>.
\<close>

unbundle bit_operations_syntax

section \<open>Profiles\<close>

definition HTTP_USER_AGENT :: string where "HTTP_USER_AGENT = ''Cindx/1''"
definition HTTP_WEB_RESPONSE_MAX_BYTES :: nat where "HTTP_WEB_RESPONSE_MAX_BYTES = 8 * 1024 * 1024"
definition HTTP_MCP_RESPONSE_MAX_BYTES :: nat where "HTTP_MCP_RESPONSE_MAX_BYTES = 16 * 1024 * 1024"
definition HTTP_MODEL_RESPONSE_MAX_BYTES :: nat where "HTTP_MODEL_RESPONSE_MAX_BYTES = 64 * 1024 * 1024"
definition HTTP_SKILL_PACKAGE_MAX_BYTES :: nat where "HTTP_SKILL_PACKAGE_MAX_BYTES = 50 * 1024 * 1024"
definition HTTP_STDERR_MAX_BYTES :: nat where "HTTP_STDERR_MAX_BYTES = 256 * 1024"
definition HTTP_WEB_TIMEOUT_SECONDS :: nat where "HTTP_WEB_TIMEOUT_SECONDS = 25"
definition HTTP_WEB_MAX_TIMEOUT_SECONDS :: nat where "HTTP_WEB_MAX_TIMEOUT_SECONDS = 60"
definition HTTP_PUBLIC_FETCH_MAX_REDIRECTS :: nat where "HTTP_PUBLIC_FETCH_MAX_REDIRECTS = 5"
definition HTTP_PROVIDER_MAX_REDIRECTS :: nat where "HTTP_PROVIDER_MAX_REDIRECTS = 10"
definition HTTP_MCP_DEFAULT_TIMEOUT_MS :: nat where "HTTP_MCP_DEFAULT_TIMEOUT_MS = 30000"
definition HTTP_SKILL_TIMEOUT_SECONDS :: nat where "HTTP_SKILL_TIMEOUT_SECONDS = 30"

datatype HttpEgressProfile =
  PublicFetch | PublicSearchFallback | ConfiguredSearchApi | CredentialedSearchApi | McpHttp | ProviderApi | SkillInstall

datatype ProxyMode = ProxyDisabled | ProxyEnvironment

record HttpPolicy =
  hp_profile :: HttpEgressProfile
  hp_proxy :: ProxyMode
  hp_follows_redirects :: bool
  hp_max_redirects :: nat
  hp_timeout_ms :: nat
  hp_response_max_bytes :: nat
  hp_stderr_max_bytes :: nat
  hp_user_agent :: string
  hp_allowed_schemes :: string
  hp_audits_public_addresses :: bool

definition http_policy :: "HttpEgressProfile \<Rightarrow> HttpPolicy" where
  "http_policy profile =
     (let web = \<lparr>hp_profile = profile, hp_proxy = ProxyEnvironment, hp_follows_redirects = True,
                hp_max_redirects = HTTP_PUBLIC_FETCH_MAX_REDIRECTS,
                hp_timeout_ms = HTTP_WEB_TIMEOUT_SECONDS * 1000,
                hp_response_max_bytes = HTTP_WEB_RESPONSE_MAX_BYTES,
                hp_stderr_max_bytes = HTTP_STDERR_MAX_BYTES,
                hp_user_agent = HTTP_USER_AGENT,
                hp_allowed_schemes = ''=http,https'',
                hp_audits_public_addresses = False\<rparr>
      in case profile of
        PublicFetch \<Rightarrow> web\<lparr>hp_proxy := ProxyDisabled, hp_follows_redirects := False,
          hp_allowed_schemes := ''=http,https'', hp_audits_public_addresses := True\<rparr>
      | PublicSearchFallback \<Rightarrow> web\<lparr>hp_allowed_schemes := ''=https''\<rparr>
      | ConfiguredSearchApi \<Rightarrow> web
      | CredentialedSearchApi \<Rightarrow> web\<lparr>hp_max_redirects := 0, hp_allowed_schemes := ''=https''\<rparr>
      | McpHttp \<Rightarrow> web\<lparr>hp_follows_redirects := False, hp_max_redirects := 0,
          hp_timeout_ms := HTTP_MCP_DEFAULT_TIMEOUT_MS, hp_response_max_bytes := HTTP_MCP_RESPONSE_MAX_BYTES\<rparr>
      | ProviderApi \<Rightarrow> web\<lparr>hp_follows_redirects := True, hp_max_redirects := HTTP_PROVIDER_MAX_REDIRECTS,
          hp_response_max_bytes := HTTP_MODEL_RESPONSE_MAX_BYTES\<rparr>
      | SkillInstall \<Rightarrow> web\<lparr>hp_timeout_ms := HTTP_SKILL_TIMEOUT_SECONDS * 1000,
          hp_response_max_bytes := HTTP_SKILL_PACKAGE_MAX_BYTES, hp_allowed_schemes := ''=https''\<rparr>)"

text \<open>\<open>format!("{:.3}", ms as f64 / 1000.0)\<close>: three decimals of a number of milliseconds are exact.\<close>

definition timeout_text :: "nat \<Rightarrow> ustring" where
  "timeout_text ms =
     (if ms mod 1000 = 0 then decimal (ms div 1000)
      else decimal (ms div 1000) @ [46, 48 + ms mod 1000 div 100, 48 + ms mod 100 div 10, 48 + ms mod 10])"

definition curl_policy_args :: "HttpPolicy \<Rightarrow> ustring list" where
  "curl_policy_args policy =
     [lit ''-q'', lit ''--silent'', lit ''--show-error'', lit ''--max-time'', timeout_text (hp_timeout_ms policy),
      lit ''--user-agent'', lit (hp_user_agent policy), lit ''--proto'', lit (hp_allowed_schemes policy)]
     @ (if hp_follows_redirects policy
        then [lit ''-L'', lit ''--max-redirs'', decimal (hp_max_redirects policy), lit ''--proto-redir'',
              lit (hp_allowed_schemes policy)]
        else [])
     @ (if hp_proxy policy = ProxyDisabled then [lit ''--noproxy'', lit ''*''] else [])"

section \<open>Addresses\<close>

datatype Ipv4Addr = Ipv4Addr "8 word" "8 word" "8 word" "8 word"

datatype Ipv6Addr = Ipv6Addr (segments: "16 word list")

datatype IpAddr = V4 Ipv4Addr | V6 Ipv6Addr

definition word_between :: "'a::len word \<Rightarrow> 'a word \<Rightarrow> 'a word \<Rightarrow> bool" where
  "word_between lo x hi \<longleftrightarrow> lo \<le> x \<and> x \<le> hi"

fun ipv4_is_private :: "Ipv4Addr \<Rightarrow> bool" where
  "ipv4_is_private (Ipv4Addr a b c d) \<longleftrightarrow>
     a = 10 \<or> (a = 172 \<and> word_between 16 b 31) \<or> (a = 192 \<and> b = 168)"

fun ipv4_is_documentation :: "Ipv4Addr \<Rightarrow> bool" where
  "ipv4_is_documentation (Ipv4Addr a b c d) \<longleftrightarrow>
     (a = 192 \<and> b = 0 \<and> c = 2) \<or> (a = 198 \<and> b = 51 \<and> c = 100) \<or> (a = 203 \<and> b = 0 \<and> c = 113)"

fun ipv4_is_public :: "Ipv4Addr \<Rightarrow> bool" where
  "ipv4_is_public (Ipv4Addr a b c d) =
     (if (a = 0 \<and> b = 0 \<and> c = 0 \<and> d = 0) \<or> a = 127 \<or> ipv4_is_private (Ipv4Addr a b c d)
         \<or> (a = 169 \<and> b = 254) \<or> word_between 224 a 239
         \<or> (a = 255 \<and> b = 255 \<and> c = 255 \<and> d = 255) \<or> ipv4_is_documentation (Ipv4Addr a b c d)
      then False
      else \<not> (a = 0 \<or> (a = 100 \<and> b AND 0xC0 = 64) \<or> (a = 192 \<and> b = 0) \<or> (a = 198 \<and> (b = 18 \<or> b = 19)) \<or> a \<ge> 240))"

text \<open>\<open>Ipv4Addr::new((hi >> 8) as u8, hi as u8, (lo >> 8) as u8, lo as u8)\<close>.\<close>

definition embedded_ipv4 :: "16 word \<Rightarrow> 16 word \<Rightarrow> Ipv4Addr" where
  "embedded_ipv4 hi lo = Ipv4Addr (ucast (drop_bit 8 hi)) (ucast hi) (ucast (drop_bit 8 lo)) (ucast lo)"

definition ipv6_is_public :: "Ipv6Addr \<Rightarrow> bool" where
  "ipv6_is_public ip =
     (let s = (\<lambda>i. segments ip ! i) in
      if segments ip = replicate 8 0 \<or> segments ip = replicate 7 0 @ [1] \<or> s 0 AND 0xFF00 = 0xFF00 then False
      else if s 0 AND 0xFFC0 = 0xFE80 then False
      else if s 0 AND 0xFE00 = 0xFC00 then False
      else if s 0 = 0 \<and> s 1 = 0 \<and> s 2 = 0 \<and> s 3 = 0 then
        (if s 4 = 0 \<and> s 5 = 0xFFFF then ipv4_is_public (embedded_ipv4 (s 6) (s 7))
         else if s 4 = 0 \<and> s 5 = 0 then ipv4_is_public (embedded_ipv4 (s 6) (s 7))
         else False)
      else if s 0 = 0x2002 then ipv4_is_public (embedded_ipv4 (s 1) (s 2))
      else if s 0 = 0x2001 \<and> s 1 = 0 then
        ipv4_is_public (Ipv4Addr (ucast (NOT (drop_bit 8 (s 6)))) (ucast (NOT (s 6 AND 0xFF)))
          (ucast (NOT (drop_bit 8 (s 7)))) (ucast (NOT (s 7 AND 0xFF))))
      else if s 0 = 0x2001 \<and> s 1 = 0x0DB8 then False
      else if s 0 = 0x0100 \<and> s 1 = 0 \<and> s 2 = 0 \<and> s 3 = 0 then False
      else if s 0 AND 0xFFC0 = 0xFEC0 then False
      else True)"

fun ip_is_public :: "IpAddr \<Rightarrow> bool" where
  "ip_is_public (V4 v4) = ipv4_is_public v4"
| "ip_is_public (V6 v6) = ipv6_is_public v6"

section \<open>Literal addresses\<close>

fun number_loop :: "nat \<Rightarrow> nat \<Rightarrow> nat \<Rightarrow> ustring \<Rightarrow> nat \<Rightarrow> nat \<Rightarrow> (nat \<times> nat \<times> ustring) option" where
  "number_loop radix limit max_digits [] v n = Some (v, n, [])"
| "number_loop radix limit max_digits (c # cs) v n =
     (case to_digit radix c of
        None \<Rightarrow> Some (v, n, c # cs)
      | Some d \<Rightarrow>
          if v * radix + d > limit \<or> n + 1 > max_digits then None
          else number_loop radix limit max_digits cs (v * radix + d) (n + 1))"

definition read_number :: "nat \<Rightarrow> nat \<Rightarrow> nat \<Rightarrow> bool \<Rightarrow> ustring \<Rightarrow> (nat \<times> ustring) option" where
  "read_number radix limit max_digits allow_zero_prefix cs =
     (case number_loop radix limit max_digits cs 0 0 of
        None \<Rightarrow> None
      | Some (v, n, rest) \<Rightarrow>
          if n = 0 \<or> (\<not> allow_zero_prefix \<and> starts_with cs [48] \<and> n > 1) then None else Some (v, rest))"

definition read_given_char :: "nat \<Rightarrow> ustring \<Rightarrow> ustring option" where
  "read_given_char c cs = (case cs of d # ds \<Rightarrow> (if d = c then Some ds else None) | [] \<Rightarrow> None)"

definition read_separator :: "nat \<Rightarrow> bool \<Rightarrow> (ustring \<Rightarrow> ('a \<times> ustring) option) \<Rightarrow> ustring \<Rightarrow> ('a \<times> ustring) option" where
  "read_separator sep later inner cs =
     (if later then (case read_given_char sep cs of None \<Rightarrow> None | Some ds \<Rightarrow> inner ds) else inner cs)"

definition read_octet :: "bool \<Rightarrow> ustring \<Rightarrow> (nat \<times> ustring) option" where
  "read_octet later cs = read_separator 46 later (read_number 10 255 3 False) cs"

definition read_ipv4_addr :: "ustring \<Rightarrow> (Ipv4Addr \<times> ustring) option" where
  "read_ipv4_addr cs =
     Option.bind (read_octet False cs) (\<lambda>(a, cs1).
     Option.bind (read_octet True cs1) (\<lambda>(b, cs2).
     Option.bind (read_octet True cs2) (\<lambda>(c, cs3).
     Option.bind (read_octet True cs3) (\<lambda>(d, cs4).
       Some (Ipv4Addr (of_nat a) (of_nat b) (of_nat c) (of_nat d), cs4)))))"

definition from_be_bytes :: "8 word \<Rightarrow> 8 word \<Rightarrow> 16 word" where
  "from_be_bytes a b = push_bit 8 (ucast a) OR ucast b"

text \<open>Up to \<open>n\<close> groups, and whether a dotted IPv4 part ended them.\<close>

fun read_groups :: "nat \<Rightarrow> 16 word list \<Rightarrow> ustring \<Rightarrow> 16 word list \<times> bool \<times> ustring" where
  "read_groups 0 groups cs = (groups, False, cs)"
| "read_groups (Suc n) groups cs =
     (case (if n > 0 then read_separator 58 (groups \<noteq> []) read_ipv4_addr cs else None) of
        Some (Ipv4Addr a b c d, rest) \<Rightarrow> (groups @ [from_be_bytes a b, from_be_bytes c d], True, rest)
      | None \<Rightarrow>
          (case read_separator 58 (groups \<noteq> []) (read_number 16 65535 4 True) cs of
             Some (g, rest) \<Rightarrow> read_groups n (groups @ [of_nat g]) rest
           | None \<Rightarrow> (groups, False, cs)))"

definition read_ipv6_addr :: "ustring \<Rightarrow> (Ipv6Addr \<times> ustring) option" where
  "read_ipv6_addr cs =
     (case read_groups 8 [] cs of (head, head_ipv4, rest) \<Rightarrow>
        if length head = 8 then Some (Ipv6Addr head, rest)
        else if head_ipv4 then None
        else Option.bind (read_given_char 58 rest) (\<lambda>rest1.
             Option.bind (read_given_char 58 rest1) (\<lambda>rest2.
               case read_groups (8 - (length head + 1)) [] rest2 of (tail, _, rest3) \<Rightarrow>
                 Some (Ipv6Addr (head @ replicate (8 - length head - length tail) 0 @ tail), rest3))))"

definition parse_ip_addr :: "ustring \<Rightarrow> IpAddr option" where
  "parse_ip_addr cs =
     (case (case read_ipv4_addr cs of
              Some (v4, rest) \<Rightarrow> Some (V4 v4, rest)
            | None \<Rightarrow> map_option (map_prod V6 id) (read_ipv6_addr cs)) of
        Some (ip, []) \<Rightarrow> Some ip
      | _ \<Rightarrow> None)"

section \<open>The audit of a URL\<close>

record PublicHttpTarget =
  pt_host :: ustring
  pt_port :: nat
  pt_pinned_ips :: "IpAddr list"

definition strip_prefix :: "ustring \<Rightarrow> ustring \<Rightarrow> ustring option" where
  "strip_prefix p s = (if starts_with s p then Some (drop (length p) s) else None)"

definition is_authority_end :: "nat \<Rightarrow> bool" where
  "is_authority_end c \<longleftrightarrow> c \<in> set (lit ''/?#'')"

definition url_authority :: "ustring \<Rightarrow> ustring" where
  "url_authority rest = takeWhile (\<lambda>c. \<not> is_authority_end c) rest"

text \<open>Scheme and rest of a URL; the flag is true for \<open>https\<close>.\<close>

definition split_scheme :: "ustring \<Rightarrow> (bool \<times> ustring) option" where
  "split_scheme url =
     (case strip_prefix (lit ''https://'') url of
        Some rest \<Rightarrow> Some (True, rest)
      | None \<Rightarrow>
          (case strip_prefix (lit ''http://'') url of
             Some rest \<Rightarrow> Some (False, rest)
           | None \<Rightarrow> None))"

definition parse_port :: "ustring \<Rightarrow> string + nat" where
  "parse_port port_text =
     (case parse_unsigned 65535 port_text of
        Some port \<Rightarrow> Inr port
      | None \<Rightarrow> Inl ''url port must be a number between 1 and 65535'')"

text \<open>The text before and after the last colon.\<close>

definition rsplit_colon :: "ustring \<Rightarrow> (ustring \<times> ustring) option" where
  "rsplit_colon s =
     (if 58 \<in> set s
      then Some (rev (tl (dropWhile (\<lambda>c. c \<noteq> 58) (rev s))), rev (takeWhile (\<lambda>c. c \<noteq> 58) (rev s)))
      else None)"

definition host_and_port :: "ustring \<Rightarrow> string + ustring \<times> nat option" where
  "host_and_port authority =
     (case strip_prefix (lit ''['') authority of
        Some inner \<Rightarrow>
          if 93 \<notin> set inner then Inl ''unterminated IPv6 literal in url''
          else
            let host = takeWhile (\<lambda>c. c \<noteq> 93) inner;
                port_part = tl (dropWhile (\<lambda>c. c \<noteq> 93) inner)
            in (case port_part of
                  [] \<Rightarrow> Inr (host, None)
                | c # port_text \<Rightarrow>
                    if c = 58 then (case parse_port port_text of Inl e \<Rightarrow> Inl e | Inr p \<Rightarrow> Inr (host, Some p))
                    else Inl ''malformed IPv6 authority in url'')
      | None \<Rightarrow>
          (case rsplit_colon authority of
             None \<Rightarrow> Inr (authority, None)
           | Some (host, port_text) \<Rightarrow>
               if 58 \<in> set host then Inr (authority, None)
               else (case parse_port port_text of Inl e \<Rightarrow> Inl e | Inr p \<Rightarrow> Inr (host, Some p))))"

definition host_addresses ::
  "(ustring \<Rightarrow> nat \<Rightarrow> string + IpAddr list) \<Rightarrow> ustring \<Rightarrow> nat \<Rightarrow> string + IpAddr list"
where
  "host_addresses resolve host port =
     (case parse_ip_addr host of Some ip \<Rightarrow> Inr [ip] | None \<Rightarrow> resolve host port)"

definition validate_public_http_url ::
  "(ustring \<Rightarrow> nat \<Rightarrow> string + IpAddr list) \<Rightarrow> ustring \<Rightarrow> string + PublicHttpTarget"
where
  "validate_public_http_url resolve url =
     (case split_scheme (trim url) of
        None \<Rightarrow> Inl ''url must start with http:// or https://''
      | Some (https, rest) \<Rightarrow>
          let authority = url_authority rest in
          if authority = [] then Inl ''url must carry a host''
          else if 64 \<in> set authority then Inl ''url must not embed credentials''
          else case host_and_port authority of
            Inl e \<Rightarrow> Inl e
          | Inr (host, given) \<Rightarrow>
              if host = [] then Inl ''url must carry a host''
              else
                let port = (case given of Some p \<Rightarrow> p | None \<Rightarrow> if https then 443 else 80) in
                case host_addresses resolve host port of
                  Inl e \<Rightarrow> Inl e
                | Inr pinned_ips \<Rightarrow>
                    if pinned_ips = [] then Inl ''host resolved to no addresses''
                    else if list_ex (\<lambda>ip. \<not> ip_is_public ip) pinned_ips
                    then Inl ''url resolves to a loopback, private, link-local, metadata, or otherwise non-public address''
                    else Inr \<lparr>pt_host = host, pt_port = port, pt_pinned_ips = pinned_ips\<rparr>)"

definition resolve_redirect_location :: "ustring \<Rightarrow> ustring \<Rightarrow> string + ustring" where
  "resolve_redirect_location current_url location0 =
     (let location = trim location0 in
      if location = [] then Inl ''redirect carried no location''
      else if starts_with location (lit ''http://'') \<or> starts_with location (lit ''https://'') then Inr location
      else case strip_prefix (lit ''/'') location of
        Some root_relative \<Rightarrow>
          if starts_with root_relative (lit ''/'') then Inl ''protocol-relative redirect locations are not allowed''
          else (case split_scheme current_url of
                  None \<Rightarrow> Inl ''redirect from a non-http url''
                | Some (https, rest) \<Rightarrow>
                    let authority = url_authority rest in
                    if authority = [] then Inl ''redirect origin has no host''
                    else Inr ((if https then lit ''https'' else lit ''http'') @ lit ''://'' @ authority @ lit ''/'' @ root_relative))
      | None \<Rightarrow> Inl ''only absolute http(s) or root-relative redirect locations are allowed'')"

end
