(* ===== verification/Web_Fetch.thy ===== *)
theory Web_Fetch
  imports Http_Policy
begin

text \<open>
  Model of \<open>crates/tools/src/web_fetch.rs\<close> and \<open>crates/tools/src/http_wire.rs\<close>: the command line of
  one audited hop, the separation of a raw response into status, location and body, and the loop
  that follows redirects. The curl process with the network behind it is the parameter \<open>run\<close>, a
  function on an abstract network state that also answers name lookups; the loop returns the
  requests it made beside its result.
\<close>

section \<open>The response on the wire\<close>

definition strip_return :: "ustring \<Rightarrow> ustring" where
  "strip_return s = (if s \<noteq> [] \<and> last s = ch_return then butlast s else s)"

definition str_lines :: "ustring \<Rightarrow> ustring list" where
  "str_lines s =
     (let pieces = split_pred (\<lambda>c. c = ch_newline) s
      in map strip_return (butlast pieces) @ (if last pieces = [] then [] else [last pieces]))"

datatype WebError =
  PolicyError string
| WireError string
| TransportError ustring
| TooManyRedirects
| NoRedirectLocation nat
| HttpStatusError nat

definition parse_status_line :: "ustring \<Rightarrow> WebError + nat" where
  "parse_status_line head =
     (let line = (case str_lines head of l # _ \<Rightarrow> l | [] \<Rightarrow> []);
          code = (case split_whitespace line of _ # w # _ \<Rightarrow> parse_unsigned 65535 w | _ \<Rightarrow> None)
      in case code of Some status \<Rightarrow> Inr status
         | None \<Rightarrow> Inl (WireError ''web fetch returned no parseable status line''))"

definition header_location :: "ustring \<Rightarrow> ustring option" where
  "header_location line =
     (case split_once [58] line of
        None \<Rightarrow> None
      | Some (name, v) \<Rightarrow>
          if to_ascii_lowercase (trim name) = lit ''location''
          then Some (rev (dropWhile (\<lambda>c. c = ch_return) (rev (trim v)))) else None)"

fun find_map :: "('a \<Rightarrow> 'b option) \<Rightarrow> 'a list \<Rightarrow> 'b option" where
  "find_map f [] = None"
| "find_map f (x # xs) = (case f x of Some y \<Rightarrow> Some y | None \<Rightarrow> find_map f xs)"

definition split_head :: "ustring \<Rightarrow> (ustring \<times> ustring) option" where
  "split_head rest =
     (case split_once [ch_return, ch_newline, ch_return, ch_newline] rest of
        Some hb \<Rightarrow> Some hb
      | None \<Rightarrow> split_once [ch_newline, ch_newline] rest)"

lemma split_head_length: "split_head s = Some (a, b) \<Longrightarrow> length b < length s"
  by (auto simp: split_head_def split: option.splits dest: split_once_length)

function response_loop :: "ustring \<Rightarrow> WebError + nat \<times> ustring option \<times> ustring" where
  "response_loop rest =
     (case split_head rest of
        None \<Rightarrow> Inl (WireError ''web fetch returned no response headers'')
      | Some (head, body) \<Rightarrow>
          (case parse_status_line head of
             Inl e \<Rightarrow> Inl e
           | Inr status \<Rightarrow>
               if 100 \<le> status \<and> status < 200 then
                 (if \<not> starts_with body (lit ''HTTP/'')
                  then Inl (WireError ''web fetch returned no parseable status line after an interim response'')
                  else response_loop body)
               else Inr (status, find_map header_location (drop 1 (str_lines head)), body)))"
  by pat_completeness auto
termination
  by (relation "measure length") (auto dest: split_head_length)

declare response_loop.simps [simp del]

definition parse_http_response :: "ustring \<Rightarrow> WebError + nat \<times> ustring option \<times> ustring" where
  "parse_http_response raw =
     (if starts_with raw (lit ''HTTP/'') then response_loop raw
      else case split_once (ch_newline # lit ''HTTP/'') raw of
        None \<Rightarrow> Inl (WireError ''web fetch returned no response headers'')
      | Some (_, rest) \<Rightarrow> response_loop (lit ''HTTP/'' @ rest))"

section \<open>Addresses as text\<close>

fun display_ipv4 :: "Ipv4Addr \<Rightarrow> ustring" where
  "display_ipv4 (Ipv4Addr a b c d) =
     join_strs [46] [decimal (unat a), decimal (unat b), decimal (unat c), decimal (unat d)]"

text \<open>The first longest run of zero segments, as its start and length.\<close>

fun zero_run :: "16 word list \<Rightarrow> nat \<Rightarrow> nat \<times> nat \<Rightarrow> nat \<times> nat \<Rightarrow> nat \<times> nat" where
  "zero_run [] i longest current = longest"
| "zero_run (s # ss) i longest current =
     (if s = 0 then
        (let cur = (if snd current = 0 then (i, 1) else (fst current, snd current + 1))
         in zero_run ss (i + 1) (if snd cur > snd longest then cur else longest) cur)
      else zero_run ss (i + 1) longest (0, 0))"

definition display_segments :: "16 word list \<Rightarrow> ustring" where
  "display_segments ss = join_strs [58] (map (\<lambda>s. hexadecimal (unat s)) ss)"

definition display_ipv6 :: "Ipv6Addr \<Rightarrow> ustring" where
  "display_ipv6 ip =
     (let ss = segments ip in
      if take 6 ss = [0, 0, 0, 0, 0, 0xFFFF]
      then lit ''::ffff:'' @ display_ipv4 (embedded_ipv4 (ss ! 6) (ss ! 7))
      else case zero_run ss 0 (0, 0) (0, 0) of (start, len) \<Rightarrow>
        if len > 1 then display_segments (take start ss) @ lit ''::'' @ display_segments (drop (start + len) ss)
        else display_segments ss)"

fun display_ip :: "IpAddr \<Rightarrow> ustring" where
  "display_ip (V4 v4) = display_ipv4 v4"
| "display_ip (V6 v6) = display_ipv6 v6"

section \<open>Fetching\<close>

definition WEB_FETCH_MAX_REDIRECTS :: nat where
  "WEB_FETCH_MAX_REDIRECTS = HTTP_PUBLIC_FETCH_MAX_REDIRECTS"

definition fetch_timeout_seconds :: "ustring option \<Rightarrow> nat" where
  "fetch_timeout_seconds input =
     (let v = (case input of None \<Rightarrow> None | Some s \<Rightarrow> parse_unsigned u64_max s);
          seconds = (case v of Some n \<Rightarrow> n | None \<Rightarrow> HTTP_WEB_TIMEOUT_SECONDS)
      in min (max seconds 1) HTTP_WEB_MAX_TIMEOUT_SECONDS)"

definition fetch_hop_command :: "ustring \<Rightarrow> PublicHttpTarget \<Rightarrow> nat \<Rightarrow> ustring list" where
  "fetch_hop_command url target timeout_seconds =
     (let policy = (http_policy PublicFetch)\<lparr>hp_timeout_ms := timeout_seconds * 1000\<rparr>;
          authority = pt_host target @ [58] @ decimal (pt_port target)
      in curl_policy_args policy @ [lit ''--include''] @
         concat (map (\<lambda>ip. [lit ''--resolve'', authority @ [58] @ display_ip ip]) (pt_pinned_ips target)) @ [url])"

record WebRequest =
  rq_url :: ustring
  rq_target :: PublicHttpTarget
  rq_args :: "ustring list"

definition max_requests :: nat where
  "max_requests = WEB_FETCH_MAX_REDIRECTS + 1"

text \<open>A run returns the standard output of curl, or the transport error of the hop.\<close>

function fetch_loop ::
  "('n \<Rightarrow> ustring \<Rightarrow> nat \<Rightarrow> string + IpAddr list) \<Rightarrow> (ustring list \<Rightarrow> 'n \<Rightarrow> (ustring + ustring) \<times> 'n) \<Rightarrow> nat
     \<Rightarrow> ustring \<Rightarrow> nat \<Rightarrow> 'n \<Rightarrow> (WebError + ustring) \<times> WebRequest list"
where
  "fetch_loop resolve run timeout url redirects net =
     (case validate_public_http_url (resolve net) url of
        Inl e \<Rightarrow> (Inl (PolicyError e), [])
      | Inr target \<Rightarrow>
          let args = fetch_hop_command url target timeout;
              request = \<lparr>rq_url = url, rq_target = target, rq_args = args\<rparr>
          in case run args net of
            (Inl e, net') \<Rightarrow> (Inl (TransportError e), [request])
          | (Inr raw, net') \<Rightarrow>
              (case parse_http_response raw of
                 Inl e \<Rightarrow> (Inl e, [request])
               | Inr (status, location, body) \<Rightarrow>
                   if 300 \<le> status \<and> status < 400 then
                     if redirects + 1 > WEB_FETCH_MAX_REDIRECTS then (Inl TooManyRedirects, [request])
                     else (case location of
                         None \<Rightarrow> (Inl (NoRedirectLocation status), [request])
                       | Some l \<Rightarrow>
                           (case resolve_redirect_location url l of
                              Inl e \<Rightarrow> (Inl (PolicyError e), [request])
                            | Inr next_url \<Rightarrow>
                                (case fetch_loop resolve run timeout next_url (redirects + 1) net' of
                                   (r, requests) \<Rightarrow> (r, request # requests))))
                   else if 200 \<le> status \<and> status < 300 then (Inr body, [request])
                   else (Inl (HttpStatusError status), [request])))"
  by pat_completeness auto
termination
  by (relation "measure (\<lambda>(resolve, run, timeout, url, redirects, net). max_requests - redirects)")
    (auto simp: max_requests_def)

declare fetch_loop.simps [simp del]

definition fetch_url_body ::
  "('n \<Rightarrow> ustring \<Rightarrow> nat \<Rightarrow> string + IpAddr list) \<Rightarrow> (ustring list \<Rightarrow> 'n \<Rightarrow> (ustring + ustring) \<times> 'n) \<Rightarrow> nat
     \<Rightarrow> ustring \<Rightarrow> 'n \<Rightarrow> (WebError + ustring) \<times> WebRequest list"
where
  "fetch_url_body resolve run timeout initial_url net = fetch_loop resolve run timeout initial_url 0 net"

text \<open>\<open>required_url\<close> of \<open>tool_support.rs\<close> on the trimmed input.\<close>

definition required_url :: "ustring \<Rightarrow> string + ustring" where
  "required_url url =
     (let normalized = trim url in
      if ch_newline \<in> set normalized \<or> ch_return \<in> set normalized then Inl ''url must be a single line''
      else if \<not> (starts_with normalized (lit ''https://'') \<or> starts_with normalized (lit ''http://''))
      then Inl ''url must start with http:// or https://''
      else Inr normalized)"

end
