(* ===== verification/Web_Properties.thy ===== *)
theory Web_Properties
  imports Web_Fetch Exec_Policy_Properties
begin

text \<open>
  Properties of the outbound HTTP policy and of \<open>web.fetch\<close>: which addresses count as public, what
  an audited target guarantees, where a redirect can lead, that every request of a fetch was
  audited, and that the body of a response does not decide its outcome.
\<close>

section \<open>Public addresses\<close>

fun ipv4_value :: "Ipv4Addr \<Rightarrow> nat" where
  "ipv4_value (Ipv4Addr a b c d) = unat a * 2 ^ 24 + unat b * 2 ^ 16 + unat c * 2 ^ 8 + unat d"

text \<open>A block \<open>net/len\<close> holds the addresses that agree with \<open>net\<close> in the first \<open>len\<close> bits.\<close>

fun in_block :: "Ipv4Addr \<Rightarrow> Ipv4Addr \<times> nat \<Rightarrow> bool" where
  "in_block ip (net, len) \<longleftrightarrow> ipv4_value ip div 2 ^ (32 - len) = ipv4_value net div 2 ^ (32 - len)"

definition special_ipv4_blocks :: "(Ipv4Addr \<times> nat) list" where
  "special_ipv4_blocks =
     [(Ipv4Addr 0 0 0 0, 8), (Ipv4Addr 10 0 0 0, 8), (Ipv4Addr 100 64 0 0, 10), (Ipv4Addr 127 0 0 0, 8),
      (Ipv4Addr 169 254 0 0, 16), (Ipv4Addr 172 16 0 0, 12), (Ipv4Addr 192 0 0 0, 16), (Ipv4Addr 192 168 0 0, 16),
      (Ipv4Addr 198 18 0 0, 15), (Ipv4Addr 198 51 100 0, 24), (Ipv4Addr 203 0 113 0, 24), (Ipv4Addr 224 0 0 0, 4),
      (Ipv4Addr 240 0 0 0, 4)]"

lemma octet_bound: "unat (a::8 word) < 256"
  using unsigned_less [of a] by simp

lemma cgnat_mask: "unat ((b::8 word) AND 0xC0) = 64 \<longleftrightarrow> unat b div 64 = 1"
proof -
  have "\<forall>n < 256. ((of_nat n :: 8 word) AND 0xC0 = 64) = (n div 64 = 1)"
    by code_simp
  then have "((of_nat (unat b) :: 8 word) AND 0xC0 = 64) = (unat b div 64 = 1)" using octet_bound [of b] by blast
  then show ?thesis by (simp add: word_unat_eq_iff)
qed

lemma octet_eq: "(a::8 word) = c \<longleftrightarrow> unat a = unat c"
  by (rule word_unat_eq_iff)

lemma block_prefix:
  assumes "b < 256" "c < 256" "d < (256::nat)"
  shows "(a * 2 ^ 24 + b * 2 ^ 16 + c * 2 ^ 8 + d) div 2 ^ 24 = a"
    "(a * 2 ^ 24 + b * 2 ^ 16 + c * 2 ^ 8 + d) div 2 ^ 28 = a div 16"
    "(a * 2 ^ 24 + b * 2 ^ 16 + c * 2 ^ 8 + d) div 2 ^ 22 = a * 4 + b div 64"
    "(a * 2 ^ 24 + b * 2 ^ 16 + c * 2 ^ 8 + d) div 2 ^ 20 = a * 16 + b div 16"
    "(a * 2 ^ 24 + b * 2 ^ 16 + c * 2 ^ 8 + d) div 2 ^ 17 = a * 128 + b div 2"
    "(a * 2 ^ 24 + b * 2 ^ 16 + c * 2 ^ 8 + d) div 2 ^ 16 = a * 256 + b"
    "(a * 2 ^ 24 + b * 2 ^ 16 + c * 2 ^ 8 + d) div 2 ^ 8 = a * 65536 + b * 256 + c"
  using assms by simp_all

lemma mixed_radix: "q < m \<Longrightarrow> a * m + q = k \<longleftrightarrow> a = k div m \<and> q = k mod (m::nat)"
  by auto

lemma block_conditions:
  fixes a b c :: nat
  assumes "b < 256" "c < 256"
  shows "a * 4 + b div 64 = 401 \<longleftrightarrow> a = 100 \<and> b div 64 = 1"
    "a * 16 + b div 16 = 2753 \<longleftrightarrow> a = 172 \<and> b div 16 = 1"
    "a * 256 + b = k \<longleftrightarrow> a = k div 256 \<and> b = k mod 256"
    "a * 128 + b div 2 = 25353 \<longleftrightarrow> a = 198 \<and> (b = 18 \<or> b = 19)"
    "a * 65536 + b * 256 + c = k \<longleftrightarrow> a * 256 + b = k div 256 \<and> c = k mod 256"
  using assms mixed_radix [of "b div 64" 4 a 401] mixed_radix [of "b div 16" 16 a 2753] mixed_radix [of b 256 a k]
    mixed_radix [of "b div 2" 128 a 25353] mixed_radix [of c 256 "a * 256 + b" k]
  by (auto simp: algebra_simps)

lemma small_quotients:
  "n div 16 = Suc 0 \<longleftrightarrow> 16 \<le> n \<and> n \<le> (31::nat)"
  "n div 16 = 14 \<longleftrightarrow> 224 \<le> n \<and> n \<le> 239" "n div 16 = 15 \<longleftrightarrow> 240 \<le> n \<and> n \<le> 255"
  by auto


lemma octets_of_segment:
  "ucast (drop_bit 8 (from_be_bytes a b)) = a" "ucast (from_be_bytes a b) = b"
  "ucast (NOT (drop_bit 8 (NOT (from_be_bytes a b)))) = a" "ucast (NOT (NOT (from_be_bytes a b) AND 0xFF)) = b"
proof -
  have m: "(0xFF :: 16 word) = mask 8" by (simp add: mask_eq_exp_minus_1)
  have b: "\<not> bit b (8 + n)" for n using bit_imp_le_length [of b "8 + n"] by auto
  show "ucast (drop_bit 8 (from_be_bytes a b)) = a" "ucast (from_be_bytes a b) = b"
    unfolding from_be_bytes_def by (rule bit_word_eqI; auto simp: bit_simps b)+
  show "ucast (NOT (drop_bit 8 (NOT (from_be_bytes a b)))) = a" "ucast (NOT (NOT (from_be_bytes a b) AND 0xFF)) = b"
    unfolding from_be_bytes_def m by (rule bit_word_eqI; auto simp: bit_simps b)+
qed

lemma nth_eight: "[s0, s1, s2, s3, s4, s5, s6, s7] ! 0 = s0" "[s0, s1, s2, s3, s4, s5, s6, s7] ! 1 = s1"
  "[s0, s1, s2, s3, s4, s5, s6, s7] ! 2 = s2" "[s0, s1, s2, s3, s4, s5, s6, s7] ! 3 = s3"
  "[s0, s1, s2, s3, s4, s5, s6, s7] ! 4 = s4" "[s0, s1, s2, s3, s4, s5, s6, s7] ! 5 = s5"
  "[s0, s1, s2, s3, s4, s5, s6, s7] ! 6 = s6" "[s0, s1, s2, s3, s4, s5, s6, s7] ! 7 = s7"
  by (simp_all add: eval_nat_numeral)

lemma zero_segments: "replicate 8 (0::16 word) = [0, 0, 0, 0, 0, 0, 0, 0]"
  "replicate 7 (0::16 word) @ [1] = [0, 0, 0, 0, 0, 0, 0, 1]"
  by (simp_all add: eval_nat_numeral)

lemmas ipv6_eval = ipv6_is_public_def Let_def Ipv6Addr.sel nth_eight zero_segments

lemma small_ipv4_not_public:
  "\<not> ipv4_is_public (Ipv4Addr 0 b c d)"
  by simp

text \<open>
  Addresses that carry an IPv4 address are as public as it is: IPv4-mapped and
  IPv4-compatible addresses, 6to4 addresses and Teredo addresses (with the inverted client
  address) are public iff the embedded address is.
\<close>

theorem embedded_addresses_inherit_routability:
  assumes "length tail5 = 5" "length server4 = 4"
  shows "ipv6_is_public (Ipv6Addr [0, 0, 0, 0, 0, 0xFFFF, from_be_bytes a b, from_be_bytes c d]) = ipv4_is_public (Ipv4Addr a b c d) \<and>
    ipv6_is_public (Ipv6Addr [0, 0, 0, 0, 0, 0, from_be_bytes a b, from_be_bytes c d]) = ipv4_is_public (Ipv4Addr a b c d) \<and>
    ipv6_is_public (Ipv6Addr ([0x2002, from_be_bytes a b, from_be_bytes c d] @ tail5)) = ipv4_is_public (Ipv4Addr a b c d) \<and>
    ipv6_is_public (Ipv6Addr ([0x2001, 0] @ server4 @ [NOT (from_be_bytes a b), NOT (from_be_bytes c d)])) =
      ipv4_is_public (Ipv4Addr a b c d)"
proof -
  have e: "embedded_ipv4 (from_be_bytes a b) (from_be_bytes c d) = Ipv4Addr a b c d"
    by (simp add: embedded_ipv4_def octets_of_segment)
  have z: "from_be_bytes a b = 0 \<Longrightarrow> a = 0" using octets_of_segment(1) [of a b] by simp
  obtain t0 t1 t2 t3 t4 where t: "tail5 = [t0, t1, t2, t3, t4]"
    using assms(1) by (auto simp: eval_nat_numeral length_Suc_conv)
  obtain v0 v1 v2 v3 where v: "server4 = [v0, v1, v2, v3]"
    using assms(2) by (auto simp: eval_nat_numeral length_Suc_conv)
  have "ipv6_is_public (Ipv6Addr [0, 0, 0, 0, 0, 0xFFFF, from_be_bytes a b, from_be_bytes c d]) = ipv4_is_public (Ipv4Addr a b c d)"
    by (simp add: ipv6_eval e del: ipv4_is_public.simps)
  moreover have "ipv6_is_public (Ipv6Addr [0, 0, 0, 0, 0, 0, from_be_bytes a b, from_be_bytes c d]) = ipv4_is_public (Ipv4Addr a b c d)"
    using z small_ipv4_not_public by (auto simp: ipv6_eval e simp del: ipv4_is_public.simps)
  moreover have "ipv6_is_public (Ipv6Addr [0x2002, from_be_bytes a b, from_be_bytes c d, t0, t1, t2, t3, t4]) = ipv4_is_public (Ipv4Addr a b c d)"
    by (simp add: ipv6_eval e del: ipv4_is_public.simps)
  moreover have "ipv6_is_public (Ipv6Addr [0x2001, 0, v0, v1, v2, v3, NOT (from_be_bytes a b), NOT (from_be_bytes c d)]) = ipv4_is_public (Ipv4Addr a b c d)"
    by (simp add: ipv6_eval octets_of_segment octets_of_segment(4) [simplified] del: ipv4_is_public.simps)
  ultimately show ?thesis by (simp add: t v del: ipv4_is_public.simps)
qed

text \<open>An address of the local-use and of the well-known NAT64 prefix counts as public whatever IPv4
  address it carries.\<close>

lemma nat64_addresses_pass:
  "ipv6_is_public (Ipv6Addr [0x64, 0xFF9B, s2, s3, s4, s5, s6, s7])"
  by (simp add: ipv6_eval)

section \<open>Audited targets\<close>

lemma parse_port_bound: "parse_port s = Inr p \<Longrightarrow> p \<le> 65535"
  by (auto simp: parse_port_def split: option.splits if_splits dest!: parse_unsigned_bound)

lemma host_and_port_bound: "host_and_port a = Inr (h, Some p) \<Longrightarrow> p \<le> 65535"
  by (auto simp: host_and_port_def Let_def split: option.splits if_splits list.splits sum.splits prod.splits
      dest!: parse_port_bound)

text \<open>
  An audited target is public: a URL that passes the audit starts with \<open>http://\<close> or
  \<open>https://\<close> and carries no credentials, its host is not empty and its port has 16 bits, and the
  pinned addresses are at least one and all public. They are the literal address of the host, and
  then no name is looked up, or exactly what the resolver answered.
\<close>

theorem audited_target_is_public:
  assumes "validate_public_http_url resolve url = Inr t"
  shows "(\<exists>https rest. split_scheme (trim url) = Some (https, rest) \<and> 64 \<notin> set (url_authority rest)) \<and>
    pt_host t \<noteq> [] \<and> pt_port t \<le> 65535 \<and> pt_pinned_ips t \<noteq> [] \<and> (\<forall>ip \<in> set (pt_pinned_ips t). ip_is_public ip) \<and>
    (case parse_ip_addr (pt_host t) of
       Some ip \<Rightarrow> pt_pinned_ips t = [ip] \<and> (\<forall>resolve'. validate_public_http_url resolve' url = Inr t)
     | None \<Rightarrow> resolve (pt_host t) (pt_port t) = Inr (pt_pinned_ips t))"
proof -
  obtain https rest where s: "split_scheme (trim url) = Some (https, rest)"
    using assms by (auto simp: validate_public_http_url_def split: option.splits)
  let ?a = "url_authority rest"
  have a: "?a \<noteq> []" "64 \<notin> set ?a"
    using assms s by (auto simp: validate_public_http_url_def Let_def split: if_splits)
  obtain host given where h: "host_and_port ?a = Inr (host, given)"
    using assms s a by (cases "host_and_port ?a") (auto simp: validate_public_http_url_def Let_def)
  define port where "port = (case given of Some p \<Rightarrow> p | None \<Rightarrow> if https then 443 else 80)"
  have p: "port \<le> 65535" using host_and_port_bound h by (auto simp: port_def split: option.splits)
  note v = validate_public_http_url_def s option.case prod.case Let_def a if_False h sum.case
  have host: "host \<noteq> []" using assms by (auto simp: v split: if_splits)
  obtain ips where ips: "host_addresses resolve host port = Inr ips"
    using assms host by (cases "host_addresses resolve host port") (auto simp: v port_def)
  have t: "ips \<noteq> []" "\<forall>ip \<in> set ips. ip_is_public ip" "t = \<lparr>pt_host = host, pt_port = port, pt_pinned_ips = ips\<rparr>"
    using assms host ips by (auto simp: v port_def [symmetric] list_ex_iff split: if_splits)
  have lit: "validate_public_http_url r url = Inr t" if "host_addresses r host port = Inr ips" for r
    using that host t by (auto simp: v port_def [symmetric] list_ex_iff)
  show ?thesis
    using s a(2) host p t ips lit
    by (cases "parse_ip_addr host") (auto simp: host_addresses_def)
qed

section \<open>Redirects\<close>

lemma url_authority_join:
  "url_authority (url_authority rest @ 47 # suffix) = url_authority rest"
proof -
  have "is_authority_end 47" by (simp add: is_authority_end_def lit_def)
  then show ?thesis
    unfolding url_authority_def
    by (subst takeWhile_append2) (auto dest: set_takeWhileD)
qed

lemma split_scheme_of_url:
  "split_scheme ((if https then lit ''https'' else lit ''http'') @ lit ''://'' @ r) = Some (https, r)"
  by (simp add: split_scheme_def strip_prefix_def lit_def)

lemma validate_by_authority:
  assumes "split_scheme (trim u) = Some (https, rest)" "split_scheme (trim u') = Some (https, rest')"
    and "url_authority rest = url_authority rest'"
  shows "validate_public_http_url r u = validate_public_http_url r u'"
  by (simp only: validate_public_http_url_def assms option.case prod.case)

text \<open>
  A root-relative redirect stays on the audited target: the location resolved against a URL
  without surrounding white space passes the audit exactly when that URL does, with the same host,
  port and addresses, whatever the resolver answers. Every other accepted location is an absolute
  HTTP URL, and protocol-relative locations are refused.
\<close>

theorem root_relative_redirect_keeps_target:
  assumes "resolve_redirect_location url location = Inr next_url" "trim url = url"
  shows "(starts_with (trim location) (lit ''/'') \<longrightarrow>
      (\<forall>resolve. validate_public_http_url resolve next_url = validate_public_http_url resolve url)) \<and>
    (\<not> starts_with (trim location) (lit ''/'') \<longrightarrow> next_url = trim location \<and> split_scheme next_url \<noteq> None) \<and>
    \<not> starts_with (trim location) (lit ''//'')"
proof (cases "starts_with (trim location) (lit ''/'')")
  case False
  then have "next_url = trim location \<and> (starts_with (trim location) (lit ''http://'') \<or> starts_with (trim location) (lit ''https://''))"
    using assms(1) by (auto simp: resolve_redirect_location_def Let_def strip_prefix_def split: if_splits)
  moreover have "\<not> starts_with (trim location) (lit ''//'')"
    using False by (cases "trim location") (auto simp: lit_def)
  ultimately show ?thesis using False by (auto simp: split_scheme_def strip_prefix_def)
next
  case True
  then obtain r where r: "trim location = 47 # r" by (cases "trim location") (auto simp: lit_def)
  have ok: "\<not> starts_with r (lit ''/'')" "split_scheme url \<noteq> None"
    using assms(1) r by (auto simp: resolve_redirect_location_def Let_def strip_prefix_def lit_def split: if_splits option.splits)
  then obtain https rest where s: "split_scheme url = Some (https, rest)" by auto
  have n: "next_url = (if https then lit ''https'' else lit ''http'') @ lit ''://'' @ url_authority rest @ 47 # r"
    using assms(1) r ok s
    by (auto simp: resolve_redirect_location_def Let_def strip_prefix_def lit_def split: if_splits)
  have "\<not> is_whitespace (last (trim location))" using r last_trim [of location] by simp
  then have "trim next_url = next_url" unfolding n r by (intro trim_id) (auto simp: lit_def is_whitespace_def)
  then have "split_scheme (trim next_url) = Some (https, url_authority rest @ 47 # r)"
    using split_scheme_of_url n by simp
  then have "validate_public_http_url f next_url = validate_public_http_url f url" for f
    using validate_by_authority [of next_url https _ url rest] s assms(2) url_authority_join by simp
  moreover have "\<not> starts_with (trim location) (lit ''//'')" using ok(1) r by (simp add: lit_def)
  ultimately show ?thesis using True by blast
qed

section \<open>The requests of a fetch\<close>

definition pin_args :: "PublicHttpTarget \<Rightarrow> ustring list" where
  "pin_args t =
     concat (map (\<lambda>ip. [lit ''--resolve'', (pt_host t @ [58] @ decimal (pt_port t)) @ [58] @ display_ip ip]) (pt_pinned_ips t))"

text \<open>What the audit gives for one request.\<close>

definition audited_request :: "('n \<Rightarrow> ustring \<Rightarrow> nat \<Rightarrow> string + IpAddr list) \<Rightarrow> nat \<Rightarrow> WebRequest \<Rightarrow> bool" where
  "audited_request resolve timeout q \<longleftrightarrow>
     (\<exists>net. validate_public_http_url (resolve net) (rq_url q) = Inr (rq_target q)) \<and>
     (\<forall>ip \<in> set (pt_pinned_ips (rq_target q)). ip_is_public ip) \<and>
     rq_args q =
       [lit ''-q'', lit ''--silent'', lit ''--show-error'', lit ''--max-time'', decimal timeout,
        lit ''--user-agent'', lit ''Cindx/1'', lit ''--proto'', lit ''=http,https'', lit ''--noproxy'', lit ''*'', lit ''--include'']
       @ pin_args (rq_target q) @ [rq_url q]"

fun redirect_chain :: "WebRequest list \<Rightarrow> bool" where
  "redirect_chain (q # p # qs) \<longleftrightarrow>
     (\<exists>l. resolve_redirect_location (rq_url q) l = Inr (rq_url p)) \<and> redirect_chain (p # qs)"
| "redirect_chain qs \<longleftrightarrow> True"

lemma audited_request_of_target:
  assumes "validate_public_http_url (resolve net) url = Inr t"
  shows "audited_request resolve timeout \<lparr>rq_url = url, rq_target = t, rq_args = fetch_hop_command url t timeout\<rparr>"
proof -
  obtain https rest where s: "split_scheme (trim url) = Some (https, rest)"
    using assms by (auto simp: validate_public_http_url_def split: option.splits)
  have "\<forall>ip \<in> set (pt_pinned_ips t). ip_is_public ip"
    using assms s by (auto simp: validate_public_http_url_def Let_def list_ex_iff split: if_splits sum.splits prod.splits)
  then show ?thesis
    using assms
    by (auto simp: audited_request_def pin_args_def fetch_hop_command_def curl_policy_args_def http_policy_def
        timeout_text_def HTTP_USER_AGENT_def)
qed

lemma redirect_chain_Cons:
  "redirect_chain (q # qs) \<longleftrightarrow>
     (qs = [] \<or> (\<exists>l. resolve_redirect_location (rq_url q) l = Inr (rq_url (hd qs)))) \<and> redirect_chain qs"
  by (cases qs) auto

lemma fetch_loop_audited:
  assumes "fetch_loop resolve run timeout url redirects net = (r, qs)" "redirects \<le> WEB_FETCH_MAX_REDIRECTS"
  shows "(\<forall>q \<in> set qs. audited_request resolve timeout q) \<and> redirect_chain qs \<and>
    (qs \<noteq> [] \<longrightarrow> rq_url (hd qs) = url) \<and> length qs + redirects \<le> max_requests"
  using assms
proof (induction resolve run timeout url redirects net arbitrary: r qs rule: fetch_loop.induct)
  case (1 resolve run timeout url redirects net)
  show ?case
  proof (cases "validate_public_http_url (resolve net) url")
    case (Inl e)
    then show ?thesis using 1(2,3) by (subst (asm) fetch_loop.simps) (auto simp: max_requests_def)
  next
    case (Inr t)
    let ?args = "fetch_hop_command url t timeout"
    let ?q = "\<lparr>rq_url = url, rq_target = t, rq_args = ?args\<rparr>"
    have one: "audited_request resolve timeout ?q" by (rule audited_request_of_target) (rule Inr)
    have single: ?thesis if "qs = [?q]"
      using one that 1(3) by (simp add: max_requests_def)
    show ?thesis
    proof (rule ccontr)
      assume no: "\<not> ?thesis"
      then have ne: "qs \<noteq> [?q]" using single by blast
      note eq = 1(2) [unfolded fetch_loop.simps [of resolve run timeout url redirects net] Inr sum.case Let_def]
      obtain raw net' where run: "run ?args net = (Inr raw, net')"
        using eq ne by (auto split: prod.splits sum.splits)
      obtain status loc body where resp: "parse_http_response raw = Inr (status, loc, body)"
        using eq ne run by (auto split: sum.splits)
      have st: "300 \<le> status \<and> status < 400" "\<not> redirects + 1 > WEB_FETCH_MAX_REDIRECTS"
        using eq ne run resp by (auto split: if_splits)
      obtain l where l: "loc = Some l" using eq ne run resp st by (auto split: option.splits)
      obtain nxt where n: "resolve_redirect_location url l = Inr nxt"
        using eq ne run resp st l by (auto split: sum.splits)
      obtain r' qs' where rec: "fetch_loop resolve run timeout nxt (redirects + 1) net' = (r', qs')" by fastforce
      then have qs: "qs = ?q # qs'" using eq run resp st l n by simp
      have IH: "(\<forall>q \<in> set qs'. audited_request resolve timeout q) \<and> redirect_chain qs' \<and>
          (qs' \<noteq> [] \<longrightarrow> rq_url (hd qs') = nxt) \<and> length qs' + (redirects + 1) \<le> max_requests"
        using 1(1) [OF Inr refl refl run [symmetric] refl resp refl refl st l n rec] st(2) by simp
      then have "redirect_chain qs" using n unfolding qs redirect_chain_Cons by auto
      then have ?thesis using IH one by (simp add: qs)
      then show False using no by simp
    qed
  qed
qed

text \<open>
  C23. Every request of a fetch was audited: a fetch makes at most six requests, the first for the
  given URL and each further one for a location resolved against its predecessor; before each of
  them its URL passed the audit, all pinned addresses are public, and the command line refuses
  proxies, follows no redirect by itself and pins exactly the audited addresses.
\<close>

theorem every_request_is_audited:
  assumes "fetch_url_body resolve run timeout url net = (r, requests)"
  shows "length requests \<le> 6 \<and> (\<forall>q \<in> set requests. audited_request resolve timeout q) \<and>
    redirect_chain requests \<and> (requests \<noteq> [] \<longrightarrow> rq_url (hd requests) = url)"
  using fetch_loop_audited [of resolve run timeout url 0 net r requests] assms
  by (simp add: fetch_url_body_def max_requests_def WEB_FETCH_MAX_REDIRECTS_def HTTP_PUBLIC_FETCH_MAX_REDIRECTS_def)

section \<open>Responses\<close>

abbreviation CRLF2 :: ustring where
  "CRLF2 \<equiv> [ch_return, ch_newline, ch_return, ch_newline]"

text \<open>
  The body does not decide the outcome: for a response whose head ends at the first blank
  line in the CR LF framing and is not an interim one, the status and the location are those of
  the head and the body is what follows, whatever the body contains.
\<close>

theorem body_never_changes_the_outcome:
  assumes "split_once CRLF2 (head @ CRLF2) = Some (head, [])" "starts_with head (lit ''HTTP/'')"
    and "parse_status_line head = Inr status" "\<not> (100 \<le> status \<and> status < 200)"
  shows "parse_http_response (head @ CRLF2 @ body) =
    Inr (status, find_map header_location (drop 1 (str_lines head)), body)"
proof -
  have "split_head (head @ CRLF2 @ body) = Some (head, body)"
    using split_once_append [OF assms(1), of body] by (simp add: split_head_def)
  moreover have "starts_with (head @ CRLF2 @ body) (lit ''HTTP/'')" by (rule starts_with_more [OF assms(2)])
  ultimately show ?thesis
    using assms(3,4)
    by (simp only: parse_http_response_def response_loop.simps [of "head @ CRLF2 @ body"] option.case prod.case
        sum.case if_True if_False)
qed

text \<open>
  With bare line feeds a CR LF blank line inside the body ends the head, so the body of a
  redirect without a location supplies one.
\<close>

lemma status_302: "parse_status_line (lit ''HTTP/1.1 302 Found'' @ ch_newline # r) = Inr 302"
proof -
  have "split_pred (\<lambda>c. c = ch_newline) (lit ''HTTP/1.1 302 Found'' @ ch_newline # r) =
      lit ''HTTP/1.1 302 Found'' # split_pred (\<lambda>c. c = ch_newline) r"
    by (subst split_pred_append_hit) (simp_all add: lit_def char_defs)
  then have "\<exists>ls. str_lines (lit ''HTTP/1.1 302 Found'' @ ch_newline # r) = lit ''HTTP/1.1 302 Found'' # ls"
    by (simp add: str_lines_def Let_def strip_return_def) (simp add: lit_def char_defs)
  then show ?thesis
    by (auto simp: parse_status_line_def split_whitespace_def lit_def is_whitespace_def parse_unsigned_def to_digit_def)
qed

lemma line_feed_body_supplies_the_location:
  "parse_http_response (lit ''HTTP/1.1 302 Found'' @ [ch_newline, ch_newline] @ lit ''location: http://a/'' @ CRLF2) =
     Inr (302, Some (lit ''http://a/''), [])"
proof -
  let ?r = "[ch_newline] @ lit ''location: http://a/''"
  let ?s = "lit ''HTTP/1.1 302 Found'' @ ch_newline # ?r"
  have "split_once CRLF2 (?s @ CRLF2) = Some (?s, [])" by (simp add: lit_def char_defs)
  then have h: "split_head (?s @ CRLF2) = Some (?s, [])" by (simp add: split_head_def)
  have "find_map header_location (drop 1 (str_lines ?s)) = Some (lit ''http://a/'')"
    by (simp add: str_lines_def header_location_def strip_return_def lit_def char_defs to_ascii_lowercase_def trim_def
        is_whitespace_def)
  then have "response_loop (?s @ CRLF2) = Inr (302, Some (lit ''http://a/''), [])"
    by (simp only: response_loop.simps [of "?s @ CRLF2"] h option.case prod.case status_302 sum.case) simp
  then show ?thesis by (simp add: parse_http_response_def lit_def)
qed

section \<open>Instances\<close>

definition ex_target :: PublicHttpTarget where
  "ex_target = \<lparr>pt_host = lit ''1.2.3.4'', pt_port = 80, pt_pinned_ips = [V4 (Ipv4Addr 1 2 3 4)]\<rparr>"

lemma ex_parse_ip: "parse_ip_addr (lit ''1.2.3.4'') = Some (V4 (Ipv4Addr 1 2 3 4))"
  by (simp add: parse_ip_addr_def read_ipv4_addr_def read_octet_def read_separator_def read_given_char_def
      read_number_def to_digit_def lit_def)

lemma ex_public: "ipv4_is_public (Ipv4Addr 1 2 3 4)"
  by (simp add: word_between_def word_le_nat_alt)

lemma ex_scheme: "split_scheme (trim (lit ''http://1.2.3.4/a'')) = Some (False, lit ''1.2.3.4/a'')"
  "trim (lit ''http://1.2.3.4/a'') = lit ''http://1.2.3.4/a''"
  by (simp_all add: split_scheme_def strip_prefix_def lit_def trim_def is_whitespace_def)

lemma ex_authority: "url_authority (lit ''1.2.3.4/a'') = lit ''1.2.3.4''" "64 \<notin> set (lit ''1.2.3.4'')"
  "host_and_port (lit ''1.2.3.4'') = Inr (lit ''1.2.3.4'', None)" "lit ''1.2.3.4'' \<noteq> []"
  by (simp_all add: url_authority_def is_authority_end_def host_and_port_def strip_prefix_def rsplit_colon_def lit_def)

lemma ex_audit: "validate_public_http_url resolve (lit ''http://1.2.3.4/a'') = Inr ex_target"
  by (simp add: validate_public_http_url_def ex_scheme(1) ex_authority host_addresses_def ex_parse_ip ex_public
      ex_target_def del: ipv4_is_public.simps)

theorem embedded_addresses_inherit_routability_witness:
  "\<not> ipv6_is_public (Ipv6Addr [0, 0, 0, 0, 0, 0xFFFF, from_be_bytes 127 0, from_be_bytes 0 1])"
  using embedded_addresses_inherit_routability [of "[0, 0, 0, 0, 0]" "[0, 0, 0, 0]" 127 0 0 1] by simp

theorem audited_target_is_public_witness:
  "validate_public_http_url (\<lambda>h p. Inl ''offline'') (lit ''http://1.2.3.4/a'') = Inr ex_target \<and>
   pt_pinned_ips ex_target \<noteq> []"
  using audited_target_is_public [OF ex_audit] ex_audit by blast

theorem root_relative_redirect_keeps_target_witness:
  "validate_public_http_url (\<lambda>h p. Inr []) (lit ''http://1.2.3.4/b'') = Inr ex_target"
proof -
  have "resolve_redirect_location (lit ''http://1.2.3.4/a'') (lit ''/b'') = Inr (lit ''http://1.2.3.4/b'')"
    by (simp add: resolve_redirect_location_def split_scheme_def strip_prefix_def url_authority_def is_authority_end_def
        lit_def trim_def is_whitespace_def)
  moreover have "starts_with (trim (lit ''/b'')) (lit ''/'')" by (simp add: lit_def trim_def is_whitespace_def)
  ultimately show ?thesis using root_relative_redirect_keeps_target [OF _ ex_scheme(2)] ex_audit by metis
qed

lemma ex_head:
  "split_once CRLF2 (lit ''HTTP/1.1 200 OK'' @ CRLF2) = Some (lit ''HTTP/1.1 200 OK'', [])"
  "starts_with (lit ''HTTP/1.1 200 OK'') (lit ''HTTP/'')"
  "parse_status_line (lit ''HTTP/1.1 200 OK'') = Inr 200"
  by (simp_all add: lit_def char_defs parse_status_line_def str_lines_def split_whitespace_def is_whitespace_def
      parse_unsigned_def to_digit_def)

lemma ex_header_lines: "drop 1 (str_lines (lit ''HTTP/1.1 200 OK'')) = []"
  by (simp add: str_lines_def lit_def char_defs)

theorem body_never_changes_the_outcome_witness:
  "parse_http_response (lit ''HTTP/1.1 200 OK'' @ CRLF2 @ lit ''location: http://a/'') =
     Inr (200, None, lit ''location: http://a/'')"
  using body_never_changes_the_outcome [OF ex_head, of "lit ''location: http://a/''"] ex_header_lines by simp

theorem every_request_is_audited_witness:
  "length (snd (fetch_url_body (\<lambda>n h p. Inr []) (\<lambda>args n. (Inr (lit ''HTTP/1.1 200 OK'' @ CRLF2 @ lit ''hi''), n)) 25
      (lit ''http://1.2.3.4/a'') ())) \<le> 6 \<and>
   fst (fetch_url_body (\<lambda>n h p. Inr []) (\<lambda>args n. (Inr (lit ''HTTP/1.1 200 OK'' @ CRLF2 @ lit ''hi''), n)) 25
      (lit ''http://1.2.3.4/a'') ()) = Inr (lit ''hi'')"
  (is "length (snd ?f) \<le> 6 \<and> _")
proof -
  have "?f = (fst ?f, snd ?f)" by simp
  note every_request_is_audited [OF this]
  moreover have "split_head (lit ''HTTP/1.1 200 OK'' @ CRLF2 @ lit ''hi'') = Some (lit ''HTTP/1.1 200 OK'', lit ''hi'')"
    using split_once_append [OF ex_head(1), of "lit ''hi''"] by (simp add: split_head_def)
  then have "parse_http_response (lit ''HTTP/1.1 200 OK'' @ CRLF2 @ lit ''hi'') = Inr (200, None, lit ''hi'')"
    using starts_with_more [OF ex_head(2)] ex_header_lines
    by (simp only: parse_http_response_def response_loop.simps [of "lit ''HTTP/1.1 200 OK'' @ CRLF2 @ lit ''hi''"]
        option.case prod.case sum.case if_True ex_head(3)) simp
  then have "fst ?f = Inr (lit ''hi'')"
    unfolding fetch_url_body_def by (subst fetch_loop.simps) (simp add: ex_audit Let_def)
  ultimately show ?thesis by blast
qed

end
