(* ===== verification/Stream_Deltas.thy ===== *)
theory Stream_Deltas
  imports Text_Search
begin

text \<open>
  Model of \<open>crates/model-provider/src/stream_delta_aggregator.rs\<close> and of the protocol filter in
  \<open>crates/model-provider/src/lib.rs\<close>: the text of a model response arrives in deltas, the filter
  removes tool-call protocol blocks whose markers may be split over deltas, and the aggregator
  batches what is left. An operation returns the texts it passes to the callback, in order. The
  theorems say that no way of splitting the response and no timing changes the text the user sees.
\<close>

section \<open>The protocol filter\<close>

definition DSML_TOOL_CALLS_OPEN :: ustring where
  "DSML_TOOL_CALLS_OPEN = lit ''<'' @ [65372] @ lit ''DSML'' @ [65372] @ lit ''tool_calls>''"

definition DSML_TOOL_CALLS_CLOSE :: ustring where
  "DSML_TOOL_CALLS_CLOSE = lit ''</'' @ [65372] @ lit ''DSML'' @ [65372] @ lit ''tool_calls>''"

record DsmlStreamDeltaFilter =
  df_pending :: ustring
  df_inside_protocol :: bool

definition filter_default :: DsmlStreamDeltaFilter where
  "filter_default = \<lparr>df_pending = [], df_inside_protocol = False\<rparr>"

definition ends_with :: "ustring \<Rightarrow> ustring \<Rightarrow> bool" where
  "ends_with s p = starts_with (rev s) (rev p)"

definition marker_prefix_suffix_len :: "ustring \<Rightarrow> ustring \<Rightarrow> nat" where
  "marker_prefix_suffix_len value marker =
     fold (\<lambda>index longest. if ends_with value (take index marker) then index else longest) [1..<length marker] 0"

text \<open>The loop of \<open>push\<close> on the pending text.\<close>

function filter_loop :: "ustring \<Rightarrow> bool \<Rightarrow> ustring list \<times> DsmlStreamDeltaFilter" where
  "filter_loop pending inside =
     (if inside then
        (case split_once DSML_TOOL_CALLS_CLOSE pending of
           Some (_, rest) \<Rightarrow> filter_loop rest False
         | None \<Rightarrow>
             let retained = marker_prefix_suffix_len pending DSML_TOOL_CALLS_CLOSE
             in ([], \<lparr>df_pending = drop (length pending - retained) pending, df_inside_protocol = True\<rparr>))
      else
        (case split_once DSML_TOOL_CALLS_OPEN pending of
           Some (before, rest) \<Rightarrow>
             (case filter_loop rest True of
                (out, st) \<Rightarrow> ((if before \<noteq> [] then before # out else out), st))
         | None \<Rightarrow>
             let retained = marker_prefix_suffix_len pending DSML_TOOL_CALLS_OPEN;
                 visible_len = length pending - retained
             in ((if visible_len > 0 then [take visible_len pending] else []),
                 \<lparr>df_pending = drop visible_len pending, df_inside_protocol = False\<rparr>)))"
  by pat_completeness auto
termination
  by (relation "measure (length \<circ> fst)")
    (auto dest!: split_once_length simp: DSML_TOOL_CALLS_OPEN_def DSML_TOOL_CALLS_CLOSE_def)

declare filter_loop.simps [simp del]

definition filter_push :: "ustring \<Rightarrow> DsmlStreamDeltaFilter \<Rightarrow> ustring list \<times> DsmlStreamDeltaFilter" where
  "filter_push delta st = filter_loop (df_pending st @ delta) (df_inside_protocol st)"

definition filter_finish :: "DsmlStreamDeltaFilter \<Rightarrow> ustring list \<times> DsmlStreamDeltaFilter" where
  "filter_finish st =
     ((if \<not> df_inside_protocol st \<and> df_pending st \<noteq> [] then [df_pending st] else []), st\<lparr>df_pending := []\<rparr>)"

section \<open>The aggregator\<close>

definition STREAM_DELTA_BATCH_INTERVAL :: duration where
  "STREAM_DELTA_BATCH_INTERVAL = from_millis 40"

definition STREAM_DELTA_MAX_PENDING_BYTES :: usize where
  "STREAM_DELTA_MAX_PENDING_BYTES = 4 * 1024"

record StreamingDeltaAggregator =
  ag_pending :: ustring
  ag_pending_since :: "instant option"
  ag_emitted_first :: bool
  ag_batch_interval :: duration
  ag_max_pending_bytes :: usize

definition with_policy :: "duration \<Rightarrow> usize \<Rightarrow> StreamingDeltaAggregator" where
  "with_policy batch_interval max_pending_bytes =
     \<lparr>ag_pending = [], ag_pending_since = None, ag_emitted_first = False, ag_batch_interval = batch_interval,
      ag_max_pending_bytes = max max_pending_bytes 1\<rparr>"

definition aggregator_new :: StreamingDeltaAggregator where
  "aggregator_new = with_policy STREAM_DELTA_BATCH_INTERVAL STREAM_DELTA_MAX_PENDING_BYTES"

definition flush :: "StreamingDeltaAggregator \<Rightarrow> ustring list \<times> StreamingDeltaAggregator" where
  "flush a =
     (if ag_pending a = [] then ([], a\<lparr>ag_pending_since := None\<rparr>)
      else ([ag_pending a], a\<lparr>ag_pending := [], ag_pending_since := None\<rparr>))"

definition flush_if_due :: "instant \<Rightarrow> StreamingDeltaAggregator \<Rightarrow> ustring list \<times> StreamingDeltaAggregator" where
  "flush_if_due now a =
     (case ag_pending_since a of
        Some started \<Rightarrow> if now - started \<ge> ag_batch_interval a then flush a else ([], a)
      | None \<Rightarrow> ([], a))"

text \<open>The part of \<open>push\<close> behind the first delta and the flush that is due.\<close>

definition append_delta :: "ustring \<Rightarrow> instant \<Rightarrow> StreamingDeltaAggregator \<Rightarrow> ustring list \<times> StreamingDeltaAggregator" where
  "append_delta delta now a =
     (let (out1, a1) = (if ag_pending a \<noteq> [] \<and> sat_add (str_len (ag_pending a)) (str_len delta) > ag_max_pending_bytes a
                       then flush a else ([], a));
          a2 = (if ag_pending a1 = [] then a1\<lparr>ag_pending_since := Some now\<rparr> else a1);
          a3 = a2\<lparr>ag_pending := ag_pending a2 @ delta\<rparr>
      in if str_len (ag_pending a3) \<ge> ag_max_pending_bytes a3
         then (case flush a3 of (out2, a4) \<Rightarrow> (out1 @ out2, a4))
         else (out1, a3))"

definition aggregator_push :: "ustring \<Rightarrow> instant \<Rightarrow> StreamingDeltaAggregator \<Rightarrow> ustring list \<times> StreamingDeltaAggregator" where
  "aggregator_push delta now a =
     (if delta = [] then ([], a)
      else if \<not> ag_emitted_first a then ([delta], a\<lparr>ag_emitted_first := True\<rparr>)
      else
        case flush_if_due now a of (out0, a0) \<Rightarrow>
          if str_len delta \<ge> ag_max_pending_bytes a0
          then (case flush a0 of (out1, a1) \<Rightarrow> (out0 @ out1 @ [delta], a1))
          else (case append_delta delta now a0 of (out1, a1) \<Rightarrow> (out0 @ out1, a1)))"

definition aggregator_before_poll ::
  "instant \<Rightarrow> duration \<Rightarrow> StreamingDeltaAggregator \<Rightarrow> duration \<times> ustring list \<times> StreamingDeltaAggregator"
where
  "aggregator_before_poll now default_wait a =
     (case flush_if_due now a of (out, a') \<Rightarrow>
        ((case ag_pending_since a' of
            None \<Rightarrow> default_wait
          | Some started \<Rightarrow> min default_wait (ag_batch_interval a' - (now - started))), out, a'))"

section \<open>Filter and aggregator together\<close>

record FilteredStreamDeltaEmitter =
  em_filter :: DsmlStreamDeltaFilter
  em_aggregator :: StreamingDeltaAggregator

definition emitter_new :: FilteredStreamDeltaEmitter where
  "emitter_new = \<lparr>em_filter = filter_default, em_aggregator = aggregator_new\<rparr>"

text \<open>The filter calls its sink for each visible piece: \<open>&mut |visible| self.aggregator.push(visible, now)\<close>.\<close>

fun push_all :: "(ustring \<Rightarrow> instant \<Rightarrow> 's \<Rightarrow> ustring list \<times> 's) \<Rightarrow> ustring list \<Rightarrow> instant \<Rightarrow> 's \<Rightarrow> ustring list \<times> 's" where
  "push_all push [] now a = ([], a)"
| "push_all push (d # ds) now a =
     (case push d now a of (out1, a1) \<Rightarrow> (case push_all push ds now a1 of (out2, a2) \<Rightarrow> (out1 @ out2, a2)))"

definition emitter_push :: "ustring \<Rightarrow> instant \<Rightarrow> FilteredStreamDeltaEmitter \<Rightarrow> ustring list \<times> FilteredStreamDeltaEmitter" where
  "emitter_push delta now e =
     (case filter_push delta (em_filter e) of (visible, f) \<Rightarrow>
      case push_all aggregator_push visible now (em_aggregator e) of (out, a) \<Rightarrow> (out, \<lparr>em_filter = f, em_aggregator = a\<rparr>))"

definition emitter_before_poll ::
  "instant \<Rightarrow> duration \<Rightarrow> FilteredStreamDeltaEmitter \<Rightarrow> duration \<times> ustring list \<times> FilteredStreamDeltaEmitter"
where
  "emitter_before_poll now default_wait e =
     (case aggregator_before_poll now default_wait (em_aggregator e) of (wait, out, a) \<Rightarrow>
        (wait, out, e\<lparr>em_aggregator := a\<rparr>))"

definition emitter_finish :: "instant \<Rightarrow> FilteredStreamDeltaEmitter \<Rightarrow> ustring list \<times> FilteredStreamDeltaEmitter" where
  "emitter_finish now e =
     (case filter_finish (em_filter e) of (visible, f) \<Rightarrow>
      case push_all aggregator_push visible now (em_aggregator e) of (out1, a1) \<Rightarrow>
      case flush a1 of (out2, a2) \<Rightarrow> (out1 @ out2, \<lparr>em_filter = f, em_aggregator = a2\<rparr>))"

text \<open>What drives the emitter while a response streams: deltas and polls at any instants.\<close>

datatype stream_event = Delta ustring instant | Poll instant duration

fun run_events :: "stream_event list \<Rightarrow> FilteredStreamDeltaEmitter \<Rightarrow> ustring list \<times> FilteredStreamDeltaEmitter" where
  "run_events [] e = ([], e)"
| "run_events (Delta d now # evs) e =
     (case emitter_push d now e of (out1, e1) \<Rightarrow> (case run_events evs e1 of (out2, e2) \<Rightarrow> (out1 @ out2, e2)))"
| "run_events (Poll now default_wait # evs) e =
     (case emitter_before_poll now default_wait e of (_, out1, e1) \<Rightarrow>
        (case run_events evs e1 of (out2, e2) \<Rightarrow> (out1 @ out2, e2)))"

fun event_text :: "stream_event list \<Rightarrow> ustring" where
  "event_text [] = []"
| "event_text (Delta d now # evs) = d @ event_text evs"
| "event_text (Poll now default_wait # evs) = event_text evs"

text \<open>The reference: the visible part of a whole text, with no streaming.\<close>

function visible_text :: "bool \<Rightarrow> ustring \<Rightarrow> ustring" where
  "visible_text inside s =
     (if inside then (case split_once DSML_TOOL_CALLS_CLOSE s of None \<Rightarrow> [] | Some (_, rest) \<Rightarrow> visible_text False rest)
      else (case split_once DSML_TOOL_CALLS_OPEN s of
              None \<Rightarrow> s
            | Some (before, rest) \<Rightarrow> before @ visible_text True rest))"
  by pat_completeness auto
termination
  by (relation "measure (length \<circ> snd)")
    (auto dest!: split_once_length simp: DSML_TOOL_CALLS_OPEN_def DSML_TOOL_CALLS_CLOSE_def)

declare visible_text.simps [simp del]

section \<open>Finding a marker in pieces\<close>

lemma starts_with_length: "starts_with s p \<Longrightarrow> length p \<le> length s"
  by (induction s p rule: starts_with.induct) auto

lemma starts_with_take: "starts_with s p \<Longrightarrow> take (length p) s = p"
  by (induction s p rule: starts_with.induct) auto

lemma split_once_Some_append:
  assumes "split_once p s = Some (a, b)"
  shows "split_once p (s @ x) = Some (a, b @ x)"
  using assms
proof (induction s arbitrary: a)
  case Nil
  then have "p = []" "a = []" "b = []" by (auto split: if_splits)
  then show ?case by (cases x) auto
next
  case (Cons c s)
  show ?case
  proof (cases "starts_with (c # s) p")
    case True
    have "drop (length p) ((c # s) @ x) = drop (length p) (c # s) @ x"
      using starts_with_length [OF True] by (simp only: drop_append) simp
    then show ?thesis using True Cons.prems starts_with_more [OF True, of x] by simp
  next
    case False
    then obtain a' where a: "a = c # a'" "split_once p s = Some (a', b)" using Cons.prems by auto
    have "length p \<le> length s" using a(2)
    proof (induction s arbitrary: a')
      case (Cons d s)
      then show ?case using starts_with_length [of "d # s" p] by (auto split: if_splits)
    qed (auto split: if_splits)
    then have "\<not> starts_with ((c # s) @ x) p" using False starts_with_prefix [of "c # s" x p] by auto
    then show ?thesis using Cons.IH [OF a(2)] a(1) by simp
  qed
qed

lemma split_once_None:
  assumes "split_once p s = None" "p \<noteq> []"
  shows "\<not> starts_with (drop i s) p"
  using assms
proof (induction s arbitrary: i)
  case Nil
  then show ?case by (cases p) auto
next
  case (Cons c s)
  then show ?case by (cases i) (auto split: if_splits)
qed

lemma split_once_NoneI: "(\<And>i. \<not> starts_with (drop i s) p) \<Longrightarrow> split_once p s = None"
proof (induction s)
  case Nil
  then show ?case using starts_with.simps(1) by auto
next
  case (Cons c s)
  have "\<not> starts_with (drop i s) p" for i using Cons.prems [of "Suc i"] by simp
  then show ?case using Cons.IH Cons.prems [of 0] by simp
qed

lemma split_once_skip:
  assumes "\<forall>i < length v. \<not> starts_with (drop i v @ x) p"
  shows "split_once p (v @ x) = map_option (\<lambda>(a, b). (v @ a, b)) (split_once p x)"
  using assms
proof (induction v)
  case Nil
  then show ?case by (cases "split_once p x") auto
next
  case (Cons c v)
  have "\<not> starts_with (c # v @ x) p" using Cons.prems by (metis append_Cons drop_0 length_greater_0_conv list.distinct(1))
  moreover have "\<forall>i < length v. \<not> starts_with (drop i v @ x) p"
    using Cons.prems by (metis Suc_less_eq drop_Suc_Cons length_Cons)
  ultimately show ?case using Cons.IH by (cases "split_once p x") auto
qed

lemma longest_index:
  assumes "P m" "1 \<le> m" "m < n"
  shows "m \<le> fold (\<lambda>i l. if P i then i else l) [1..<n] (0::nat)"
  using assms
proof (induction n)
  case (Suc n)
  then show ?case by (cases "m = n") (auto simp: less_Suc_eq)
qed simp

text \<open>Behind the retained suffix no marker can begin in the released part, whatever follows.\<close>

lemma released_has_no_marker:
  assumes "split_once marker s = None" "marker \<noteq> []"
    and "n = length s - marker_prefix_suffix_len s marker" "i < length (take n s)"
  shows "\<not> starts_with (drop i (take n s) @ drop n s @ x) marker"
proof
  assume "starts_with (drop i (take n s) @ drop n s @ x) marker"
  moreover have i: "i < n" "i < length s" using assms(4) by auto
  moreover have "drop i (take n s) @ drop n s = drop i s"
    using i by (metis append_take_drop_id drop_append drop_take length_take min_less_iff_conj diff_is_0_eq drop_0 less_imp_le_nat)
  ultimately have m: "starts_with (drop i s @ x) marker" by (metis append_assoc)
  define k where "k = length s - i"
  show False
  proof (cases "length marker \<le> k")
    case True
    then show False using starts_with_prefix [OF m] split_once_None [OF assms(1,2), of i] by (simp add: k_def)
  next
    case False
    have "take k marker = drop i s"
      using starts_with_take [OF m] False by (metis k_def append_take_drop_id length_drop linorder_not_le take_append
          take_take min_def less_imp_le_nat diff_is_0_eq take0 append_Nil2 order_refl take_all)
    then have "ends_with s (take k marker)"
      unfolding ends_with_def by (metis append_take_drop_id rev_append starts_with_append)
    then have "k \<le> marker_prefix_suffix_len s marker"
      unfolding marker_prefix_suffix_len_def using False i k_def by (intro longest_index) auto
    then show False using i assms(3) by (simp add: k_def)
  qed
qed

section \<open>The filter shows the visible text\<close>

lemma markers_not_empty [simp]: "DSML_TOOL_CALLS_OPEN \<noteq> []" "DSML_TOOL_CALLS_CLOSE \<noteq> []"
  by (simp_all add: DSML_TOOL_CALLS_OPEN_def DSML_TOOL_CALLS_CLOSE_def)

definition awaited_marker :: "bool \<Rightarrow> ustring" where
  "awaited_marker inside = (if inside then DSML_TOOL_CALLS_CLOSE else DSML_TOOL_CALLS_OPEN)"

text \<open>No complete marker is pending.\<close>

definition filter_ok :: "DsmlStreamDeltaFilter \<Rightarrow> bool" where
  "filter_ok st \<longleftrightarrow> split_once (awaited_marker (df_inside_protocol st)) (df_pending st) = None"

lemma visible_text_skip:
  assumes "\<forall>i < length v. \<not> starts_with (drop i v @ x) (awaited_marker inside)"
  shows "visible_text inside (v @ x) = (if inside then [] else v) @ visible_text inside x"
  using split_once_skip [OF assms]
  by (subst (1 2) visible_text.simps) (auto simp: awaited_marker_def split: option.splits if_splits)

lemma released_text:
  assumes "split_once (awaited_marker inside) s = None"
    and "n = length s - marker_prefix_suffix_len s (awaited_marker inside)"
  shows "visible_text inside (s @ x) = (if inside then [] else take n s) @ visible_text inside (drop n s @ x)"
    and "split_once (awaited_marker inside) (drop n s) = None"
proof -
  have ne: "awaited_marker inside \<noteq> []" by (simp add: awaited_marker_def)
  have "\<forall>i < length (take n s). \<not> starts_with (drop i (take n s) @ drop n s @ x) (awaited_marker inside)"
    using released_has_no_marker [OF assms(1) ne assms(2)] by blast
  from visible_text_skip [OF this]
  show "visible_text inside (s @ x) = (if inside then [] else take n s) @ visible_text inside (drop n s @ x)"
    by (metis append_assoc append_take_drop_id)
  show "split_once (awaited_marker inside) (drop n s) = None"
    using split_once_None [OF assms(1) ne] by (intro split_once_NoneI) (simp add: drop_drop)
qed

lemma filter_loop_visible:
  "filter_loop s inside = (out, st) \<Longrightarrow>
     filter_ok st \<and> (\<forall>x. concat out @ visible_text (df_inside_protocol st) (df_pending st @ x) = visible_text inside (s @ x))"
proof (induction s inside arbitrary: out st rule: filter_loop.induct)
  case (1 s inside)
  note eq = 1(3) [unfolded filter_loop.simps [of s inside]]
  show ?case
  proof (cases "split_once (awaited_marker inside) s")
    case None
    note r = released_text [OF None refl]
    from None eq show ?thesis
      using r by (auto simp: awaited_marker_def filter_ok_def Let_def split: if_splits)
  next
    case (Some ab)
    then obtain a b where ab: "split_once (awaited_marker inside) s = Some (a, b)" by (cases ab) auto
    obtain out' st' where rec: "filter_loop b (\<not> inside) = (out', st')" by fastforce
    have IH: "filter_ok st' \<and> (\<forall>x. concat out' @ visible_text (df_inside_protocol st') (df_pending st' @ x) = visible_text (\<not> inside) (b @ x))"
      using 1(1) 1(2) ab rec by (cases inside) (auto simp: awaited_marker_def)
    have "visible_text inside (s @ x) = (if inside then [] else a) @ visible_text (\<not> inside) (b @ x)" for x
      using split_once_Some_append [OF ab, of x] by (subst visible_text.simps) (auto simp: awaited_marker_def split: if_splits)
    moreover have "st = st'" "concat out = (if inside then [] else a) @ concat out'"
      using eq ab rec by (auto simp: awaited_marker_def split: if_splits)
    ultimately show ?thesis using IH by simp
  qed
qed

lemma filter_push_visible:
  assumes "filter_push d st = (out, st')"
  shows "filter_ok st' \<and>
    concat out @ visible_text (df_inside_protocol st') (df_pending st' @ x) = visible_text (df_inside_protocol st) (df_pending st @ d @ x)"
  using filter_loop_visible assms by (auto simp: filter_push_def)

lemma filter_finish_visible:
  assumes "filter_ok st" "filter_finish st = (out, st')"
  shows "concat out = visible_text (df_inside_protocol st) (df_pending st)"
  using assms by (subst visible_text.simps) (auto simp: filter_finish_def filter_ok_def awaited_marker_def)

section \<open>The aggregator keeps the text\<close>

text \<open>What the filter relies on: a sink that, in a good state, passes on or still holds exactly what
  it was given, in order.\<close>

locale text_sink =
  fixes push :: "ustring \<Rightarrow> instant \<Rightarrow> 's \<Rightarrow> ustring list \<times> 's"
    and held :: "'s \<Rightarrow> ustring"
    and ok :: "'s \<Rightarrow> bool"
  assumes push_ok: "ok s \<Longrightarrow> push d now s = (out, s') \<Longrightarrow> ok s'"
    and push_keeps: "ok s \<Longrightarrow> push d now s = (out, s') \<Longrightarrow> concat out @ held s' = held s @ d"
begin

lemma push_all_keeps:
  "ok s \<Longrightarrow> push_all push ds now s = (out, s') \<Longrightarrow> ok s' \<and> concat out @ held s' = held s @ concat ds"
proof (induction ds arbitrary: s out)
  case (Cons d ds)
  obtain out1 s1 where p: "push d now s = (out1, s1)" by fastforce
  obtain out2 where r: "push_all push ds now s1 = (out2, s')" and o: "out = out1 @ out2"
    using Cons.prems(2) p by (auto split: prod.splits)
  have "ok s'" "concat out2 @ held s' = held s1 @ concat ds"
    using Cons.IH [OF push_ok [OF Cons.prems(1) p] r] by auto
  then show ?case using push_keeps [OF Cons.prems(1) p] by (simp add: o)
qed simp

end

definition aggregator_ok :: "StreamingDeltaAggregator \<Rightarrow> bool" where
  "aggregator_ok a \<longleftrightarrow> str_len (ag_pending a) < ag_max_pending_bytes a \<and> ag_max_pending_bytes a < u64_max \<and>
     (ag_pending a = [] \<longleftrightarrow> ag_pending_since a = None) \<and> (\<not> ag_emitted_first a \<longrightarrow> ag_pending a = [])"

lemma flush_facts:
  assumes "aggregator_ok a" "flush a = (out, a')"
  shows "aggregator_ok a'" "concat out = ag_pending a" "ag_pending a' = []" "ag_emitted_first a' = ag_emitted_first a"
    "ag_max_pending_bytes a' = ag_max_pending_bytes a" "ag_batch_interval a' = ag_batch_interval a"
    "piece \<in> set out \<Longrightarrow> str_len piece \<le> ag_max_pending_bytes a"
  using assms by (auto simp: flush_def aggregator_ok_def split: if_splits)

lemma flush_if_due_facts:
  assumes "aggregator_ok a" "flush_if_due now a = (out, a')"
  shows "aggregator_ok a'" "concat out @ ag_pending a' = ag_pending a" "ag_emitted_first a' = ag_emitted_first a"
    "ag_max_pending_bytes a' = ag_max_pending_bytes a" "ag_batch_interval a' = ag_batch_interval a"
    "piece \<in> set out \<Longrightarrow> str_len piece \<le> ag_max_pending_bytes a"
    "ag_pending_since a' = Some started \<Longrightarrow> now - started < ag_batch_interval a"
  using assms flush_facts [OF assms(1)]
  by (auto simp: flush_if_due_def split: option.splits if_splits) (auto simp: flush_def split: if_splits)

lemma str_len_pos: "s \<noteq> [] \<Longrightarrow> 0 < str_len s"
  by (cases s) (auto simp: len_utf8_def utf8_char_def)

lemma append_delta_facts:
  assumes "aggregator_ok a" "append_delta d now a = (out, a')" "d \<noteq> []" "ag_emitted_first a"
    and "str_len d < ag_max_pending_bytes a"
  shows "aggregator_ok a'" "concat out @ ag_pending a' = ag_pending a @ d" "ag_emitted_first a'"
    "ag_max_pending_bytes a' = ag_max_pending_bytes a"
    "piece \<in> set out \<Longrightarrow> str_len piece \<le> ag_max_pending_bytes a"
  using assms str_len_pos [OF assms(3)]
  by (auto simp: append_delta_def aggregator_ok_def flush_def Let_def sat_add_def split: if_splits)

lemma aggregator_push_facts:
  assumes "aggregator_ok a" "aggregator_push d now a = (out, a')"
  shows "aggregator_ok a'" "concat out @ ag_pending a' = ag_pending a @ d"
    "ag_max_pending_bytes a' = ag_max_pending_bytes a"
    "piece \<in> set out \<Longrightarrow> piece = d \<or> str_len piece \<le> ag_max_pending_bytes a"
proof -
  obtain out0 a0 where f: "flush_if_due now a = (out0, a0)" by fastforce
  note F = flush_if_due_facts [OF assms(1) f]
  consider "d = []" | "d \<noteq> []" "\<not> ag_emitted_first a" | "d \<noteq> []" "ag_emitted_first a" "str_len d \<ge> ag_max_pending_bytes a"
    | "d \<noteq> []" "ag_emitted_first a" "str_len d < ag_max_pending_bytes a" by linarith
  then have "aggregator_ok a' \<and> concat out @ ag_pending a' = ag_pending a @ d \<and>
    ag_max_pending_bytes a' = ag_max_pending_bytes a \<and> (piece \<in> set out \<longrightarrow> piece = d \<or> str_len piece \<le> ag_max_pending_bytes a)"
  proof cases
    case 1
    then show ?thesis using assms by (simp add: aggregator_push_def)
  next
    case 2
    then show ?thesis using assms by (auto simp: aggregator_push_def aggregator_ok_def)
  next
    case 3
    obtain out1 a1 where g: "flush a0 = (out1, a1)" by fastforce
    have "out = out0 @ out1 @ [d]" "a' = a1" using assms(2) 3 f g F(4) by (auto simp: aggregator_push_def)
    then show ?thesis using F flush_facts [OF F(1) g] by auto
  next
    case 4
    obtain out1 a1 where g: "append_delta d now a0 = (out1, a1)" by fastforce
    have e: "out = out0 @ out1" "a' = a1" using assms(2) 4 f g F(4) by (auto simp: aggregator_push_def)
    have "ag_emitted_first a0" "str_len d < ag_max_pending_bytes a0" using 4 F(3,4) by auto
    note A = append_delta_facts [OF F(1) g 4(1) this]
    have "concat out @ ag_pending a' = ag_pending a @ d" using A(2) F(2) by (simp add: e)
    then show ?thesis using A(1,4,5) F(4,6) e by auto
  qed
  then show "aggregator_ok a'" "concat out @ ag_pending a' = ag_pending a @ d" "ag_max_pending_bytes a' = ag_max_pending_bytes a"
    "piece \<in> set out \<Longrightarrow> piece = d \<or> str_len piece \<le> ag_max_pending_bytes a" by auto
qed

interpretation aggregator: text_sink aggregator_push ag_pending aggregator_ok
  by unfold_locales (auto dest: aggregator_push_facts)

section \<open>Streaming shows the visible text\<close>

definition emitter_ok :: "FilteredStreamDeltaEmitter \<Rightarrow> bool" where
  "emitter_ok e \<longleftrightarrow> filter_ok (em_filter e) \<and> aggregator_ok (em_aggregator e)"

text \<open>What the emitter still owes when \<open>x\<close> is the rest of the response.\<close>

definition owed :: "FilteredStreamDeltaEmitter \<Rightarrow> ustring \<Rightarrow> ustring" where
  "owed e x = ag_pending (em_aggregator e) @
     visible_text (df_inside_protocol (em_filter e)) (df_pending (em_filter e) @ x)"

lemma emitter_push_owed:
  assumes "emitter_ok e" "emitter_push d now e = (out, e')"
  shows "emitter_ok e' \<and> concat out @ owed e' x = owed e (d @ x)"
proof -
  obtain vis f where f: "filter_push d (em_filter e) = (vis, f)" by fastforce
  obtain a where a: "push_all aggregator_push vis now (em_aggregator e) = (out, a)" and e: "e' = \<lparr>em_filter = f, em_aggregator = a\<rparr>"
    using assms(2) f by (auto simp: emitter_push_def split: prod.splits)
  note F = filter_push_visible [OF f, of x] and A = aggregator.push_all_keeps [OF _ a]
  have "aggregator_ok (em_aggregator e)" using assms(1) by (simp add: emitter_ok_def)
  then show ?thesis using A F by (simp add: e emitter_ok_def owed_def) (metis append_assoc)
qed

lemma emitter_poll_owed:
  assumes "emitter_ok e" "emitter_before_poll now default_wait e = (wait, out, e')"
  shows "emitter_ok e' \<and> concat out @ owed e' x = owed e x"
proof -
  obtain a where a: "flush_if_due now (em_aggregator e) = (out, a)" "e' = e\<lparr>em_aggregator := a\<rparr>"
    using assms(2) by (auto simp: emitter_before_poll_def aggregator_before_poll_def split: prod.splits)
  have "aggregator_ok (em_aggregator e)" using assms(1) by (simp add: emitter_ok_def)
  from flush_if_due_facts [OF this a(1)] show ?thesis
    using assms(1) by (simp add: a(2) emitter_ok_def owed_def)
qed

lemma run_events_owed:
  "emitter_ok e \<Longrightarrow> run_events evs e = (out, e') \<Longrightarrow> emitter_ok e' \<and> concat out @ owed e' x = owed e (event_text evs @ x)"
proof (induction evs e arbitrary: out rule: run_events.induct)
  case (2 d now evs e)
  obtain out1 e1 where p: "emitter_push d now e = (out1, e1)" by fastforce
  obtain out2 where r: "run_events evs e1 = (out2, e')" and o: "out = out1 @ out2"
    using 2(3) p by (auto split: prod.splits)
  have ok: "emitter_ok e1" using emitter_push_owed [OF 2(2) p] by blast
  show ?case
    using 2(1) [OF p [symmetric] ok r] emitter_push_owed [OF 2(2) p, of "event_text evs @ x"] by (simp add: o)
next
  case (3 now default_wait evs e)
  obtain wait out1 e1 where p: "emitter_before_poll now default_wait e = (wait, out1, e1)" by (cases "emitter_before_poll now default_wait e") auto
  obtain out2 where r: "run_events evs e1 = (out2, e')" and o: "out = out1 @ out2"
    using 3(3) p by (auto split: prod.splits)
  have ok: "emitter_ok e1" using emitter_poll_owed [OF 3(2) p] by blast
  show ?case
    using 3(1) [OF p [symmetric] refl ok r] emitter_poll_owed [OF 3(2) p, of "event_text evs @ x"] by (simp add: o)
qed simp

lemma emitter_finish_owed:
  assumes "emitter_ok e" "emitter_finish now e = (out, e')"
  shows "concat out = owed e []"
proof -
  obtain vis f where f: "filter_finish (em_filter e) = (vis, f)" by fastforce
  obtain out1 a1 where a: "push_all aggregator_push vis now (em_aggregator e) = (out1, a1)" by fastforce
  obtain out2 a2 where g: "flush a1 = (out2, a2)" by fastforce
  have o: "out = out1 @ out2" using assms(2) f a g by (simp add: emitter_finish_def)
  have A: "aggregator_ok a1" "concat out1 @ ag_pending a1 = ag_pending (em_aggregator e) @ concat vis"
    using aggregator.push_all_keeps [OF _ a] assms(1) by (auto simp: emitter_ok_def)
  have "concat vis = visible_text (df_inside_protocol (em_filter e)) (df_pending (em_filter e))"
    using filter_finish_visible [OF _ f] assms(1) by (simp add: emitter_ok_def)
  then show ?thesis using A flush_facts(2) [OF A(1) g] by (simp add: o owed_def)
qed

lemma emitter_new_facts: "emitter_ok emitter_new" "owed emitter_new x = visible_text False x"
  by (simp_all add: emitter_new_def emitter_ok_def filter_ok_def filter_default_def awaited_marker_def aggregator_ok_def
      aggregator_new_def with_policy_def STREAM_DELTA_MAX_PENDING_BYTES_def owed_def u64_max_def)

text \<open>
  C25. Streaming shows exactly the visible text: however a response is split into deltas, whenever
  they arrive and however often the reader polls in between, the pieces passed to the callback
  concatenate to the response without its protocol blocks, computed on the whole text, also when
  markers are split over deltas.
\<close>

theorem streaming_shows_the_visible_text:
  assumes "run_events evs emitter_new = (out1, e)" "emitter_finish now e = (out2, e')"
  shows "concat (out1 @ out2) = visible_text False (event_text evs)"
  using run_events_owed [OF emitter_new_facts(1) assms(1), of "[]"] emitter_finish_owed [OF _ assms(2)]
  by (simp add: emitter_new_facts(2))

text \<open>
  Batches are bounded in size and time: in a good state of the aggregator a push leaves less
  than the maximal number of bytes pending and passes on batches of at most that size, apart from a
  larger delta itself; before a poll, everything pending for a batch interval is passed on, and the
  poll ends no later than the deadline of what is still pending.
\<close>

theorem stream_batches_are_bounded:
  assumes "aggregator_ok a" "aggregator_push d now a = (out, b)"
    and "aggregator_before_poll later default_wait b = (wait, out', c)"
  shows "aggregator_ok c \<and> str_len (ag_pending b) < ag_max_pending_bytes a \<and>
    (\<forall>piece \<in> set out. piece = d \<or> str_len piece \<le> ag_max_pending_bytes a) \<and>
    wait \<le> default_wait \<and>
    (case ag_pending_since c of
       None \<Rightarrow> ag_pending c = []
     | Some started \<Rightarrow> later - started < ag_batch_interval b \<and> wait \<le> ag_batch_interval b - (later - started))"
proof -
  note P = aggregator_push_facts [OF assms(1,2)]
  obtain f: "flush_if_due later b = (out', c)"
    and w: "wait = (case ag_pending_since c of None \<Rightarrow> default_wait | Some started \<Rightarrow> min default_wait (ag_batch_interval c - (later - started)))"
    using assms(3) by (auto simp: aggregator_before_poll_def split: prod.splits)
  note Q = flush_if_due_facts [OF P(1) f]
  have "str_len (ag_pending b) < ag_max_pending_bytes a" using P(1,3) by (simp add: aggregator_ok_def)
  moreover have "ag_pending_since c = None \<longrightarrow> ag_pending c = []" using Q(1) by (simp add: aggregator_ok_def)
  ultimately show ?thesis using P(4) Q(1,5,7) w by (auto split: option.splits)
qed

section \<open>Instances\<close>

theorem streaming_shows_the_visible_text_witness:
  "concat (fst (run_events [Delta (lit ''hi'') 0, Poll 1 2] emitter_new) @
     fst (emitter_finish 3 (snd (run_events [Delta (lit ''hi'') 0, Poll 1 2] emitter_new)))) = lit ''hi''"
proof -
  have "visible_text False (lit ''hi'') = lit ''hi''"
    by (subst visible_text.simps) (simp add: DSML_TOOL_CALLS_OPEN_def lit_def)
  then show ?thesis
    using streaming_shows_the_visible_text [OF surjective_pairing surjective_pairing, of "[Delta (lit ''hi'') 0, Poll 1 2]" 3]
    by simp
qed

theorem stream_batches_are_bounded_witness:
  "aggregator_push (lit ''hi'') 0 aggregator_new = ([lit ''hi''], aggregator_new\<lparr>ag_emitted_first := True\<rparr>) \<and>
   fst (aggregator_before_poll 1 2 (aggregator_new\<lparr>ag_emitted_first := True\<rparr>)) \<le> 2"
proof -
  have ok: "aggregator_ok aggregator_new" using emitter_new_facts(1) by (simp add: emitter_ok_def emitter_new_def)
  have p: "aggregator_push (lit ''hi'') 0 aggregator_new = ([lit ''hi''], aggregator_new\<lparr>ag_emitted_first := True\<rparr>)"
    by (simp add: aggregator_push_def aggregator_new_def with_policy_def lit_def)
  have "aggregator_before_poll 1 2 (aggregator_new\<lparr>ag_emitted_first := True\<rparr>) =
      (fst (aggregator_before_poll 1 2 (aggregator_new\<lparr>ag_emitted_first := True\<rparr>)),
       fst (snd (aggregator_before_poll 1 2 (aggregator_new\<lparr>ag_emitted_first := True\<rparr>))),
       snd (snd (aggregator_before_poll 1 2 (aggregator_new\<lparr>ag_emitted_first := True\<rparr>))))" by simp
  from stream_batches_are_bounded [OF ok p this] show ?thesis using p by blast
qed

end
