(* ===== verification/Parallel_Supervisor.thy ===== *)
theory Parallel_Supervisor
  imports BTree_Map Step_System
begin

text \<open>
  Model of the worker gate and the job supervisor of \<open>crates/agent-runtime/src/parallel.rs\<close>:
  threads that wait for a permit of a shared gate, run a job, settle the job's lifecycle against
  a concurrent cancellation and send the completion to the supervisor.

  Every atomic access, every lock section and every channel operation is one operation of the
  model, so that the steps of the worker threads and of the supervising thread interleave at
  each of them. A spawned thread is an entry of \<open>js_workers\<close>; its position is the address of the
  two cells (\<open>Arc<AtomicBool>\<close> and \<open>Arc<AtomicU8>\<close>) it shares with the supervisor, and the map
  \<open>js_jobs\<close> from job ids to addresses is the map of \<open>ParallelJobControl\<close>s. A call that blocks is
  \<open>None\<close>. What a job returns and whether a thread can be spawned are arguments.

  The second half proves the supervisor's invariant over every interleaving.
\<close>

section \<open>The worker gate\<close>

datatype ParallelTaskError = TaskSpawn ustring | TaskPanic | TaskCancelled

type_synonym 'a task_result = "ParallelTaskError + 'a"

definition task_error_display :: "ParallelTaskError \<Rightarrow> ustring" where
  "task_error_display e =
     (case e of
        TaskSpawn error \<Rightarrow> lit ''worker could not start: '' @ error
      | TaskPanic \<Rightarrow> lit ''worker panicked''
      | TaskCancelled \<Rightarrow> lit ''worker cancelled after quorum'')"

record WorkerGate =
  wg_limit :: usize
  wg_active :: usize

definition worker_gate_new :: "usize \<Rightarrow> WorkerGate" where
  "worker_gate_new limit = \<lparr>wg_limit = max limit 1, wg_active = 0\<rparr>"

text \<open>One turn of the wait loop: \<open>None\<close> goes back to waiting on the condition variable.\<close>

definition gate_acquire :: "WorkerGate \<Rightarrow> WorkerGate option" where
  "gate_acquire g =
     (if wg_active g \<ge> wg_limit g then None else Some (g\<lparr>wg_active := wg_active g + 1\<rparr>))"

definition permit_drop :: "WorkerGate \<Rightarrow> WorkerGate" where
  "permit_drop g = g\<lparr>wg_active := wg_active g - 1\<rparr>"

section \<open>Jobs and their control cells\<close>

definition JOB_RUNNING :: nat where "JOB_RUNNING = 0"

definition JOB_COMPLETED :: nat where "JOB_COMPLETED = 1"

definition JOB_CANCELLED :: nat where "JOB_CANCELLED = 2"

text \<open>\<open>AtomicU8::compare_exchange\<close>: whether it succeeded, and the value of the cell after it.\<close>

definition compare_exchange :: "nat \<Rightarrow> nat \<Rightarrow> nat \<Rightarrow> bool \<times> nat" where
  "compare_exchange current new cell = (if cell = current then (True, new) else (False, cell))"

record ParallelJobControl =
  jc_cancellation :: bool
  jc_lifecycle :: nat

definition job_control_new :: ParallelJobControl where
  "job_control_new = \<lparr>jc_cancellation = False, jc_lifecycle = JOB_RUNNING\<rparr>"

text \<open>The two atomic accesses of \<open>cancel_job\<close>: the exchange, and the store when it succeeded.\<close>

definition cancel_exchange :: "ParallelJobControl \<Rightarrow> bool \<times> ParallelJobControl" where
  "cancel_exchange c =
     (let (won, lifecycle) = compare_exchange JOB_RUNNING JOB_CANCELLED (jc_lifecycle c)
      in (won, c\<lparr>jc_lifecycle := lifecycle\<rparr>))"

definition cancel_store :: "ParallelJobControl \<Rightarrow> ParallelJobControl" where
  "cancel_store c = c\<lparr>jc_cancellation := True\<rparr>"

text \<open>The two atomic accesses of \<open>request_job_cancel\<close>: the load, and the swap when the job runs.\<close>

definition request_load :: "ParallelJobControl \<Rightarrow> bool" where
  "request_load c \<longleftrightarrow> jc_lifecycle c = JOB_RUNNING"

definition request_swap :: "ParallelJobControl \<Rightarrow> bool \<times> ParallelJobControl" where
  "request_swap c = (\<not> jc_cancellation c, c\<lparr>jc_cancellation := True\<rparr>)"

section \<open>Worker threads\<close>

text \<open>Where a worker thread is in the closure \<open>submit\<close> spawns.\<close>

datatype worker_point =
  AwaitPermit | HasPermit | InJob | JobReturned | LifecycleSettled | PermitDropped | CompletionSent

text \<open>\<open>wk_returned\<close> is the first \<open>let result\<close> of the closure, \<open>wk_reported\<close> the second one.\<close>

record 'a worker =
  wk_job_id :: usize
  wk_control :: ParallelJobControl
  wk_point :: worker_point
  wk_returned :: "'a task_result option"
  wk_reported :: "'a task_result option"

type_synonym 'a ParallelJobCompletion = "usize \<times> 'a task_result"

record 'a ParallelJobSupervisor =
  js_gate :: WorkerGate
  js_channel :: "'a ParallelJobCompletion list"
  js_open :: bool
  js_jobs :: "(usize, nat) btree"
  js_workers :: "'a worker list"
  js_others :: nat

text \<open>
  \<open>js_open\<close> says that the receiver has not been dropped; \<open>js_others\<close> counts the permits of the
  gate that other users of the same executor hold.
\<close>

definition supervisor :: "WorkerGate \<Rightarrow> nat \<Rightarrow> 'a ParallelJobSupervisor" where
  "supervisor gate others =
     \<lparr>js_gate = gate, js_channel = [], js_open = True, js_jobs = [], js_workers = [],
      js_others = others\<rparr>"

definition worker_new :: "usize \<Rightarrow> 'a worker" where
  "worker_new job_id =
     \<lparr>wk_job_id = job_id, wk_control = job_control_new, wk_point = AwaitPermit,
      wk_returned = None, wk_reported = None\<rparr>"

definition update_worker ::
  "nat \<Rightarrow> ('a worker \<Rightarrow> 'a worker) \<Rightarrow> 'a ParallelJobSupervisor \<Rightarrow> 'a ParallelJobSupervisor"
where
  "update_worker k f s = s\<lparr>js_workers := (js_workers s)[k := f (js_workers s ! k)]\<rparr>"

definition update_control ::
  "nat \<Rightarrow> (ParallelJobControl \<Rightarrow> ParallelJobControl) \<Rightarrow> 'a ParallelJobSupervisor \<Rightarrow>
   'a ParallelJobSupervisor"
where
  "update_control k f s = update_worker k (\<lambda>w. w\<lparr>wk_control := f (wk_control w)\<rparr>) s"

definition control_of :: "'a ParallelJobSupervisor \<Rightarrow> nat \<Rightarrow> ParallelJobControl" where
  "control_of s k = wk_control (js_workers s ! k)"

text \<open>\<open>catch_unwind\<close> around the job: \<open>None\<close> is a job that panicked.\<close>

definition caught :: "'a option \<Rightarrow> 'a task_result" where
  "caught out = (case out of None \<Rightarrow> Inl TaskPanic | Some v \<Rightarrow> Inr v)"

definition settle :: "'a worker \<Rightarrow> 'a worker" where
  "settle w =
     (let (won, lifecycle) =
            compare_exchange JOB_RUNNING JOB_COMPLETED (jc_lifecycle (wk_control w))
      in w\<lparr>wk_control := (wk_control w)\<lparr>jc_lifecycle := lifecycle\<rparr>,
           wk_reported := (if won then wk_returned w else Some (Inl TaskCancelled)),
           wk_point := LifecycleSettled\<rparr>)"

definition send_completion :: "'a worker \<Rightarrow> 'a ParallelJobSupervisor \<Rightarrow> 'a ParallelJobSupervisor" where
  "send_completion w s =
     (case wk_reported w of
        Some r \<Rightarrow> if js_open s then s\<lparr>js_channel := js_channel s @ [(wk_job_id w, r)]\<rparr> else s
      | None \<Rightarrow> s)"

text \<open>The next step of the worker at address \<open>k\<close>; \<open>None\<close> when it waits or has ended.\<close>

definition worker_step ::
  "nat \<Rightarrow> 'a option \<Rightarrow> 'a ParallelJobSupervisor \<Rightarrow> 'a ParallelJobSupervisor option"
where
  "worker_step k out s =
     (if k < length (js_workers s) then
        (let w = js_workers s ! k in
         case wk_point w of
           AwaitPermit \<Rightarrow>
             map_option (\<lambda>g. update_worker k (wk_point_update (\<lambda>_. HasPermit)) (s\<lparr>js_gate := g\<rparr>))
               (gate_acquire (js_gate s))
         | HasPermit \<Rightarrow>
             Some (if jc_cancellation (wk_control w)
                   then update_worker k
                     (\<lambda>w. w\<lparr>wk_returned := Some (Inl TaskCancelled), wk_point := JobReturned\<rparr>) s
                   else update_worker k (wk_point_update (\<lambda>_. InJob)) s)
         | InJob \<Rightarrow>
             Some (update_worker k (\<lambda>w. w\<lparr>wk_returned := Some (caught out), wk_point := JobReturned\<rparr>) s)
         | JobReturned \<Rightarrow> Some (update_worker k settle s)
         | LifecycleSettled \<Rightarrow>
             Some (update_worker k (wk_point_update (\<lambda>_. PermitDropped))
               (s\<lparr>js_gate := permit_drop (js_gate s)\<rparr>))
         | PermitDropped \<Rightarrow>
             Some (update_worker k (wk_point_update (\<lambda>_. CompletionSent)) (send_completion w s))
         | CompletionSent \<Rightarrow> None)
      else None)"

section \<open>The supervising thread\<close>

definition submit ::
  "usize \<Rightarrow> ustring option \<Rightarrow> 'a ParallelJobSupervisor \<Rightarrow>
   (ParallelTaskError + unit) \<times> 'a ParallelJobSupervisor"
where
  "submit job_id spawn_error s =
     (if bt_contains_key (js_jobs s) job_id
      then (Inl (TaskSpawn (lit ''duplicate parallel job id '' @ decimal job_id)), s)
      else case spawn_error of
        Some error \<Rightarrow> (Inl (TaskSpawn error), s)
      | None \<Rightarrow>
          (Inr (),
           s\<lparr>js_workers := js_workers s @ [worker_new job_id],
             js_jobs := bt_insert job_id (length (js_workers s)) (js_jobs s)\<rparr>))"

text \<open>
  \<open>recv\<close> never sees a closed channel: the supervisor holds a sender of its own. The timed
  receive gives up when its deadline has passed and nothing was sent.
\<close>

definition recv ::
  "'a ParallelJobSupervisor \<Rightarrow> ('a ParallelJobCompletion \<times> 'a ParallelJobSupervisor) option"
where
  "recv s =
     (case js_channel s of
        [] \<Rightarrow> None
      | c # cs \<Rightarrow> Some (c, s\<lparr>js_channel := cs, js_jobs := bt_remove (fst c) (js_jobs s)\<rparr>))"

definition try_recv ::
  "'a ParallelJobSupervisor \<Rightarrow> 'a ParallelJobCompletion option \<times> 'a ParallelJobSupervisor"
where
  "try_recv s = (case recv s of None \<Rightarrow> (None, s) | Some (c, s') \<Rightarrow> (Some c, s'))"

definition recv_timeout ::
  "instant \<Rightarrow> instant \<Rightarrow> 'a ParallelJobSupervisor \<Rightarrow>
   ('a ParallelJobCompletion option \<times> 'a ParallelJobSupervisor) option"
where
  "recv_timeout deadline now s =
     (case recv s of
        Some (c, s') \<Rightarrow> Some (Some c, s')
      | None \<Rightarrow> if deadline \<le> now then Some (None, s) else None)"

definition pending :: "'a ParallelJobSupervisor \<Rightarrow> usize" where
  "pending s = length (js_jobs s)"

text \<open>The test of \<open>collect_completed\<close>.\<close>

definition any_completed :: "'a ParallelJobSupervisor \<Rightarrow> bool" where
  "any_completed s \<longleftrightarrow> (\<exists>e \<in> set (js_jobs s). jc_lifecycle (control_of s (snd e)) = JOB_COMPLETED)"

text \<open>The fields are dropped after the jobs have been cancelled: the receiver is gone.\<close>

definition close_receiver :: "'a ParallelJobSupervisor \<Rightarrow> 'a ParallelJobSupervisor" where
  "close_receiver s = s\<lparr>js_open := False, js_channel := []\<rparr>"

section \<open>The supervisor as a step system\<close>

text \<open>
  The steps of the supervising thread in any order a client may call them, the steps of the
  worker threads, and permits taken and given back by other users of the executor.
\<close>

inductive sup_step :: "'a ParallelJobSupervisor \<Rightarrow> 'a ParallelJobSupervisor \<Rightarrow> bool" where
  submitted: "js_open s \<Longrightarrow> submit i e s = (r, t) \<Longrightarrow> sup_step s t"
| received: "recv s = Some (c, t) \<Longrightarrow> sup_step s t"
| cancel_exchanged: "(i, k) \<in> set (js_jobs s) \<Longrightarrow> js_open s \<Longrightarrow>
    sup_step s (update_control k (\<lambda>c. snd (cancel_exchange c)) s)"
| cancel_stored: "k < length (js_workers s) \<Longrightarrow> sup_step s (update_control k cancel_store s)"
| request_swapped: "k < length (js_workers s) \<Longrightarrow>
    sup_step s (update_control k (\<lambda>c. snd (request_swap c)) s)"
| closed: "sup_step s (close_receiver s)"
| worker: "worker_step k out s = Some t \<Longrightarrow> sup_step s t"
| other_acquired: "gate_acquire (js_gate s) = Some g \<Longrightarrow>
    sup_step s (s\<lparr>js_gate := g, js_others := js_others s + 1\<rparr>)"
| other_dropped: "js_others s > 0 \<Longrightarrow>
    sup_step s (s\<lparr>js_gate := permit_drop (js_gate s), js_others := js_others s - 1\<rparr>)"

text \<open>The gate of an executor of which other users hold some permits.\<close>

definition shared_gate :: "WorkerGate \<Rightarrow> nat \<Rightarrow> bool" where
  "shared_gate gate others \<longleftrightarrow> others \<le> wg_limit gate \<and>
     gate = (worker_gate_new (wg_limit gate))\<lparr>wg_active := others\<rparr>"

definition sup_init :: "'a ParallelJobSupervisor \<Rightarrow> bool" where
  "sup_init s \<longleftrightarrow> (\<exists>gate others. shared_gate gate others \<and> s = supervisor gate others)"

definition holds_permit :: "'a worker \<Rightarrow> bool" where
  "holds_permit w \<longleftrightarrow> wk_point w \<in> {HasPermit, InJob, JobReturned, LifecycleSettled}"

definition permits :: "'a ParallelJobSupervisor \<Rightarrow> nat" where
  "permits s = length (filter holds_permit (js_workers s))"

definition gate_ok :: "'a ParallelJobSupervisor \<Rightarrow> bool" where
  "gate_ok s \<longleftrightarrow> 1 \<le> wg_limit (js_gate s) \<and> wg_active (js_gate s) \<le> wg_limit (js_gate s) \<and>
     wg_active (js_gate s) = permits s + js_others s"

text \<open>What a worker has returned and reported follows from where it is and who won the lifecycle.\<close>

definition worker_ok :: "'a worker \<Rightarrow> bool" where
  "worker_ok w \<longleftrightarrow>
     jc_lifecycle (wk_control w) \<in> {JOB_RUNNING, JOB_COMPLETED, JOB_CANCELLED} \<and>
     (if wk_point w \<in> {LifecycleSettled, PermitDropped, CompletionSent} then
        wk_returned w \<noteq> None \<and> jc_lifecycle (wk_control w) \<noteq> JOB_RUNNING \<and>
        wk_reported w =
          (if jc_lifecycle (wk_control w) = JOB_COMPLETED then wk_returned w
           else Some (Inl TaskCancelled))
      else
        jc_lifecycle (wk_control w) \<noteq> JOB_COMPLETED \<and> wk_reported w = None \<and>
        (wk_returned w \<noteq> None \<longleftrightarrow> wk_point w = JobReturned))"

text \<open>
  The books: the map knows exactly the workers whose completion has not been received, and the
  channel holds the completion of each of them that has been sent.
\<close>

definition jobs_ok :: "'a ParallelJobSupervisor \<Rightarrow> bool" where
  "jobs_ok s \<longleftrightarrow> bt_wf (js_jobs s) \<and>
     (\<forall>i k. (i, k) \<in> set (js_jobs s) \<longrightarrow> k < length (js_workers s) \<and> wk_job_id (js_workers s ! k) = i) \<and>
     (\<forall>k < length (js_workers s). wk_point (js_workers s ! k) \<noteq> CompletionSent \<longrightarrow>
        (wk_job_id (js_workers s ! k), k) \<in> set (js_jobs s))"

definition channel_ok :: "'a ParallelJobSupervisor \<Rightarrow> bool" where
  "channel_ok s \<longleftrightarrow> distinct (map fst (js_channel s)) \<and>
     (\<forall>i r. (i, r) \<in> set (js_channel s) \<longrightarrow>
        (\<exists>k. (i, k) \<in> set (js_jobs s) \<and> wk_point (js_workers s ! k) = CompletionSent \<and>
             wk_reported (js_workers s ! k) = Some r)) \<and>
     (js_open s \<longrightarrow> (\<forall>i k. (i, k) \<in> set (js_jobs s) \<longrightarrow> wk_point (js_workers s ! k) = CompletionSent \<longrightarrow>
        i \<in> fst ` set (js_channel s)))"

definition sup_inv :: "'a ParallelJobSupervisor \<Rightarrow> bool" where
  "sup_inv s \<longleftrightarrow> gate_ok s \<and> (\<forall>w \<in> set (js_workers s). worker_ok w) \<and> jobs_ok s \<and> channel_ok s"

text \<open>What no step takes back: a decided lifecycle, a reported result, the identity of a worker.\<close>

definition worker_guar :: "'a worker \<Rightarrow> 'a worker \<Rightarrow> bool" where
  "worker_guar w v \<longleftrightarrow> wk_job_id v = wk_job_id w \<and>
     (jc_lifecycle (wk_control w) \<noteq> JOB_RUNNING \<longrightarrow> jc_lifecycle (wk_control v) = jc_lifecycle (wk_control w)) \<and>
     (wk_returned w \<noteq> None \<longrightarrow> wk_returned v = wk_returned w) \<and>
     (wk_reported w \<noteq> None \<longrightarrow> wk_reported v = wk_reported w) \<and>
     (wk_point w = CompletionSent \<longrightarrow> wk_point v = CompletionSent)"

definition sup_guar :: "'a ParallelJobSupervisor \<Rightarrow> 'a ParallelJobSupervisor \<Rightarrow> bool" where
  "sup_guar s t \<longleftrightarrow> wg_limit (js_gate t) = wg_limit (js_gate s) \<and>
     length (js_workers s) \<le> length (js_workers t) \<and>
     (\<forall>k < length (js_workers s). worker_guar (js_workers s ! k) (js_workers t ! k))"

section \<open>The invariant\<close>

lemmas lifecycle_defs = JOB_RUNNING_def JOB_COMPLETED_def JOB_CANCELLED_def

lemma filter_update_length:
  "k < length xs \<Longrightarrow>
   length (filter P (xs[k := y])) + (if P (xs ! k) then 1 else 0) =
   length (filter P xs) + (if P y then 1 else 0)"
proof (induction xs arbitrary: k)
  case (Cons x xs)
  then show ?case by (cases k) auto
qed simp

lemma update_worker_sel [simp]:
  "js_gate (update_worker k f s) = js_gate s" "js_channel (update_worker k f s) = js_channel s"
  "js_open (update_worker k f s) = js_open s" "js_jobs (update_worker k f s) = js_jobs s"
  "js_others (update_worker k f s) = js_others s"
  "length (js_workers (update_worker k f s)) = length (js_workers s)"
  by (simp_all add: update_worker_def)

lemma update_worker_nth:
  "k < length (js_workers s) \<Longrightarrow>
   js_workers (update_worker k f s) ! j = (if j = k then f (js_workers s ! k) else js_workers s ! j)"
  by (cases "j = k") (simp_all add: update_worker_def)

lemma permits_update_worker:
  "k < length (js_workers s) \<Longrightarrow>
   permits (update_worker k f s) + (if holds_permit (js_workers s ! k) then 1 else 0) =
   permits s + (if holds_permit (f (js_workers s ! k)) then 1 else 0)"
  using filter_update_length [of k "js_workers s" holds_permit "f (js_workers s ! k)"]
  by (simp add: permits_def update_worker_def)

lemma workers_ok_update:
  "k < length (js_workers s) \<Longrightarrow> (\<forall>w \<in> set (js_workers s). worker_ok w) \<Longrightarrow>
   worker_ok (f (js_workers s ! k)) \<Longrightarrow> w \<in> set (js_workers (update_worker k f s)) \<Longrightarrow> worker_ok w"
  by (auto simp: update_worker_def dest: subsetD [OF set_update_subset_insert])

text \<open>The books do not see a step of a worker that neither sends nor changes what it sent.\<close>

lemma jobs_ok_update:
  assumes "k < length (js_workers s)" "jobs_ok s"
    and "wk_job_id (f (js_workers s ! k)) = wk_job_id (js_workers s ! k)"
    and "wk_point (js_workers s ! k) = CompletionSent \<Longrightarrow> wk_point (f (js_workers s ! k)) = CompletionSent"
  shows "jobs_ok (update_worker k f s)"
  using assms unfolding jobs_ok_def by (auto simp: update_worker_nth)

lemma channel_ok_update:
  assumes "k < length (js_workers s)" "channel_ok s"
    and "wk_point (f (js_workers s ! k)) = CompletionSent \<longleftrightarrow> wk_point (js_workers s ! k) = CompletionSent"
    and "wk_point (js_workers s ! k) = CompletionSent \<Longrightarrow>
         wk_reported (f (js_workers s ! k)) = wk_reported (js_workers s ! k)"
  shows "channel_ok (update_worker k f s)"
proof -
  have same: "wk_point (js_workers (update_worker k f s) ! j) = CompletionSent \<longleftrightarrow>
      wk_point (js_workers s ! j) = CompletionSent"
    and rep: "wk_point (js_workers s ! j) = CompletionSent \<Longrightarrow>
      wk_reported (js_workers (update_worker k f s) ! j) = wk_reported (js_workers s ! j)" for j
    using assms(1,3,4) by (auto simp: update_worker_nth)
  show ?thesis
    using assms(2) unfolding channel_ok_def update_worker_sel same by (metis rep)
qed

lemma books_gate [simp]:
  "jobs_ok (s\<lparr>js_gate := g\<rparr>) = jobs_ok s" "channel_ok (s\<lparr>js_gate := g\<rparr>) = channel_ok s"
  "jobs_ok (s\<lparr>js_gate := g, js_others := n\<rparr>) = jobs_ok s"
  "channel_ok (s\<lparr>js_gate := g, js_others := n\<rparr>) = channel_ok s"
  "permits (s\<lparr>js_gate := g\<rparr>) = permits s"
  "permits (s\<lparr>js_gate := g, js_others := n\<rparr>) = permits s"
  by (simp_all add: jobs_ok_def channel_ok_def permits_def)

lemma update_worker_inv:
  assumes "sup_inv s" "k < length (js_workers s)" "worker_ok (f (js_workers s ! k))"
    and "wk_job_id (f (js_workers s ! k)) = wk_job_id (js_workers s ! k)"
    and "holds_permit (f (js_workers s ! k)) \<longleftrightarrow> holds_permit (js_workers s ! k)"
    and "wk_point (f (js_workers s ! k)) = CompletionSent \<longleftrightarrow> wk_point (js_workers s ! k) = CompletionSent"
    and "wk_point (js_workers s ! k) = CompletionSent \<Longrightarrow>
         wk_reported (f (js_workers s ! k)) = wk_reported (js_workers s ! k)"
  shows "sup_inv (update_worker k f s)"
proof -
  have "gate_ok (update_worker k f s)"
    using assms(1,2,5) permits_update_worker [of k s f]
    by (auto simp: sup_inv_def gate_ok_def split: if_splits)
  moreover have "\<forall>w \<in> set (js_workers (update_worker k f s)). worker_ok w"
    using assms(1-3) by (auto simp: sup_inv_def intro: workers_ok_update)
  ultimately show ?thesis
    using assms by (auto simp: sup_inv_def intro: jobs_ok_update channel_ok_update)
qed

lemma worker_ok_nth: "sup_inv s \<Longrightarrow> k < length (js_workers s) \<Longrightarrow> worker_ok (js_workers s ! k)"
  by (simp add: sup_inv_def)

text \<open>A step on the cells alone: the lifecycle may only leave \<open>JOB_RUNNING\<close> for \<open>JOB_CANCELLED\<close>.\<close>

lemma update_control_inv:
  assumes "sup_inv s" "k < length (js_workers s)"
    and "jc_lifecycle (f (control_of s k)) = jc_lifecycle (control_of s k) \<or>
         jc_lifecycle (control_of s k) = JOB_RUNNING \<and> jc_lifecycle (f (control_of s k)) = JOB_CANCELLED"
  shows "sup_inv (update_control k f s)"
  unfolding update_control_def
proof (rule update_worker_inv [OF assms(1,2)])
  show "worker_ok ((js_workers s ! k)\<lparr>wk_control := f (wk_control (js_workers s ! k))\<rparr>)"
    using worker_ok_nth [OF assms(1,2)] assms(3)
    by (auto simp: worker_ok_def control_of_def lifecycle_defs split: if_splits)
qed (simp_all add: holds_permit_def)

lemma cancel_exchange_lifecycle:
  "jc_lifecycle (snd (cancel_exchange c)) = jc_lifecycle c \<or>
   jc_lifecycle c = JOB_RUNNING \<and> jc_lifecycle (snd (cancel_exchange c)) = JOB_CANCELLED"
  by (auto simp: cancel_exchange_def compare_exchange_def)

lemma gate_acquire_Some:
  "gate_acquire g = Some h \<longleftrightarrow> wg_active g < wg_limit g \<and> h = g\<lparr>wg_active := wg_active g + 1\<rparr>"
  by (auto simp: gate_acquire_def)

text \<open>The two worker steps that move a permit.\<close>

lemma acquire_inv:
  assumes inv: "sup_inv s" and k: "k < length (js_workers s)"
    and pt: "wk_point (js_workers s ! k) = AwaitPermit" and g: "gate_acquire (js_gate s) = Some g"
  shows "sup_inv (update_worker k (wk_point_update (\<lambda>_. HasPermit)) (s\<lparr>js_gate := g\<rparr>))"
    (is "sup_inv (update_worker k ?f ?s)")
proof -
  have k': "k < length (js_workers ?s)" using k by simp
  have "gate_ok (update_worker k ?f ?s)"
    using permits_update_worker [OF k', of ?f] inv pt g
    by (auto simp: sup_inv_def gate_ok_def gate_acquire_Some holds_permit_def)
  moreover have "worker_ok (?f (js_workers ?s ! k))"
    using worker_ok_nth [OF inv k] pt by (auto simp: worker_ok_def)
  moreover have "jobs_ok ?s" "channel_ok ?s" using inv by (simp_all add: sup_inv_def)
  ultimately show ?thesis
    using inv k' pt workers_ok_update [OF k', of ?f]
    by (auto simp: sup_inv_def intro!: jobs_ok_update channel_ok_update)
qed

lemma drop_inv:
  assumes inv: "sup_inv s" and k: "k < length (js_workers s)"
    and pt: "wk_point (js_workers s ! k) = LifecycleSettled"
  shows "sup_inv (update_worker k (wk_point_update (\<lambda>_. PermitDropped))
           (s\<lparr>js_gate := permit_drop (js_gate s)\<rparr>))" (is "sup_inv (update_worker k ?f ?s)")
proof -
  have k': "k < length (js_workers ?s)" using k by simp
  have "gate_ok (update_worker k ?f ?s)"
    using permits_update_worker [OF k', of ?f] inv pt
    by (auto simp: sup_inv_def gate_ok_def permit_drop_def holds_permit_def)
  moreover have "worker_ok (?f (js_workers ?s ! k))"
    using worker_ok_nth [OF inv k] pt by (auto simp: worker_ok_def)
  moreover have "jobs_ok ?s" "channel_ok ?s" using inv by (simp_all add: sup_inv_def)
  ultimately show ?thesis
    using inv k' pt workers_ok_update [OF k', of ?f]
    by (auto simp: sup_inv_def intro!: jobs_ok_update channel_ok_update)
qed

lemma send_completion_sel [simp]:
  "js_gate (send_completion w s) = js_gate s" "js_open (send_completion w s) = js_open s"
  "js_jobs (send_completion w s) = js_jobs s" "js_workers (send_completion w s) = js_workers s"
  "js_others (send_completion w s) = js_others s"
  by (simp_all add: send_completion_def split: option.splits)

lemma jobs_unique:
  "jobs_ok s \<Longrightarrow> (i, k) \<in> set (js_jobs s) \<Longrightarrow> (i, j) \<in> set (js_jobs s) \<Longrightarrow> j = k"
  unfolding jobs_ok_def using bt_wf_distinct eq_key_imp_eq_value by fastforce

text \<open>Sending puts the completion of a worker the map knows into the channel, once.\<close>

lemma send_fresh:
  assumes J: "jobs_ok s" and C: "channel_ok s" and known: "(i, k) \<in> set (js_jobs s)"
    and pt: "wk_point (js_workers s ! k) \<noteq> CompletionSent"
  shows "i \<notin> fst ` set (js_channel s)"
proof
  assume "i \<in> fst ` set (js_channel s)"
  then obtain r where "(i, r) \<in> set (js_channel s)" by force
  with C obtain j where "(i, j) \<in> set (js_jobs s)" "wk_point (js_workers s ! j) = CompletionSent"
    unfolding channel_ok_def by blast
  with jobs_unique [OF J known] pt show False by fastforce
qed

lemma send_channel_ok:
  assumes J: "jobs_ok s" and C: "channel_ok s" and k: "k < length (js_workers s)"
    and pt: "wk_point (js_workers s ! k) = PermitDropped" and r: "wk_reported (js_workers s ! k) = Some r"
  shows "channel_ok (update_worker k (wk_point_update (\<lambda>_. CompletionSent))
           (send_completion (js_workers s ! k) s))" (is "channel_ok ?t")
proof -
  let ?w = "js_workers s ! k"
  have old: "\<exists>j. (i, j) \<in> set (js_jobs s) \<and> wk_point (js_workers ?t ! j) = CompletionSent \<and>
      wk_reported (js_workers ?t ! j) = Some q"
    if "(i, q) \<in> set (js_channel s)" for i q
  proof -
    from that C obtain j where "(i, j) \<in> set (js_jobs s)" "wk_point (js_workers s ! j) = CompletionSent"
        "wk_reported (js_workers s ! j) = Some q"
      unfolding channel_ok_def by blast
    with pt k show ?thesis by (intro exI [of _ j]) (auto simp: update_worker_nth)
  qed
  show ?thesis
  proof (cases "js_open s")
    case False
    then have "js_channel ?t = js_channel s" using r by (simp add: send_completion_def)
    with C old False show ?thesis by (simp add: channel_ok_def)
  next
    case True
    have known: "(wk_job_id ?w, k) \<in> set (js_jobs s)" using J k pt True by (simp add: jobs_ok_def)
    have ch: "js_channel ?t = js_channel s @ [(wk_job_id ?w, r)]"
      using r True by (simp add: send_completion_def)
    have "\<exists>j. (i, j) \<in> set (js_jobs s) \<and> wk_point (js_workers ?t ! j) = CompletionSent \<and>
        wk_reported (js_workers ?t ! j) = Some q"
      if "(i, q) \<in> set (js_channel ?t)" for i q
    proof (cases "(i, q) \<in> set (js_channel s)")
      case new: False
      with that ch have "i = wk_job_id ?w" "q = r" by auto
      with known r k show ?thesis by (intro exI [of _ k]) (simp add: update_worker_nth)
    qed (rule old)
    moreover have "i \<in> fst ` set (js_channel ?t)"
      if "(i, j) \<in> set (js_jobs s)" "wk_point (js_workers ?t ! j) = CompletionSent" for i j
      using that C J k ch True by (auto simp: channel_ok_def jobs_ok_def update_worker_nth split: if_splits)
    ultimately show ?thesis
      using send_fresh [OF J C known] pt C ch unfolding channel_ok_def by simp
  qed
qed

lemma send_inv:
  assumes inv: "sup_inv s" and k: "k < length (js_workers s)"
    and pt: "wk_point (js_workers s ! k) = PermitDropped"
  shows "sup_inv (update_worker k (wk_point_update (\<lambda>_. CompletionSent))
           (send_completion (js_workers s ! k) s))" (is "sup_inv (update_worker k ?f ?s)")
proof -
  have k': "k < length (js_workers ?s)" using k by simp
  have ok: "worker_ok (js_workers s ! k)" by (rule worker_ok_nth [OF inv k])
  with pt obtain r where r: "wk_reported (js_workers s ! k) = Some r"
    by (auto simp: worker_ok_def split: if_splits)
  have J: "jobs_ok s" and C: "channel_ok s" using inv by (simp_all add: sup_inv_def)
  have "permits (update_worker k ?f ?s) = permits s"
    using permits_update_worker [OF k', of ?f] pt by (simp add: holds_permit_def permits_def)
  then have "gate_ok (update_worker k ?f ?s)" using inv by (simp add: sup_inv_def gate_ok_def)
  moreover have "worker_ok (?f (js_workers ?s ! k))" using ok pt by (auto simp: worker_ok_def)
  moreover have "jobs_ok (update_worker k ?f ?s)"
    using J k unfolding jobs_ok_def by (auto simp: update_worker_nth)
  ultimately show ?thesis
    using inv workers_ok_update [OF k', of ?f] send_channel_ok [OF J C k pt r] by (auto simp: sup_inv_def)
qed

text \<open>The steps of the supervising thread that change its map or its channel.\<close>

lemma submit_inv:
  assumes inv: "sup_inv s" and op: "js_open s" and t: "submit i e s = (r, t)"
  shows "sup_inv t"
proof (cases "t = s")
  case False
  with t have new: "i \<notin> fst ` set (js_jobs s)"
    and t: "t = s\<lparr>js_workers := js_workers s @ [worker_new i],
      js_jobs := bt_insert i (length (js_workers s)) (js_jobs s)\<rparr>"
    by (auto simp: submit_def bt_contains_key_iff split: if_splits option.splits)
  have J: "jobs_ok s" and C: "channel_ok s" and wf: "bt_wf (js_jobs s)"
    using inv by (simp_all add: sup_inv_def jobs_ok_def)
  have set_t: "set (js_jobs t) = insert (i, length (js_workers s)) (set (js_jobs s))"
    using set_bt_insert_new [OF wf new] t by simp
  have w: "worker_ok (worker_new i :: 'a worker)" "\<not> holds_permit (worker_new i :: 'a worker)"
    by (simp_all add: worker_ok_def worker_new_def job_control_new_def lifecycle_defs holds_permit_def)
  have bound: "k < length (js_workers s)" if "(j, k) \<in> set (js_jobs s)" for j k
    using J that by (simp add: jobs_ok_def)
  have "jobs_ok t"
    using J unfolding jobs_ok_def set_t
    by (auto simp: t bt_wf_insert nth_append worker_new_def less_Suc_eq)
  moreover have "channel_ok t"
    using C bound unfolding channel_ok_def set_t
    by (fastforce simp: t nth_append worker_new_def)
  ultimately show ?thesis
    using inv w by (simp add: sup_inv_def gate_ok_def permits_def t)
qed (use inv in simp)

lemma recv_inv:
  assumes inv: "sup_inv s" and t: "recv s = Some (c, t)"
  shows "sup_inv t"
proof -
  obtain i r cs where ch: "js_channel s = (i, r) # cs"
    and t: "t = s\<lparr>js_channel := cs, js_jobs := bt_remove i (js_jobs s)\<rparr>" and c: "c = (i, r)"
    using t by (cases "js_channel s"; cases c) (auto simp: recv_def)
  have J: "jobs_ok s" and C: "channel_ok s" using inv by (simp_all add: sup_inv_def)
  from C ch obtain k where k: "(i, k) \<in> set (js_jobs s)" "wk_point (js_workers s ! k) = CompletionSent"
    unfolding channel_ok_def by (metis list.set_intros(1))
  have set_t: "set (js_jobs t) = {e \<in> set (js_jobs s). fst e \<noteq> i}"
    by (auto simp: t bt_remove_def)
  have "jobs_ok t"
    using J jobs_unique [OF J k(1)] k(2) unfolding jobs_ok_def set_t by (auto simp: t bt_wf_remove)
  moreover have "channel_ok t"
  proof -
    have other: "j \<noteq> i" if "(j, q) \<in> set cs" for j q
      using C ch that by (force simp: channel_ok_def)
    show ?thesis
      using C ch unfolding channel_ok_def set_t by (simp add: t) (metis other)
  qed
  ultimately show ?thesis
    using inv by (simp add: sup_inv_def gate_ok_def permits_def t)
qed

lemma close_inv: "sup_inv s \<Longrightarrow> sup_inv (close_receiver s)"
  by (simp add: sup_inv_def close_receiver_def gate_ok_def permits_def jobs_ok_def channel_ok_def)

lemma others_inv:
  "sup_inv s \<Longrightarrow> gate_acquire (js_gate s) = Some g \<Longrightarrow>
   sup_inv (s\<lparr>js_gate := g, js_others := Suc (js_others s)\<rparr>)"
  "sup_inv s \<Longrightarrow> js_others s > 0 \<Longrightarrow>
   sup_inv (s\<lparr>js_gate := permit_drop (js_gate s), js_others := js_others s - Suc 0\<rparr>)"
  by (auto simp: sup_inv_def gate_ok_def gate_acquire_Some permit_drop_def)

lemma settle_ok:
  "worker_ok w \<Longrightarrow> wk_point w = JobReturned \<Longrightarrow> worker_ok (settle w)"
  by (auto simp: worker_ok_def settle_def compare_exchange_def lifecycle_defs)

lemma settle_sel [simp]: "wk_job_id (settle w) = wk_job_id w" "wk_point (settle w) = LifecycleSettled"
  by (simp_all add: settle_def split: prod.splits)

lemma worker_step_inv:
  assumes inv: "sup_inv s" and t: "worker_step k out s = Some t"
  shows "sup_inv t"
proof -
  from t have k: "k < length (js_workers s)" by (simp add: worker_step_def split: if_splits)
  note ok = worker_ok_nth [OF inv k]
  show ?thesis
  proof (cases "wk_point (js_workers s ! k)")
    case AwaitPermit
    with t k acquire_inv [OF inv k AwaitPermit] show ?thesis by (auto simp: worker_step_def)
  next
    case HasPermit
    with ok t k show ?thesis
      by (auto simp: worker_step_def worker_ok_def holds_permit_def split: if_splits
          intro!: update_worker_inv [OF inv k])
  next
    case InJob
    with ok t k show ?thesis
      by (auto simp: worker_step_def worker_ok_def holds_permit_def intro!: update_worker_inv [OF inv k])
  next
    case JobReturned
    with t k have t: "t = update_worker k settle s" by (simp add: worker_step_def)
    show ?thesis
      unfolding t using settle_ok [OF ok JobReturned] JobReturned
      by (intro update_worker_inv [OF inv k]) (simp_all add: holds_permit_def)
  next
    case LifecycleSettled
    with t k drop_inv [OF inv k LifecycleSettled] show ?thesis by (simp add: worker_step_def)
  next
    case PermitDropped
    with t k send_inv [OF inv k PermitDropped] show ?thesis by (simp add: worker_step_def)
  next
    case CompletionSent
    with t show ?thesis by (simp add: worker_step_def split: if_splits)
  qed
qed

lemma jobs_bound: "sup_inv s \<Longrightarrow> (i, k) \<in> set (js_jobs s) \<Longrightarrow> k < length (js_workers s)"
  by (simp add: sup_inv_def jobs_ok_def)

lemma sup_step_inv:
  assumes "sup_step s t" "sup_inv s"
  shows "sup_inv t"
  using assms
proof cases
  case (cancel_exchanged i k)
  with assms(2) show ?thesis
    by (auto intro!: update_control_inv cancel_exchange_lifecycle dest: jobs_bound)
qed (auto simp: cancel_store_def request_swap_def
    intro: submit_inv recv_inv close_inv others_inv worker_step_inv intro!: update_control_inv)

section \<open>The guarantee\<close>

lemma worker_guar_refl [simp]: "worker_guar w w"
  by (simp add: worker_guar_def)

lemma worker_guar_trans: "worker_guar u v \<Longrightarrow> worker_guar v w \<Longrightarrow> worker_guar u w"
  by (auto simp: worker_guar_def)

lemma sup_guar_same_workers:
  "js_workers t = js_workers s \<Longrightarrow> wg_limit (js_gate t) = wg_limit (js_gate s) \<Longrightarrow> sup_guar s t"
  by (simp add: sup_guar_def)

lemma sup_guar_update:
  assumes "k < length (js_workers s)" "worker_guar (js_workers s ! k) (f (js_workers s ! k))"
    and "js_workers u = js_workers s" "wg_limit (js_gate u) = wg_limit (js_gate s)"
  shows "sup_guar s (update_worker k f u)"
  using assms by (simp add: sup_guar_def update_worker_nth)

lemma settle_guar: "worker_ok w \<Longrightarrow> wk_point w = JobReturned \<Longrightarrow> worker_guar w (settle w)"
  by (auto simp: worker_guar_def worker_ok_def settle_def compare_exchange_def lifecycle_defs)

lemma worker_step_guar:
  assumes inv: "sup_inv s" and t: "worker_step k out s = Some t"
  shows "sup_guar s t"
proof -
  from t have k: "k < length (js_workers s)" by (simp add: worker_step_def split: if_splits)
  note ok = worker_ok_nth [OF inv k]
  note upd = sup_guar_update [OF k]
  from t k ok settle_guar [OF ok] show ?thesis
    by (cases "wk_point (js_workers s ! k)")
      (auto simp: worker_step_def gate_acquire_Some permit_drop_def worker_guar_def worker_ok_def
        split: if_splits intro!: upd)
qed

lemma update_control_guar:
  assumes "k < length (js_workers s)"
    and "jc_lifecycle (control_of s k) \<noteq> JOB_RUNNING \<Longrightarrow>
         jc_lifecycle (f (control_of s k)) = jc_lifecycle (control_of s k)"
  shows "sup_guar s (update_control k f s)"
  unfolding update_control_def using assms
  by (intro sup_guar_update) (simp_all add: worker_guar_def control_of_def)

lemma sup_step_guar:
  assumes "sup_step s t" "sup_inv s"
  shows "sup_guar s t"
  using assms
proof cases
  case (submitted i e r)
  then show ?thesis by (auto simp: submit_def sup_guar_def nth_append split: if_splits option.splits)
next
  case (received c)
  then show ?thesis by (auto simp: recv_def split: list.splits intro!: sup_guar_same_workers)
next
  case (cancel_exchanged i k)
  with assms(2) have "k < length (js_workers s)" by (auto dest: jobs_bound)
  with cancel_exchanged(1) cancel_exchange_lifecycle [of "control_of s k"] show ?thesis
    by (auto intro!: update_control_guar)
next
  case (cancel_stored k)
  then show ?thesis by (auto simp: cancel_store_def intro!: update_control_guar)
next
  case (request_swapped k)
  then show ?thesis by (auto simp: request_swap_def intro!: update_control_guar)
next
  case (worker k out)
  with assms(2) show ?thesis by (auto intro: worker_step_guar)
qed (auto simp: close_receiver_def gate_acquire_Some permit_drop_def intro!: sup_guar_same_workers)

lemma shared_gate_iff:
  "shared_gate gate others \<longleftrightarrow> 1 \<le> wg_limit gate \<and> others \<le> wg_limit gate \<and> wg_active gate = others"
  by (cases gate) (auto simp: shared_gate_def worker_gate_new_def)

lemma supervisor_inv: "shared_gate gate others \<Longrightarrow> sup_inv (supervisor gate others)"
  by (simp add: shared_gate_iff supervisor_def sup_inv_def gate_ok_def permits_def jobs_ok_def channel_ok_def)

interpretation sup: step_system sup_init sup_step sup_inv sup_guar
proof
  show "sup_inv s" if "sup_init s" for s :: "'a ParallelJobSupervisor"
    using that by (auto simp: sup_init_def intro: supervisor_inv)
  show "sup_guar s u" if "sup_guar s t" "sup_guar t u" for s t u :: "'a ParallelJobSupervisor"
    using that by (auto simp: sup_guar_def intro: worker_guar_trans)
qed (auto simp: sup_guar_same_workers intro: sup_step_inv sup_step_guar)

end
