(* ===== verification/Parallel_Quorum.thy ===== *)
theory Parallel_Quorum
  imports Parallel_Supervisor
begin

text \<open>
  Model of the three quorum executions built on the job supervisor: \<open>run_until_quorum\<close> and
  \<open>run_until_quorum_interruptible\<close> of \<open>crates/agent-runtime/src/parallel.rs\<close> and
  \<open>run_until_anytime_quorum_interruptible\<close> of \<open>crates/agent-runtime/src/anytime_parallel.rs\<close>.

  The calling thread is a state machine over its own program points: it submits the jobs,
  receives completions, decides when to stop, cancels the stragglers one atomic access at a time,
  collects what completed before the cancellation won and drops the supervisor. Its steps
  interleave with those of the workers and with the clock. Each of them is a step of the
  supervisor or leaves it alone, so that the supervisor's invariant carries over.
\<close>

section \<open>The calling thread\<close>

record InterruptibleQuorumPolicy =
  iq_required_successes :: usize
  iq_grace_period :: duration
  iq_poll_interval :: duration

record AnytimeQuorumPolicy =
  aq_minimum_successes :: usize
  aq_preferred_successes :: usize
  aq_improvement_window :: duration
  aq_poll_interval :: duration

text \<open>The three functions with their policies.\<close>

datatype quorum_mode =
  QuorumMode usize duration
| InterruptibleMode InterruptibleQuorumPolicy
| AnytimeMode AnytimeQuorumPolicy

definition COOPERATIVE_CANCELLATION_GRACE :: duration where
  "COOPERATIVE_CANCELLATION_GRACE = from_millis 250"

definition clamp :: "nat \<Rightarrow> nat \<Rightarrow> nat \<Rightarrow> nat" where
  "clamp lo hi x = (if x < lo then lo else if x > hi then hi else x)"

datatype 'a caller_point =
  Submitting "usize list"
| LoopHead
| Awaiting "instant option"
| CollectReady
| Cancelling "nat list" usize
| CancelStoring nat "nat list" usize
| CollectCompleted "'a ParallelJobCompletion list"
| Requesting "nat list" usize
| RequestSwapping nat "nat list" usize
| CollectFor instant "'a ParallelJobCompletion list"
| CollectAwait instant "'a ParallelJobCompletion list"
| Dropping "nat list"
| DropStoring nat "nat list"
| Returned

text \<open>\<open>ql_quorum_at\<close> is \<open>quorum_at\<close>, and \<open>minimum_at\<close> in the anytime execution.\<close>

record 'a quorum_locals =
  ql_point :: "'a caller_point"
  ql_slots :: "'a task_result option list"
  ql_received :: usize
  ql_successful :: usize
  ql_spawned :: usize
  ql_quorum_at :: "instant option"
  ql_cancelled_stragglers :: usize
  ql_interrupted :: bool

record 'a quorum_run =
  qr_supervisor :: "'a ParallelJobSupervisor"
  qr_locals :: "'a quorum_locals"
  qr_now :: instant

text \<open>The body every loop runs on a completion: \<open>result.as_ref().is_ok_and(&is_success)\<close> counts it.\<close>

definition is_ok_and :: "('a \<Rightarrow> bool) \<Rightarrow> 'a task_result \<Rightarrow> bool" where
  "is_ok_and is_success r = (case r of Inl _ \<Rightarrow> False | Inr v \<Rightarrow> is_success v)"

definition record_completion ::
  "('a \<Rightarrow> bool) \<Rightarrow> 'a ParallelJobCompletion \<Rightarrow> 'a quorum_locals \<Rightarrow> 'a quorum_locals"
where
  "record_completion is_success c l =
     l\<lparr>ql_successful := (if is_ok_and is_success (snd c) then sat_add (ql_successful l) 1 else ql_successful l),
       ql_slots := (ql_slots l)[fst c := Some (snd c)],
       ql_received := sat_add (ql_received l) 1\<rparr>"

definition go :: "'a caller_point \<Rightarrow> 'a quorum_locals \<Rightarrow> 'a quorum_locals" where
  "go p l = l\<lparr>ql_point := p\<rparr>"

text \<open>The loops of \<open>cancel_all\<close>, \<open>request_cancel_all\<close> and \<open>drop\<close> visit the controls in key order.\<close>

definition controls :: "'a ParallelJobSupervisor \<Rightarrow> nat list" where
  "controls s = map snd (js_jobs s)"

definition cancel_all :: "'a ParallelJobSupervisor \<Rightarrow> 'a caller_point" where
  "cancel_all s = Cancelling (controls s) 0"

definition request_cancel_all :: "'a ParallelJobSupervisor \<Rightarrow> 'a caller_point" where
  "request_cancel_all s = Requesting (controls s) 0"

definition drop_supervisor :: "'a ParallelJobSupervisor \<Rightarrow> 'a caller_point" where
  "drop_supervisor s = Dropping (controls s)"

text \<open>The three loop heads, up to the receiving call. \<open>interrupt\<close> is what \<open>should_interrupt()\<close> returns.\<close>

definition quorum_head ::
  "duration \<Rightarrow> instant \<Rightarrow> 'a ParallelJobSupervisor \<Rightarrow> 'a quorum_locals \<Rightarrow> 'a quorum_locals"
where
  "quorum_head grace_period now s l =
     (if ql_received l < ql_spawned l then
        case ql_quorum_at l of
          Some quorum_at \<Rightarrow>
            let remaining = grace_period - (now - quorum_at) in
            if remaining = 0 then go (cancel_all s) l else go (Awaiting (Some (now + remaining))) l
        | None \<Rightarrow> go (Awaiting None) l
      else go (drop_supervisor s) l)"

definition interruptible_head ::
  "InterruptibleQuorumPolicy \<Rightarrow> bool \<Rightarrow> instant \<Rightarrow> 'a ParallelJobSupervisor \<Rightarrow> 'a quorum_locals \<Rightarrow>
   'a quorum_locals"
where
  "interruptible_head policy interrupt now s l =
     (let poll_interval = max (iq_poll_interval policy) (from_millis 1) in
      if ql_received l < ql_spawned l then
        if interrupt then go (cancel_all s) (l\<lparr>ql_interrupted := True\<rparr>)
        else case ql_quorum_at l of
          Some quorum_at \<Rightarrow>
            let remaining = iq_grace_period policy - (now - quorum_at) in
            if remaining = 0 then go (cancel_all s) l
            else go (Awaiting (Some (now + min remaining poll_interval))) l
        | None \<Rightarrow> go (Awaiting (Some (now + poll_interval))) l
      else go (drop_supervisor s) l)"

definition anytime_bounds :: "AnytimeQuorumPolicy \<Rightarrow> usize \<Rightarrow> usize \<times> usize" where
  "anytime_bounds policy total_jobs =
     (let minimum_successes = clamp 1 total_jobs (aq_minimum_successes policy)
      in (minimum_successes, clamp minimum_successes total_jobs (aq_preferred_successes policy)))"

definition anytime_head ::
  "AnytimeQuorumPolicy \<Rightarrow> usize \<Rightarrow> bool \<Rightarrow> instant \<Rightarrow> 'a ParallelJobSupervisor \<Rightarrow> 'a quorum_locals \<Rightarrow>
   'a quorum_locals"
where
  "anytime_head policy total_jobs interrupt now s l =
     (let poll_interval = max (aq_poll_interval policy) (from_millis 1) in
      if ql_received l < ql_spawned l then
        if interrupt then go (request_cancel_all s) (l\<lparr>ql_interrupted := True\<rparr>)
        else if ql_successful l \<ge> snd (anytime_bounds policy total_jobs) then go CollectReady l
        else
          let wait = (case ql_quorum_at l of
                Some minimum_at \<Rightarrow> min (aq_improvement_window policy - (now - minimum_at)) poll_interval
              | None \<Rightarrow> poll_interval) in
          if ql_quorum_at l \<noteq> None \<and> wait = 0 then go (cancel_all s) l
          else go (Awaiting (Some (now + wait))) l
      else go (drop_supervisor s) l)"

definition loop_head ::
  "quorum_mode \<Rightarrow> usize \<Rightarrow> bool \<Rightarrow> instant \<Rightarrow> 'a ParallelJobSupervisor \<Rightarrow> 'a quorum_locals \<Rightarrow> 'a quorum_locals"
where
  "loop_head mode total_jobs interrupt now s l =
     (case mode of
        QuorumMode required grace_period \<Rightarrow> quorum_head grace_period now s l
      | InterruptibleMode policy \<Rightarrow> interruptible_head policy interrupt now s l
      | AnytimeMode policy \<Rightarrow> anytime_head policy total_jobs interrupt now s l)"

text \<open>The rest of the loop body: after a completion, and after a receive that timed out.\<close>

definition quorum_received ::
  "usize \<Rightarrow> duration \<Rightarrow> instant \<Rightarrow> 'a ParallelJobSupervisor \<Rightarrow> 'a quorum_locals \<Rightarrow> 'a quorum_locals"
where
  "quorum_received required_successes grace_period now s l =
     (if ql_successful l \<ge> required_successes \<and> ql_quorum_at l = None \<and> ql_received l < ql_spawned l then
        go (if grace_period = 0 then cancel_all s else LoopHead) (l\<lparr>ql_quorum_at := Some now\<rparr>)
      else go LoopHead l)"

definition anytime_received :: "usize \<Rightarrow> instant \<Rightarrow> 'a quorum_locals \<Rightarrow> 'a quorum_locals" where
  "anytime_received minimum_successes now l =
     (if ql_successful l \<ge> minimum_successes \<and> ql_quorum_at l = None
      then go LoopHead (l\<lparr>ql_quorum_at := Some now\<rparr>) else go LoopHead l)"

definition loop_received ::
  "quorum_mode \<Rightarrow> usize \<Rightarrow> instant \<Rightarrow> 'a ParallelJobSupervisor \<Rightarrow> 'a quorum_locals \<Rightarrow> 'a quorum_locals"
where
  "loop_received mode total_jobs now s l =
     (case mode of
        QuorumMode required grace_period \<Rightarrow> quorum_received (clamp 1 total_jobs required) grace_period now s l
      | InterruptibleMode policy \<Rightarrow>
          quorum_received (clamp 1 total_jobs (iq_required_successes policy)) (iq_grace_period policy) now s l
      | AnytimeMode policy \<Rightarrow> anytime_received (fst (anytime_bounds policy total_jobs)) now l)"

definition loop_timed_out :: "quorum_mode \<Rightarrow> 'a ParallelJobSupervisor \<Rightarrow> 'a quorum_locals \<Rightarrow> 'a quorum_locals" where
  "loop_timed_out mode s l = (case mode of QuorumMode _ _ \<Rightarrow> go (cancel_all s) l | _ \<Rightarrow> go LoopHead l)"

text \<open>The collecting loops hand over a vector; each entry is then recorded in order.\<close>

definition record_all ::
  "('a \<Rightarrow> bool) \<Rightarrow> 'a ParallelJobCompletion list \<Rightarrow> 'a quorum_locals \<Rightarrow> 'a quorum_locals"
where
  "record_all is_success cs l = fold (record_completion is_success) cs l"

text \<open>
  One step of the calling thread. \<open>interrupt\<close> and \<open>spawn_error\<close> are what the environment answers;
  \<open>None\<close> is a thread that waits (or has returned).
\<close>

definition submit_next ::
  "usize \<Rightarrow> ustring option \<Rightarrow> usize list \<Rightarrow> 'a quorum_run \<Rightarrow> 'a quorum_run"
where
  "submit_next i spawn_error rest r =
     (let (res, s) = submit i spawn_error (qr_supervisor r); l = go (Submitting rest) (qr_locals r)
      in r\<lparr>qr_supervisor := s,
           qr_locals := (case res of
             Inl e \<Rightarrow> l\<lparr>ql_slots := (ql_slots l)[i := Some (Inl e)]\<rparr> | Inr _ \<Rightarrow> l)\<rparr>)"

definition caller_step ::
  "quorum_mode \<Rightarrow> ('a \<Rightarrow> bool) \<Rightarrow> usize \<Rightarrow> bool \<Rightarrow> ustring option \<Rightarrow> 'a quorum_run \<Rightarrow> 'a quorum_run option"
where
  "caller_step mode is_success total_jobs interrupt spawn_error r =
     (let s = qr_supervisor r; l = qr_locals r; now = qr_now r;
          enter = (\<lambda>l'. Some (r\<lparr>qr_locals := l'\<rparr>));
          both = (\<lambda>s' l'. Some (r\<lparr>qr_supervisor := s', qr_locals := l'\<rparr>)) in
      case ql_point l of
        Submitting [] \<Rightarrow> enter (go LoopHead (l\<lparr>ql_spawned := pending s\<rparr>))
      | Submitting (i # rest) \<Rightarrow> Some (submit_next i spawn_error rest r)
      | LoopHead \<Rightarrow> enter (loop_head mode total_jobs interrupt now s l)
      | Awaiting None \<Rightarrow>
          (case recv s of
             None \<Rightarrow> None
           | Some (c, s') \<Rightarrow> both s' (loop_received mode total_jobs now s' (record_completion is_success c l)))
      | Awaiting (Some deadline) \<Rightarrow>
          (case recv_timeout deadline now s of
             None \<Rightarrow> None
           | Some (None, s') \<Rightarrow> both s' (loop_timed_out mode s' l)
           | Some (Some c, s') \<Rightarrow>
               both s' (loop_received mode total_jobs now s' (record_completion is_success c l)))
      | CollectReady \<Rightarrow>
          (case try_recv s of
             (None, s') \<Rightarrow> both s' (go (cancel_all s') l)
           | (Some c, s') \<Rightarrow> both s' (record_completion is_success c l))
      | Cancelling [] n \<Rightarrow> enter (go (CollectCompleted []) (l\<lparr>ql_cancelled_stragglers := n\<rparr>))
      | Cancelling (k # ks) n \<Rightarrow>
          both (update_control k (\<lambda>c. snd (cancel_exchange c)) s)
            (go (if fst (cancel_exchange (control_of s k)) then CancelStoring k ks (n + 1)
                 else Cancelling ks n) l)
      | CancelStoring k ks n \<Rightarrow> both (update_control k cancel_store s) (go (Cancelling ks n) l)
      | CollectCompleted cs \<Rightarrow>
          if any_completed s then
            (case recv s of None \<Rightarrow> None | Some (c, s') \<Rightarrow> both s' (go (CollectCompleted (cs @ [c])) l))
          else enter (go (drop_supervisor s) (record_all is_success cs l))
      | Requesting [] n \<Rightarrow>
          enter (go (CollectFor (now + COOPERATIVE_CANCELLATION_GRACE) []) (l\<lparr>ql_cancelled_stragglers := n\<rparr>))
      | Requesting (k # ks) n \<Rightarrow>
          enter (go (if request_load (control_of s k) then RequestSwapping k ks n else Requesting ks n) l)
      | RequestSwapping k ks n \<Rightarrow>
          both (update_control k (\<lambda>c. snd (request_swap c)) s)
            (go (Requesting ks (if fst (request_swap (control_of s k)) then n + 1 else n)) l)
      | CollectFor deadline cs \<Rightarrow>
          if js_jobs s \<noteq> [] \<and> now < deadline then enter (go (CollectAwait deadline cs) l)
          else enter (go (drop_supervisor s) (record_all is_success cs l))
      | CollectAwait deadline cs \<Rightarrow>
          (case recv_timeout deadline now s of
             None \<Rightarrow> None
           | Some (None, s') \<Rightarrow> both s' (go (drop_supervisor s') (record_all is_success cs l))
           | Some (Some c, s') \<Rightarrow> both s' (go (CollectFor deadline (cs @ [c])) l))
      | Dropping [] \<Rightarrow> both (close_receiver s) (go Returned l)
      | Dropping (k # ks) \<Rightarrow>
          both (update_control k (\<lambda>c. snd (cancel_exchange c)) s)
            (go (if fst (cancel_exchange (control_of s k)) then DropStoring k ks else Dropping ks) l)
      | DropStoring k ks \<Rightarrow> both (update_control k cancel_store s) (go (Dropping ks) l)
      | Returned \<Rightarrow> None)"

text \<open>The executions: no jobs return at once; otherwise the slots that stayed empty are cancelled.\<close>

record 'a QuorumExecution =
  qe_results :: "'a task_result list"
  qe_quorum_reached :: bool
  qe_successful :: usize
  qe_cancelled_stragglers :: usize

definition quorum_start :: "WorkerGate \<Rightarrow> nat \<Rightarrow> usize \<Rightarrow> instant \<Rightarrow> 'a quorum_run" where
  "quorum_start gate others total_jobs now =
     \<lparr>qr_supervisor = supervisor gate others,
      qr_locals = \<lparr>ql_point = (if total_jobs = 0 then Returned else Submitting [0..<total_jobs]),
        ql_slots = replicate total_jobs None, ql_received = 0, ql_successful = 0, ql_spawned = 0,
        ql_quorum_at = None, ql_cancelled_stragglers = 0, ql_interrupted = False\<rparr>,
      qr_now = now\<rparr>"

definition slot_result :: "'a task_result option \<Rightarrow> 'a task_result" where
  "slot_result slot = (case slot of None \<Rightarrow> Inl TaskCancelled | Some r \<Rightarrow> r)"

definition required_successes :: "quorum_mode \<Rightarrow> usize \<Rightarrow> usize" where
  "required_successes mode total_jobs =
     (case mode of
        QuorumMode required _ \<Rightarrow> clamp 1 total_jobs required
      | InterruptibleMode policy \<Rightarrow> clamp 1 total_jobs (iq_required_successes policy)
      | AnytimeMode policy \<Rightarrow> fst (anytime_bounds policy total_jobs))"

definition quorum_execution :: "quorum_mode \<Rightarrow> usize \<Rightarrow> 'a quorum_locals \<Rightarrow> 'a QuorumExecution" where
  "quorum_execution mode total_jobs l =
     (if total_jobs = 0
      then \<lparr>qe_results = [], qe_quorum_reached = False, qe_successful = 0, qe_cancelled_stragglers = 0\<rparr>
      else \<lparr>qe_results = map slot_result (ql_slots l),
            qe_quorum_reached = ql_successful l \<ge> required_successes mode total_jobs,
            qe_successful = ql_successful l, qe_cancelled_stragglers = ql_cancelled_stragglers l\<rparr>)"

text \<open>\<open>preferred_reached\<close>, which only the anytime execution returns.\<close>

definition preferred_reached :: "AnytimeQuorumPolicy \<Rightarrow> usize \<Rightarrow> 'a quorum_locals \<Rightarrow> bool" where
  "preferred_reached policy total_jobs l \<longleftrightarrow> total_jobs \<noteq> 0 \<and> ql_successful l \<ge> snd (anytime_bounds policy total_jobs)"

section \<open>The interleaving\<close>

inductive quorum_step ::
  "quorum_mode \<Rightarrow> ('a \<Rightarrow> bool) \<Rightarrow> usize \<Rightarrow> 'a quorum_run \<Rightarrow> 'a quorum_run \<Rightarrow> bool"
  for mode :: quorum_mode and is_success :: "'a \<Rightarrow> bool" and total_jobs :: usize
where
  caller: "caller_step mode is_success total_jobs interrupt spawn_error r = Some r' \<Longrightarrow>
    quorum_step mode is_success total_jobs r r'"
| thread: "worker_step k out (qr_supervisor r) = Some s \<Longrightarrow>
    quorum_step mode is_success total_jobs r (r\<lparr>qr_supervisor := s\<rparr>)"
| other_acquires: "gate_acquire (js_gate (qr_supervisor r)) = Some g \<Longrightarrow>
    quorum_step mode is_success total_jobs r
      (r\<lparr>qr_supervisor := (qr_supervisor r)\<lparr>js_gate := g, js_others := js_others (qr_supervisor r) + 1\<rparr>\<rparr>)"
| other_drops: "js_others (qr_supervisor r) > 0 \<Longrightarrow>
    quorum_step mode is_success total_jobs r
      (r\<lparr>qr_supervisor := (qr_supervisor r)\<lparr>js_gate := permit_drop (js_gate (qr_supervisor r)),
         js_others := js_others (qr_supervisor r) - 1\<rparr>\<rparr>)"
| tick: "qr_now r \<le> now \<Longrightarrow> quorum_step mode is_success total_jobs r (r\<lparr>qr_now := now\<rparr>)"

definition quorum_init :: "usize \<Rightarrow> 'a quorum_run \<Rightarrow> bool" where
  "quorum_init total_jobs r \<longleftrightarrow> total_jobs \<le> u64_max \<and>
     (\<exists>gate others now. shared_gate gate others \<and> r = quorum_start gate others total_jobs now)"

section \<open>The invariant of an execution\<close>

text \<open>What a program point still holds: jobs to submit, completions collected, controls to visit.\<close>

definition todo :: "'a caller_point \<Rightarrow> usize list" where
  "todo p = (case p of Submitting is \<Rightarrow> is | _ \<Rightarrow> [])"

definition taken :: "'a caller_point \<Rightarrow> 'a ParallelJobCompletion list" where
  "taken p = (case p of CollectCompleted cs \<Rightarrow> cs | CollectFor _ cs \<Rightarrow> cs | CollectAwait _ cs \<Rightarrow> cs | _ \<Rightarrow> [])"

definition targets :: "'a caller_point \<Rightarrow> nat list" where
  "targets p = (case p of
       Cancelling ks _ \<Rightarrow> ks | CancelStoring k ks _ \<Rightarrow> k # ks | Requesting ks _ \<Rightarrow> ks
     | RequestSwapping k ks _ \<Rightarrow> k # ks | Dropping ks \<Rightarrow> ks | DropStoring k ks \<Rightarrow> k # ks | _ \<Rightarrow> [])"

definition in_loop :: "'a caller_point \<Rightarrow> bool" where
  "in_loop p = (case p of Submitting _ \<Rightarrow> True | LoopHead \<Rightarrow> True | Awaiting _ \<Rightarrow> True | CollectReady \<Rightarrow> True | _ \<Rightarrow> False)"

definition requesting :: "'a caller_point \<Rightarrow> bool" where
  "requesting p = (case p of Requesting _ _ \<Rightarrow> True | RequestSwapping _ _ _ \<Rightarrow> True | CollectFor _ _ \<Rightarrow> True
     | CollectAwait _ _ \<Rightarrow> True | _ \<Rightarrow> False)"

text \<open>An interrupted anytime execution asks its jobs to stop; every other end cancels them.\<close>

definition cooperative :: "quorum_mode \<Rightarrow> 'a quorum_locals \<Rightarrow> bool" where
  "cooperative mode l \<longleftrightarrow> ql_interrupted l \<and> (case mode of AnytimeMode _ \<Rightarrow> True | _ \<Rightarrow> False)"

text \<open>A job whose completion the caller has received, with what its worker reported.\<close>

definition delivered :: "'a ParallelJobSupervisor \<Rightarrow> usize \<Rightarrow> 'a task_result \<Rightarrow> bool" where
  "delivered s i r \<longleftrightarrow> i \<notin> fst ` set (js_jobs s) \<and>
     (\<exists>w \<in> set (js_workers s). wk_job_id w = i \<and> wk_reported w = Some r)"

definition slots_ok ::
  "usize \<Rightarrow> 'a ParallelJobSupervisor \<Rightarrow> 'a task_result option list \<Rightarrow> usize list \<Rightarrow>
   'a ParallelJobCompletion list \<Rightarrow> bool"
where
  "slots_ok total_jobs s slots is cs \<longleftrightarrow>
     length slots = total_jobs \<and> distinct (map wk_job_id (js_workers s)) \<and> distinct is \<and>
     distinct (map fst cs) \<and>
     (\<forall>i \<in> wk_job_id ` set (js_workers s). i < total_jobs \<and> i \<notin> set is) \<and>
     (\<forall>i \<in> set is. i < total_jobs \<and> slots ! i = None) \<and>
     (\<forall>i \<in> fst ` set (js_jobs s). slots ! i = None) \<and>
     (\<forall>i r. (i, r) \<in> set cs \<longrightarrow> slots ! i = None \<and> delivered s i r) \<and>
     (\<forall>i r. delivered s i r \<longrightarrow> slots ! i = Some r \<or> (i, r) \<in> set cs) \<and>
     (\<forall>i < total_jobs. i \<notin> wk_job_id ` set (js_workers s) \<longrightarrow> i \<notin> set is \<longrightarrow>
        (\<exists>e. slots ! i = Some (Inl (TaskSpawn e))))"

definition slot_counts :: "('a \<Rightarrow> bool) \<Rightarrow> 'a task_result option \<Rightarrow> bool" where
  "slot_counts is_success slot = (case slot of None \<Rightarrow> False | Some r \<Rightarrow> is_ok_and is_success r)"

definition counts_ok ::
  "('a \<Rightarrow> bool) \<Rightarrow> 'a ParallelJobSupervisor \<Rightarrow> 'a quorum_locals \<Rightarrow> 'a ParallelJobCompletion list \<Rightarrow> bool"
where
  "counts_ok is_success s l cs \<longleftrightarrow>
     ql_received l + length cs + length (js_jobs s) = length (js_workers s) \<and>
     ql_successful l = length (filter (slot_counts is_success) (ql_slots l))"

definition spawned_ok :: "'a ParallelJobSupervisor \<Rightarrow> 'a quorum_locals \<Rightarrow> bool" where
  "spawned_ok s l \<longleftrightarrow>
     (case ql_point l of Submitting _ \<Rightarrow> ql_received l = 0 | Returned \<Rightarrow> True
      | _ \<Rightarrow> ql_spawned l = length (js_workers s))"

definition lifecycle :: "'a ParallelJobSupervisor \<Rightarrow> nat \<Rightarrow> nat" where
  "lifecycle s k = jc_lifecycle (control_of s k)"

definition cancelled_workers :: "'a ParallelJobSupervisor \<Rightarrow> nat" where
  "cancelled_workers s = length (filter (\<lambda>w. jc_lifecycle (wk_control w) = JOB_CANCELLED) (js_workers s))"

definition cancel_count :: "'a quorum_locals \<Rightarrow> nat" where
  "cancel_count l = (case ql_point l of Cancelling _ n \<Rightarrow> n | CancelStoring _ _ n \<Rightarrow> n
     | _ \<Rightarrow> ql_cancelled_stragglers l)"

text \<open>What is known of the lifecycle of a job the map still holds, by program point.\<close>

definition job_settled :: "quorum_mode \<Rightarrow> 'a quorum_locals \<Rightarrow> nat \<Rightarrow> nat \<Rightarrow> bool" where
  "job_settled mode l k lc \<longleftrightarrow>
     (case ql_point l of
        Cancelling ks _ \<Rightarrow> k \<in> set ks \<or> lc \<noteq> JOB_RUNNING
      | CancelStoring _ ks _ \<Rightarrow> k \<in> set ks \<or> lc \<noteq> JOB_RUNNING
      | CollectCompleted _ \<Rightarrow> lc \<noteq> JOB_RUNNING
      | Dropping ks \<Rightarrow> if cooperative mode l then k \<in> set ks \<or> lc \<noteq> JOB_RUNNING else lc = JOB_CANCELLED
      | DropStoring _ ks \<Rightarrow> if cooperative mode l then k \<in> set ks \<or> lc \<noteq> JOB_RUNNING else lc = JOB_CANCELLED
      | Returned \<Rightarrow> if cooperative mode l then lc \<noteq> JOB_RUNNING else lc = JOB_CANCELLED
      | _ \<Rightarrow> True)"

definition cancel_ok :: "quorum_mode \<Rightarrow> 'a ParallelJobSupervisor \<Rightarrow> 'a quorum_locals \<Rightarrow> bool" where
  "cancel_ok mode s l \<longleftrightarrow>
     (ql_point l \<noteq> Returned \<longrightarrow> js_open s) \<and>
     set (targets (ql_point l)) \<subseteq> snd ` set (js_jobs s) \<and>
     (in_loop (ql_point l) \<longrightarrow> \<not> ql_interrupted l \<and> ql_cancelled_stragglers l = 0) \<and>
     (requesting (ql_point l) \<longrightarrow> cooperative mode l) \<and>
     (\<not> cooperative mode l \<longrightarrow> cancelled_workers s = cancel_count l) \<and>
     (\<forall>k \<in> snd ` set (js_jobs s). job_settled mode l k (lifecycle s k))"

definition quorum_inv :: "quorum_mode \<Rightarrow> ('a \<Rightarrow> bool) \<Rightarrow> usize \<Rightarrow> 'a quorum_run \<Rightarrow> bool" where
  "quorum_inv mode is_success total_jobs r \<longleftrightarrow>
     (let s = qr_supervisor r; l = qr_locals r in
      total_jobs \<le> u64_max \<and> sup_inv s \<and>
      slots_ok total_jobs s (ql_slots l) (todo (ql_point l)) (taken (ql_point l)) \<and>
      counts_ok is_success s l (taken (ql_point l)) \<and> spawned_ok s l \<and> cancel_ok mode s l)"

end
