(* ===== verification/Parallel_Properties.thy ===== *)
theory Parallel_Properties
  imports Parallel_Quorum
begin

text \<open>
  The invariant of the quorum executions over every interleaving of the calling thread, the
  workers, the other users of the gate and the clock, and the properties that follow from it.
\<close>

section \<open>Delivered completions and slots\<close>

lemma unsent_in_jobs:
  assumes "sup_inv s" "w \<in> set (js_workers s)" "wk_point w \<noteq> CompletionSent"
  shows "wk_job_id w \<in> fst ` set (js_jobs s)"
proof -
  from assms(2) obtain k where k: "k < length (js_workers s)" "w = js_workers s ! k"
    by (auto simp: in_set_conv_nth)
  with assms have "(wk_job_id w, k) \<in> set (js_jobs s)" by (auto simp: sup_inv_def jobs_ok_def)
  then show ?thesis by force
qed

lemma job_of_key:
  assumes "sup_inv s" "i \<in> fst ` set (js_jobs s)"
  obtains k where "(i, k) \<in> set (js_jobs s)" "k < length (js_workers s)" "wk_job_id (js_workers s ! k) = i"
  using assms by (auto simp: sup_inv_def jobs_ok_def)

lemma recv_Some:
  "recv s = Some (c, t) \<longleftrightarrow>
   (\<exists>cs. js_channel s = c # cs \<and> t = s\<lparr>js_channel := cs, js_jobs := bt_remove (fst c) (js_jobs s)\<rparr>)"
  by (auto simp: recv_def split: list.splits)

lemma set_bt_remove: "set (bt_remove k m) = {e \<in> set m. fst e \<noteq> k}"
  by (auto simp: bt_remove_def)

lemma recv_worker:
  assumes inv: "sup_inv s" and r: "recv s = Some (c, t)"
  obtains k where "(fst c, k) \<in> set (js_jobs s)" "k < length (js_workers s)"
    "wk_job_id (js_workers s ! k) = fst c" "wk_reported (js_workers s ! k) = Some (snd c)"
proof -
  from r have "(fst c, snd c) \<in> set (js_channel s)" by (auto simp: recv_Some)
  with inv obtain k where k: "(fst c, k) \<in> set (js_jobs s)" "wk_reported (js_workers s ! k) = Some (snd c)"
    unfolding sup_inv_def channel_ok_def by blast
  with inv show ?thesis by (intro that [of k]) (auto simp: sup_inv_def jobs_ok_def)
qed

lemma same_worker:
  "distinct (map wk_job_id ws) \<Longrightarrow> v \<in> set ws \<Longrightarrow> w \<in> set ws \<Longrightarrow> wk_job_id v = wk_job_id w \<Longrightarrow> v = w"
  by (auto simp: distinct_map inj_on_def)

lemma recv_delivered:
  assumes inv: "sup_inv s" and d: "distinct (map wk_job_id (js_workers s))" and r: "recv s = Some (c, t)"
  shows "delivered t i q \<longleftrightarrow> delivered s i q \<or> (i, q) = c"
proof -
  obtain k where k: "(fst c, k) \<in> set (js_jobs s)" "k < length (js_workers s)"
    "wk_job_id (js_workers s ! k) = fst c" "wk_reported (js_workers s ! k) = Some (snd c)"
    by (rule recv_worker [OF inv r])
  have t: "js_workers t = js_workers s" "fst ` set (js_jobs t) = fst ` set (js_jobs s) - {fst c}"
    using r by (auto simp: recv_Some set_bt_remove)
  have "i = fst c \<Longrightarrow> (\<exists>w \<in> set (js_workers s). wk_job_id w = i \<and> wk_reported w = Some q) \<longleftrightarrow> q = snd c"
    using k same_worker [OF d] by (metis nth_mem option.inject)
  moreover have "fst c \<in> fst ` set (js_jobs s)" using k(1) by force
  ultimately show ?thesis unfolding delivered_def t by (cases c; cases "i = fst c") auto
qed

lemma slots_okD:
  assumes "slots_ok total_jobs s slots is cs"
  shows "length slots = total_jobs" "distinct (map wk_job_id (js_workers s))"
    "distinct is" "distinct (map fst cs)"
    "w \<in> set (js_workers s) \<Longrightarrow> wk_job_id w < total_jobs"
    "w \<in> set (js_workers s) \<Longrightarrow> wk_job_id w \<notin> set is"
    "i \<in> set is \<Longrightarrow> i < total_jobs" "i \<in> set is \<Longrightarrow> slots ! i = None"
    "i \<in> fst ` set (js_jobs s) \<Longrightarrow> slots ! i = None"
    "(i, r) \<in> set cs \<Longrightarrow> slots ! i = None" "(i, r) \<in> set cs \<Longrightarrow> delivered s i r"
    "delivered s i r \<Longrightarrow> (i, r) \<notin> set cs \<Longrightarrow> slots ! i = Some r"
    "i < total_jobs \<Longrightarrow> i \<notin> wk_job_id ` set (js_workers s) \<Longrightarrow> i \<notin> set is \<Longrightarrow>
     \<exists>e. slots ! i = Some (Inl (TaskSpawn e))"
proof -
  note ok = assms [unfolded slots_ok_def]
  from ok have cs: "\<forall>i r. (i, r) \<in> set cs \<longrightarrow> slots ! i = None \<and> delivered s i r" by (elim conjE)
  from ok have del: "\<forall>i r. delivered s i r \<longrightarrow> slots ! i = Some r \<or> (i, r) \<in> set cs" by (elim conjE)
  from ok have spawn: "\<forall>i < total_jobs. i \<notin> wk_job_id ` set (js_workers s) \<longrightarrow> i \<notin> set is \<longrightarrow>
      (\<exists>e. slots ! i = Some (Inl (TaskSpawn e)))" by (elim conjE)
  show "length slots = total_jobs" "distinct (map wk_job_id (js_workers s))" "distinct is"
    "distinct (map fst cs)"
    using ok by simp_all
  show "w \<in> set (js_workers s) \<Longrightarrow> wk_job_id w < total_jobs"
    "w \<in> set (js_workers s) \<Longrightarrow> wk_job_id w \<notin> set is"
    "i \<in> set is \<Longrightarrow> i < total_jobs" "i \<in> set is \<Longrightarrow> slots ! i = None"
    "i \<in> fst ` set (js_jobs s) \<Longrightarrow> slots ! i = None"
    using ok by auto
  show "(i, r) \<in> set cs \<Longrightarrow> slots ! i = None" "(i, r) \<in> set cs \<Longrightarrow> delivered s i r"
    "delivered s i r \<Longrightarrow> (i, r) \<notin> set cs \<Longrightarrow> slots ! i = Some r"
    "i < total_jobs \<Longrightarrow> i \<notin> wk_job_id ` set (js_workers s) \<Longrightarrow> i \<notin> set is \<Longrightarrow>
     \<exists>e. slots ! i = Some (Inl (TaskSpawn e))"
    using cs del spawn by blast+
qed

lemma delivered_no_key: "delivered s i r \<Longrightarrow> i \<notin> fst ` set (js_jobs s)"
  by (simp add: delivered_def)

lemma slots_recv:
  assumes inv: "sup_inv s" and ok: "slots_ok total_jobs s slots is cs" and r: "recv s = Some (c, t)"
  shows "slots_ok total_jobs t slots is (cs @ [c])"
proof -
  have d: "distinct (map wk_job_id (js_workers s))" using ok by (simp add: slots_ok_def)
  have t: "js_workers t = js_workers s" "fst ` set (js_jobs t) \<subseteq> fst ` set (js_jobs s)"
    using r by (auto simp: recv_Some set_bt_remove)
  obtain k where k: "(fst c, k) \<in> set (js_jobs s)" by (rule recv_worker [OF inv r])
  then have key: "fst c \<in> fst ` set (js_jobs s)" by force
  have "fst c \<notin> fst ` set cs"
  proof
    assume "fst c \<in> fst ` set cs"
    then obtain q where "(fst c, q) \<in> set cs" by force
    then show False using slots_okD(11) [OF ok] key delivered_no_key by blast
  qed
  moreover have "slots ! fst c = None" by (rule slots_okD(9) [OF ok key])
  ultimately show ?thesis
    unfolding slots_ok_def
  proof (intro conjI)
    show "\<forall>i q. (i, q) \<in> set (cs @ [c]) \<longrightarrow> slots ! i = None \<and> delivered t i q"
    proof (intro allI impI)
      fix i q
      assume "(i, q) \<in> set (cs @ [c])"
      with \<open>slots ! fst c = None\<close> slots_okD(10,11) [OF ok, of i q] recv_delivered [OF inv d r, of i q]
      show "slots ! i = None \<and> delivered t i q" by auto
    qed
    show "\<forall>i q. delivered t i q \<longrightarrow> slots ! i = Some q \<or> (i, q) \<in> set (cs @ [c])"
    proof (intro allI impI)
      fix i q
      assume "delivered t i q"
      with slots_okD(12) [OF ok, of i q] recv_delivered [OF inv d r, of i q]
      show "slots ! i = Some q \<or> (i, q) \<in> set (cs @ [c])" by auto
    qed
    show "\<forall>i \<in> fst ` set (js_jobs t). slots ! i = None"
      by (intro ballI slots_okD(9) [OF ok] subsetD [OF t(2)])
  qed (use slots_okD [OF ok] t(1) in auto)
qed

lemma delivered_unique:
  "sup_inv s \<Longrightarrow> distinct (map wk_job_id (js_workers s)) \<Longrightarrow> delivered s i q \<Longrightarrow> delivered s i r \<Longrightarrow> q = r"
  unfolding delivered_def using same_worker by (metis option.inject)

lemma slots_record:
  assumes inv: "sup_inv s" and ok: "slots_ok total_jobs s slots is (c # cs)"
  shows "slots_ok total_jobs s (slots[fst c := Some (snd c)]) is cs"
proof -
  have d: "distinct (map wk_job_id (js_workers s))" using ok by (simp add: slots_ok_def)
  have del: "delivered s (fst c) (snd c)" using ok by (cases c) (simp add: slots_ok_def)
  then obtain w where w: "w \<in> set (js_workers s)" "wk_job_id w = fst c" by (auto simp: delivered_def)
  have lt: "fst c < length slots" using slots_okD(1,5) [OF ok] w by force
  have new: "fst c \<notin> set is" "fst c \<in> wk_job_id ` set (js_workers s)"
    using slots_okD(6) [OF ok w(1)] w by force+
  have new': "fst c \<notin> fst ` set cs" "fst c \<notin> fst ` set (js_jobs s)"
    using slots_okD(4) [OF ok] delivered_no_key [OF del] by simp_all
  have uniq: "delivered s (fst c) q \<Longrightarrow> q = snd c" for q
    using delivered_unique [OF inv d] del by blast
  have nth: "slots[fst c := Some (snd c)] ! i = (if i = fst c then Some (snd c) else slots ! i)" for i
    using lt by (cases "i = fst c") simp_all
  show ?thesis
    unfolding slots_ok_def
  proof (intro conjI)
    show "\<forall>i q. (i, q) \<in> set cs \<longrightarrow> slots[fst c := Some (snd c)] ! i = None \<and> delivered s i q"
    proof (intro allI impI)
      fix i q
      assume iq: "(i, q) \<in> set cs"
      then have "i \<noteq> fst c" using new'(1) by (metis fst_conv image_eqI)
      then show "slots[fst c := Some (snd c)] ! i = None \<and> delivered s i q"
        using iq slots_okD(10,11) [OF ok, of i q] nth by simp
    qed
    show "\<forall>i q. delivered s i q \<longrightarrow> slots[fst c := Some (snd c)] ! i = Some q \<or> (i, q) \<in> set cs"
    proof (intro allI impI)
      fix i q
      assume "delivered s i q"
      with slots_okD(12) [OF ok, of i q] uniq [of q] nth [of i]
      show "slots[fst c := Some (snd c)] ! i = Some q \<or> (i, q) \<in> set cs"
        by (cases "i = fst c"; cases c) auto
    qed
    show "\<forall>i \<in> fst ` set (js_jobs s). slots[fst c := Some (snd c)] ! i = None"
    proof
      fix i
      assume i: "i \<in> fst ` set (js_jobs s)"
      with new'(2) have "i \<noteq> fst c" by blast
      with nth slots_okD(9) [OF ok i] show "slots[fst c := Some (snd c)] ! i = None" by simp
    qed
  qed (use slots_okD [OF ok] new nth in auto)
qed

text \<open>Worker steps, permits, the clock and the stores of the caller leave the slots alone.\<close>

definition same_jobs :: "'a ParallelJobSupervisor \<Rightarrow> 'a ParallelJobSupervisor \<Rightarrow> bool" where
  "same_jobs s t \<longleftrightarrow> js_jobs t = js_jobs s \<and> length (js_workers t) = length (js_workers s) \<and>
     sup_inv s \<and> sup_inv t \<and> sup_guar s t"

lemma same_jobs_ids: "same_jobs s t \<Longrightarrow> map wk_job_id (js_workers t) = map wk_job_id (js_workers s)"
  by (auto simp: same_jobs_def sup_guar_def worker_guar_def intro: nth_equalityI)

lemma same_jobs_delivered:
  assumes "same_jobs s t"
  shows "delivered t i r = delivered s i r"
proof -
  have jobs: "js_jobs t = js_jobs s" and len: "length (js_workers t) = length (js_workers s)"
    and g: "\<And>k. k < length (js_workers s) \<Longrightarrow> worker_guar (js_workers s ! k) (js_workers t ! k)"
    and inv: "sup_inv s"
    using assms by (auto simp: same_jobs_def sup_guar_def)
  have "delivered t i r" if del: "delivered s i r"
  proof -
    from del obtain k where k: "k < length (js_workers s)" "wk_job_id (js_workers s ! k) = i"
        "wk_reported (js_workers s ! k) = Some r" and nokey: "i \<notin> fst ` set (js_jobs s)"
      by (auto simp: delivered_def in_set_conv_nth)
    with g [OF k(1)] len have "wk_job_id (js_workers t ! k) = i" "wk_reported (js_workers t ! k) = Some r"
      by (simp_all add: worker_guar_def)
    with k(1) len nokey jobs show ?thesis by (auto simp: delivered_def)
  qed
  moreover have "delivered s i r" if del: "delivered t i r"
  proof -
    from del obtain k where k: "k < length (js_workers s)" "wk_job_id (js_workers t ! k) = i"
        "wk_reported (js_workers t ! k) = Some r" and nokey: "i \<notin> fst ` set (js_jobs s)"
      by (auto simp: delivered_def in_set_conv_nth jobs len)
    have id: "wk_job_id (js_workers s ! k) = i" using g [OF k(1)] k(2) by (simp add: worker_guar_def)
    have "wk_point (js_workers s ! k) = CompletionSent"
      using unsent_in_jobs [OF inv, of "js_workers s ! k"] k(1) id nokey by auto
    then have "wk_reported (js_workers s ! k) \<noteq> None"
      using worker_ok_nth [OF inv k(1)] by (auto simp: worker_ok_def split: if_splits)
    with g [OF k(1)] k(3) have "wk_reported (js_workers s ! k) = Some r" by (auto simp: worker_guar_def)
    with id nokey k(1) show ?thesis by (auto simp: delivered_def)
  qed
  ultimately show ?thesis by blast
qed

lemma same_jobs_slots:
  assumes "same_jobs s t"
  shows "slots_ok total_jobs t slots is cs = slots_ok total_jobs s slots is cs"
proof -
  have ids: "map wk_job_id (js_workers t) = map wk_job_id (js_workers s)" by (rule same_jobs_ids [OF assms])
  then have set_ids: "wk_job_id ` set (js_workers t) = wk_job_id ` set (js_workers s)"
    by (metis list.set_map)
  have "js_jobs t = js_jobs s" using assms by (simp add: same_jobs_def)
  then show ?thesis
    unfolding slots_ok_def same_jobs_delivered [OF assms] ids set_ids by simp
qed

section \<open>Counting\<close>

lemma workers_le_total:
  assumes "slots_ok total_jobs s slots is cs"
  shows "length (js_workers s) \<le> total_jobs"
proof -
  have "wk_job_id ` set (js_workers s) \<subseteq> {..<total_jobs}" using slots_okD(5) [OF assms] by auto
  then have "card (set (map wk_job_id (js_workers s))) \<le> card {..<total_jobs}"
    by (intro card_mono) simp_all
  then show ?thesis
    using distinct_card [OF slots_okD(2) [OF assms]] by simp
qed

lemma count_le_length: "length (filter P xs) \<le> length xs"
  by (rule length_filter_le)

lemma record_sel [simp]:
  "ql_point (record_completion is_success c l) = ql_point l"
  "ql_slots (record_completion is_success c l) = (ql_slots l)[fst c := Some (snd c)]"
  "ql_spawned (record_completion is_success c l) = ql_spawned l"
  "ql_quorum_at (record_completion is_success c l) = ql_quorum_at l"
  "ql_cancelled_stragglers (record_completion is_success c l) = ql_cancelled_stragglers l"
  "ql_interrupted (record_completion is_success c l) = ql_interrupted l"
  by (simp_all add: record_completion_def)

lemma counts_record:
  assumes big: "total_jobs \<le> u64_max"
    and ok: "slots_ok total_jobs s (ql_slots l) is (c # cs)" and cnt: "counts_ok is_success s l (c # cs)"
  shows "counts_ok is_success s (record_completion is_success c l) cs"
proof -
  have "delivered s (fst c) (snd c)" by (rule slots_okD(11) [OF ok]) simp
  then obtain w where "w \<in> set (js_workers s)" "wk_job_id w = fst c" by (auto simp: delivered_def)
  then have lt: "fst c < length (ql_slots l)" using slots_okD(1,5) [OF ok] by force
  have none: "ql_slots l ! fst c = None" by (rule slots_okD(10) [OF ok, of _ "snd c"]) simp
  have "length (filter (slot_counts is_success) ((ql_slots l)[fst c := Some (snd c)])) =
      ql_successful l + (if is_ok_and is_success (snd c) then 1 else 0)"
    using filter_update_length [OF lt, of "slot_counts is_success" "Some (snd c)"] cnt none
    by (simp add: counts_ok_def slot_counts_def)
  moreover have "\<dots> \<le> u64_max"
    using calculation count_le_length [of "slot_counts is_success" "(ql_slots l)[fst c := Some (snd c)]"]
      slots_okD(1) [OF ok] big by simp
  moreover have "ql_received l + 1 \<le> u64_max"
    using cnt workers_le_total [OF ok] big by (simp add: counts_ok_def)
  ultimately show ?thesis
    using cnt by (auto simp: counts_ok_def record_completion_def sat_add_exact)
qed

lemma record_all_ok:
  assumes inv: "sup_inv s" and big: "total_jobs \<le> u64_max"
    and "slots_ok total_jobs s (ql_slots l) is cs" "counts_ok is_success s l cs"
  shows "slots_ok total_jobs s (ql_slots (record_all is_success cs l)) is [] \<and>
         counts_ok is_success s (record_all is_success cs l) []"
  using assms(3,4)
proof (induction cs arbitrary: l)
  case (Cons c cs)
  from slots_record [OF inv Cons.prems(1)] counts_record [OF big Cons.prems] Cons.IH
  show ?case by (simp add: record_all_def)
qed (simp add: record_all_def)

lemma record_all_sel [simp]:
  "ql_point (record_all is_success cs l) = ql_point l"
  "ql_spawned (record_all is_success cs l) = ql_spawned l"
  "ql_quorum_at (record_all is_success cs l) = ql_quorum_at l"
  "ql_cancelled_stragglers (record_all is_success cs l) = ql_cancelled_stragglers l"
  "ql_interrupted (record_all is_success cs l) = ql_interrupted l"
  by (induction cs arbitrary: l) (simp_all add: record_all_def)

text \<open>A completion leaves the map when it is received.\<close>

lemma recv_length_jobs:
  assumes inv: "sup_inv s" and r: "recv s = Some (c, t)"
  shows "length (js_jobs s) = Suc (length (js_jobs t))" "js_workers t = js_workers s" "js_open t = js_open s"
    "snd ` set (js_jobs t) \<subseteq> snd ` set (js_jobs s)"
proof -
  obtain k where k: "(fst c, k) \<in> set (js_jobs s)" by (rule recv_worker [OF inv r])
  have wf: "bt_wf (js_jobs s)" using inv by (simp add: sup_inv_def jobs_ok_def)
  from k have "fst c \<in> fst ` set (js_jobs s)" by force
  then have "bt_get (js_jobs s) (fst c) \<noteq> None" by (simp add: bt_get_None_iff)
  then obtain v where "bt_get (js_jobs s) (fst c) = Some v" by blast
  then have "length (bt_remove (fst c) (js_jobs s)) = length (js_jobs s) - 1"
    by (rule bt.len_del_present [OF wf])
  moreover have "js_jobs s \<noteq> []" using k by auto
  ultimately show "length (js_jobs s) = Suc (length (js_jobs t))"
    using r by (auto simp: recv_Some)
  show "js_workers t = js_workers s" "js_open t = js_open s" "snd ` set (js_jobs t) \<subseteq> snd ` set (js_jobs s)"
    using r by (auto simp: recv_Some set_bt_remove)
qed

lemma counts_recv:
  "sup_inv s \<Longrightarrow> recv s = Some (c, t) \<Longrightarrow> counts_ok is_success s l cs \<Longrightarrow> counts_ok is_success t l (cs @ [c])"
  using recv_length_jobs [of s c t] by (simp add: counts_ok_def)

text \<open>Receiving a completion and recording it, as every loop does.\<close>

lemma recv_record_ok:
  assumes "sup_inv s" "total_jobs \<le> u64_max" "recv s = Some (c, t)"
    and "slots_ok total_jobs s (ql_slots l) is []" "counts_ok is_success s l []"
  shows "slots_ok total_jobs t (ql_slots (record_completion is_success c l)) is []"
    "counts_ok is_success t (record_completion is_success c l) []"
proof -
  have inv: "sup_inv t" by (rule recv_inv [OF assms(1,3)])
  have s: "slots_ok total_jobs t (ql_slots l) is [c]" using slots_recv [OF assms(1,4,3)] by simp
  have c: "counts_ok is_success t l [c]" using counts_recv [OF assms(1,3,5)] by simp
  show "slots_ok total_jobs t (ql_slots (record_completion is_success c l)) is []"
    using slots_record [OF inv s] by simp
  show "counts_ok is_success t (record_completion is_success c l) []"
    by (rule counts_record [OF assms(2) s c])
qed

section \<open>Steps outside the calling thread\<close>

definition run_ok ::
  "quorum_mode \<Rightarrow> ('a \<Rightarrow> bool) \<Rightarrow> usize \<Rightarrow> 'a ParallelJobSupervisor \<Rightarrow> 'a quorum_locals \<Rightarrow> bool"
where
  "run_ok mode is_success total_jobs s l \<longleftrightarrow> total_jobs \<le> u64_max \<and> sup_inv s \<and>
     slots_ok total_jobs s (ql_slots l) (todo (ql_point l)) (taken (ql_point l)) \<and>
     counts_ok is_success s l (taken (ql_point l)) \<and> spawned_ok s l \<and> cancel_ok mode s l"

lemma quorum_inv_run_ok:
  "quorum_inv mode is_success total_jobs r = run_ok mode is_success total_jobs (qr_supervisor r) (qr_locals r)"
  by (simp add: quorum_inv_def run_ok_def Let_def)

lemma job_settled_stable:
  "job_settled mode l k lc \<Longrightarrow> (lc \<noteq> JOB_RUNNING \<Longrightarrow> lc' = lc) \<Longrightarrow> job_settled mode l k lc'"
  by (auto simp: job_settled_def lifecycle_defs split: caller_point.splits if_splits)

lemma lifecycle_guar:
  "sup_guar s t \<Longrightarrow> k < length (js_workers s) \<Longrightarrow> lifecycle s k \<noteq> JOB_RUNNING \<Longrightarrow> lifecycle t k = lifecycle s k"
  by (simp add: sup_guar_def worker_guar_def lifecycle_def control_of_def)

lemma jobs_snd_bound: "sup_inv s \<Longrightarrow> k \<in> snd ` set (js_jobs s) \<Longrightarrow> k < length (js_workers s)"
  by (auto dest: jobs_bound)

lemma settled_stable:
  assumes "same_jobs s t" "\<forall>k \<in> snd ` set (js_jobs s). job_settled mode l k (lifecycle s k)"
  shows "\<forall>k \<in> snd ` set (js_jobs t). job_settled mode l k (lifecycle t k)"
proof
  fix k
  assume "k \<in> snd ` set (js_jobs t)"
  then have k: "k \<in> snd ` set (js_jobs s)" using assms(1) by (simp add: same_jobs_def)
  then have "k < length (js_workers s)" using assms(1) by (auto simp: same_jobs_def dest: jobs_snd_bound)
  then have "lifecycle s k \<noteq> JOB_RUNNING \<Longrightarrow> lifecycle t k = lifecycle s k"
    using assms(1) by (intro lifecycle_guar) (simp_all add: same_jobs_def)
  with bspec [OF assms(2) k] show "job_settled mode l k (lifecycle t k)" by (rule job_settled_stable)
qed

lemma run_ok_same_jobs:
  assumes "run_ok mode is_success total_jobs s l" "same_jobs s t" "js_open t = js_open s"
    "cancelled_workers t = cancelled_workers s"
  shows "run_ok mode is_success total_jobs t l"
proof -
  have t: "js_jobs t = js_jobs s" "length (js_workers t) = length (js_workers s)" "sup_inv t"
    using assms(2) by (simp_all add: same_jobs_def)
  have "cancel_ok mode s l" using assms(1) by (simp add: run_ok_def)
  then have "cancel_ok mode t l"
    using assms(3,4) settled_stable [OF assms(2), of mode l] by (simp add: cancel_ok_def t(1))
  then show ?thesis
    using assms(1) unfolding run_ok_def counts_ok_def spawned_ok_def same_jobs_slots [OF assms(2)] t(1,2)
    by (simp add: t(3))
qed

lemma cancelled_update:
  "k < length (js_workers s) \<Longrightarrow>
   cancelled_workers (update_worker k f s) +
     (if jc_lifecycle (wk_control (js_workers s ! k)) = JOB_CANCELLED then 1 else 0) =
   cancelled_workers s +
     (if jc_lifecycle (wk_control (f (js_workers s ! k))) = JOB_CANCELLED then 1 else 0)"
  using filter_update_length [of k "js_workers s" "\<lambda>w. jc_lifecycle (wk_control w) = JOB_CANCELLED"
      "f (js_workers s ! k)"]
  by (simp add: cancelled_workers_def update_worker_def)

lemma cancelled_update_same:
  "k < length (js_workers s) \<Longrightarrow>
   (jc_lifecycle (wk_control (f (js_workers s ! k))) = JOB_CANCELLED \<longleftrightarrow>
    jc_lifecycle (wk_control (js_workers s ! k)) = JOB_CANCELLED) \<Longrightarrow>
   cancelled_workers (update_worker k f s) = cancelled_workers s"
  using cancelled_update [of k s f] by (auto split: if_splits)

lemma cancelled_other [simp]:
  "cancelled_workers (s\<lparr>js_gate := g\<rparr>) = cancelled_workers s"
  "cancelled_workers (s\<lparr>js_gate := g, js_others := n\<rparr>) = cancelled_workers s"
  "cancelled_workers (send_completion w s) = cancelled_workers s"
  by (simp_all add: cancelled_workers_def)

lemma settle_cancelled:
  "jc_lifecycle (wk_control (settle w)) = JOB_CANCELLED \<longleftrightarrow> jc_lifecycle (wk_control w) = JOB_CANCELLED"
  by (auto simp: settle_def compare_exchange_def lifecycle_defs)

lemma worker_step_same_jobs:
  assumes inv: "sup_inv s" and t: "worker_step k out s = Some t"
  shows "same_jobs s t" "js_open t = js_open s" "cancelled_workers t = cancelled_workers s"
proof -
  have k: "k < length (js_workers s)" using t by (simp add: worker_step_def split: if_splits)
  have shape: "js_jobs t = js_jobs s \<and> length (js_workers t) = length (js_workers s) \<and> js_open t = js_open s"
    using t k by (cases "wk_point (js_workers s ! k)") (auto simp: worker_step_def split: if_splits)
  then show "same_jobs s t" "js_open t = js_open s"
    using worker_step_inv [OF inv t] worker_step_guar [OF inv t] inv by (simp_all add: same_jobs_def)
  show "cancelled_workers t = cancelled_workers s"
    using t k by (cases "wk_point (js_workers s ! k)")
      (auto simp: worker_step_def cancelled_update_same settle_cancelled split: if_splits)
qed

lemma others_same_jobs:
  assumes "sup_inv s"
  shows "gate_acquire (js_gate s) = Some g \<Longrightarrow>
      same_jobs s (s\<lparr>js_gate := g, js_others := Suc (js_others s)\<rparr>)"
    "js_others s > 0 \<Longrightarrow>
      same_jobs s (s\<lparr>js_gate := permit_drop (js_gate s), js_others := js_others s - Suc 0\<rparr>)"
  using assms others_inv [OF assms]
  by (auto simp: same_jobs_def gate_acquire_Some permit_drop_def intro: sup_guar_same_workers)

section \<open>Steps of the calling thread\<close>

lemmas point_defs = todo_def taken_def targets_def in_loop_def requesting_def spawned_ok_def
  cancel_count_def job_settled_def go_def

text \<open>The caller moves on without touching the supervisor or what it has recorded.\<close>

definition same_record :: "'a quorum_locals \<Rightarrow> 'a quorum_locals \<Rightarrow> bool" where
  "same_record l l' \<longleftrightarrow> ql_slots l' = ql_slots l \<and> ql_received l' = ql_received l \<and>
     ql_successful l' = ql_successful l \<and> ql_spawned l' = ql_spawned l"

definition waits :: "'a caller_point \<Rightarrow> bool" where
  "waits p = (case p of LoopHead \<Rightarrow> True | Awaiting _ \<Rightarrow> True | CollectReady \<Rightarrow> True | _ \<Rightarrow> False)"

lemma waits_in_loop: "waits p \<Longrightarrow> in_loop p \<and> todo p = [] \<and> taken p = [] \<and> targets p = []"
  by (cases p) (simp_all add: waits_def point_defs)

lemma run_ok_moved:
  assumes "run_ok mode is_success total_jobs s l" "waits (ql_point l)" "same_record l l'"
    and "todo (ql_point l') = []" "taken (ql_point l') = []" "spawned_ok s l'" "cancel_ok mode s l'"
  shows "run_ok mode is_success total_jobs s l'"
  using assms waits_in_loop [OF assms(2)] by (simp add: run_ok_def same_record_def counts_ok_def)

lemma waiting_facts:
  assumes "run_ok mode is_success total_jobs s l" "waits (ql_point l)"
  shows "js_open s" "\<not> ql_interrupted l" "ql_cancelled_stragglers l = 0" "cancelled_workers s = 0"
    "ql_spawned l = length (js_workers s)"
    "ql_received l + length (js_jobs s) = length (js_workers s)"
proof -
  have "cancel_ok mode s l" "spawned_ok s l" "counts_ok is_success s l []"
    using assms waits_in_loop [OF assms(2)] by (simp_all add: run_ok_def)
  with assms(2) waits_in_loop [OF assms(2)] show "js_open s" "\<not> ql_interrupted l"
    "ql_cancelled_stragglers l = 0" "cancelled_workers s = 0" "ql_spawned l = length (js_workers s)"
    "ql_received l + length (js_jobs s) = length (js_workers s)"
    by (cases "ql_point l"; simp add: waits_def cancel_ok_def spawned_ok_def cancel_count_def
        counts_ok_def cooperative_def)+
qed

lemma stay_in_loop:
  assumes "run_ok mode is_success total_jobs s l" "waits (ql_point l)" "same_record l l'"
    and "waits p" "\<not> ql_interrupted l'" "ql_cancelled_stragglers l' = 0"
  shows "run_ok mode is_success total_jobs s (go p l')"
proof (rule run_ok_moved [OF assms(1,2)])
  note w = waits_in_loop [OF assms(4)] and f = waiting_facts [OF assms(1,2)]
  show "same_record l (go p l')" using assms(3) by (simp add: same_record_def go_def)
  show "todo (ql_point (go p l')) = []" "taken (ql_point (go p l')) = []"
    using w by (simp_all add: go_def)
  show "spawned_ok s (go p l')"
    using assms(3,4) f by (cases p) (simp_all add: spawned_ok_def same_record_def go_def waits_def)
  show "cancel_ok mode s (go p l')"
    using assms(4-6) f w by (cases p)
      (simp_all add: cancel_ok_def go_def waits_def point_defs cooperative_def)
qed

lemma enter_cancel:
  assumes "run_ok mode is_success total_jobs s l" "waits (ql_point l)" "same_record l l'"
    and "\<not> cooperative mode l'"
  shows "run_ok mode is_success total_jobs s (go (cancel_all s) l')"
  using assms waiting_facts [OF assms(1,2)]
  by (intro run_ok_moved [OF assms(1,2)])
    (auto simp: same_record_def cancel_all_def controls_def cancel_ok_def point_defs cooperative_def)

lemma enter_request:
  assumes "run_ok mode is_success total_jobs s l" "waits (ql_point l)" "same_record l l'"
    and "cooperative mode l'"
  shows "run_ok mode is_success total_jobs s (go (request_cancel_all s) l')"
  using assms waiting_facts [OF assms(1,2)]
  by (intro run_ok_moved [OF assms(1,2)])
    (auto simp: same_record_def request_cancel_all_def controls_def cancel_ok_def point_defs cooperative_def)

lemma enter_drop:
  assumes "run_ok mode is_success total_jobs s l" "waits (ql_point l)" "\<not> ql_received l < ql_spawned l"
  shows "run_ok mode is_success total_jobs s (go (drop_supervisor s) l)"
proof -
  note f = waiting_facts [OF assms(1,2)]
  then have "length (js_jobs s) = 0" using assms(3) by linarith
  then have "js_jobs s = []" by simp
  with f show ?thesis
    by (intro run_ok_moved [OF assms(1,2)])
      (auto simp: same_record_def drop_supervisor_def controls_def cancel_ok_def point_defs cooperative_def)
qed

lemma same_record_simps [simp]:
  "same_record l l" "same_record l (l\<lparr>ql_interrupted := b\<rparr>)" "same_record l (l\<lparr>ql_quorum_at := q\<rparr>)"
  by (simp_all add: same_record_def)

lemma loop_head_ok:
  assumes ok: "run_ok mode is_success total_jobs s l" and p: "ql_point l = LoopHead"
  shows "run_ok mode is_success total_jobs s (loop_head mode total_jobs interrupt now s l)"
proof -
  have w: "waits (ql_point l)" using p by (simp add: waits_def)
  note f = waiting_facts [OF ok w]
  have coop: "\<not> cooperative mode l" using f by (simp add: cooperative_def)
  have stay: "run_ok mode is_success total_jobs s (go q l)" if "waits q" for q
    using stay_in_loop [OF ok w _ that, of l] f by simp
  have await: "waits (Awaiting d)" "waits CollectReady" for d by (simp_all add: waits_def)
  note steps = stay [OF await(1)] stay [OF await(2)] enter_cancel [OF ok w _ coop] enter_drop [OF ok w]
  show ?thesis
  proof (cases mode)
    case (QuorumMode required grace)
    then show ?thesis using steps by (auto simp: loop_head_def quorum_head_def Let_def split: option.splits)
  next
    case (InterruptibleMode policy)
    have "\<not> cooperative mode (l\<lparr>ql_interrupted := True\<rparr>)"
      using InterruptibleMode by (simp add: cooperative_def)
    from enter_cancel [OF ok w _ this] steps show ?thesis
      unfolding InterruptibleMode loop_head_def interruptible_head_def
      by (auto simp: Let_def split: option.splits)
  next
    case (AnytimeMode policy)
    have "cooperative mode (l\<lparr>ql_interrupted := True\<rparr>)" using AnytimeMode by (simp add: cooperative_def)
    from enter_request [OF ok w _ this] steps show ?thesis
      unfolding AnytimeMode loop_head_def anytime_head_def
      by (auto simp: Let_def split: option.splits)
  qed
qed

text \<open>A completion received in the loop is recorded, and the loop goes on or starts to cancel.\<close>

lemma cancelled_workers_cong: "js_workers t = js_workers s \<Longrightarrow> cancelled_workers t = cancelled_workers s"
  by (simp add: cancelled_workers_def)

lemma lifecycle_cong: "js_workers t = js_workers s \<Longrightarrow> lifecycle t k = lifecycle s k"
  by (simp add: lifecycle_def control_of_def)

lemma recv_record_run_ok:
  assumes ok: "run_ok mode is_success total_jobs s l" and w: "waits (ql_point l)"
    and r: "recv s = Some (c, t)"
  shows "run_ok mode is_success total_jobs t (record_completion is_success c l)"
proof -
  have inv: "sup_inv s" and big: "total_jobs \<le> u64_max" using ok by (simp_all add: run_ok_def)
  note q = waits_in_loop [OF w] and f = waiting_facts [OF ok w] and t = recv_length_jobs [OF inv r]
  have "slots_ok total_jobs s (ql_slots l) [] []" "counts_ok is_success s l []"
    using ok q by (simp_all add: run_ok_def)
  note rec = recv_record_ok [OF inv big r this]
  have "spawned_ok t (record_completion is_success c l)" "cancel_ok mode t (record_completion is_success c l)"
    using ok f q t w cancelled_workers_cong [OF t(2)]
    by (cases "ql_point l"; simp add: run_ok_def spawned_ok_def cancel_ok_def point_defs waits_def
        cooperative_def)+
  with rec recv_inv [OF inv r] big q show ?thesis by (simp add: run_ok_def)
qed

lemma waits_record: "waits (ql_point l) \<Longrightarrow> waits (ql_point (record_completion is_success c l))"
  by simp

lemma loop_received_ok:
  assumes ok: "run_ok mode is_success total_jobs s l" and w: "waits (ql_point l)"
  shows "run_ok mode is_success total_jobs s (loop_received mode total_jobs now s l)"
proof -
  note f = waiting_facts [OF ok w]
  have head: "waits LoopHead" by (simp add: waits_def)
  have coop: "\<not> cooperative mode (l\<lparr>ql_quorum_at := q\<rparr>)" for q using f by (simp add: cooperative_def)
  from stay_in_loop [OF ok w _ head] enter_cancel [OF ok w _ coop] f show ?thesis
    by (cases mode) (auto simp: loop_received_def quorum_received_def anytime_received_def)
qed

lemma loop_timed_out_ok:
  assumes ok: "run_ok mode is_success total_jobs s l" and w: "waits (ql_point l)"
  shows "run_ok mode is_success total_jobs s (loop_timed_out mode s l)"
proof -
  note f = waiting_facts [OF ok w]
  have head: "waits LoopHead" by (simp add: waits_def)
  have coop: "\<not> cooperative mode l" using f by (simp add: cooperative_def)
  from stay_in_loop [OF ok w _ head] enter_cancel [OF ok w _ coop] f show ?thesis
    by (cases mode) (auto simp: loop_timed_out_def)
qed

text \<open>Submitting the next job, and the end of the submissions.\<close>

lemma submit_fresh:
  assumes ok: "run_ok mode is_success total_jobs s l" and p: "ql_point l = Submitting (i # is)"
  shows "i \<notin> fst ` set (js_jobs s)" "i < total_jobs" "i \<notin> wk_job_id ` set (js_workers s)" "i \<notin> set is"
proof -
  have inv: "sup_inv s" and sl: "slots_ok total_jobs s (ql_slots l) (i # is) []"
    using ok p by (simp_all add: run_ok_def point_defs)
  show "i < total_jobs" "i \<notin> set is" using slots_okD(3) [OF sl] slots_okD(7) [OF sl, of i] by simp_all
  show new: "i \<notin> wk_job_id ` set (js_workers s)" using slots_okD(6) [OF sl] by auto
  show "i \<notin> fst ` set (js_jobs s)"
  proof
    assume "i \<in> fst ` set (js_jobs s)"
    then obtain k where "k < length (js_workers s)" "wk_job_id (js_workers s ! k) = i"
      by (rule job_of_key [OF inv])
    with new show False by auto
  qed
qed

lemma submit_failed_ok:
  assumes ok: "run_ok mode is_success total_jobs s l" and p: "ql_point l = Submitting (i # is)"
  shows "run_ok mode is_success total_jobs s
           ((go (Submitting is) l)\<lparr>ql_slots := (ql_slots l)[i := Some (Inl (TaskSpawn e))]\<rparr>)"
proof -
  note fresh = submit_fresh [OF ok p]
  have sl: "slots_ok total_jobs s (ql_slots l) (i # is) []" using ok p by (simp add: run_ok_def point_defs)
  have len: "i < length (ql_slots l)" using fresh(2) slots_okD(1) [OF sl] by simp
  have nth: "(ql_slots l)[i := x] ! j = (if j = i then x else ql_slots l ! j)" for j x
    using len by (cases "j = i") simp_all
  have nodel: "\<not> delivered s i r" for r using fresh(3) by (auto simp: delivered_def)
  have "slots_ok total_jobs s ((ql_slots l)[i := Some (Inl (TaskSpawn e))]) is []"
    unfolding slots_ok_def
  proof (intro conjI)
    show "\<forall>j \<in> fst ` set (js_jobs s). (ql_slots l)[i := Some (Inl (TaskSpawn e))] ! j = None"
      using slots_okD(9) [OF sl] fresh(1) nth by (metis image_iff)
    show "\<forall>j r. delivered s j r \<longrightarrow>
        (ql_slots l)[i := Some (Inl (TaskSpawn e))] ! j = Some r \<or> (j, r) \<in> set []"
      using slots_okD(12) [OF sl] nodel nth by (metis empty_iff list.set(1))
    show "\<forall>j < total_jobs. j \<notin> wk_job_id ` set (js_workers s) \<longrightarrow> j \<notin> set is \<longrightarrow>
        (\<exists>e'. (ql_slots l)[i := Some (Inl (TaskSpawn e))] ! j = Some (Inl (TaskSpawn e')))"
      using slots_okD(13) [OF sl] nth by (metis set_ConsD)
  qed (use slots_okD [OF sl] fresh nth in auto)
  moreover have "length (filter (slot_counts is_success) ((ql_slots l)[i := Some (Inl (TaskSpawn e))])) =
      length (filter (slot_counts is_success) (ql_slots l))"
    using filter_update_length [OF len, of "slot_counts is_success" "Some (Inl (TaskSpawn e))"]
      slots_okD(8) [OF sl, of i] by (simp add: slot_counts_def is_ok_and_def)
  ultimately show ?thesis
    using ok p by (simp add: run_ok_def point_defs counts_ok_def cancel_ok_def cooperative_def)
qed

lemma submit_spawned_ok:
  assumes ok: "run_ok mode is_success total_jobs s l" and p: "ql_point l = Submitting (i # is)"
    and t: "t = s\<lparr>js_workers := js_workers s @ [worker_new i],
      js_jobs := bt_insert i (length (js_workers s)) (js_jobs s)\<rparr>"
  shows "run_ok mode is_success total_jobs t (go (Submitting is) l)"
proof -
  note fresh = submit_fresh [OF ok p]
  have inv: "sup_inv s" and sl: "slots_ok total_jobs s (ql_slots l) (i # is) []" and op: "js_open s"
    using ok p by (simp_all add: run_ok_def point_defs cancel_ok_def)
  have wf: "bt_wf (js_jobs s)" using inv by (simp add: sup_inv_def jobs_ok_def)
  have "submit i None s = (Inr (), t)"
    using fresh(1) by (simp add: submit_def bt_contains_key_iff t)
  then have inv_t: "sup_inv t" by (rule submit_inv [OF inv op])
  have keys: "fst ` set (js_jobs t) = insert i (fst ` set (js_jobs s))" by (simp add: t)
  have ids: "wk_job_id ` set (js_workers t) = insert i (wk_job_id ` set (js_workers s))"
    by (simp add: t worker_new_def)
  have del: "delivered t j r = delivered s j r" for j r
    unfolding delivered_def keys using fresh(3) by (auto simp: t worker_new_def)
  have "slots_ok total_jobs t (ql_slots l) is []"
    unfolding slots_ok_def del keys ids
  proof (intro conjI)
    show "distinct (map wk_job_id (js_workers t))"
      using slots_okD(2) [OF sl] fresh(3) by (simp add: t worker_new_def)
    show "\<forall>j r. delivered s j r \<longrightarrow> ql_slots l ! j = Some r \<or> (j, r) \<in> set []"
      using slots_okD(12) [OF sl] by simp
    show "\<forall>j < total_jobs. j \<notin> insert i (wk_job_id ` set (js_workers s)) \<longrightarrow> j \<notin> set is \<longrightarrow>
        (\<exists>e. ql_slots l ! j = Some (Inl (TaskSpawn e)))"
      using slots_okD(13) [OF sl] by simp
    show "\<forall>j \<in> insert i (fst ` set (js_jobs s)). ql_slots l ! j = None"
      using slots_okD(8,9) [OF sl] by simp
  qed (use slots_okD [OF sl] fresh in auto)
  moreover have "length (js_jobs t) = Suc (length (js_jobs s))"
    using fresh(1) bt.len_put_absent [OF wf] by (simp add: t bt_get_None_iff)
  moreover have "cancelled_workers t = cancelled_workers s"
    by (simp add: cancelled_workers_def t worker_new_def job_control_new_def lifecycle_defs)
  ultimately show ?thesis
    using ok p inv_t by (simp add: run_ok_def point_defs counts_ok_def cancel_ok_def cooperative_def t)
qed

lemma submit_next_ok:
  assumes ok: "run_ok mode is_success total_jobs (qr_supervisor r) (qr_locals r)"
    and p: "ql_point (qr_locals r) = Submitting (i # is)" and r': "r' = submit_next i e is r"
  shows "run_ok mode is_success total_jobs (qr_supervisor r') (qr_locals r')"
  using submit_failed_ok [OF ok p] submit_spawned_ok [OF ok p refl] submit_fresh(1) [OF ok p]
  by (cases e) (simp_all add: r' submit_next_def submit_def bt_contains_key_iff go_def)

lemma submitted_ok:
  assumes ok: "run_ok mode is_success total_jobs s l" and p: "ql_point l = Submitting []"
  shows "run_ok mode is_success total_jobs s (go LoopHead (l\<lparr>ql_spawned := pending s\<rparr>))"
  using ok p by (simp add: run_ok_def point_defs counts_ok_def cancel_ok_def cooperative_def pending_def)

section \<open>Cancelling and collecting\<close>

text \<open>The stores and exchanges of the caller on the cells of a job the map holds.\<close>

lemma update_control_same_jobs:
  assumes inv: "sup_inv s" and k: "k < length (js_workers s)"
    and f: "jc_lifecycle (f (control_of s k)) = jc_lifecycle (control_of s k) \<or>
         jc_lifecycle (control_of s k) = JOB_RUNNING \<and> jc_lifecycle (f (control_of s k)) = JOB_CANCELLED"
  shows "same_jobs s (update_control k f s)"
  using update_control_inv [of s k f, OF inv k f] update_control_guar [OF k, of f] inv f
  by (auto simp: same_jobs_def update_control_def)

lemma lifecycle_update:
  "k < length (js_workers s) \<Longrightarrow>
   lifecycle (update_control k f s) j = (if j = k then jc_lifecycle (f (control_of s k)) else lifecycle s j)"
  by (simp add: lifecycle_def control_of_def update_control_def update_worker_nth)

lemma cancelled_update_control:
  "k < length (js_workers s) \<Longrightarrow>
   cancelled_workers (update_control k f s) + (if lifecycle s k = JOB_CANCELLED then 1 else 0) =
   cancelled_workers s + (if jc_lifecycle (f (control_of s k)) = JOB_CANCELLED then 1 else 0)"
  unfolding update_control_def lifecycle_def control_of_def
  using cancelled_update [of k s "\<lambda>w. w\<lparr>wk_control := f (wk_control w)\<rparr>"] by simp

lemma exchange_lost:
  "\<not> fst (cancel_exchange c) \<longleftrightarrow> jc_lifecycle c \<noteq> JOB_RUNNING"
  "\<not> fst (cancel_exchange c) \<Longrightarrow> snd (cancel_exchange c) = c"
  "fst (cancel_exchange c) \<Longrightarrow> jc_lifecycle (snd (cancel_exchange c)) = JOB_CANCELLED"
  by (auto simp: cancel_exchange_def compare_exchange_def)

text \<open>A change of the caller's point alone.\<close>

lemma run_ok_go:
  assumes "run_ok mode is_success total_jobs s l" "todo p = todo (ql_point l)" "taken p = taken (ql_point l)"
    and "spawned_ok s (go p l)" "cancel_ok mode s (go p l)"
  shows "run_ok mode is_success total_jobs s (go p l)"
  using assms by (simp add: run_ok_def counts_ok_def go_def)

lemma update_control_run_ok:
  assumes ok: "run_ok mode is_success total_jobs s l" and k: "k \<in> snd ` set (js_jobs s)"
    and f: "jc_lifecycle (f (control_of s k)) = jc_lifecycle (control_of s k)"
  shows "run_ok mode is_success total_jobs (update_control k f s) l"
proof -
  have inv: "sup_inv s" using ok by (simp add: run_ok_def)
  have len: "k < length (js_workers s)" by (rule jobs_snd_bound [OF inv k])
  show ?thesis
    using cancelled_update_control [OF len, of f] f
    by (intro run_ok_same_jobs [OF ok] update_control_same_jobs [OF inv len])
      (auto simp: update_control_def lifecycle_def split: if_splits)
qed

lemma cancel_step_ok:
  assumes ok: "run_ok mode is_success total_jobs s l" and p: "ql_point l = Cancelling (k # ks) n"
  shows "run_ok mode is_success total_jobs (update_control k (\<lambda>c. snd (cancel_exchange c)) s)
    (go (if fst (cancel_exchange (control_of s k)) then CancelStoring k ks (n + 1) else Cancelling ks n) l)"
    (is "run_ok _ _ _ ?t _")
proof -
  have inv: "sup_inv s" and k: "k \<in> snd ` set (js_jobs s)" and c: "cancel_ok mode s l"
    using ok p by (auto simp: run_ok_def cancel_ok_def point_defs)
  have len: "k < length (js_workers s)" by (rule jobs_snd_bound [OF inv k])
  have same: "same_jobs s ?t"
    by (intro update_control_same_jobs inv len cancel_exchange_lifecycle)
  have jobs: "js_jobs ?t = js_jobs s" "js_open ?t = js_open s" "length (js_workers ?t) = length (js_workers s)"
    by (simp_all add: update_control_def)
  have life: "lifecycle ?t j = (if j = k then jc_lifecycle (snd (cancel_exchange (control_of s k)))
      else lifecycle s j)" for j
    by (rule lifecycle_update [OF len])
  have cnt: "cancelled_workers ?t = cancelled_workers s + (if fst (cancel_exchange (control_of s k)) then 1 else 0)"
    using cancelled_update_control [OF len, of "\<lambda>c. snd (cancel_exchange c)"]
    by (auto simp: lifecycle_def cancel_exchange_def compare_exchange_def lifecycle_defs split: if_splits)
  have notrun: "lifecycle ?t k \<noteq> JOB_RUNNING"
    unfolding life by (auto simp: cancel_exchange_def compare_exchange_def lifecycle_defs)
  have "cancel_ok mode ?t
      (go (if fst (cancel_exchange (control_of s k)) then CancelStoring k ks (n + 1) else Cancelling ks n) l)"
    using c p cnt notrun life by (auto simp: cancel_ok_def point_defs cooperative_def jobs split: if_splits)
  then show ?thesis
    using ok p same_jobs_slots [OF same] same
    by (auto simp: run_ok_def point_defs counts_ok_def jobs same_jobs_def)
qed

lemma cancel_store_ok:
  assumes ok: "run_ok mode is_success total_jobs s l" and p: "ql_point l = CancelStoring k ks n"
  shows "run_ok mode is_success total_jobs (update_control k cancel_store s) (go (Cancelling ks n) l)"
proof -
  have k: "k \<in> snd ` set (js_jobs s)" using ok p by (simp add: run_ok_def cancel_ok_def point_defs)
  have ok': "run_ok mode is_success total_jobs (update_control k cancel_store s) l"
    using ok k by (rule update_control_run_ok) (simp add: cancel_store_def)
  then show ?thesis
    using p by (intro run_ok_go) (auto simp: run_ok_def cancel_ok_def point_defs cooperative_def)
qed

lemma cancelled_all_ok:
  assumes "run_ok mode is_success total_jobs s l" "ql_point l = Cancelling [] n"
  shows "run_ok mode is_success total_jobs s
    (go (CollectCompleted []) (l\<lparr>ql_cancelled_stragglers := n\<rparr>))"
  using assms by (simp add: run_ok_def point_defs counts_ok_def cancel_ok_def cooperative_def)

text \<open>Collecting: a completion moves from the channel to the vector of the collecting loop.\<close>

lemma collect_ok:
  assumes ok: "run_ok mode is_success total_jobs s l" and r: "recv s = Some (c, t)"
    and p: "ql_point l = CollectCompleted cs \<and> q = CollectCompleted (cs @ [c]) \<or>
            ql_point l = CollectAwait d cs \<and> q = CollectFor d (cs @ [c])"
  shows "run_ok mode is_success total_jobs t (go q l)"
proof -
  have inv: "sup_inv s" and sl: "slots_ok total_jobs s (ql_slots l) [] cs"
    and cnt: "counts_ok is_success s l cs"
    using ok p by (auto simp: run_ok_def point_defs)
  note t = recv_length_jobs [OF inv r]
  have sub: "e \<in> set (js_jobs s)" if "e \<in> set (js_jobs t)" for e
    using that r by (auto simp: recv_Some set_bt_remove)
  have "cancel_ok mode s l" using ok by (simp add: run_ok_def)
  then have "cancel_ok mode t (go q l)"
    unfolding cancel_ok_def cancelled_workers_cong [OF t(2)] lifecycle_cong [OF t(2)]
    using p t(3) sub by (elim disjE conjE; simp add: point_defs cooperative_def)
  then show ?thesis
    using ok p t slots_recv [OF inv sl r] counts_recv [OF inv r cnt] recv_inv [OF inv r]
    by (auto simp: run_ok_def point_defs counts_ok_def)
qed

lemma worker_lifecycle_cases:
  assumes "sup_inv s" "k < length (js_workers s)"
  shows "lifecycle s k \<in> {JOB_RUNNING, JOB_COMPLETED, JOB_CANCELLED}"
  using worker_ok_nth [OF assms] by (simp add: worker_ok_def lifecycle_def control_of_def)

lemma collected_ok:
  assumes ok: "run_ok mode is_success total_jobs s l"
    and p: "ql_point l = CollectCompleted cs \<and> \<not> any_completed s \<or>
            ql_point l = CollectFor d cs \<or> ql_point l = CollectAwait d cs"
  shows "run_ok mode is_success total_jobs s (go (drop_supervisor s) (record_all is_success cs l))"
proof -
  have inv: "sup_inv s" and big: "total_jobs \<le> u64_max" and sl: "slots_ok total_jobs s (ql_slots l) [] cs"
    and cnt: "counts_ok is_success s l cs" and c: "cancel_ok mode s l"
    using ok p by (auto simp: run_ok_def point_defs)
  have life: "lifecycle s k = JOB_CANCELLED"
    if "(i, k) \<in> set (js_jobs s)" "\<not> any_completed s" "lifecycle s k \<noteq> JOB_RUNNING" for i k
    using that worker_lifecycle_cases [OF inv jobs_bound [OF inv that(1)]]
    by (auto simp: any_completed_def lifecycle_def)
  have "cancel_ok mode s (go (drop_supervisor s) (record_all is_success cs l))"
    using c p life
    by (auto simp: cancel_ok_def point_defs cooperative_def drop_supervisor_def controls_def)
  then show ?thesis
    using ok p record_all_ok [OF inv big sl cnt]
    by (auto simp: run_ok_def point_defs counts_ok_def drop_supervisor_def)
qed

text \<open>The cooperative requests of an interrupted anytime execution.\<close>

lemma request_ok:
  assumes ok: "run_ok mode is_success total_jobs s l"
  shows "ql_point l = Requesting (k # ks) n \<Longrightarrow> run_ok mode is_success total_jobs s (go (Requesting ks n) l)"
    "ql_point l = Requesting (k # ks) n \<Longrightarrow> run_ok mode is_success total_jobs s (go (RequestSwapping k ks n) l)"
    "ql_point l = Requesting [] n \<Longrightarrow> run_ok mode is_success total_jobs s
      (go (CollectFor d []) (l\<lparr>ql_cancelled_stragglers := n\<rparr>))"
    "ql_point l = CollectFor d cs \<Longrightarrow> run_ok mode is_success total_jobs s (go (CollectAwait d cs) l)"
  using ok by (simp_all add: run_ok_def point_defs counts_ok_def cancel_ok_def cooperative_def)

lemma request_swap_ok:
  assumes ok: "run_ok mode is_success total_jobs s l" and p: "ql_point l = RequestSwapping k ks n"
  shows "run_ok mode is_success total_jobs (update_control k (\<lambda>c. snd (request_swap c)) s)
           (go (Requesting ks m) l)"
proof -
  have k: "k \<in> snd ` set (js_jobs s)" using ok p by (simp add: run_ok_def cancel_ok_def point_defs)
  have ok': "run_ok mode is_success total_jobs (update_control k (\<lambda>c. snd (request_swap c)) s) l"
    using ok k by (rule update_control_run_ok) (simp add: request_swap_def)
  then show ?thesis
    using p by (intro run_ok_go) (auto simp: run_ok_def cancel_ok_def point_defs cooperative_def)
qed

text \<open>Dropping the supervisor cancels what still runs.\<close>

lemma drop_step_ok:
  assumes ok: "run_ok mode is_success total_jobs s l" and p: "ql_point l = Dropping (k # ks)"
  shows "run_ok mode is_success total_jobs (update_control k (\<lambda>c. snd (cancel_exchange c)) s)
    (go (if fst (cancel_exchange (control_of s k)) then DropStoring k ks else Dropping ks) l)"
    (is "run_ok _ _ _ ?t _")
proof -
  have inv: "sup_inv s" and k: "k \<in> snd ` set (js_jobs s)" and c: "cancel_ok mode s l"
    using ok p by (auto simp: run_ok_def cancel_ok_def point_defs)
  have len: "k < length (js_workers s)" by (rule jobs_snd_bound [OF inv k])
  have same: "same_jobs s ?t"
    by (intro update_control_same_jobs inv len cancel_exchange_lifecycle)
  have jobs: "js_jobs ?t = js_jobs s" "js_open ?t = js_open s" "length (js_workers ?t) = length (js_workers s)"
    by (simp_all add: update_control_def)
  have life: "lifecycle ?t j = (if j = k then jc_lifecycle (snd (cancel_exchange (control_of s k)))
      else lifecycle s j)" for j
    by (rule lifecycle_update [OF len])
  have cnt: "lifecycle s k = JOB_CANCELLED \<Longrightarrow> cancelled_workers ?t = cancelled_workers s"
    using cancelled_update_control [OF len, of "\<lambda>c. snd (cancel_exchange c)"]
    by (auto simp: lifecycle_def cancel_exchange_def compare_exchange_def lifecycle_defs split: if_splits)
  have settled: "lifecycle ?t k \<noteq> JOB_RUNNING" "lifecycle s k = JOB_CANCELLED \<Longrightarrow> lifecycle ?t k = JOB_CANCELLED"
    unfolding life by (auto simp: lifecycle_def cancel_exchange_def compare_exchange_def lifecycle_defs)
  have sk: "\<not> cooperative mode l \<Longrightarrow> lifecycle s k = JOB_CANCELLED"
    using c p k by (simp add: cancel_ok_def point_defs) (metis (no_types, lifting) imageE)
  have "cancel_ok mode ?t
      (go (if fst (cancel_exchange (control_of s k)) then DropStoring k ks else Dropping ks) l)"
    using c p cnt sk settled life
    by (auto simp: cancel_ok_def point_defs cooperative_def jobs split: if_splits)
  then show ?thesis
    using ok p same_jobs_slots [OF same] same
    by (auto simp: run_ok_def point_defs counts_ok_def jobs same_jobs_def)
qed

lemma drop_store_ok:
  assumes ok: "run_ok mode is_success total_jobs s l" and p: "ql_point l = DropStoring k ks"
  shows "run_ok mode is_success total_jobs (update_control k cancel_store s) (go (Dropping ks) l)"
proof -
  have k: "k \<in> snd ` set (js_jobs s)" using ok p by (simp add: run_ok_def cancel_ok_def point_defs)
  have ok': "run_ok mode is_success total_jobs (update_control k cancel_store s) l"
    using ok k by (rule update_control_run_ok) (simp add: cancel_store_def)
  then show ?thesis
    using p by (intro run_ok_go) (auto simp: run_ok_def cancel_ok_def point_defs cooperative_def)
qed

lemma dropped_ok:
  assumes ok: "run_ok mode is_success total_jobs s l" and p: "ql_point l = Dropping []"
  shows "run_ok mode is_success total_jobs (close_receiver s) (go Returned l)"
proof -
  have inv: "sup_inv s" using ok by (simp add: run_ok_def)
  have same: "same_jobs s (close_receiver s)"
    using close_inv [OF inv] inv
    by (auto simp: same_jobs_def close_receiver_def intro: sup_guar_same_workers)
  have "cancelled_workers (close_receiver s) = cancelled_workers s" "lifecycle (close_receiver s) k = lifecycle s k"
    for k by (simp_all add: cancelled_workers_def lifecycle_def control_of_def close_receiver_def)
  with ok p same_jobs_slots [OF same] close_inv [OF inv] show ?thesis
    by (auto simp: run_ok_def point_defs counts_ok_def cancel_ok_def cooperative_def close_receiver_def)
qed

section \<open>Every execution keeps the invariant\<close>

lemma waits_points [simp]: "waits LoopHead" "waits (Awaiting d)" "waits CollectReady"
  by (simp_all add: waits_def)

lemma recv_timeout_cases:
  "recv_timeout d now s = Some (x, t) \<Longrightarrow>
   (\<exists>c. x = Some c \<and> recv s = Some (c, t)) \<or> (x = None \<and> t = s \<and> recv s = None \<and> d \<le> now)"
  by (auto simp: recv_timeout_def split: option.splits if_splits)

lemma try_recv_cases:
  "try_recv s = (x, t) \<Longrightarrow>
   (\<exists>c. x = Some c \<and> recv s = Some (c, t)) \<or> (x = None \<and> t = s \<and> recv s = None)"
  by (auto simp: try_recv_def split: option.splits)

lemma received_ok:
  assumes ok: "run_ok mode is_success total_jobs s l" and w: "waits (ql_point l)" and r: "recv s = Some (c, t)"
  shows "run_ok mode is_success total_jobs t
    (loop_received mode total_jobs now t (record_completion is_success c l))"
  using loop_received_ok [OF recv_record_run_ok [OF ok w r]] w by simp

lemma caller_step_ok:
  assumes ok: "run_ok mode is_success total_jobs (qr_supervisor r) (qr_locals r)"
    and st: "caller_step mode is_success total_jobs interrupt spawn_error r = Some r'"
  shows "run_ok mode is_success total_jobs (qr_supervisor r') (qr_locals r')"
proof (cases "ql_point (qr_locals r)")
  case (Submitting js)
  with st submit_next_ok [OF ok _ refl] submitted_ok [OF ok] show ?thesis
    by (cases js) (auto simp: caller_step_def Let_def)
next
  case LoopHead
  with st loop_head_ok [OF ok] show ?thesis by (auto simp: caller_step_def Let_def)
next
  case (Awaiting d)
  with st received_ok [OF ok] loop_timed_out_ok [OF ok] show ?thesis
    by (cases d) (auto simp: caller_step_def Let_def split: option.splits prod.splits dest!: recv_timeout_cases)
next
  case CollectReady
  have coop: "\<not> cooperative mode (qr_locals r)"
    using waiting_facts [OF ok] CollectReady by (simp add: cooperative_def)
  with CollectReady st recv_record_run_ok [OF ok] enter_cancel [OF ok] show ?thesis
    by (auto simp: caller_step_def Let_def split: option.splits prod.splits dest!: try_recv_cases)
next
  case (Cancelling ks n)
  with st cancel_step_ok [OF ok] cancelled_all_ok [OF ok] show ?thesis
    by (cases ks) (auto simp: caller_step_def Let_def)
next
  case (CancelStoring k ks n)
  with st cancel_store_ok [OF ok] show ?thesis by (auto simp: caller_step_def Let_def)
next
  case (CollectCompleted cs)
  with st collect_ok [OF ok] collected_ok [OF ok] show ?thesis
    by (auto simp: caller_step_def Let_def split: option.splits prod.splits if_splits)
next
  case (Requesting ks n)
  with st request_ok [OF ok] show ?thesis by (cases ks) (auto simp: caller_step_def Let_def)
next
  case (RequestSwapping k ks n)
  with st request_swap_ok [OF ok] show ?thesis by (auto simp: caller_step_def Let_def)
next
  case (CollectFor d cs)
  with st collected_ok [OF ok] request_ok(4) [OF ok] show ?thesis
    by (auto simp: caller_step_def Let_def split: if_splits)
next
  case (CollectAwait d cs)
  with st collect_ok [OF ok] collected_ok [OF ok] show ?thesis
    by (auto simp: caller_step_def Let_def split: option.splits prod.splits dest!: recv_timeout_cases)
next
  case (Dropping ks)
  with st drop_step_ok [OF ok] dropped_ok [OF ok] show ?thesis
    by (cases ks) (auto simp: caller_step_def Let_def)
next
  case (DropStoring k ks)
  with st drop_store_ok [OF ok] show ?thesis by (auto simp: caller_step_def Let_def)
next
  case Returned
  with st show ?thesis by (simp add: caller_step_def Let_def)
qed

text \<open>Each step of the caller is a step of the supervisor, or leaves the supervisor alone.\<close>

lemma jobs_key: "k \<in> snd ` set m \<Longrightarrow> \<exists>i. (i, k) \<in> set m"
  by force

lemma exchange_sup_step:
  assumes "run_ok mode is_success total_jobs s l" "k \<in> set (targets (ql_point l))" "ql_point l \<noteq> Returned"
  shows "sup_step s (update_control k (\<lambda>c. snd (cancel_exchange c)) s)"
    "sup_step s (update_control k cancel_store s)"
    "sup_step s (update_control k (\<lambda>c. snd (request_swap c)) s)"
proof -
  have c: "sup_inv s" "js_open s" "k \<in> snd ` set (js_jobs s)"
    using assms by (auto simp: run_ok_def cancel_ok_def)
  obtain i where i: "(i, k) \<in> set (js_jobs s)" using jobs_key [OF c(3)] by (elim exE)
  have len: "k < length (js_workers s)" by (rule jobs_snd_bound [OF c(1,3)])
  show "sup_step s (update_control k (\<lambda>c. snd (cancel_exchange c)) s)"
    using i c(2) by (rule sup_step.cancel_exchanged)
  show "sup_step s (update_control k cancel_store s)"
    "sup_step s (update_control k (\<lambda>c. snd (request_swap c)) s)"
    using len by (blast intro: sup_step.intros)+
qed

lemma submit_next_sup:
  assumes "js_open (qr_supervisor r)"
  shows "sup_step (qr_supervisor r) (qr_supervisor (submit_next i e js r))"
proof -
  have "qr_supervisor (submit_next i e js r) = snd (submit i e (qr_supervisor r))"
    by (simp add: submit_next_def Let_def split: prod.splits)
  then show ?thesis using sup_step.submitted [OF assms, of i e] by (metis prod.collapse)
qed

lemma caller_step_sup:
  assumes ok: "run_ok mode is_success total_jobs (qr_supervisor r) (qr_locals r)"
    and st: "caller_step mode is_success total_jobs interrupt spawn_error r = Some r'"
  shows "sup_step\<^sup>=\<^sup>= (qr_supervisor r) (qr_supervisor r')"
proof (cases "ql_point (qr_locals r)")
  case (Submitting js)
  with ok have "js_open (qr_supervisor r)" by (simp add: run_ok_def cancel_ok_def)
  with Submitting st show ?thesis
    by (cases js) (auto simp: caller_step_def Let_def intro: submit_next_sup)
next
  case (Cancelling ks n)
  then show ?thesis
    using st exchange_sup_step [OF ok] by (cases ks) (auto simp: caller_step_def Let_def targets_def)
next
  case (CancelStoring k ks n)
  then show ?thesis using st exchange_sup_step [OF ok] by (auto simp: caller_step_def Let_def targets_def)
next
  case (RequestSwapping k ks n)
  then show ?thesis using st exchange_sup_step [OF ok] by (auto simp: caller_step_def Let_def targets_def)
next
  case (Dropping ks)
  then show ?thesis
    using st exchange_sup_step [OF ok] sup_step.closed
    by (cases ks) (auto simp: caller_step_def Let_def targets_def)
next
  case (DropStoring k ks)
  then show ?thesis using st exchange_sup_step [OF ok] by (auto simp: caller_step_def Let_def targets_def)
next
  case (Requesting ks n)
  then show ?thesis using st by (cases ks) (auto simp: caller_step_def Let_def)
next
  case (Awaiting d)
  then show ?thesis using st
    by (cases d) (auto simp: caller_step_def Let_def split: option.splits prod.splits
        dest!: recv_timeout_cases intro: sup_step.received)
qed (use st in \<open>auto simp: caller_step_def Let_def split: option.splits prod.splits if_splits
    dest!: recv_timeout_cases try_recv_cases intro: sup_step.received\<close>)

lemma quorum_step_inv:
  assumes "quorum_step mode is_success total_jobs r r'" "quorum_inv mode is_success total_jobs r"
  shows "quorum_inv mode is_success total_jobs r'"
  using assms
proof cases
  case (caller interrupt spawn_error)
  with assms(2) caller_step_ok show ?thesis unfolding quorum_inv_run_ok by blast
next
  case (thread k out s)
  have inv: "sup_inv (qr_supervisor r)" using assms(2) by (simp add: quorum_inv_run_ok run_ok_def)
  from run_ok_same_jobs [OF _ worker_step_same_jobs [OF inv thread(2)]] assms(2) thread(1)
  show ?thesis by (simp add: quorum_inv_run_ok)
next
  case (other_acquires g)
  have inv: "sup_inv (qr_supervisor r)" using assms(2) by (simp add: quorum_inv_run_ok run_ok_def)
  from run_ok_same_jobs [OF _ others_same_jobs(1) [OF inv other_acquires(2)]] assms(2) other_acquires(1)
  show ?thesis by (simp add: quorum_inv_run_ok)
next
  case other_drops
  have inv: "sup_inv (qr_supervisor r)" using assms(2) by (simp add: quorum_inv_run_ok run_ok_def)
  from run_ok_same_jobs [OF _ others_same_jobs(2) [OF inv other_drops(2)]] assms(2) other_drops(1)
  show ?thesis by (simp add: quorum_inv_run_ok)
qed (simp_all add: quorum_inv_run_ok)

lemma quorum_step_sup:
  assumes "quorum_step mode is_success total_jobs r r'" "quorum_inv mode is_success total_jobs r"
  shows "sup_step\<^sup>=\<^sup>= (qr_supervisor r) (qr_supervisor r')"
  using assms
proof cases
  case (caller interrupt spawn_error)
  with assms(2) caller_step_sup show ?thesis unfolding quorum_inv_run_ok by blast
next
  case (other_acquires g)
  then show ?thesis using sup_step.other_acquired [of "qr_supervisor r" g] by simp
next
  case other_drops
  then show ?thesis using sup_step.other_dropped [of "qr_supervisor r"] by simp
qed (auto intro: sup_step.worker)

lemma quorum_init_inv:
  assumes "quorum_init total_jobs r"
  shows "quorum_inv mode is_success total_jobs r"
proof -
  obtain gate others now where g: "shared_gate gate others" and r: "r = quorum_start gate others total_jobs now"
    and big: "total_jobs \<le> u64_max"
    using assms by (auto simp: quorum_init_def)
  have "slots_ok total_jobs (supervisor gate others) (replicate total_jobs None)
      (if total_jobs = 0 then [] else [0..<total_jobs]) []"
    by (auto simp: slots_ok_def supervisor_def delivered_def)
  then show ?thesis
    using big supervisor_inv [OF g]
    by (auto simp: quorum_inv_run_ok run_ok_def r quorum_start_def point_defs counts_ok_def cancel_ok_def
        cooperative_def supervisor_def cancelled_workers_def slot_counts_def)
qed

interpretation quorum: step_system "quorum_init total_jobs" "quorum_step mode is_success total_jobs"
  "quorum_inv mode is_success total_jobs" "\<lambda>r r'. sup_guar (qr_supervisor r) (qr_supervisor r')"
  for total_jobs mode and is_success :: "'a \<Rightarrow> bool"
proof
  show "sup_guar (qr_supervisor r) (qr_supervisor r')"
    if "quorum_inv mode is_success total_jobs r" "quorum_step mode is_success total_jobs r r'" for r r'
    using quorum_step_sup [OF that(2,1)] that(1) sup.guar_refl
    by (auto simp: quorum_inv_run_ok run_ok_def intro: sup_step_guar)
qed (auto intro: quorum_init_inv quorum_step_inv sup.guar_refl sup.guar_trans)

section \<open>The return of a cancelling caller\<close>

text \<open>
  Once the caller has started to cancel, only the caller and workers that have already completed
  need to run for it to return: a drain step is a step of one of those.
\<close>

definition draining :: "'a caller_point \<Rightarrow> bool" where
  "draining p = (case p of Cancelling _ _ \<Rightarrow> True | CancelStoring _ _ _ \<Rightarrow> True | CollectCompleted _ \<Rightarrow> True
     | Dropping _ \<Rightarrow> True | DropStoring _ _ \<Rightarrow> True | Returned \<Rightarrow> True | _ \<Rightarrow> False)"

inductive drain_step ::
  "quorum_mode \<Rightarrow> ('a \<Rightarrow> bool) \<Rightarrow> usize \<Rightarrow> 'a quorum_run \<Rightarrow> 'a quorum_run \<Rightarrow> bool"
  for mode :: quorum_mode and is_success :: "'a \<Rightarrow> bool" and total_jobs :: usize
where
  drain_caller: "caller_step mode is_success total_jobs interrupt spawn_error r = Some r' \<Longrightarrow>
    drain_step mode is_success total_jobs r r'"
| drain_worker: "worker_step k out (qr_supervisor r) = Some s \<Longrightarrow>
    lifecycle (qr_supervisor r) k = JOB_COMPLETED \<Longrightarrow>
    drain_step mode is_success total_jobs r (r\<lparr>qr_supervisor := s\<rparr>)"

lemma drain_step_quorum_step:
  "drain_step mode is_success total_jobs r r' \<Longrightarrow> quorum_step mode is_success total_jobs r r'"
  by (auto elim: drain_step.cases intro: quorum_step.intros)

text \<open>The steps a settled worker has left, and the steps the caller has left.\<close>

definition worker_left :: "'a worker \<Rightarrow> nat" where
  "worker_left w = (case wk_point w of LifecycleSettled \<Rightarrow> 2 | PermitDropped \<Rightarrow> 1 | _ \<Rightarrow> 0)"

definition workers_left :: "'a ParallelJobSupervisor \<Rightarrow> nat" where
  "workers_left s = sum_list (map worker_left (js_workers s))"

definition caller_left :: "'a ParallelJobSupervisor \<Rightarrow> 'a caller_point \<Rightarrow> nat" where
  "caller_left s p = (case p of
       Cancelling ks _ \<Rightarrow> 2 * length ks + 3 * length (js_jobs s) + 3
     | CancelStoring _ ks _ \<Rightarrow> 2 * length ks + 3 * length (js_jobs s) + 4
     | CollectCompleted _ \<Rightarrow> 3 * length (js_jobs s) + 2
     | Dropping ks \<Rightarrow> 2 * length ks + 1
     | DropStoring _ ks \<Rightarrow> 2 * length ks + 2
     | _ \<Rightarrow> 0)"

definition drain_left :: "'a quorum_run \<Rightarrow> nat" where
  "drain_left r = caller_left (qr_supervisor r) (ql_point (qr_locals r)) + workers_left (qr_supervisor r)"

lemma sum_list_update_le:
  fixes xs :: "nat list"
  shows "k < length xs \<Longrightarrow> sum_list (xs[k := y]) + xs ! k = sum_list xs + y"
  by (induction xs arbitrary: k) (auto split: nat.splits)

lemma workers_left_update:
  "k < length (js_workers s) \<Longrightarrow>
   workers_left (update_worker k f s) + worker_left (js_workers s ! k) =
   workers_left s + worker_left (f (js_workers s ! k))"
  using sum_list_update_le [of k "map worker_left (js_workers s)" "worker_left (f (js_workers s ! k))"]
  by (simp add: workers_left_def update_worker_def map_update)

lemma workers_left_control [simp]: "workers_left (update_control k f s) = workers_left s"
proof (cases "k < length (js_workers s)")
  case True
  then show ?thesis
    using workers_left_update [OF True, of "\<lambda>w. w\<lparr>wk_control := f (wk_control w)\<rparr>"]
    by (simp add: update_control_def worker_left_def)
qed (simp add: update_control_def update_worker_def workers_left_def list_update_beyond)

lemma workers_left_cong: "js_workers t = js_workers s \<Longrightarrow> workers_left t = workers_left s"
  by (simp add: workers_left_def)

lemma update_control_jobs [simp]: "js_jobs (update_control k f s) = js_jobs s"
  by (simp add: update_control_def)

text \<open>A worker that has completed and not sent can move, and has less left afterwards.\<close>

lemma completed_worker_moves:
  assumes inv: "sup_inv s" and k: "k < length (js_workers s)" and life: "lifecycle s k = JOB_COMPLETED"
    and pt: "wk_point (js_workers s ! k) \<noteq> CompletionSent"
  obtains t where "worker_step k None s = Some t" "js_jobs t = js_jobs s" "workers_left t < workers_left s"
proof -
  have "wk_point (js_workers s ! k) = LifecycleSettled \<or> wk_point (js_workers s ! k) = PermitDropped"
    using worker_ok_nth [OF inv k] life pt
    by (cases "wk_point (js_workers s ! k)") (simp_all add: worker_ok_def lifecycle_def control_of_def)
  then show ?thesis
  proof
    assume p: "wk_point (js_workers s ! k) = LifecycleSettled"
    let ?t = "update_worker k (wk_point_update (\<lambda>_. PermitDropped)) (s\<lparr>js_gate := permit_drop (js_gate s)\<rparr>)"
    have "workers_left ?t < workers_left s"
      using workers_left_update [of k "s\<lparr>js_gate := permit_drop (js_gate s)\<rparr>" "wk_point_update (\<lambda>_. PermitDropped)"]
        k p by (simp add: worker_left_def workers_left_def)
    then show ?thesis using k p by (intro that [of ?t]) (simp_all add: worker_step_def)
  next
    assume p: "wk_point (js_workers s ! k) = PermitDropped"
    let ?u = "send_completion (js_workers s ! k) s"
    let ?t = "update_worker k (wk_point_update (\<lambda>_. CompletionSent)) ?u"
    have "workers_left ?t < workers_left s"
      using workers_left_update [of k ?u "wk_point_update (\<lambda>_. CompletionSent)"] k p
      by (simp add: worker_left_def workers_left_def)
    then show ?thesis using k p by (intro that [of ?t]) (simp_all add: worker_step_def)
  qed
qed

lemma collect_progress:
  assumes inv: "sup_inv s" and op: "js_open s" and any: "any_completed s" and none: "recv s = None"
  obtains k where "k < length (js_workers s)" "lifecycle s k = JOB_COMPLETED"
    "wk_point (js_workers s ! k) \<noteq> CompletionSent"
proof -
  from any obtain i k where ik: "(i, k) \<in> set (js_jobs s)" "lifecycle s k = JOB_COMPLETED"
    by (auto simp: any_completed_def lifecycle_def)
  have "js_channel s = []" using none by (simp add: recv_def split: list.splits)
  then have "wk_point (js_workers s ! k) \<noteq> CompletionSent"
    using inv op ik(1) by (auto simp: sup_inv_def channel_ok_def)
  with ik inv show ?thesis by (intro that [of k]) (auto dest: jobs_bound)
qed

lemma drain_progress:
  assumes ok: "quorum_inv mode is_success total_jobs r" and d: "draining (ql_point (qr_locals r))"
    and nr: "ql_point (qr_locals r) \<noteq> Returned"
  shows "\<exists>r'. drain_step mode is_success total_jobs r r' \<and> draining (ql_point (qr_locals r')) \<and>
     drain_left r' < drain_left r"
proof -
  let ?s = "qr_supervisor r" and ?l = "qr_locals r"
  let ?step = "caller_step mode is_success total_jobs False None r"
  have run: "run_ok mode is_success total_jobs ?s ?l" using ok by (simp add: quorum_inv_run_ok)
  have inv: "sup_inv ?s" and op: "js_open ?s" using run nr by (auto simp: run_ok_def cancel_ok_def)
  have by_caller: ?thesis
    if "\<exists>r'. ?step = Some r' \<and> draining (ql_point (qr_locals r')) \<and> drain_left r' < drain_left r"
    using that drain_caller by blast
  note defs = caller_step_def Let_def go_def drain_left_def caller_left_def draining_def
    drop_supervisor_def controls_def
  show ?thesis
  proof (cases "ql_point ?l")
    case (CollectCompleted cs)
    show ?thesis
    proof (cases "any_completed ?s")
      case False
      with CollectCompleted show ?thesis by (intro by_caller) (simp add: defs)
    next
      case any: True
      show ?thesis
      proof (cases "recv ?s")
        case (Some ct)
        obtain c t where ct: "ct = (c, t)" by (cases ct)
        note t = recv_length_jobs [OF inv Some [unfolded ct]] workers_left_cong
        show ?thesis
          using CollectCompleted any Some ct t(1) workers_left_cong [OF t(2)]
          by (intro by_caller) (simp add: defs)
      next
        case None
        obtain k where k: "k < length (js_workers ?s)" "lifecycle ?s k = JOB_COMPLETED"
          "wk_point (js_workers ?s ! k) \<noteq> CompletionSent"
          by (rule collect_progress [OF inv op any None])
        obtain t where "worker_step k None ?s = Some t" "js_jobs t = js_jobs ?s" "workers_left t < workers_left ?s"
          by (rule completed_worker_moves [OF inv k])
        with k(2) CollectCompleted show ?thesis
          by (intro exI [of _ "r\<lparr>qr_supervisor := t\<rparr>"])
            (auto simp: drain_left_def caller_left_def draining_def intro: drain_worker)
      qed
    qed
  next
    case (Cancelling ks n)
    then show ?thesis by (intro by_caller; cases ks; simp add: defs)
  next
    case (CancelStoring k ks n)
    then show ?thesis by (intro by_caller) (simp add: defs)
  next
    case (Dropping ks)
    have "workers_left (close_receiver ?s) = workers_left ?s"
      by (simp add: workers_left_def close_receiver_def)
    with Dropping show ?thesis by (intro by_caller; cases ks; simp add: defs)
  next
    case (DropStoring k ks)
    then show ?thesis by (intro by_caller) (simp add: defs)
  qed (use d nr in \<open>simp_all add: draining_def\<close>)
qed

lemma drains:
  assumes "quorum_inv mode is_success total_jobs r" "draining (ql_point (qr_locals r))"
  shows "\<exists>n r'. n \<le> drain_left r \<and> (drain_step mode is_success total_jobs ^^ n) r r' \<and>
    ql_point (qr_locals r') = Returned"
  using assms
proof (induction "drain_left r" arbitrary: r rule: less_induct)
  case less
  show ?case
  proof (cases "ql_point (qr_locals r) = Returned")
    case True
    then show ?thesis by (intro exI [of _ 0] exI [of _ r]) simp
  next
    case False
    then obtain q where q: "drain_step mode is_success total_jobs r q" "draining (ql_point (qr_locals q))"
        "drain_left q < drain_left r"
      using drain_progress [OF less.prems] by blast
    have "quorum_inv mode is_success total_jobs q"
      using quorum_step_inv [OF drain_step_quorum_step [OF q(1)] less.prems(1)] .
    then obtain n r' where "n \<le> drain_left q" "(drain_step mode is_success total_jobs ^^ n) q r'"
        "ql_point (qr_locals r') = Returned"
      using less.hyps [OF q(3) _ q(2)] by blast
    moreover from q(1) this(2) have "(drain_step mode is_success total_jobs ^^ Suc n) r r'"
      by (rule relpowp_Suc_I2)
    ultimately show ?thesis using q(3) by (intro exI [of _ "Suc n"] exI [of _ r']) simp
  qed
qed

text \<open>What is left when the cancellation starts is linear in the number of jobs.\<close>

lemma drain_left_bound:
  assumes inv: "quorum_inv mode is_success total_jobs r"
    and p: "ql_point (qr_locals r) = cancel_all (qr_supervisor r)"
  shows "drain_left r \<le> 7 * total_jobs + 3"
proof -
  let ?s = "qr_supervisor r"
  have n: "length (js_workers ?s) \<le> total_jobs" and j: "length (js_jobs ?s) \<le> length (js_workers ?s)"
    using inv workers_le_total by (auto simp: quorum_inv_run_ok run_ok_def counts_ok_def)
  have "workers_left ?s \<le> sum_list (map (\<lambda>_. 2) (js_workers ?s))"
    unfolding workers_left_def by (rule sum_list_mono) (simp add: worker_left_def split: worker_point.splits)
  then have w: "workers_left ?s \<le> 2 * length (js_workers ?s)" by (simp add: sum_list_triv)
  show ?thesis
    using n j w by (simp add: p drain_left_def caller_left_def cancel_all_def controls_def)
qed

section \<open>Nobody waits for ever\<close>

definition await_ok :: "'a quorum_run \<Rightarrow> bool" where
  "await_ok r \<longleftrightarrow> (case ql_point (qr_locals r) of
     Awaiting _ \<Rightarrow> ql_received (qr_locals r) < ql_spawned (qr_locals r) | _ \<Rightarrow> True)"

lemma await_ok_cong: "qr_locals r' = qr_locals r \<Longrightarrow> await_ok r' = await_ok r"
  by (simp add: await_ok_def cong: caller_point.case_cong)

lemma loop_head_await:
  "ql_point l = LoopHead \<Longrightarrow> ql_point (loop_head mode total_jobs interrupt now s l) = Awaiting d \<Longrightarrow>
   ql_received (loop_head mode total_jobs interrupt now s l) < ql_spawned (loop_head mode total_jobs interrupt now s l)"
  by (cases mode) (auto simp: loop_head_def quorum_head_def interruptible_head_def anytime_head_def
      go_def cancel_all_def request_cancel_all_def drop_supervisor_def Let_def split: if_splits option.splits)

lemma no_await [simp]:
  "ql_point (loop_received mode total_jobs now s l) \<noteq> Awaiting d"
  "ql_point (loop_timed_out mode s l) \<noteq> Awaiting d"
  "ql_point (go (cancel_all s) l) \<noteq> Awaiting d" "ql_point (go (drop_supervisor s) l) \<noteq> Awaiting d"
  by (auto simp: loop_received_def quorum_received_def anytime_received_def loop_timed_out_def go_def
      cancel_all_def drop_supervisor_def split: quorum_mode.splits)

lemma caller_step_await:
  assumes st: "caller_step mode is_success total_jobs interrupt spawn_error r = Some r'"
  shows "await_ok r'"
proof (cases "ql_point (qr_locals r)")
  case (Submitting js)
  with st show ?thesis
    by (cases js) (auto simp: caller_step_def Let_def await_ok_def go_def submit_next_def split: prod.splits sum.splits)
next
  case LoopHead
  with st loop_head_await [OF LoopHead] show ?thesis
    by (auto simp: caller_step_def Let_def await_ok_def split: caller_point.splits)
next
  case (Awaiting d)
  with st show ?thesis
    by (cases d) (auto simp: caller_step_def Let_def await_ok_def split: option.splits prod.splits caller_point.splits)
next
  case (Cancelling ks n)
  with st show ?thesis by (cases ks) (auto simp: caller_step_def Let_def await_ok_def go_def)
next
  case (Requesting ks n)
  with st show ?thesis by (cases ks) (auto simp: caller_step_def Let_def await_ok_def go_def)
next
  case (Dropping ks)
  with st show ?thesis by (cases ks) (auto simp: caller_step_def Let_def await_ok_def go_def)
qed (use st in \<open>auto simp: caller_step_def Let_def await_ok_def go_def drop_supervisor_def cancel_all_def
    split: option.splits prod.splits if_splits\<close>)

lemma reach_await:
  assumes "(quorum_step mode is_success total_jobs)\<^sup>*\<^sup>* r0 r" "quorum_init total_jobs r0"
  shows "await_ok r"
  using assms
proof (induction rule: rtranclp_induct)
  case base
  then show ?case by (auto simp: quorum_init_def quorum_start_def await_ok_def)
next
  case (step r r')
  from step(2,3,4) show ?case
    by cases (auto simp: caller_step_await intro: await_ok_cong [THEN iffD2])
qed

text \<open>While a job is not delivered, a message is there, a worker can move or a permit is held elsewhere.\<close>

lemma holder_moves:
  assumes "w \<in> set (js_workers s)" "holds_permit w"
  shows "\<exists>k out t. worker_step k out s = Some t"
proof -
  from assms(1) obtain k where k: "k < length (js_workers s)" "w = js_workers s ! k" by (auto simp: in_set_conv_nth)
  with assms(2) have "worker_step k None s \<noteq> None"
    by (auto simp: worker_step_def holds_permit_def Let_def)
  then show ?thesis by blast
qed

lemma pending_job_moves:
  assumes inv: "sup_inv s" and op: "js_open s" and jobs: "js_jobs s \<noteq> []" and none: "recv s = None"
  shows "(\<exists>k out t. worker_step k out s = Some t) \<or> js_others s > 0"
proof -
  obtain i k where ik: "(i, k) \<in> set (js_jobs s)" using jobs by (cases "js_jobs s") auto
  have k: "k < length (js_workers s)" by (rule jobs_bound [OF inv ik])
  have "js_channel s = []" using none by (simp add: recv_def split: list.splits)
  then have unsent: "wk_point (js_workers s ! k) \<noteq> CompletionSent"
    using inv op ik by (auto simp: sup_inv_def channel_ok_def)
  show ?thesis
  proof (cases "worker_step k None s")
    case None
    with unsent k have full: "wg_active (js_gate s) \<ge> wg_limit (js_gate s)"
      by (cases "wk_point (js_workers s ! k)") (auto simp: worker_step_def Let_def gate_acquire_def split: if_splits)
    with inv have "permits s + js_others s > 0" by (auto simp: sup_inv_def gate_ok_def)
    then consider "js_others s > 0" | "filter holds_permit (js_workers s) \<noteq> []"
      by (auto simp: permits_def)
    then show ?thesis
    proof cases
      case 2
      then obtain w where "w \<in> set (js_workers s)" "holds_permit w" by (auto simp: filter_empty_conv)
      then show ?thesis using holder_moves by blast
    qed blast
  qed blast
qed

section \<open>Properties\<close>

text \<open>
  The gate bounds the work. In every interleaving of submissions, cancellations, worker threads
  and other users of the executor, the permits in use are those of the workers between acquiring
  and dropping theirs together with those held elsewhere, and they never exceed the limit.
\<close>

theorem permits_never_exceed_the_limit:
  assumes "sup_init s" "sup_step\<^sup>*\<^sup>* s t"
  shows "permits t + js_others t \<le> wg_limit (js_gate s) \<and> wg_active (js_gate t) = permits t + js_others t"
proof -
  have "sup_inv t" by (rule sup.reach_inv [OF assms])
  moreover have "sup_guar s t" by (rule sup.reach_guar [OF assms(1) rtranclp.rtrancl_refl assms(2)])
  ultimately show ?thesis by (simp add: sup_inv_def gate_ok_def sup_guar_def)
qed

text \<open>
  A job ends once. A worker reports what its job returned if completing won the lifecycle and
  \<open>Cancelled\<close> if cancelling won it; neither the report nor the lifecycle changes afterwards, and
  the channel never holds two completions of one job id.
\<close>

theorem each_job_ends_once:
  assumes "sup_init s" "sup_step\<^sup>*\<^sup>* s t" "sup_step\<^sup>*\<^sup>* t u"
    and "k < length (js_workers t)" "wk_reported (js_workers t ! k) = Some x"
  shows "(lifecycle t k = JOB_COMPLETED \<and> wk_returned (js_workers t ! k) = Some x \<or>
          lifecycle t k = JOB_CANCELLED \<and> x = Inl TaskCancelled) \<and>
    wk_reported (js_workers u ! k) = Some x \<and> lifecycle u k = lifecycle t k \<and>
    distinct (map fst (js_channel u))"
proof -
  have t: "sup_inv t" by (rule sup.reach_inv [OF assms(1,2)])
  have "sup_inv u" using sup.reach_inv [OF assms(1) rtranclp_trans [OF assms(2,3)]] .
  then have "distinct (map fst (js_channel u))" by (simp add: sup_inv_def channel_ok_def)
  moreover have "sup_guar t u" by (rule sup.reach_guar [OF assms(1-3)])
  then have g: "worker_guar (js_workers t ! k) (js_workers u ! k)" using assms(4) by (simp add: sup_guar_def)
  have ok: "(lifecycle t k = JOB_COMPLETED \<and> wk_returned (js_workers t ! k) = Some x \<or>
      lifecycle t k = JOB_CANCELLED \<and> x = Inl TaskCancelled) \<and> lifecycle t k \<noteq> JOB_RUNNING"
    using worker_ok_nth [OF t assms(4)] assms(5)
    by (auto simp: worker_ok_def lifecycle_def control_of_def split: if_splits)
  ultimately show ?thesis
    using g assms(5) by (auto simp: worker_guar_def lifecycle_def control_of_def)
qed

lemma delivered_result:
  assumes inv: "sup_inv s" and del: "w \<in> set (js_workers s)" "wk_job_id w \<notin> fst ` set (js_jobs s)"
  shows "wk_reported w \<noteq> None \<and> delivered s (wk_job_id w) (the (wk_reported w)) \<and>
    (jc_lifecycle (wk_control w) = JOB_COMPLETED \<and> wk_returned w = wk_reported w \<or>
     jc_lifecycle (wk_control w) = JOB_CANCELLED \<and> wk_reported w = Some (Inl TaskCancelled))"
proof -
  have "wk_point w = CompletionSent" using unsent_in_jobs [OF inv del(1)] del(2) by blast
  moreover have "worker_ok w" using inv del(1) by (simp add: sup_inv_def)
  ultimately show ?thesis using del by (auto simp: worker_ok_def delivered_def split: if_splits)
qed

lemma returned_slot:
  assumes ok: "run_ok mode is_success total_jobs s l" and p: "ql_point l = Returned"
    and nc: "\<not> cooperative mode l" and w: "w \<in> set (js_workers s)"
  shows "jc_lifecycle (wk_control w) = JOB_COMPLETED \<and> wk_returned w = Some (slot_result (ql_slots l ! wk_job_id w)) \<or>
     jc_lifecycle (wk_control w) = JOB_CANCELLED \<and> slot_result (ql_slots l ! wk_job_id w) = Inl TaskCancelled"
proof -
  have inv: "sup_inv s" and sl: "slots_ok total_jobs s (ql_slots l) [] []" and c: "cancel_ok mode s l"
    using ok p by (simp_all add: run_ok_def point_defs)
  show ?thesis
  proof (cases "wk_job_id w \<in> fst ` set (js_jobs s)")
    case True
    then obtain k where k: "(wk_job_id w, k) \<in> set (js_jobs s)" "k < length (js_workers s)"
        "wk_job_id (js_workers s ! k) = wk_job_id w"
      by (rule job_of_key [OF inv])
    then have "js_workers s ! k = w" using same_worker [OF slots_okD(2) [OF sl]] w by (simp add: nth_mem)
    moreover have "lifecycle s k = JOB_CANCELLED"
      using c p nc k(1) by (force simp: cancel_ok_def job_settled_def)
    ultimately have "jc_lifecycle (wk_control w) = JOB_CANCELLED" by (simp add: lifecycle_def control_of_def)
    with slots_okD(9) [OF sl True] show ?thesis by (simp add: slot_result_def)
  next
    case False
    note d = delivered_result [OF inv w False]
    then obtain q where q: "wk_reported w = Some q" "delivered s (wk_job_id w) q" by auto
    then have "ql_slots l ! wk_job_id w = Some q" using slots_okD(12) [OF sl] by simp
    with d q(1) show ?thesis by (auto simp: slot_result_def)
  qed
qed

lemma execution_exact:
  assumes "quorum_init total_jobs r0" "(quorum_step mode is_success total_jobs)\<^sup>*\<^sup>* r0 r"
    and "ql_point (qr_locals r) = Returned" "\<not> cooperative mode (qr_locals r)" "total_jobs \<noteq> 0"
    and "e = quorum_execution mode total_jobs (qr_locals r)" "s = qr_supervisor r"
  shows "length (qe_results e) = total_jobs"
    and "\<forall>w \<in> set (js_workers s).
      jc_lifecycle (wk_control w) = JOB_COMPLETED \<and> wk_returned w = Some (qe_results e ! wk_job_id w) \<or>
      jc_lifecycle (wk_control w) = JOB_CANCELLED \<and> qe_results e ! wk_job_id w = Inl TaskCancelled"
    and "\<forall>i < total_jobs. i \<notin> wk_job_id ` set (js_workers s) \<longrightarrow>
      (\<exists>error. qe_results e ! i = Inl (TaskSpawn error))"
    and "qe_successful e = length (filter (is_ok_and is_success) (qe_results e))"
    and "qe_quorum_reached e \<longleftrightarrow> required_successes mode total_jobs \<le> qe_successful e"
    and "qe_cancelled_stragglers e = cancelled_workers s"
proof -
  let ?l = "qr_locals r"
  have "quorum_inv mode is_success total_jobs r" by (rule quorum.reach_inv [OF assms(1,2)])
  then have ok: "run_ok mode is_success total_jobs s ?l" by (simp add: quorum_inv_run_ok assms(7))
  then have sl: "slots_ok total_jobs s (ql_slots ?l) [] []" and cnt: "counts_ok is_success s ?l []"
    and c: "cancel_ok mode s ?l"
    using assms(3) by (simp_all add: run_ok_def point_defs)
  have e: "qe_results e = map slot_result (ql_slots ?l)" using assms(5,6) by (simp add: quorum_execution_def)
  have nth: "i < total_jobs \<Longrightarrow> qe_results e ! i = slot_result (ql_slots ?l ! i)" for i
    using e slots_okD(1) [OF sl] by simp
  show "length (qe_results e) = total_jobs" using e slots_okD(1) [OF sl] by simp
  show "\<forall>w \<in> set (js_workers s).
      jc_lifecycle (wk_control w) = JOB_COMPLETED \<and> wk_returned w = Some (qe_results e ! wk_job_id w) \<or>
      jc_lifecycle (wk_control w) = JOB_CANCELLED \<and> qe_results e ! wk_job_id w = Inl TaskCancelled"
  proof
    fix w
    assume w: "w \<in> set (js_workers s)"
    show "jc_lifecycle (wk_control w) = JOB_COMPLETED \<and> wk_returned w = Some (qe_results e ! wk_job_id w) \<or>
      jc_lifecycle (wk_control w) = JOB_CANCELLED \<and> qe_results e ! wk_job_id w = Inl TaskCancelled"
      using returned_slot [OF ok assms(3,4) w] nth [OF slots_okD(5) [OF sl w]] by simp
  qed
  show "\<forall>i < total_jobs. i \<notin> wk_job_id ` set (js_workers s) \<longrightarrow>
      (\<exists>error. qe_results e ! i = Inl (TaskSpawn error))"
  proof (intro allI impI)
    fix i
    assume "i < total_jobs" "i \<notin> wk_job_id ` set (js_workers s)"
    with slots_okD(13) [OF sl, of i] nth show "\<exists>error. qe_results e ! i = Inl (TaskSpawn error)"
      by (auto simp: slot_result_def)
  qed
  have "slot_counts is_success = is_ok_and is_success \<circ> slot_result"
    by (auto simp: fun_eq_iff slot_counts_def slot_result_def is_ok_and_def split: option.splits)
  then show "qe_successful e = length (filter (is_ok_and is_success) (qe_results e))"
    using cnt e assms(5,6) by (simp add: counts_ok_def quorum_execution_def filter_map)
  show "qe_quorum_reached e \<longleftrightarrow> required_successes mode total_jobs \<le> qe_successful e"
    "qe_cancelled_stragglers e = cancelled_workers s"
    using assms(3-6) c by (simp_all add: quorum_execution_def cancel_ok_def cancel_count_def)
qed



text \<open>
  No deadlock: until the call returns, the caller can take a step, or it waits for a deadline
  the clock has not reached, or some worker can take a step, or another user of the executor
  holds a permit of the gate.
\<close>

theorem quorum_never_deadlocks:
  assumes "quorum_init total_jobs r0" "(quorum_step mode is_success total_jobs)\<^sup>*\<^sup>* r0 r"
    and "ql_point (qr_locals r) \<noteq> Returned"
  shows "(\<exists>r'. caller_step mode is_success total_jobs False None r = Some r') \<or>
    (\<exists>deadline > qr_now r. ql_point (qr_locals r) = Awaiting (Some deadline) \<or>
       (\<exists>cs. ql_point (qr_locals r) = CollectAwait deadline cs)) \<or>
    (\<exists>k out t. worker_step k out (qr_supervisor r) = Some t) \<or> js_others (qr_supervisor r) > 0"
proof -
  let ?s = "qr_supervisor r" and ?l = "qr_locals r"
  have inv: "quorum_inv mode is_success total_jobs r" by (rule quorum.reach_inv [OF assms(1,2)])
  have run: "run_ok mode is_success total_jobs ?s ?l" using inv by (simp add: quorum_inv_run_ok)
  have sup: "sup_inv ?s" and op: "js_open ?s" using run assms(3) by (auto simp: run_ok_def cancel_ok_def)
  note defs = caller_step_def Let_def
  show ?thesis
  proof (cases "draining (ql_point ?l)")
    case True
    then obtain q where "drain_step mode is_success total_jobs r q" using drain_progress [OF inv True assms(3)] by blast
    then show ?thesis
    proof cases
      case (drain_caller interrupt spawn_error)
      moreover have "caller_step mode is_success total_jobs interrupt spawn_error r =
          caller_step mode is_success total_jobs False None r"
        using True by (cases "ql_point ?l") (simp_all add: defs draining_def)
      ultimately show ?thesis by simp
    qed blast
  next
    case False
    then show ?thesis
    proof (cases "ql_point ?l")
      case (Awaiting d)
      then have w: "waits (ql_point ?l)" by simp
      have "ql_received ?l < ql_spawned ?l"
        using reach_await [OF assms(2,1)] Awaiting by (simp add: await_ok_def)
      then have jobs: "js_jobs ?s \<noteq> []" using waiting_facts(5,6) [OF run w] by auto
      show ?thesis
      proof (cases "recv ?s")
        case None
        show ?thesis using pending_job_moves [OF sup op jobs None] by (rule disjI2 [OF disjI2])
      next
        case (Some ct)
        with Awaiting show ?thesis by (cases d; cases ct) (simp_all add: defs recv_timeout_def)
      qed
    next
      case (Submitting js)
      then show ?thesis by (cases js) (simp_all add: defs)
    next
      case CollectReady
      then show ?thesis by (auto simp: defs split: prod.splits option.splits)
    next
      case (Requesting ks n)
      then show ?thesis by (cases ks) (simp_all add: defs)
    next
      case (CollectAwait d cs)
      then show ?thesis
        by (cases "recv ?s") (auto simp: defs recv_timeout_def not_le split: prod.splits)
    qed (simp_all add: defs draining_def)
  qed
qed

section \<open>An execution\<close>

text \<open>A schedule picks who takes the next step; the steps it allows are those of the execution.\<close>

datatype 'a choice = RunCaller | RunWorker nat "'a option"

fun schedule ::
  "quorum_mode \<Rightarrow> ('a \<Rightarrow> bool) \<Rightarrow> usize \<Rightarrow> 'a choice list \<Rightarrow> 'a quorum_run \<Rightarrow> 'a quorum_run option"
where
  "schedule mode is_success total_jobs [] r = Some r"
| "schedule mode is_success total_jobs (RunCaller # cs) r =
     (case caller_step mode is_success total_jobs False None r of
        None \<Rightarrow> None | Some r' \<Rightarrow> schedule mode is_success total_jobs cs r')"
| "schedule mode is_success total_jobs (RunWorker k out # cs) r =
     (case worker_step k out (qr_supervisor r) of
        None \<Rightarrow> None | Some s \<Rightarrow> schedule mode is_success total_jobs cs (r\<lparr>qr_supervisor := s\<rparr>))"

lemma schedule_reaches:
  "schedule mode is_success total_jobs cs r = Some r' \<Longrightarrow> (quorum_step mode is_success total_jobs)\<^sup>*\<^sup>* r r'"
proof (induction cs arbitrary: r)
  case (Cons c cs)
  then show ?case
    by (cases c) (auto split: option.splits intro: quorum_step.intros converse_rtranclp_into_rtranclp)
qed simp

text \<open>Two jobs, one success wanted, no grace: the first job returns 10 while the second one waits.\<close>

definition ex_mode :: quorum_mode where
  "ex_mode = QuorumMode 1 0"

definition ex_quorum :: "nat quorum_run" where
  "ex_quorum = quorum_start (worker_gate_new 2) 0 2 0"

definition ex_first_done :: "nat choice list" where
  "ex_first_done = (let w = RunWorker 0 (Some 10) in
     [RunCaller, RunCaller, RunCaller, RunCaller, w, w, w, w, w, w, RunCaller])"

definition ex_rest :: "nat choice list" where
  "ex_rest = [RunCaller, RunCaller, RunCaller, RunCaller, RunCaller, RunCaller]"

definition ex_cancelling :: "nat quorum_run" where
  "ex_cancelling = the (schedule ex_mode (\<lambda>v. v > 0) 2 ex_first_done ex_quorum)"

definition ex_returned :: "nat quorum_run" where
  "ex_returned = the (schedule ex_mode (\<lambda>v. v > 0) 2 ex_rest ex_cancelling)"

lemma ex_quorum_init: "quorum_init 2 ex_quorum"
  by (auto simp: quorum_init_def ex_quorum_def shared_gate_def worker_gate_new_def u64_max_def
      intro!: exI [of _ "worker_gate_new 2"] exI [of _ 0])

lemmas ex_step_defs = Let_def caller_step_def worker_step_def submit_next_def submit_def bt_contains_key_def bt_get_def
  worker_new_def job_control_new_def pending_def go_def loop_head_def quorum_head_def recv_def gate_acquire_def
  permit_drop_def update_worker_def update_control_def control_of_def settle_def compare_exchange_def caught_def
  send_completion_def record_completion_def is_ok_and_def loop_received_def quorum_received_def clamp_def
  cancel_all_def controls_def cancel_exchange_def cancel_store_def any_completed_def drop_supervisor_def
  record_all_def close_receiver_def bt_remove_def lifecycle_defs sat_add_def u64_max_def

lemma ex_cancelling_eq:
  "schedule ex_mode (\<lambda>v. v > 0) 2 ex_first_done ex_quorum = Some
     \<lparr>qr_supervisor = \<lparr>js_gate = \<lparr>wg_limit = 2, wg_active = 0\<rparr>, js_channel = [], js_open = True,
        js_jobs = [(1, 1)],
        js_workers =
          [\<lparr>wk_job_id = 0, wk_control = \<lparr>jc_cancellation = False, jc_lifecycle = JOB_COMPLETED\<rparr>,
            wk_point = CompletionSent, wk_returned = Some (Inr 10), wk_reported = Some (Inr 10)\<rparr>,
           worker_new 1], js_others = 0\<rparr>,
      qr_locals = \<lparr>ql_point = Cancelling [1] 0, ql_slots = [Some (Inr 10), None], ql_received = 1,
        ql_successful = 1, ql_spawned = 2, ql_quorum_at = Some 0, ql_cancelled_stragglers = 0,
        ql_interrupted = False\<rparr>, qr_now = 0\<rparr>"
  by (simp add: ex_first_done_def ex_quorum_def quorum_start_def supervisor_def worker_gate_new_def ex_mode_def
      upt_rec numeral_2_eq_2 ex_step_defs)

lemma ex_returned_eq:
  "schedule ex_mode (\<lambda>v. v > 0) 2 ex_rest ex_cancelling = Some
     \<lparr>qr_supervisor = \<lparr>js_gate = \<lparr>wg_limit = 2, wg_active = 0\<rparr>, js_channel = [], js_open = False,
        js_jobs = [(1, 1)],
        js_workers =
          [\<lparr>wk_job_id = 0, wk_control = \<lparr>jc_cancellation = False, jc_lifecycle = JOB_COMPLETED\<rparr>,
            wk_point = CompletionSent, wk_returned = Some (Inr 10), wk_reported = Some (Inr 10)\<rparr>,
           (worker_new 1)\<lparr>wk_control := \<lparr>jc_cancellation = True, jc_lifecycle = JOB_CANCELLED\<rparr>\<rparr>],
        js_others = 0\<rparr>,
      qr_locals = \<lparr>ql_point = Returned, ql_slots = [Some (Inr 10), None], ql_received = 1,
        ql_successful = 1, ql_spawned = 2, ql_quorum_at = Some 0, ql_cancelled_stragglers = 1,
        ql_interrupted = False\<rparr>, qr_now = 0\<rparr>"
  unfolding ex_cancelling_def ex_cancelling_eq option.sel
  by (simp add: ex_rest_def ex_mode_def ex_step_defs)

lemma ex_reach_cancelling: "(quorum_step ex_mode (\<lambda>v. v > 0) 2)\<^sup>*\<^sup>* ex_quorum ex_cancelling"
  by (rule schedule_reaches [of _ _ _ ex_first_done]) (simp add: ex_cancelling_def ex_cancelling_eq)

lemma ex_reach_returned: "(quorum_step ex_mode (\<lambda>v. v > 0) 2)\<^sup>*\<^sup>* ex_quorum ex_returned"
proof -
  have "(quorum_step ex_mode (\<lambda>v. v > 0) 2)\<^sup>*\<^sup>* ex_cancelling ex_returned"
    by (rule schedule_reaches [of _ _ _ ex_rest]) (simp add: ex_returned_def ex_returned_eq)
  with ex_reach_cancelling show ?thesis by (rule rtranclp_trans)
qed



theorem quorum_never_deadlocks_witness:
  "\<exists>r'. caller_step ex_mode (\<lambda>v. v > 0) 2 False None ex_quorum = Some r'"
proof -
  have "ql_point (qr_locals ex_quorum) \<noteq> Returned" by (simp add: ex_quorum_def quorum_start_def)
  from quorum_never_deadlocks [OF ex_quorum_init rtranclp.rtrancl_refl this, of ex_mode "\<lambda>v. v > 0"]
  show ?thesis by (simp add: ex_quorum_def quorum_start_def supervisor_def worker_step_def)
qed

text \<open>A supervisor with one worker that has acquired its permit, run and settled.\<close>

definition ex_sup :: "nat ParallelJobSupervisor" where
  "ex_sup = supervisor (worker_gate_new 1) 0"

definition ex_worker_done :: "nat ParallelJobSupervisor" where
  "ex_worker_done = ex_sup\<lparr>js_gate := \<lparr>wg_limit = 1, wg_active = 1\<rparr>, js_jobs := [(5, 0)],
     js_workers := [\<lparr>wk_job_id = 5, wk_control = \<lparr>jc_cancellation = False, jc_lifecycle = JOB_COMPLETED\<rparr>,
       wk_point = LifecycleSettled, wk_returned = Some (Inr 3), wk_reported = Some (Inr 3)\<rparr>]\<rparr>"

lemma ex_sup_init: "sup_init ex_sup"
  by (auto simp: sup_init_def ex_sup_def shared_gate_def worker_gate_new_def
      intro!: exI [of _ "worker_gate_new 1"] exI [of _ 0])

lemma ex_worker_reach: "sup_step\<^sup>*\<^sup>* ex_sup ex_worker_done"
proof -
  let ?s = "snd (submit 5 None ex_sup)"
  have "sup_step ex_sup ?s"
    by (rule sup_step.submitted [of _ 5 None "fst (submit 5 None ex_sup)"]) (simp_all add: ex_sup_def supervisor_def)
  moreover have run: "worker_step 0 (Some 3) s = Some t \<Longrightarrow> sup_step\<^sup>*\<^sup>* t u \<Longrightarrow> sup_step\<^sup>*\<^sup>* s u"
    for s t u :: "nat ParallelJobSupervisor"
    by (blast intro: sup_step.worker converse_rtranclp_into_rtranclp)
  have "sup_step\<^sup>*\<^sup>* ?s ex_worker_done"
    apply (rule run, simp add: ex_step_defs ex_sup_def supervisor_def worker_gate_new_def)
    apply (rule run, simp add: ex_step_defs)
    apply (rule run, simp add: ex_step_defs)
    apply (rule run, simp add: ex_step_defs)
    by (simp add: ex_worker_done_def ex_sup_def supervisor_def lifecycle_defs)
  ultimately show ?thesis by (blast intro: converse_rtranclp_into_rtranclp)
qed

theorem permits_never_exceed_the_limit_witness:
  "permits ex_worker_done + js_others ex_worker_done \<le> 1 \<and> wg_active (js_gate ex_worker_done) = 1"
  using permits_never_exceed_the_limit [OF ex_sup_init ex_worker_reach]
  by (simp add: ex_sup_def supervisor_def worker_gate_new_def ex_worker_done_def)

theorem each_job_ends_once_witness:
  "lifecycle ex_worker_done 0 = JOB_COMPLETED \<and> wk_reported (js_workers ex_worker_done ! 0) = Some (Inr 3)"
proof -
  have "0 < length (js_workers ex_worker_done)" "wk_reported (js_workers ex_worker_done ! 0) = Some (Inr 3)"
    by (simp_all add: ex_worker_done_def)
  from each_job_ends_once [OF ex_sup_init ex_worker_reach rtranclp.rtrancl_refl this] show ?thesis by simp
qed

end
