(* ===== verification/Parallel_Ordered.thy ===== *)
theory Parallel_Ordered
  imports Parallel_Supervisor
begin

text \<open>
  Model of \<open>BoundedParallelExecutor::run_ordered\<close> (\<open>crates/agent-runtime/src/parallel.rs\<close>), which
  the desktop runs its tool calls with (\<open>run_tool_jobs_ordered\<close> of
  \<open>apps/desktop/src-tauri/src/parallel_execution.rs\<close>). The caller takes a permit for each job before
  it spawns the thread that owns the permit, then joins the threads in the order of the jobs.
\<close>

section \<open>The execution\<close>

text \<open>A thread drops its permit when the job has returned or panicked; only then can it be joined.\<close>

datatype 'a ordered_worker =
  ThreadRunning | ThreadReturned "'a option" | ThreadExited "'a option" | SpawnFailed ustring

record 'a ordered_run =
  or_gate :: WorkerGate
  or_others :: nat
  or_todo :: nat
  or_permit :: bool
  or_workers :: "'a ordered_worker list"
  or_results :: "'a task_result list"

definition ordered_start :: "WorkerGate \<Rightarrow> nat \<Rightarrow> usize \<Rightarrow> 'a ordered_run" where
  "ordered_start gate others jobs =
     \<lparr>or_gate = gate, or_others = others, or_todo = jobs, or_permit = False, or_workers = [],
      or_results = []\<rparr>"

definition join_worker :: "'a ordered_worker \<Rightarrow> 'a task_result option" where
  "join_worker w =
     (case w of
        ThreadExited out \<Rightarrow> Some (caught out)
      | SpawnFailed error \<Rightarrow> Some (Inl (TaskSpawn error))
      | _ \<Rightarrow> None)"

text \<open>The next step of the caller: acquire, spawn, or join; \<open>None\<close> when it waits or has returned.\<close>

definition ordered_caller :: "ustring option \<Rightarrow> 'a ordered_run \<Rightarrow> 'a ordered_run option" where
  "ordered_caller spawn_error r =
     (if or_permit r then
        Some (case spawn_error of
          None \<Rightarrow> r\<lparr>or_permit := False, or_todo := or_todo r - 1,
                     or_workers := or_workers r @ [ThreadRunning]\<rparr>
        | Some error \<Rightarrow> r\<lparr>or_permit := False, or_gate := permit_drop (or_gate r), or_todo := or_todo r - 1,
                     or_workers := or_workers r @ [SpawnFailed error]\<rparr>)
      else if or_todo r > 0 then
        map_option (\<lambda>g. r\<lparr>or_gate := g, or_permit := True\<rparr>) (gate_acquire (or_gate r))
      else if length (or_results r) < length (or_workers r) then
        map_option (\<lambda>res. r\<lparr>or_results := or_results r @ [res]\<rparr>)
          (join_worker (or_workers r ! length (or_results r)))
      else None)"

definition ordered_thread :: "nat \<Rightarrow> 'a option \<Rightarrow> 'a ordered_run \<Rightarrow> 'a ordered_run option" where
  "ordered_thread k out r =
     (if k < length (or_workers r) then
        case or_workers r ! k of
          ThreadRunning \<Rightarrow> Some (r\<lparr>or_workers := (or_workers r)[k := ThreadReturned out]\<rparr>)
        | ThreadReturned res \<Rightarrow>
            Some (r\<lparr>or_gate := permit_drop (or_gate r), or_workers := (or_workers r)[k := ThreadExited res]\<rparr>)
        | _ \<Rightarrow> None
      else None)"

definition ordered_returned :: "'a ordered_run \<Rightarrow> bool" where
  "ordered_returned r \<longleftrightarrow> \<not> or_permit r \<and> or_todo r = 0 \<and> length (or_results r) = length (or_workers r)"

definition MAX_GLOBAL_TOOL_WORKERS :: usize where
  "MAX_GLOBAL_TOOL_WORKERS = 4"

text \<open>\<open>run_tool_jobs_ordered\<close> on the process-wide executor, of which other calls hold some permits.\<close>

definition run_tool_jobs_ordered :: "nat \<Rightarrow> usize \<Rightarrow> 'a ordered_run" where
  "run_tool_jobs_ordered others jobs =
     ordered_start ((worker_gate_new MAX_GLOBAL_TOOL_WORKERS)\<lparr>wg_active := others\<rparr>) others jobs"

inductive ordered_step :: "'a ordered_run \<Rightarrow> 'a ordered_run \<Rightarrow> bool" where
  o_caller: "ordered_caller spawn_error r = Some r' \<Longrightarrow> ordered_step r r'"
| o_thread: "ordered_thread k out r = Some r' \<Longrightarrow> ordered_step r r'"
| o_other_acquires: "gate_acquire (or_gate r) = Some g \<Longrightarrow>
    ordered_step r (r\<lparr>or_gate := g, or_others := or_others r + 1\<rparr>)"
| o_other_drops: "or_others r > 0 \<Longrightarrow>
    ordered_step r (r\<lparr>or_gate := permit_drop (or_gate r), or_others := or_others r - 1\<rparr>)"

definition ordered_init :: "usize \<Rightarrow> 'a ordered_run \<Rightarrow> bool" where
  "ordered_init jobs r \<longleftrightarrow> (\<exists>gate others. shared_gate gate others \<and> r = ordered_start gate others jobs)"

section \<open>The invariant\<close>

definition thread_holds :: "'a ordered_worker \<Rightarrow> bool" where
  "thread_holds w = (case w of ThreadRunning \<Rightarrow> True | ThreadReturned _ \<Rightarrow> True | _ \<Rightarrow> False)"

definition threads_active :: "'a ordered_run \<Rightarrow> nat" where
  "threads_active r = length (filter thread_holds (or_workers r))"

definition ordered_inv :: "usize \<Rightarrow> 'a ordered_run \<Rightarrow> bool" where
  "ordered_inv jobs r \<longleftrightarrow>
     1 \<le> wg_limit (or_gate r) \<and> wg_active (or_gate r) \<le> wg_limit (or_gate r) \<and>
     wg_active (or_gate r) = threads_active r + or_others r + (if or_permit r then 1 else 0) \<and>
     length (or_workers r) + or_todo r = jobs \<and> (or_permit r \<longrightarrow> or_todo r > 0) \<and>
     length (or_results r) \<le> length (or_workers r) \<and>
     (\<forall>i < length (or_results r). join_worker (or_workers r ! i) = Some (or_results r ! i))"

text \<open>An outcome a thread has, and a result that has been joined, stay.\<close>

definition ordered_guar :: "'a ordered_run \<Rightarrow> 'a ordered_run \<Rightarrow> bool" where
  "ordered_guar r r' \<longleftrightarrow> wg_limit (or_gate r') = wg_limit (or_gate r) \<and>
     length (or_workers r) \<le> length (or_workers r') \<and>
     (\<forall>i < length (or_workers r). \<forall>x. join_worker (or_workers r ! i) = Some x \<longrightarrow>
        join_worker (or_workers r' ! i) = Some x)"

lemma thread_update:
  assumes "k < length (or_workers r)"
  shows "length (filter thread_holds ((or_workers r)[k := w])) + (if thread_holds (or_workers r ! k) then 1 else 0) =
    threads_active r + (if thread_holds w then 1 else 0)"
  using filter_update_length [OF assms, of thread_holds w] by (simp add: threads_active_def)

lemma ordered_thread_inv:
  assumes inv: "ordered_inv jobs r" and t: "ordered_thread k out r = Some r'"
  shows "ordered_inv jobs r'" "ordered_guar r r'"
proof -
  have k: "k < length (or_workers r)" using t by (simp add: ordered_thread_def split: if_splits)
  have pending: "join_worker (or_workers r ! k) = None"
    using t k by (auto simp: ordered_thread_def join_worker_def split: ordered_worker.splits)
  have joined: "i \<noteq> k" if "i < length (or_results r)" for i
    using inv that pending by (auto simp: ordered_inv_def)
  have keep: "\<forall>i < length (or_results r). join_worker ((or_workers r)[k := w] ! i) = Some (or_results r ! i)" for w
  proof (intro allI impI)
    fix i
    assume i: "i < length (or_results r)"
    with inv have "join_worker (or_workers r ! i) = Some (or_results r ! i)" by (simp add: ordered_inv_def)
    with joined [OF i] show "join_worker ((or_workers r)[k := w] ! i) = Some (or_results r ! i)" by simp
  qed
  show "ordered_inv jobs r'"
  proof (cases "or_workers r ! k")
    case ThreadRunning
    with t k have "r' = r\<lparr>or_workers := (or_workers r)[k := ThreadReturned out]\<rparr>"
      by (simp add: ordered_thread_def)
    with inv keep thread_update [OF k, of "ThreadReturned out"] ThreadRunning show ?thesis
      by (simp add: ordered_inv_def threads_active_def thread_holds_def)
  next
    case (ThreadReturned res)
    with t k have "r' = r\<lparr>or_gate := permit_drop (or_gate r), or_workers := (or_workers r)[k := ThreadExited res]\<rparr>"
      by (simp add: ordered_thread_def)
    with inv keep thread_update [OF k, of "ThreadExited res"] ThreadReturned show ?thesis
      by (auto simp: ordered_inv_def threads_active_def thread_holds_def permit_drop_def)
  qed (use t k in \<open>simp_all add: ordered_thread_def\<close>)
  show "ordered_guar r r'"
    using t k pending
    by (auto simp: ordered_thread_def ordered_guar_def permit_drop_def nth_list_update split: ordered_worker.splits)
qed

lemma ordered_caller_inv:
  assumes inv: "ordered_inv jobs r" and t: "ordered_caller e r = Some r'"
  shows "ordered_inv jobs r'" "ordered_guar r r'"
proof -
  show "ordered_guar r r'"
    using t by (auto simp: ordered_caller_def ordered_guar_def permit_drop_def gate_acquire_Some nth_append
        split: if_splits option.splits)
  consider (spawn) "or_permit r" | (acquire) "\<not> or_permit r" "or_todo r > 0"
    | (join) "\<not> or_permit r" "or_todo r = 0" by blast
  then show "ordered_inv jobs r'"
  proof cases
    case spawn
    with t inv show ?thesis
      by (auto simp: ordered_caller_def ordered_inv_def threads_active_def thread_holds_def permit_drop_def
          nth_append split: option.splits)
  next
    case acquire
    with t inv show ?thesis
      by (auto simp: ordered_caller_def ordered_inv_def threads_active_def gate_acquire_Some)
  next
    case join
    with t inv show ?thesis
      by (auto simp: ordered_caller_def ordered_inv_def threads_active_def nth_append less_Suc_eq split: if_splits)
  qed
qed

lemma ordered_step_inv:
  assumes "ordered_step r r'" "ordered_inv jobs r"
  shows "ordered_inv jobs r' \<and> ordered_guar r r'"
  using assms
proof cases
  case (o_caller e)
  with assms(2) ordered_caller_inv show ?thesis by blast
next
  case (o_thread k out)
  with assms(2) ordered_thread_inv show ?thesis by blast
qed (use assms(2) in \<open>auto simp: ordered_inv_def ordered_guar_def threads_active_def gate_acquire_Some
    permit_drop_def\<close>)

interpretation ordered: step_system "ordered_init jobs" ordered_step "ordered_inv jobs" ordered_guar
  for jobs
proof
  show "ordered_inv jobs r" if "ordered_init jobs r" for r :: "'a ordered_run"
    using that by (auto simp: ordered_init_def ordered_start_def shared_gate_iff ordered_inv_def threads_active_def)
qed (auto simp: ordered_guar_def dest: ordered_step_inv intro: less_le_trans)

section \<open>Properties\<close>

text \<open>
  C35. Tool calls run in parallel within the limit and report in order. In every interleaving at most
  four workers of the process hold a permit; when the call returns there is one result per job, and
  the result at each position is what the thread of that job returned, its panic, or its spawn error.
\<close>

theorem tool_jobs_keep_order_and_limit:
  assumes "others \<le> MAX_GLOBAL_TOOL_WORKERS" "ordered_step\<^sup>*\<^sup>* (run_tool_jobs_ordered others jobs) r"
  shows "threads_active r + or_others r \<le> 4 \<and>
    (ordered_returned r \<longrightarrow> length (or_results r) = jobs \<and>
       (\<forall>i < jobs. join_worker (or_workers r ! i) = Some (or_results r ! i)))"
proof -
  have init: "ordered_init jobs (run_tool_jobs_ordered others jobs :: 'a ordered_run)"
    using assms(1) by (auto simp: ordered_init_def run_tool_jobs_ordered_def shared_gate_def worker_gate_new_def
        MAX_GLOBAL_TOOL_WORKERS_def intro!: exI [of _ "\<lparr>wg_limit = 4, wg_active = others\<rparr>"] exI [of _ others])
  have inv: "ordered_inv jobs r" by (rule ordered.reach_inv [OF init assms(2)])
  have "ordered_guar (run_tool_jobs_ordered others jobs) r"
    by (rule ordered.reach_guar [OF init rtranclp.rtrancl_refl assms(2)])
  then have "wg_limit (or_gate r) = 4"
    by (simp add: ordered_guar_def run_tool_jobs_ordered_def ordered_start_def worker_gate_new_def
        MAX_GLOBAL_TOOL_WORKERS_def)
  with inv show ?thesis by (auto simp: ordered_inv_def ordered_returned_def split: if_splits)
qed

text \<open>
  The ordered execution never deadlocks: until it has returned, the caller can take a step, or a
  thread can, or another user of the executor holds a permit.
\<close>

theorem ordered_run_never_deadlocks:
  assumes "ordered_init jobs r0" "ordered_step\<^sup>*\<^sup>* r0 r" "\<not> ordered_returned r"
  shows "(\<exists>r'. ordered_caller None r = Some r') \<or> (\<exists>k r'. ordered_thread k None r = Some r') \<or> or_others r > 0"
proof -
  have inv: "ordered_inv jobs r" by (rule ordered.reach_inv [OF assms(1,2)])
  have moves: "\<exists>k r'. ordered_thread k None r = Some r'" if "k < length (or_workers r)" "thread_holds (or_workers r ! k)" for k
    using that by (intro exI [of _ k]) (auto simp: ordered_thread_def thread_holds_def split: ordered_worker.splits)
  show ?thesis
  proof (cases "ordered_caller None r")
    case None
    then have np: "\<not> or_permit r" by (auto simp: ordered_caller_def)
    show ?thesis
    proof (cases "or_todo r > 0")
      case True
      with None np have "wg_active (or_gate r) \<ge> wg_limit (or_gate r)"
        by (auto simp: ordered_caller_def gate_acquire_def split: if_splits)
      with inv np have "threads_active r > 0 \<or> or_others r > 0" by (auto simp: ordered_inv_def)
      then show ?thesis
      proof
        assume "threads_active r > 0"
        then obtain w where "w \<in> set (or_workers r)" "thread_holds w"
          by (auto simp: threads_active_def filter_empty_conv)
        then show ?thesis using moves by (auto simp: in_set_conv_nth)
      qed blast
    next
      case False
      with np inv assms(3) have lt: "length (or_results r) < length (or_workers r)"
        by (auto simp: ordered_returned_def ordered_inv_def)
      with None np False have "join_worker (or_workers r ! length (or_results r)) = None"
        by (auto simp: ordered_caller_def)
      then have "thread_holds (or_workers r ! length (or_results r))"
        by (auto simp: join_worker_def thread_holds_def split: ordered_worker.splits)
      with moves [OF lt] show ?thesis by blast
    qed
  qed blast
qed

text \<open>Two jobs: the second thread panics before the first one returns; the results keep the order of the jobs.\<close>

datatype 'a ordered_choice = OrderedCaller | OrderedThread nat "'a option"

fun ordered_schedule :: "'a ordered_choice list \<Rightarrow> 'a ordered_run \<Rightarrow> 'a ordered_run option" where
  "ordered_schedule [] r = Some r"
| "ordered_schedule (OrderedCaller # cs) r =
     (case ordered_caller None r of None \<Rightarrow> None | Some r' \<Rightarrow> ordered_schedule cs r')"
| "ordered_schedule (OrderedThread k out # cs) r =
     (case ordered_thread k out r of None \<Rightarrow> None | Some r' \<Rightarrow> ordered_schedule cs r')"

lemma ordered_schedule_reaches: "ordered_schedule cs r = Some r' \<Longrightarrow> ordered_step\<^sup>*\<^sup>* r r'"
proof (induction cs arbitrary: r)
  case (Cons c cs)
  then show ?case
    by (cases c) (auto split: option.splits intro: ordered_step.intros converse_rtranclp_into_rtranclp)
qed simp

definition ex_tool_schedule :: "nat ordered_choice list" where
  "ex_tool_schedule =
     [OrderedCaller, OrderedCaller, OrderedCaller, OrderedCaller, OrderedThread 1 None, OrderedThread 1 None,
      OrderedThread 0 (Some 7), OrderedThread 0 (Some 7), OrderedCaller, OrderedCaller]"

definition ex_tool_done :: "nat ordered_run" where
  "ex_tool_done = (run_tool_jobs_ordered 0 2)\<lparr>or_todo := 0,
     or_workers := [ThreadExited (Some 7), ThreadExited None], or_results := [Inr 7, Inl TaskPanic]\<rparr>"

lemma ex_tool_reach: "ordered_step\<^sup>*\<^sup>* (run_tool_jobs_ordered 0 2) ex_tool_done"
  by (rule ordered_schedule_reaches [of ex_tool_schedule])
    (simp add: ex_tool_schedule_def ex_tool_done_def run_tool_jobs_ordered_def ordered_start_def worker_gate_new_def
      MAX_GLOBAL_TOOL_WORKERS_def ordered_caller_def ordered_thread_def gate_acquire_def permit_drop_def
      join_worker_def caught_def)

theorem tool_jobs_keep_order_and_limit_witness:
  "length (or_results ex_tool_done) = 2 \<and> join_worker (or_workers ex_tool_done ! 1) = Some (Inl TaskPanic)"
proof -
  have "ordered_returned ex_tool_done"
    by (simp add: ordered_returned_def ex_tool_done_def run_tool_jobs_ordered_def ordered_start_def)
  with tool_jobs_keep_order_and_limit [OF _ ex_tool_reach]
  have "length (or_results ex_tool_done) = 2"
    "\<forall>i < 2. join_worker (or_workers ex_tool_done ! i) = Some (or_results ex_tool_done ! i)"
    by simp_all
  moreover from this(2) have "join_worker (or_workers ex_tool_done ! 1) = Some (or_results ex_tool_done ! 1)"
    by simp
  ultimately show ?thesis by (simp add: ex_tool_done_def)
qed

theorem ordered_run_never_deadlocks_witness:
  "\<exists>r'. ordered_caller None (run_tool_jobs_ordered 0 2 :: nat ordered_run) = Some r'"
proof -
  let ?r = "run_tool_jobs_ordered 0 2 :: nat ordered_run"
  have "ordered_init 2 ?r"
    by (auto simp: ordered_init_def run_tool_jobs_ordered_def shared_gate_def worker_gate_new_def
        MAX_GLOBAL_TOOL_WORKERS_def intro!: exI [of _ "\<lparr>wg_limit = 4, wg_active = 0\<rparr>"] exI [of _ 0])
  moreover have "\<not> ordered_returned ?r"
    by (simp add: ordered_returned_def run_tool_jobs_ordered_def ordered_start_def)
  ultimately show ?thesis
    using ordered_run_never_deadlocks [of 2 ?r ?r]
    by (auto simp: run_tool_jobs_ordered_def ordered_start_def ordered_thread_def)
qed

end
