(* ===== verification/Run_Events.thy ===== *)
theory Run_Events
  imports BTree_Map Text_Search Run_Control_State
begin

text \<open>
  Model of \<open>crates/agent-core/src/event_contract.rs\<close>, \<open>crates/agent-application/src/run_lifecycle.rs\<close>
  and \<open>crates/agent-application/src/recovery.rs\<close>: the typed events of the event log, the status of
  a run projected from its events, and the labels and identities under which a stopped run is
  recovered. Metadata is an ordered map of strings.
\<close>

section \<open>Typed events\<close>

datatype EventKind =
  TaskCreated | TaskStatusChanged | MessageAdded | ModelRequestStarted | ModelRequestFinished | ToolCallProposed
| ToolCallStarted | ToolCallFinished | PermissionRequested | PermissionResolved | RetrievalPerformed | ErrorEvent

record Event =
  ev_id :: ustring
  ev_task_id :: ustring
  ev_sequence :: u64
  ev_timestamp_ms :: u64
  ev_kind :: EventKind
  ev_summary :: ustring
  ev_metadata :: "(ustring, ustring) btree"

definition EVENT_TYPE_METADATA_KEY :: ustring where
  "EVENT_TYPE_METADATA_KEY = lit ''event_type''"

datatype EventTypeV1 =
  AgentRunStarted
| AgentRunRetryStarted
| AgentRunWaitingForPermission
| AgentRunResumedAfterPermission
| AgentRunPaused
| AgentRunCompleted
| AgentRunFailed
| AgentRunCancelled
| AgentRunDecisionSelected
| AgentModelTurnStarted
| AgentModelTurnFinished
| AgentQueueEnqueued
| AgentQueueEdited
| AgentQueueSteerRequested
| AgentQueueDeleted
| AgentQueueStarted
| AgentQueueRestored
| ErrorRecorded

fun event_type_id :: "EventTypeV1 \<Rightarrow> ustring" where
  "event_type_id AgentRunStarted = lit ''cindx.event.v1/agent.run.started''"
| "event_type_id AgentRunRetryStarted = lit ''cindx.event.v1/agent.run.retry_started''"
| "event_type_id AgentRunWaitingForPermission = lit ''cindx.event.v1/agent.run.waiting_for_permission''"
| "event_type_id AgentRunResumedAfterPermission = lit ''cindx.event.v1/agent.run.resumed_after_permission''"
| "event_type_id AgentRunPaused = lit ''cindx.event.v1/agent.run.paused''"
| "event_type_id AgentRunCompleted = lit ''cindx.event.v1/agent.run.completed''"
| "event_type_id AgentRunFailed = lit ''cindx.event.v1/agent.run.failed''"
| "event_type_id AgentRunCancelled = lit ''cindx.event.v1/agent.run.cancelled''"
| "event_type_id AgentRunDecisionSelected = lit ''cindx.event.v1/agent.run.decision_selected''"
| "event_type_id AgentModelTurnStarted = lit ''cindx.event.v1/agent.model_turn.started''"
| "event_type_id AgentModelTurnFinished = lit ''cindx.event.v1/agent.model_turn.finished''"
| "event_type_id AgentQueueEnqueued = lit ''cindx.event.v1/agent.queue.enqueued''"
| "event_type_id AgentQueueEdited = lit ''cindx.event.v1/agent.queue.edited''"
| "event_type_id AgentQueueSteerRequested = lit ''cindx.event.v1/agent.queue.steer_requested''"
| "event_type_id AgentQueueDeleted = lit ''cindx.event.v1/agent.queue.deleted''"
| "event_type_id AgentQueueStarted = lit ''cindx.event.v1/agent.queue.started''"
| "event_type_id AgentQueueRestored = lit ''cindx.event.v1/agent.queue.restored''"
| "event_type_id ErrorRecorded = lit ''cindx.event.v1/error.recorded''"

definition event_type_from_id :: "ustring \<Rightarrow> EventTypeV1 option" where
  "event_type_from_id value =
     (if value = lit ''cindx.event.v1/agent.run.started'' then Some AgentRunStarted
      else if value = lit ''cindx.event.v1/agent.run.retry_started'' then Some AgentRunRetryStarted
      else if value = lit ''cindx.event.v1/agent.run.waiting_for_permission'' then Some AgentRunWaitingForPermission
      else if value = lit ''cindx.event.v1/agent.run.resumed_after_permission'' then Some AgentRunResumedAfterPermission
      else if value = lit ''cindx.event.v1/agent.run.paused'' then Some AgentRunPaused
      else if value = lit ''cindx.event.v1/agent.run.completed'' then Some AgentRunCompleted
      else if value = lit ''cindx.event.v1/agent.run.failed'' then Some AgentRunFailed
      else if value = lit ''cindx.event.v1/agent.run.cancelled'' then Some AgentRunCancelled
      else if value = lit ''cindx.event.v1/agent.run.decision_selected'' then Some AgentRunDecisionSelected
      else if value = lit ''cindx.event.v1/agent.model_turn.started'' then Some AgentModelTurnStarted
      else if value = lit ''cindx.event.v1/agent.model_turn.finished'' then Some AgentModelTurnFinished
      else if value = lit ''cindx.event.v1/agent.queue.enqueued'' then Some AgentQueueEnqueued
      else if value = lit ''cindx.event.v1/agent.queue.edited'' then Some AgentQueueEdited
      else if value = lit ''cindx.event.v1/agent.queue.steer_requested'' then Some AgentQueueSteerRequested
      else if value = lit ''cindx.event.v1/agent.queue.deleted'' then Some AgentQueueDeleted
      else if value = lit ''cindx.event.v1/agent.queue.started'' then Some AgentQueueStarted
      else if value = lit ''cindx.event.v1/agent.queue.restored'' then Some AgentQueueRestored
      else if value = lit ''cindx.event.v1/error.recorded'' then Some ErrorRecorded
      else None)"

definition matches_kind :: "EventTypeV1 \<Rightarrow> EventKind \<Rightarrow> bool" where
  "matches_kind t kind =
     (case t of
        AgentRunFailed \<Rightarrow> kind = ErrorEvent
      | ErrorRecorded \<Rightarrow> kind = ErrorEvent
      | AgentModelTurnStarted \<Rightarrow> kind = ModelRequestStarted
      | AgentModelTurnFinished \<Rightarrow> kind = ModelRequestFinished
      | _ \<Rightarrow> kind = TaskStatusChanged)"

record TypedEventRef =
  te_event_type :: EventTypeV1
  te_event :: Event

datatype DecodedEventType = Legacy | TypedV1 TypedEventRef | Invalid ustring

definition decode_event_type :: "Event \<Rightarrow> DecodedEventType" where
  "decode_event_type event =
     (case bt_get (ev_metadata event) EVENT_TYPE_METADATA_KEY of
        None \<Rightarrow> Legacy
      | Some raw \<Rightarrow>
          (case event_type_from_id raw of
             None \<Rightarrow> Invalid raw
           | Some t \<Rightarrow> if \<not> matches_kind t (ev_kind event) then Invalid raw
               else TypedV1 \<lparr>te_event_type = t, te_event = event\<rparr>))"

datatype EventTypeBuildError = KindMismatch EventTypeV1 | ReservedKeyOccupied

definition insert_event_type_v1 ::
  "EventKind \<Rightarrow> EventTypeV1 \<Rightarrow> (ustring, ustring) btree \<Rightarrow> (EventTypeBuildError + unit) \<times> (ustring, ustring) btree"
where
  "insert_event_type_v1 kind t metadata =
     (if \<not> matches_kind t kind then (Inl (KindMismatch t), metadata)
      else case bt_get metadata EVENT_TYPE_METADATA_KEY of
        Some existing \<Rightarrow> if existing = event_type_id t then (Inr (), metadata) else (Inl ReservedKeyOccupied, metadata)
      | None \<Rightarrow> (Inr (), bt_insert EVENT_TYPE_METADATA_KEY (event_type_id t) metadata))"

section \<open>The status of a run\<close>

datatype AgentRunStatus =
  StatusIdle | StatusRunning | StatusWaitingForPermission | StatusPaused | StatusCompleted | StatusFailed | StatusCancelled

fun status_label :: "AgentRunStatus \<Rightarrow> ustring" where
  "status_label StatusIdle = lit ''idle''"
| "status_label StatusRunning = lit ''running''"
| "status_label StatusWaitingForPermission = lit ''waiting_for_permission''"
| "status_label StatusPaused = lit ''paused''"
| "status_label StatusCompleted = lit ''completed''"
| "status_label StatusFailed = lit ''failed''"
| "status_label StatusCancelled = lit ''cancelled''"

definition status_parse :: "ustring \<Rightarrow> AgentRunStatus" where
  "status_parse value =
     (if value = lit ''running'' then StatusRunning
      else if value = lit ''waiting_for_permission'' then StatusWaitingForPermission
      else if value = lit ''paused'' then StatusPaused
      else if value = lit ''completed'' then StatusCompleted
      else if value = lit ''failed'' then StatusFailed
      else if value = lit ''cancelled'' then StatusCancelled
      else StatusIdle)"

definition status_is_terminal :: "AgentRunStatus \<Rightarrow> bool" where
  "status_is_terminal s \<longleftrightarrow> s = StatusCompleted \<or> s = StatusFailed \<or> s = StatusCancelled"

definition status_can_cancel :: "AgentRunStatus \<Rightarrow> bool" where
  "status_can_cancel s \<longleftrightarrow> s = StatusRunning \<or> s = StatusWaitingForPermission"

definition status_can_retry :: "bool \<Rightarrow> AgentRunStatus \<Rightarrow> bool" where
  "status_can_retry has_user_prompt s \<longleftrightarrow>
     has_user_prompt \<and> (s = StatusPaused \<or> s = StatusCompleted \<or> s = StatusFailed \<or> s = StatusCancelled)"

definition status_can_continue :: "bool \<Rightarrow> AgentRunStatus \<Rightarrow> bool" where
  "status_can_continue partial_completion s \<longleftrightarrow> s = StatusPaused \<or> (s = StatusCompleted \<and> partial_completion)"

datatype AgentRunEvent =
  RunStarted | RunRetryStarted | RunWaitingForPermission | RunResumedAfterPermission | RunPaused | RunCompleted
| RunFailed | RunCancelled

fun event_status :: "AgentRunEvent \<Rightarrow> AgentRunStatus" where
  "event_status RunStarted = StatusRunning"
| "event_status RunRetryStarted = StatusRunning"
| "event_status RunResumedAfterPermission = StatusRunning"
| "event_status RunWaitingForPermission = StatusWaitingForPermission"
| "event_status RunPaused = StatusPaused"
| "event_status RunCompleted = StatusCompleted"
| "event_status RunFailed = StatusFailed"
| "event_status RunCancelled = StatusCancelled"

definition run_event_is_start :: "AgentRunEvent \<Rightarrow> bool" where
  "run_event_is_start e \<longleftrightarrow> e = RunStarted \<or> e = RunRetryStarted"

definition run_event_from_type :: "EventTypeV1 \<Rightarrow> AgentRunEvent option" where
  "run_event_from_type t =
     (case t of
        AgentRunStarted \<Rightarrow> Some RunStarted
      | AgentRunRetryStarted \<Rightarrow> Some RunRetryStarted
      | AgentRunWaitingForPermission \<Rightarrow> Some RunWaitingForPermission
      | AgentRunResumedAfterPermission \<Rightarrow> Some RunResumedAfterPermission
      | AgentRunPaused \<Rightarrow> Some RunPaused
      | AgentRunCompleted \<Rightarrow> Some RunCompleted
      | AgentRunFailed \<Rightarrow> Some RunFailed
      | AgentRunCancelled \<Rightarrow> Some RunCancelled
      | _ \<Rightarrow> None)"

definition run_event_from_summary :: "ustring \<Rightarrow> AgentRunEvent option" where
  "run_event_from_summary summary =
     (if summary = lit ''Agent task started'' then Some RunStarted
      else if summary = lit ''Agent task retry started'' then Some RunRetryStarted
      else if summary = lit ''Agent task waiting for permission'' then Some RunWaitingForPermission
      else if summary = lit ''Agent task resumed after permission'' then Some RunResumedAfterPermission
      else if summary = lit ''Agent task paused'' then Some RunPaused
      else if summary = lit ''Agent task completed'' then Some RunCompleted
      else if summary = lit ''Agent task failed'' then Some RunFailed
      else if summary = lit ''Agent task cancelled'' then Some RunCancelled
      else None)"

definition run_event_from_legacy :: "Event \<Rightarrow> AgentRunEvent option" where
  "run_event_from_legacy event =
     (if bt_contains_key (ev_metadata event) (lit ''queue_action'') then None
      else if ev_kind event = ErrorEvent then Some RunFailed
      else if ev_kind event \<noteq> TaskStatusChanged then None
      else run_event_from_summary (ev_summary event))"

definition try_from_event :: "Event \<Rightarrow> ustring + AgentRunEvent option" where
  "try_from_event event =
     (if \<not> (ev_kind event = TaskStatusChanged \<or> ev_kind event = ErrorEvent) then Inr None
      else case decode_event_type event of
        TypedV1 typed \<Rightarrow> Inr (run_event_from_type (te_event_type typed))
      | Invalid raw \<Rightarrow> Inl raw
      | Legacy \<Rightarrow> Inr (run_event_from_legacy event))"

definition from_event :: "Event \<Rightarrow> AgentRunEvent option" where
  "from_event event = (case try_from_event event of Inr e \<Rightarrow> e | Inl _ \<Rightarrow> None)"

text \<open>The loop over the events: \<open>Inl\<close> is the early return of \<open>Failed\<close>.\<close>

fun status_loop :: "Event list \<Rightarrow> AgentRunStatus option \<Rightarrow> unit + AgentRunStatus option" where
  "status_loop [] latest = Inr latest"
| "status_loop (event # events) latest =
     (case map_option event_status (from_event event) of
        None \<Rightarrow> status_loop events latest
      | Some s \<Rightarrow> if s = StatusFailed then Inl () else status_loop events (Some s))"

definition status_from_events :: "Event list \<Rightarrow> bool \<Rightarrow> bool \<Rightarrow> AgentRunStatus" where
  "status_from_events events has_pending_approval has_error =
     (if has_error then StatusFailed
      else case status_loop events None of
        Inl _ \<Rightarrow> StatusFailed
      | Inr (Some s) \<Rightarrow> if s = StatusRunning \<and> has_pending_approval then StatusWaitingForPermission else s
      | Inr None \<Rightarrow>
          if has_pending_approval then StatusWaitingForPermission
          else if events = [] then StatusIdle else StatusRunning)"

definition is_agent_model_turn_event :: "Event \<Rightarrow> EventKind \<Rightarrow> EventTypeV1 \<Rightarrow> ustring \<Rightarrow> bool" where
  "is_agent_model_turn_event event kind t legacy_summary =
     (if ev_kind event \<noteq> kind then False
      else case decode_event_type event of
        TypedV1 typed \<Rightarrow> te_event_type typed = t | Legacy \<Rightarrow> ev_summary event = legacy_summary | Invalid _ \<Rightarrow> False)"

definition is_agent_model_turn_started :: "Event \<Rightarrow> bool" where
  "is_agent_model_turn_started event =
     is_agent_model_turn_event event ModelRequestStarted AgentModelTurnStarted (lit ''Agent model turn started'')"

definition is_agent_model_turn_finished :: "Event \<Rightarrow> bool" where
  "is_agent_model_turn_finished event =
     is_agent_model_turn_event event ModelRequestFinished AgentModelTurnFinished (lit ''Agent model turn finished'')"

section \<open>Recovery\<close>

datatype AgentRecoveryState =
  RecoveryPaused
| RecoveryBlocked
| RecoveryResuming
| RecoveryUnknown ustring

definition recovery_state_parse :: "ustring \<Rightarrow> AgentRecoveryState" where
  "recovery_state_parse value =
     (if value = lit ''paused'' then RecoveryPaused
      else if value = lit ''blocked'' then RecoveryBlocked
      else if value = lit ''resuming'' then RecoveryResuming
      else RecoveryUnknown value)"

fun recovery_state_label :: "AgentRecoveryState \<Rightarrow> ustring" where
  "recovery_state_label RecoveryPaused = lit ''paused''"
| "recovery_state_label RecoveryBlocked = lit ''blocked''"
| "recovery_state_label RecoveryResuming = lit ''resuming''"
| "recovery_state_label (RecoveryUnknown value) = value"

datatype AgentRecoveryReason =
  BecauseAppRestarted
| BecauseAppRestartedWaitingForPermission
| BecauseWaitingForPermission
| BecausePermissionResolved
| BecauseUserContinued
| BecauseUserCancelled
| BecauseDeadlineExceeded
| BecauseModelCallBudgetExceeded
| BecauseToolCallBudgetExceeded
| BecauseTurnBudgetExhausted
| BecauseProviderUnavailable
| BecauseNoProgress
| BecauseRepeatedAction
| BecauseStageBudgetExhausted
| BecauseRepairBudgetExhausted
| BecauseModelResourceBudgetExceeded
| BecauseUnknown ustring

definition recovery_reason_parse :: "ustring \<Rightarrow> AgentRecoveryReason" where
  "recovery_reason_parse value =
     (if value = lit ''app_restarted'' then BecauseAppRestarted
      else if value = lit ''app_restarted_waiting_for_permission'' then BecauseAppRestartedWaitingForPermission
      else if value = lit ''waiting_for_permission'' then BecauseWaitingForPermission
      else if value = lit ''permission_resolved'' then BecausePermissionResolved
      else if value = lit ''user_continued'' then BecauseUserContinued
      else if value = lit ''user_cancelled'' then BecauseUserCancelled
      else if value = lit ''deadline_exceeded'' then BecauseDeadlineExceeded
      else if value = lit ''model_call_budget_exceeded'' then BecauseModelCallBudgetExceeded
      else if value = lit ''tool_call_budget_exceeded'' then BecauseToolCallBudgetExceeded
      else if value = lit ''turn_budget_exhausted'' then BecauseTurnBudgetExhausted
      else if value = lit ''provider_unavailable'' then BecauseProviderUnavailable
      else if value = lit ''no_progress'' then BecauseNoProgress
      else if value = lit ''repeated_action'' then BecauseRepeatedAction
      else if value = lit ''stage_budget_exhausted'' then BecauseStageBudgetExhausted
      else if value = lit ''repair_budget_exhausted'' then BecauseRepairBudgetExhausted
      else if value = lit ''model_resource_budget_exceeded'' then BecauseModelResourceBudgetExceeded
      else BecauseUnknown value)"

fun recovery_reason_label :: "AgentRecoveryReason \<Rightarrow> ustring" where
  "recovery_reason_label BecauseAppRestarted = lit ''app_restarted''"
| "recovery_reason_label BecauseAppRestartedWaitingForPermission = lit ''app_restarted_waiting_for_permission''"
| "recovery_reason_label BecauseWaitingForPermission = lit ''waiting_for_permission''"
| "recovery_reason_label BecausePermissionResolved = lit ''permission_resolved''"
| "recovery_reason_label BecauseUserContinued = lit ''user_continued''"
| "recovery_reason_label BecauseUserCancelled = lit ''user_cancelled''"
| "recovery_reason_label BecauseDeadlineExceeded = lit ''deadline_exceeded''"
| "recovery_reason_label BecauseModelCallBudgetExceeded = lit ''model_call_budget_exceeded''"
| "recovery_reason_label BecauseToolCallBudgetExceeded = lit ''tool_call_budget_exceeded''"
| "recovery_reason_label BecauseTurnBudgetExhausted = lit ''turn_budget_exhausted''"
| "recovery_reason_label BecauseProviderUnavailable = lit ''provider_unavailable''"
| "recovery_reason_label BecauseNoProgress = lit ''no_progress''"
| "recovery_reason_label BecauseRepeatedAction = lit ''repeated_action''"
| "recovery_reason_label BecauseStageBudgetExhausted = lit ''stage_budget_exhausted''"
| "recovery_reason_label BecauseRepairBudgetExhausted = lit ''repair_budget_exhausted''"
| "recovery_reason_label BecauseModelResourceBudgetExceeded = lit ''model_resource_budget_exceeded''"
| "recovery_reason_label (BecauseUnknown value) = value"

record AgentRecoveryIdentity =
  ri_project_id :: "ustring option"
  ri_session_id :: ustring
  ri_resume_key :: ustring
  ri_source_run_id :: ustring
  ri_logical_run_id :: "ustring option"
  ri_user_turn_sequence :: u64
  ri_prompt_fingerprint :: ustring

definition logical_run_id :: "AgentRecoveryIdentity \<Rightarrow> ustring" where
  "logical_run_id i =
     (case ri_logical_run_id i of
        Some v \<Rightarrow> if trim v \<noteq> [] then v else ri_source_run_id i
      | None \<Rightarrow> ri_source_run_id i)"

definition validate_identity :: "AgentRecoveryIdentity \<Rightarrow> string + unit" where
  "validate_identity i =
     (if trim (ri_session_id i) = [] then Inl ''agent recovery identity is missing session_id''
      else if trim (ri_resume_key i) = [] then Inl ''agent recovery identity is missing resume_key''
      else if trim (ri_prompt_fingerprint i) = [] then Inl ''agent recovery identity is missing prompt_fingerprint''
      else if (case ri_logical_run_id i of Some v \<Rightarrow> trim v = [] | None \<Rightarrow> False)
      then Inl ''agent recovery identity has an empty logical_run_id''
      else Inr ())"

definition identity_matches :: "AgentRecoveryIdentity \<Rightarrow> AgentRecoveryIdentity \<Rightarrow> bool" where
  "identity_matches i j \<longleftrightarrow>
     validate_identity i = Inr () \<and> validate_identity j = Inr () \<and>
     ri_project_id i = ri_project_id j \<and> ri_session_id i = ri_session_id j \<and> ri_resume_key i = ri_resume_key j \<and>
     ri_source_run_id i = ri_source_run_id j \<and>
     (case (ri_logical_run_id i, ri_logical_run_id j) of (Some l, Some r) \<Rightarrow> l = r | _ \<Rightarrow> True) \<and>
     ri_user_turn_sequence i = ri_user_turn_sequence j \<and> ri_prompt_fingerprint i = ri_prompt_fingerprint j"

record ResolvedAgentRecovery =
  rr_identity :: AgentRecoveryIdentity
  rr_prompt :: ustring

definition validate_recovery :: "ResolvedAgentRecovery \<Rightarrow> string + unit" where
  "validate_recovery r =
     (case validate_identity (rr_identity r) of
        Inl e \<Rightarrow> Inl e
      | Inr _ \<Rightarrow> if trim (rr_prompt r) = [] then Inl ''resolved agent recovery is missing prompt'' else Inr ())"

section \<open>Properties\<close>

lemma from_id_of_id: "event_type_from_id (event_type_id t) = Some t"
  by (cases t) (simp_all add: event_type_from_id_def lit_eq_iff)

lemma id_of_from_id: "event_type_from_id s = Some t \<Longrightarrow> s = event_type_id t"
  by (auto simp: event_type_from_id_def split: if_splits)

text \<open>
  Typed events round-trip: the id of an event type is recognised as that type and no other
  text is; an event built with a type decodes to it with all other metadata kept; a kind that does
  not match and a metadata key that is taken by another type are refused and change nothing.
\<close>

theorem typed_events_roundtrip:
  assumes "bt_wf (ev_metadata event)"
    and "insert_event_type_v1 (ev_kind event) t (ev_metadata event) = (r, metadata)"
  shows "(event_type_from_id s = Some u \<longleftrightarrow> s = event_type_id u) \<and>
    (case r of
       Inr _ \<Rightarrow> decode_event_type (event\<lparr>ev_metadata := metadata\<rparr>) =
           TypedV1 \<lparr>te_event_type = t, te_event = event\<lparr>ev_metadata := metadata\<rparr>\<rparr> \<and>
         (\<forall>key. key \<noteq> EVENT_TYPE_METADATA_KEY \<longrightarrow> bt_get metadata key = bt_get (ev_metadata event) key)
     | Inl (KindMismatch u) \<Rightarrow> u = t \<and> metadata = ev_metadata event \<and> \<not> matches_kind t (ev_kind event)
     | Inl ReservedKeyOccupied \<Rightarrow> metadata = ev_metadata event \<and>
         (\<exists>v. bt_get (ev_metadata event) EVENT_TYPE_METADATA_KEY = Some v \<and> v \<noteq> event_type_id t))"
  using assms from_id_of_id id_of_from_id
  by (auto simp: insert_event_type_v1_def decode_event_type_def bt_get_insert split: if_splits option.splits)

definition run_statuses :: "Event list \<Rightarrow> AgentRunStatus list" where
  "run_statuses events = map event_status (List.map_filter from_event events)"

lemma run_statuses_simps [simp]:
  "run_statuses [] = []"
  "run_statuses (e # es) = (case from_event e of None \<Rightarrow> run_statuses es | Some r \<Rightarrow> event_status r # run_statuses es)"
  by (simp_all add: run_statuses_def map_filter_simps split: option.split)

lemma status_loop_iff:
  "status_loop events latest =
     (if StatusFailed \<in> set (run_statuses events) then Inl ()
      else Inr (if run_statuses events = [] then latest else Some (last (run_statuses events))))"
  by (induction events arbitrary: latest) (auto split: option.splits)

text \<open>
  The status of a run is that of its last lifecycle event: a failure anywhere wins, a run that
  waits for an approval is not reported as running, and events that are not lifecycle events only
  tell an untouched task from a running one.
\<close>

theorem status_is_the_latest_event:
  "status_from_events events has_pending_approval has_error =
     (if has_error \<or> StatusFailed \<in> set (run_statuses events) then StatusFailed
      else if run_statuses events = []
      then (if has_pending_approval then StatusWaitingForPermission else if events = [] then StatusIdle else StatusRunning)
      else if last (run_statuses events) = StatusRunning \<and> has_pending_approval then StatusWaitingForPermission
      else last (run_statuses events))"
  by (simp add: status_from_events_def status_loop_iff)

lemma status_roundtrip: "status_parse (status_label s) = s"
  by (cases s) (simp_all add: status_parse_def lit_eq_iff)

lemma reason_label_of_parse: "recovery_reason_label (recovery_reason_parse v) = v"
  by (simp add: recovery_reason_parse_def)

lemma state_label_of_parse: "recovery_state_label (recovery_state_parse v) = v"
  by (simp add: recovery_state_parse_def)

lemma reason_parse_of_label:
  "recovery_reason_parse (recovery_reason_label r) = r \<longleftrightarrow>
     (case r of BecauseUnknown v \<Rightarrow> \<forall>q. (\<forall>u. q \<noteq> BecauseUnknown u) \<longrightarrow> recovery_reason_label q \<noteq> v | _ \<Rightarrow> True)"
proof (cases r)
  case (BecauseUnknown v)
  have "recovery_reason_parse v = BecauseUnknown v \<longleftrightarrow> (\<forall>q. (\<forall>u. q \<noteq> BecauseUnknown u) \<longrightarrow> recovery_reason_label q \<noteq> v)"
  proof
    assume "\<forall>q. (\<forall>u. q \<noteq> BecauseUnknown u) \<longrightarrow> recovery_reason_label q \<noteq> v"
    then have "\<exists>u. recovery_reason_parse v = BecauseUnknown u" using reason_label_of_parse [of v] by metis
    then show "recovery_reason_parse v = BecauseUnknown v" using reason_label_of_parse [of v] by auto
  next
    assume a: "recovery_reason_parse v = BecauseUnknown v"
    show "\<forall>q. (\<forall>u. q \<noteq> BecauseUnknown u) \<longrightarrow> recovery_reason_label q \<noteq> v"
    proof (intro allI impI)
      fix q
      assume q: "\<forall>u. q \<noteq> BecauseUnknown u"
      then have "recovery_reason_parse (recovery_reason_label q) = q"
        by (cases q) (simp_all add: recovery_reason_parse_def lit_eq_iff)
      then show "recovery_reason_label q \<noteq> v" using a q by metis
    qed
  qed
  then show ?thesis by (simp add: BecauseUnknown)
qed (simp_all add: recovery_reason_parse_def lit_eq_iff)

text \<open>
  A stopped run is recovered under its own reason: the code of every stop reason of the run
  control is the label of a known recovery reason, different codes of different ones, and a reason
  that is stored as its label and read back is the same, also when the label is unknown.
\<close>

theorem stop_reasons_survive_recovery:
  "(\<forall>v. recovery_reason_parse (stop_code r) \<noteq> BecauseUnknown v) \<and>
   recovery_reason_label (recovery_reason_parse (stop_code r)) = stop_code r \<and>
   (recovery_reason_parse (stop_code r) = recovery_reason_parse (stop_code q) \<longleftrightarrow> r = q) \<and>
   recovery_reason_label (recovery_reason_parse text) = text \<and>
   recovery_reason_parse (recovery_reason_label (recovery_reason_parse text)) = recovery_reason_parse text"
proof -
  have "recovery_reason_parse (stop_code r) \<noteq> BecauseUnknown v" for v
    by (cases r) (simp_all add: recovery_reason_parse_def lit_eq_iff)
  moreover have "stop_code r = stop_code q \<longleftrightarrow> r = q"
    by (cases r; cases q) (simp_all add: lit_eq_iff)
  ultimately show ?thesis by (metis reason_label_of_parse)
qed

lemma identity_matches_symmetric: "identity_matches i j \<longleftrightarrow> identity_matches j i"
  by (auto simp: identity_matches_def split: option.splits)

lemma identity_matches_self: "identity_matches i i \<longleftrightarrow> validate_identity i = Inr ()"
  by (auto simp: identity_matches_def split: option.splits)

section \<open>Instances\<close>

theorem typed_events_roundtrip_witness:
  "insert_event_type_v1 TaskStatusChanged AgentRunPaused [] =
     (Inr (), [(EVENT_TYPE_METADATA_KEY, event_type_id AgentRunPaused)]) \<and>
   event_type_from_id (event_type_id AgentRunPaused) = Some AgentRunPaused"
proof -
  let ?e = "\<lparr>ev_id = [], ev_task_id = [], ev_sequence = 1, ev_timestamp_ms = 0, ev_kind = TaskStatusChanged,
    ev_summary = [], ev_metadata = []\<rparr>"
  have i: "insert_event_type_v1 (ev_kind ?e) AgentRunPaused (ev_metadata ?e) =
      (Inr (), [(EVENT_TYPE_METADATA_KEY, event_type_id AgentRunPaused)])"
    by (simp add: insert_event_type_v1_def matches_kind_def)
  have "bt_wf (ev_metadata ?e)" by simp
  from typed_events_roundtrip [OF this i, of "event_type_id AgentRunPaused" AgentRunPaused] i show ?thesis by simp
qed

end
