(* ===== verification/Run_Identity.thy ===== *)
theory Run_Identity
  imports Run_Events
begin

text \<open>
  Model of \<open>crates/agent-core/src/run_identity.rs\<close>: the identity of an attempt in the metadata of its
  events, and the lineage that maps every physical attempt to its logical run. The lineage is read
  from the event log, resolved by a memoized depth-first walk along the source attempts, and
  refused when it is contradictory, incomplete, cyclic or crosses scopes.
\<close>

section \<open>Identities in metadata\<close>

type_synonym Metadata = "(ustring, ustring) btree"

text \<open>The \<open>?\<close> operator.\<close>

definition try_then :: "'e + 'a \<Rightarrow> ('a \<Rightarrow> 'e + 'b) \<Rightarrow> 'e + 'b" where
  "try_then x f = (case x of Inl e \<Rightarrow> Inl e | Inr a \<Rightarrow> f a)"

lemma try_then_simps [simp]: "try_then (Inl e) f = Inl e" "try_then (Inr a) f = f a"
  by (simp_all add: try_then_def)

lemma try_then_Inr: "try_then x f = Inr b \<longleftrightarrow> (\<exists>a. x = Inr a \<and> f a = Inr b)"
  by (cases x) simp_all

definition AGENT_RUN_ID_METADATA_KEY :: ustring where
  "AGENT_RUN_ID_METADATA_KEY = lit ''agent_run_id''"

definition LOGICAL_AGENT_RUN_ID_METADATA_KEY :: ustring where
  "LOGICAL_AGENT_RUN_ID_METADATA_KEY = lit ''logical_agent_run_id''"

definition SOURCE_AGENT_RUN_ID_METADATA_KEY :: ustring where
  "SOURCE_AGENT_RUN_ID_METADATA_KEY = lit ''source_agent_run_id''"

definition AGENT_RUN_IDENTITY_SCHEMA_METADATA_KEY :: ustring where
  "AGENT_RUN_IDENTITY_SCHEMA_METADATA_KEY = lit ''agent_run_identity_schema''"

definition AGENT_RUN_IDENTITY_V1_SCHEMA :: ustring where
  "AGENT_RUN_IDENTITY_V1_SCHEMA = lit ''cindx.agent-run-identity.v1''"

lemmas identity_keys = AGENT_RUN_ID_METADATA_KEY_def LOGICAL_AGENT_RUN_ID_METADATA_KEY_def
  SOURCE_AGENT_RUN_ID_METADATA_KEY_def AGENT_RUN_IDENTITY_SCHEMA_METADATA_KEY_def

record AgentRunIdentity =
  ri_logical_run_id :: ustring
  ri_attempt_run_id :: ustring
  ri_source_attempt_run_id :: "ustring option"

datatype AgentRunIdentityError =
  EmptyMetadataValue ustring
| MissingMetadataValue ustring
| MissingVersionSchema
| UnsupportedSchema ustring
| ReservedMetadataConflict ustring
| AttemptCrossesScope ustring
| LogicalRunCrossesScope ustring
| SourceCrossesScope ustring ustring
| ConflictingLogicalRunId ustring
| ConflictingSourceAttempt ustring
| MissingSourceAttempt ustring ustring
| LineageCycle ustring
| UnknownAttempt ustring

definition require_non_empty :: "ustring \<Rightarrow> ustring \<Rightarrow> AgentRunIdentityError + unit" where
  "require_non_empty key v = (if trim v = [] then Inl (EmptyMetadataValue key) else Inr ())"

definition required_metadata_value :: "Metadata \<Rightarrow> ustring \<Rightarrow> AgentRunIdentityError + ustring" where
  "required_metadata_value metadata key =
     (case bt_get metadata key of
        None \<Rightarrow> Inl (MissingMetadataValue key)
      | Some v \<Rightarrow> try_then (require_non_empty key v) (\<lambda>_. Inr v))"

definition validate_reserved :: "Metadata \<Rightarrow> ustring \<Rightarrow> ustring \<Rightarrow> AgentRunIdentityError + unit" where
  "validate_reserved metadata key v =
     (case bt_get metadata key of
        Some existing \<Rightarrow> if existing = v then Inr () else Inl (ReservedMetadataConflict key)
      | None \<Rightarrow> Inr ())"

definition run_identity_new :: "ustring \<Rightarrow> ustring \<Rightarrow> AgentRunIdentityError + AgentRunIdentity" where
  "run_identity_new logical attempt =
     try_then (require_non_empty LOGICAL_AGENT_RUN_ID_METADATA_KEY logical) (\<lambda>_.
     try_then (require_non_empty AGENT_RUN_ID_METADATA_KEY attempt) (\<lambda>_.
       Inr \<lparr>ri_logical_run_id = logical, ri_attempt_run_id = attempt, ri_source_attempt_run_id = None\<rparr>))"

definition with_source_attempt_run_id ::
  "ustring \<Rightarrow> AgentRunIdentity \<Rightarrow> AgentRunIdentityError + AgentRunIdentity"
where
  "with_source_attempt_run_id source identity =
     try_then (require_non_empty SOURCE_AGENT_RUN_ID_METADATA_KEY source)
       (\<lambda>_. Inr (identity\<lparr>ri_source_attempt_run_id := Some source\<rparr>))"

definition run_identity_continuation ::
  "ustring \<Rightarrow> ustring \<Rightarrow> ustring \<Rightarrow> AgentRunIdentityError + AgentRunIdentity"
where
  "run_identity_continuation logical attempt source =
     try_then (run_identity_new logical attempt) (with_source_attempt_run_id source)"

definition run_identity_from_metadata :: "Metadata \<Rightarrow> AgentRunIdentityError + AgentRunIdentity option" where
  "run_identity_from_metadata metadata =
     (let schema = bt_get metadata AGENT_RUN_IDENTITY_SCHEMA_METADATA_KEY;
          logical = bt_get metadata LOGICAL_AGENT_RUN_ID_METADATA_KEY;
          source = bt_get metadata SOURCE_AGENT_RUN_ID_METADATA_KEY in
      if schema = None \<and> logical = None then Inr None
      else
        case schema of
          None \<Rightarrow> Inl MissingVersionSchema
        | Some other \<Rightarrow>
            if other \<noteq> AGENT_RUN_IDENTITY_V1_SCHEMA then Inl (UnsupportedSchema other)
            else
              try_then (required_metadata_value metadata LOGICAL_AGENT_RUN_ID_METADATA_KEY) (\<lambda>l.
              try_then (required_metadata_value metadata AGENT_RUN_ID_METADATA_KEY) (\<lambda>a.
              try_then (case source of
                  None \<Rightarrow> Inr None
                | Some v \<Rightarrow>
                    try_then (require_non_empty SOURCE_AGENT_RUN_ID_METADATA_KEY v) (\<lambda>_. Inr (Some v))) (\<lambda>s.
                Inr (Some \<lparr>ri_logical_run_id = l, ri_attempt_run_id = a, ri_source_attempt_run_id = s\<rparr>)))))"

definition run_identity_insert_into :: "AgentRunIdentity \<Rightarrow> Metadata \<Rightarrow> AgentRunIdentityError + Metadata" where
  "run_identity_insert_into identity metadata =
     try_then (validate_reserved metadata AGENT_RUN_IDENTITY_SCHEMA_METADATA_KEY AGENT_RUN_IDENTITY_V1_SCHEMA) (\<lambda>_.
     try_then (validate_reserved metadata LOGICAL_AGENT_RUN_ID_METADATA_KEY (ri_logical_run_id identity)) (\<lambda>_.
     try_then (validate_reserved metadata AGENT_RUN_ID_METADATA_KEY (ri_attempt_run_id identity)) (\<lambda>_.
     try_then (case ri_source_attempt_run_id identity of
         Some source \<Rightarrow> validate_reserved metadata SOURCE_AGENT_RUN_ID_METADATA_KEY source
       | None \<Rightarrow>
           if bt_contains_key metadata SOURCE_AGENT_RUN_ID_METADATA_KEY
           then Inl (ReservedMetadataConflict SOURCE_AGENT_RUN_ID_METADATA_KEY) else Inr ()) (\<lambda>_.
       let m = bt_insert AGENT_RUN_IDENTITY_SCHEMA_METADATA_KEY AGENT_RUN_IDENTITY_V1_SCHEMA metadata;
           m = bt_insert LOGICAL_AGENT_RUN_ID_METADATA_KEY (ri_logical_run_id identity) m;
           m = bt_insert AGENT_RUN_ID_METADATA_KEY (ri_attempt_run_id identity) m
       in Inr (case ri_source_attempt_run_id identity of
           Some source \<Rightarrow> bt_insert SOURCE_AGENT_RUN_ID_METADATA_KEY source m | None \<Rightarrow> m)))))"

definition agent_run_id :: "Metadata \<Rightarrow> ustring option" where
  "agent_run_id metadata = bt_get metadata AGENT_RUN_ID_METADATA_KEY"

definition logical_agent_run_id :: "Metadata \<Rightarrow> ustring option" where
  "logical_agent_run_id metadata = bt_get metadata LOGICAL_AGENT_RUN_ID_METADATA_KEY"

definition source_agent_run_id :: "Metadata \<Rightarrow> ustring option" where
  "source_agent_run_id metadata = bt_get metadata SOURCE_AGENT_RUN_ID_METADATA_KEY"

section \<open>The attempts of an event log\<close>

record AgentRunScope =
  sc_task_id :: ustring
  sc_project_id :: "ustring option"
  sc_session_id :: "ustring option"

definition scope_from_event :: "Event \<Rightarrow> AgentRunScope" where
  "scope_from_event event =
     \<lparr>sc_task_id = ev_task_id event, sc_project_id = bt_get (ev_metadata event) (lit ''project_id''),
      sc_session_id = bt_get (ev_metadata event) (lit ''session_id'')\<rparr>"

record AttemptNode =
  an_scope :: AgentRunScope
  an_explicit_logical_run_id :: "ustring option"
  an_source_attempt_run_id :: "ustring option"

type_synonym attempts = "(ustring, AttemptNode) btree"

definition merge_optional_value :: "'a option \<Rightarrow> 'a option \<Rightarrow> 'e \<Rightarrow> 'e + 'a option" where
  "merge_optional_value target candidate conflict =
     (case (target, candidate) of
        (Some existing, Some c) \<Rightarrow> if existing \<noteq> c then Inl conflict else Inr target
      | (None, Some c) \<Rightarrow> Inr (Some c)
      | _ \<Rightarrow> Inr target)"

definition merge_attempt ::
  "ustring \<Rightarrow> AgentRunScope \<Rightarrow> ustring option \<Rightarrow> ustring option \<Rightarrow> AttemptNode \<Rightarrow>
   AgentRunIdentityError + AttemptNode"
where
  "merge_attempt attempt scope logical source existing =
     (if an_scope existing \<noteq> scope then Inl (AttemptCrossesScope attempt)
      else
        try_then (merge_optional_value (an_explicit_logical_run_id existing) logical
            (ConflictingLogicalRunId attempt)) (\<lambda>explicit.
          let node = existing\<lparr>an_explicit_logical_run_id := explicit\<rparr> in
          if explicit \<noteq> None then Inr (node\<lparr>an_source_attempt_run_id := None\<rparr>)
          else
            try_then (merge_optional_value (an_source_attempt_run_id existing) source
                (ConflictingSourceAttempt attempt))
              (\<lambda>s. Inr (node\<lparr>an_source_attempt_run_id := s\<rparr>))))"

text \<open>The body of the loop over the events; the legacy edge from an attempt to itself is no edge.\<close>

definition add_attempt :: "Event \<Rightarrow> attempts \<Rightarrow> AgentRunIdentityError + attempts" where
  "add_attempt event attempts =
     (let metadata = ev_metadata event in
      try_then (run_identity_from_metadata metadata) (\<lambda>explicit_identity.
      case agent_run_id metadata of
        None \<Rightarrow>
          if source_agent_run_id metadata \<noteq> None then Inl (MissingMetadataValue AGENT_RUN_ID_METADATA_KEY)
          else Inr attempts
      | Some attempt \<Rightarrow>
          try_then (require_non_empty AGENT_RUN_ID_METADATA_KEY attempt) (\<lambda>_.
          try_then (case source_agent_run_id metadata of
              None \<Rightarrow> Inr None
            | Some v \<Rightarrow>
                try_then (require_non_empty SOURCE_AGENT_RUN_ID_METADATA_KEY v)
                  (\<lambda>_. Inr (if v \<noteq> attempt then Some v else None))) (\<lambda>source.
            let logical = map_option ri_logical_run_id explicit_identity;
                scope = scope_from_event event in
            case bt_get attempts attempt of
              Some existing \<Rightarrow>
                try_then (merge_attempt attempt scope logical source existing)
                  (\<lambda>node. Inr (bt_insert attempt node attempts))
            | None \<Rightarrow>
                Inr (bt_insert attempt
                  \<lparr>an_scope = scope, an_explicit_logical_run_id = logical,
                   an_source_attempt_run_id = (if logical \<noteq> None then None else source)\<rparr> attempts)))))"

fun collect_attempts :: "Event list \<Rightarrow> attempts \<Rightarrow> AgentRunIdentityError + attempts" where
  "collect_attempts [] attempts = Inr attempts"
| "collect_attempts (e # es) attempts = try_then (add_attempt e attempts) (collect_attempts es)"

section \<open>Resolving the lineage\<close>

datatype VisitState = Visiting | Resolved

type_synonym resolution = "(ustring, ustring) btree \<times> (ustring, VisitState) btree"

definition open_attempts :: "attempts \<Rightarrow> (ustring, VisitState) btree \<Rightarrow> ustring set" where
  "open_attempts attempts visit = {a \<in> fst ` set attempts. bt_get visit a \<noteq> Some Visiting}"

lemma bt_get_insert_any: "bt_get (bt_insert k v m) = (bt_get m)(k \<mapsto> v)"
  by (induction k v m rule: bt_insert.induct) (auto simp: bt_get_Cons fun_eq_iff)

lemma open_attempts_visit:
  assumes "bt_get attempts a = Some node" "bt_get visit a \<noteq> Some Visiting"
  shows "card (open_attempts attempts (bt_insert a Visiting visit)) < card (open_attempts attempts visit)"
proof (rule psubset_card_mono)
  show "finite (open_attempts attempts visit)" by (simp add: open_attempts_def)
  have "a \<in> fst ` set attempts" using assms(1) by (metis bt_get_None_iff option.distinct(1))
  then have "a \<in> open_attempts attempts visit" using assms(2) by (simp add: open_attempts_def)
  moreover have "a \<notin> open_attempts attempts (bt_insert a Visiting visit)"
    by (simp add: open_attempts_def bt_get_insert_any)
  ultimately show "open_attempts attempts (bt_insert a Visiting visit) \<subset> open_attempts attempts visit"
    by (auto simp: open_attempts_def bt_get_insert_any split: if_splits)
qed

text \<open>\<open>resolve_attempt\<close> with its two maps threaded through, also out of a failing call.\<close>

function resolve_attempt ::
  "ustring \<Rightarrow> attempts \<Rightarrow> resolution \<Rightarrow> (AgentRunIdentityError + ustring) \<times> resolution"
where
  "resolve_attempt a attempts (ids, visit) =
     (case bt_get ids a of
        Some l \<Rightarrow> (Inr l, ids, visit)
      | None \<Rightarrow>
          if bt_get visit a = Some Visiting then (Inl (LineageCycle a), ids, visit)
          else case bt_get attempts a of
            None \<Rightarrow> (Inl (UnknownAttempt a), ids, visit)
          | Some node \<Rightarrow>
              let visit' = bt_insert a Visiting visit;
                  finish = (\<lambda>l (ids, visit). (Inr l, bt_insert a l ids, bt_insert a Resolved visit)) in
              case an_explicit_logical_run_id node of
                Some l \<Rightarrow> finish l (ids, visit')
              | None \<Rightarrow>
                  (case an_source_attempt_run_id node of
                     None \<Rightarrow> finish a (ids, visit')
                   | Some b \<Rightarrow>
                       (case bt_get attempts b of
                          None \<Rightarrow> (Inl (MissingSourceAttempt a b), ids, visit')
                        | Some source \<Rightarrow>
                            if an_scope source \<noteq> an_scope node then (Inl (SourceCrossesScope a b), ids, visit')
                            else case resolve_attempt b attempts (ids, visit') of
                              (Inl e, m) \<Rightarrow> (Inl e, m)
                            | (Inr l, m) \<Rightarrow> finish l m)))"
  by pat_completeness auto

termination
  by (relation "measure (\<lambda>(a, attempts, m). card (open_attempts attempts (snd m)))")
    (auto intro: open_attempts_visit)

declare resolve_attempt.simps [simp del]

fun resolve_all :: "ustring list \<Rightarrow> attempts \<Rightarrow> resolution \<Rightarrow> AgentRunIdentityError + resolution" where
  "resolve_all [] attempts m = Inr m"
| "resolve_all (a # as) attempts m =
     (case resolve_attempt a attempts m of (Inl e, _) \<Rightarrow> Inl e | (Inr _, m') \<Rightarrow> resolve_all as attempts m')"

text \<open>Every logical run stays within one scope.\<close>

fun check_scopes ::
  "(ustring \<times> ustring) list \<Rightarrow> attempts \<Rightarrow> (ustring, AgentRunScope) btree \<Rightarrow> AgentRunIdentityError + unit"
where
  "check_scopes [] attempts scopes = Inr ()"
| "check_scopes ((a, l) # rest) attempts scopes =
     (let scope = an_scope (the (bt_get attempts a)) in
      case bt_get scopes l of
        Some existing \<Rightarrow>
          if existing \<noteq> scope then Inl (LogicalRunCrossesScope l) else check_scopes rest attempts scopes
      | None \<Rightarrow> check_scopes rest attempts (bt_insert l scope scopes))"

record AgentRunLineage =
  ln_attempts :: attempts
  ln_logical_run_ids :: "(ustring, ustring) btree"

definition lineage_from_events :: "Event list \<Rightarrow> AgentRunIdentityError + AgentRunLineage" where
  "lineage_from_events events =
     try_then (collect_attempts events []) (\<lambda>attempts.
     try_then (resolve_all (map fst attempts) attempts ([], [])) (\<lambda>(ids, visit).
     try_then (check_scopes ids attempts []) (\<lambda>_.
       Inr \<lparr>ln_attempts = attempts, ln_logical_run_ids = ids\<rparr>)))"

definition logical_run_id_for_attempt :: "AgentRunLineage \<Rightarrow> ustring \<Rightarrow> ustring option" where
  "logical_run_id_for_attempt lineage attempt = bt_get (ln_logical_run_ids lineage) attempt"

definition logical_run_id_for_event ::
  "AgentRunLineage \<Rightarrow> Event \<Rightarrow> AgentRunIdentityError + ustring option"
where
  "logical_run_id_for_event lineage event =
     (case agent_run_id (ev_metadata event) of
        None \<Rightarrow> Inr None
      | Some attempt \<Rightarrow>
          (case bt_get (ln_attempts lineage) attempt of
             None \<Rightarrow> Inl (UnknownAttempt attempt)
           | Some node \<Rightarrow>
               if an_scope node \<noteq> scope_from_event event then Inl (AttemptCrossesScope attempt)
               else Inr (logical_run_id_for_attempt lineage attempt)))"

end
