(* ===== verification/Identity_Properties.thy ===== *)
theory Identity_Properties
  imports Run_Identity
begin

text \<open>
  The lineage against its specification: an attempt belongs to the logical run it names itself, or
  to that of its source attempt in the same scope, or is a run of its own. The memoized walk with
  its visit marks computes exactly this relation, and fails exactly when it is undefined somewhere.
\<close>

section \<open>The logical run of an attempt\<close>

text \<open>The number is the length of the chain of sources.\<close>

inductive logical_in :: "attempts \<Rightarrow> nat \<Rightarrow> ustring \<Rightarrow> ustring \<Rightarrow> bool" for attempts where
  explicit: "bt_get attempts a = Some node \<Longrightarrow> an_explicit_logical_run_id node = Some l \<Longrightarrow>
    logical_in attempts 0 a l"
| root: "bt_get attempts a = Some node \<Longrightarrow> an_explicit_logical_run_id node = None \<Longrightarrow>
    an_source_attempt_run_id node = None \<Longrightarrow> logical_in attempts 0 a a"
| source: "bt_get attempts a = Some node \<Longrightarrow> an_explicit_logical_run_id node = None \<Longrightarrow>
    an_source_attempt_run_id node = Some b \<Longrightarrow> bt_get attempts b = Some source \<Longrightarrow>
    an_scope source = an_scope node \<Longrightarrow> logical_in attempts d b l \<Longrightarrow>
    logical_in attempts (Suc d) a l"

inductive_cases logical_inE: "logical_in attempts d a l"

definition logical_of :: "attempts \<Rightarrow> ustring \<Rightarrow> ustring \<Rightarrow> bool" where
  "logical_of attempts a l \<longleftrightarrow> (\<exists>d. logical_in attempts d a l)"

lemma logical_in_unique:
  "logical_in attempts d a l \<Longrightarrow> logical_in attempts d' a l' \<Longrightarrow> d = d' \<and> l = l'"
proof (induction arbitrary: d' l' rule: logical_in.induct)
  case (explicit a node l)
  from explicit(3) explicit(1,2) show ?case by cases auto
next
  case (root a node)
  from root(4) root(1-3) show ?case by cases auto
next
  case (source a node b src d l)
  from source(8) source(1-5) show ?case
    by cases (use source.IH in auto)
qed

lemma logical_in_known: "logical_in attempts d a l \<Longrightarrow> bt_get attempts a \<noteq> None"
  by (auto elim: logical_inE)

section \<open>The walk\<close>

definition ids_sound :: "attempts \<Rightarrow> (ustring, ustring) btree \<Rightarrow> bool" where
  "ids_sound attempts ids \<longleftrightarrow> (\<forall>(x, l) \<in> set ids. logical_of attempts x l)"

lemma ids_soundD: "ids_sound attempts ids \<Longrightarrow> bt_get ids x = Some l \<Longrightarrow> logical_of attempts x l"
  by (auto simp: ids_sound_def bt_get_def dest: map_of_SomeD)

lemma ids_sound_insert:
  "ids_sound attempts ids \<Longrightarrow> logical_of attempts a l \<Longrightarrow> ids_sound attempts (bt_insert a l ids)"
  by (induction a l ids rule: bt_insert.induct) (auto simp: ids_sound_def)

lemma ids_sound_unique:
  "ids_sound attempts ids \<Longrightarrow> bt_get ids a = Some k \<Longrightarrow> logical_in attempts d a l \<Longrightarrow> k = l"
  using logical_in_unique ids_soundD unfolding logical_of_def by blast

text \<open>The unfoldings of a call: a memoized attempt, and one visited for the first time.\<close>

lemma resolve_memo [simp]:
  "bt_get ids a = Some k \<Longrightarrow> resolve_attempt a attempts (ids, visit) = (Inr k, ids, visit)"
  by (subst resolve_attempt.simps) simp

lemma resolve_explicit [simp]:
  assumes "bt_get ids a = None" "bt_get visit a \<noteq> Some Visiting" "bt_get attempts a = Some node"
    and "an_explicit_logical_run_id node = Some l"
  shows "resolve_attempt a attempts (ids, visit) =
    (Inr l, bt_insert a l ids, bt_insert a Resolved (bt_insert a Visiting visit))"
  using assms by (subst resolve_attempt.simps) (simp add: Let_def)

lemma resolve_root [simp]:
  assumes "bt_get ids a = None" "bt_get visit a \<noteq> Some Visiting" "bt_get attempts a = Some node"
    and "an_explicit_logical_run_id node = None" "an_source_attempt_run_id node = None"
  shows "resolve_attempt a attempts (ids, visit) =
    (Inr a, bt_insert a a ids, bt_insert a Resolved (bt_insert a Visiting visit))"
  using assms by (subst resolve_attempt.simps) (simp add: Let_def)

lemma resolve_source:
  assumes "bt_get ids a = None" "bt_get visit a \<noteq> Some Visiting" "bt_get attempts a = Some node"
    and "an_explicit_logical_run_id node = None" "an_source_attempt_run_id node = Some b"
  shows "resolve_attempt a attempts (ids, visit) =
    (case bt_get attempts b of
       None \<Rightarrow> (Inl (MissingSourceAttempt a b), ids, bt_insert a Visiting visit)
     | Some src \<Rightarrow>
         if an_scope src \<noteq> an_scope node then (Inl (SourceCrossesScope a b), ids, bt_insert a Visiting visit)
         else case resolve_attempt b attempts (ids, bt_insert a Visiting visit) of
           (Inl e, m) \<Rightarrow> (Inl e, m)
         | (Inr l, m) \<Rightarrow> (Inr l, bt_insert a l (fst m), bt_insert a Resolved (snd m)))"
  using assms by (subst resolve_attempt.simps) (simp add: Let_def split: option.split prod.split sum.split)

lemma resolve_Inr_known:
  assumes "resolve_attempt a attempts (ids, visit) = (Inr l, m)" "bt_get ids a = None"
  obtains node where "bt_get visit a \<noteq> Some Visiting" "bt_get attempts a = Some node"
  using assms by (subst (asm) resolve_attempt.simps) (auto split: if_splits option.splits)

text \<open>What a call leaves behind: sound results that grow, and no new visit mark if it succeeds.\<close>

definition walked :: "attempts \<Rightarrow> resolution \<Rightarrow> resolution \<Rightarrow> bool" where
  "walked attempts m m' \<longleftrightarrow> ids_sound attempts (fst m') \<and>
     (\<forall>x l. bt_get (fst m) x = Some l \<longrightarrow> bt_get (fst m') x = Some l) \<and>
     (\<forall>x. bt_get (snd m') x = Some Visiting \<longrightarrow> bt_get (snd m) x = Some Visiting)"

lemma walked_finish:
  assumes "walked attempts (ids, bt_insert a Visiting visit) (ids', visit')" "logical_of attempts a l"
    and "bt_get ids a = None"
  shows "walked attempts (ids, visit) (bt_insert a l ids', bt_insert a Resolved visit')"
  using assms ids_sound_insert by (auto simp: walked_def bt_get_insert_any split: if_splits)

lemma walked_refl: "ids_sound attempts (fst m) \<Longrightarrow> walked attempts m m"
  by (simp add: walked_def)

lemma resolve_sound:
  assumes "ids_sound attempts (fst m)" "resolve_attempt a attempts m = (Inr l, m')"
  shows "walked attempts m m' \<and> logical_of attempts a l \<and> bt_get (fst m') a = Some l"
  using assms
proof (induction a attempts m arbitrary: l m' rule: resolve_attempt.induct)
  case (1 a attempts ids visit)
  show ?case
  proof (cases "bt_get ids a")
    case (Some k)
    with 1(2,3) show ?thesis by (auto simp: walked_def dest: ids_soundD)
  next
    case None
    then obtain node where nv: "bt_get visit a \<noteq> Some Visiting" and node: "bt_get attempts a = Some node"
      using resolve_Inr_known [OF 1(3)] by blast
    let ?v = "bt_insert a Visiting visit"
    have start: "walked attempts (ids, ?v) (ids, ?v)" using 1(2) by (simp add: walked_refl)
    show ?thesis
    proof (cases "an_explicit_logical_run_id node")
      case (Some k)
      have "logical_of attempts a k" using logical_in.explicit [OF node Some] by (auto simp: logical_of_def)
      with walked_finish [OF start this None] Some None nv node 1(3) show ?thesis
        by (auto simp: bt_get_insert_any)
    next
      case noexp: None
      show ?thesis
      proof (cases "an_source_attempt_run_id node")
        case nosrc: None
        have "logical_of attempts a a" using logical_in.root [OF node noexp nosrc] by (auto simp: logical_of_def)
        with walked_finish [OF start this None] noexp nosrc None nv node 1(3) show ?thesis
          by (auto simp: bt_get_insert_any)
      next
        case (Some b)
        with noexp None nv node 1(3) obtain src ids' visit' where src: "bt_get attempts b = Some src"
            "an_scope src = an_scope node" "resolve_attempt b attempts (ids, ?v) = (Inr l, ids', visit')"
            "m' = (bt_insert a l ids', bt_insert a Resolved visit')"
          by (auto simp: resolve_source split: option.splits if_splits prod.splits sum.splits)
        have IH: "walked attempts (ids, ?v) (ids', visit') \<and> logical_of attempts b l"
          using 1(1) [OF None nv node refl _ noexp Some src(1) _ _ src(3)] 1(2) src(2) by simp
        then obtain d where "logical_in attempts d b l" by (auto simp: logical_of_def)
        then have "logical_of attempts a l"
          using logical_in.source [OF node noexp Some src(1,2)] by (auto simp: logical_of_def)
        with IH walked_finish [of attempts ids a visit ids' visit' l] None src(4) show ?thesis
          by (simp add: bt_get_insert_any)
      qed
    qed
  qed
qed

text \<open>An open chain: no attempt of it is being visited without a result.\<close>

definition chain_free :: "attempts \<Rightarrow> nat \<Rightarrow> resolution \<Rightarrow> bool" where
  "chain_free attempts d m \<longleftrightarrow> (\<forall>x d' l. logical_in attempts d' x l \<longrightarrow> d' \<le> d \<longrightarrow>
     bt_get (fst m) x = None \<longrightarrow> bt_get (snd m) x \<noteq> Some Visiting)"

lemma chain_free_down:
  assumes "chain_free attempts (Suc d) (ids, visit)" "logical_in attempts (Suc d) a l"
  shows "chain_free attempts d (ids, bt_insert a Visiting visit)"
  unfolding chain_free_def
proof (intro allI impI)
  fix x d' k
  assume x: "logical_in attempts d' x k" "d' \<le> d" "bt_get (fst (ids, bt_insert a Visiting visit)) x = None"
  have "x \<noteq> a" using logical_in_unique [OF assms(2)] x(1,2) by force
  moreover have "bt_get visit x \<noteq> Some Visiting" using assms(1) x le_SucI unfolding chain_free_def by fastforce
  ultimately show "bt_get (snd (ids, bt_insert a Visiting visit)) x \<noteq> Some Visiting"
    by (simp add: bt_get_insert_any)
qed

lemma resolve_complete:
  assumes "logical_in attempts d a l" "ids_sound attempts (fst m)" "chain_free attempts d m"
  shows "fst (resolve_attempt a attempts m) = Inr l"
  using assms
proof (induction arbitrary: m rule: logical_in.induct)
  case (explicit a node l)
  note self = logical_in.explicit [OF explicit(1,2)]
  obtain ids visit where m: "m = (ids, visit)" by (cases m)
  show ?case
  proof (cases "bt_get ids a")
    case (Some k)
    with m self explicit(3) ids_sound_unique show ?thesis by fastforce
  next
    case None
    with explicit(4) m self have "bt_get visit a \<noteq> Some Visiting" by (auto simp: chain_free_def)
    with None m explicit(1,2) show ?thesis by simp
  qed
next
  case (root a node)
  note self = logical_in.root [OF root(1-3)]
  obtain ids visit where m: "m = (ids, visit)" by (cases m)
  show ?case
  proof (cases "bt_get ids a")
    case (Some k)
    with m self root(4) ids_sound_unique show ?thesis by fastforce
  next
    case None
    with root(5) m self have "bt_get visit a \<noteq> Some Visiting" by (auto simp: chain_free_def)
    with None m root(1-3) show ?thesis by simp
  qed
next
  case (source a node b src d l)
  note self = logical_in.source [OF source(1-6)]
  obtain ids visit where m: "m = (ids, visit)" by (cases m)
  show ?case
  proof (cases "bt_get ids a")
    case (Some k)
    with m self source(8) ids_sound_unique show ?thesis by fastforce
  next
    case None
    with source(9) m self have nv: "bt_get visit a \<noteq> Some Visiting" by (auto simp: chain_free_def)
    have "fst (resolve_attempt b attempts (ids, bt_insert a Visiting visit)) = Inr l"
      using source.IH [of "(ids, bt_insert a Visiting visit)"] source(8,9) m chain_free_down [OF _ self] by simp
    with None nv m source(1-5) show ?thesis
      by (auto simp: resolve_source split: prod.splits sum.splits)
  qed
qed

definition unvisited :: "resolution \<Rightarrow> bool" where
  "unvisited m \<longleftrightarrow> (\<forall>x. bt_get (snd m) x \<noteq> Some Visiting)"

lemma resolve_all_Inr:
  assumes "ids_sound attempts (fst m)" "resolve_all as attempts m = Inr m'"
  shows "walked attempts m m' \<and> (\<forall>a \<in> set as. \<exists>l. logical_of attempts a l \<and> bt_get (fst m') a = Some l)"
  using assms
proof (induction as arbitrary: m)
  case Nil
  then show ?case by (simp add: walked_refl)
next
  case (Cons a as)
  then obtain l n where r: "resolve_attempt a attempts m = (Inr l, n)" "resolve_all as attempts n = Inr m'"
    by (auto split: prod.splits sum.splits)
  from resolve_sound [OF Cons.prems(1) r(1)]
  have n: "walked attempts m n" "logical_of attempts a l" "bt_get (fst n) a = Some l" by auto
  with Cons.IH [OF _ r(2)]
  have "walked attempts n m' \<and> (\<forall>a \<in> set as. \<exists>l. logical_of attempts a l \<and> bt_get (fst m') a = Some l)"
    by (simp add: walked_def)
  with n show ?case by (auto simp: walked_def)
qed

lemma resolve_all_defined:
  assumes "ids_sound attempts (fst m)" "unvisited m" "\<forall>a \<in> set as. \<exists>l. logical_of attempts a l"
  shows "\<exists>m'. resolve_all as attempts m = Inr m'"
  using assms
proof (induction as arbitrary: m)
  case (Cons a as)
  then obtain d l where "logical_in attempts d a l" by (auto simp: logical_of_def)
  then have "fst (resolve_attempt a attempts m) = Inr l"
    using resolve_complete Cons.prems(1,2) by (auto simp: chain_free_def unvisited_def)
  then obtain n where n: "resolve_attempt a attempts m = (Inr l, n)" by (cases "resolve_attempt a attempts m") auto
  with resolve_sound [OF Cons.prems(1) n] Cons.prems(2) have "ids_sound attempts (fst n)" "unvisited n"
    by (auto simp: walked_def unvisited_def)
  with Cons.IH [of n] Cons.prems(3) n show ?case by simp
qed simp

text \<open>The check that a logical run has one scope.\<close>

lemma check_scopes_iff:
  "check_scopes ps attempts scopes = Inr () \<longleftrightarrow>
     (\<forall>(a, l) \<in> set ps. \<forall>s. bt_get scopes l = Some s \<longrightarrow> s = an_scope (the (bt_get attempts a))) \<and>
     (\<forall>(a, l) \<in> set ps. \<forall>(a', l') \<in> set ps. l = l' \<longrightarrow>
        an_scope (the (bt_get attempts a)) = an_scope (the (bt_get attempts a')))"
proof (induction ps attempts scopes rule: check_scopes.induct)
  case (2 a l rest attempts scopes)
  then show ?case
    by (cases "bt_get scopes l") (auto simp: Let_def bt_get_insert_any split: if_splits)
qed simp

section \<open>The lineage of a log\<close>

definition one_scope_per_run :: "attempts \<Rightarrow> bool" where
  "one_scope_per_run attempts \<longleftrightarrow> (\<forall>a a' l. logical_of attempts a l \<longrightarrow> logical_of attempts a' l \<longrightarrow>
     an_scope (the (bt_get attempts a)) = an_scope (the (bt_get attempts a')))"

definition all_resolve :: "attempts \<Rightarrow> bool" where
  "all_resolve attempts \<longleftrightarrow> (\<forall>a node. bt_get attempts a = Some node \<longrightarrow> (\<exists>l. logical_of attempts a l))"

lemma logical_of_unique: "logical_of attempts a l \<Longrightarrow> logical_of attempts a l' \<Longrightarrow> l = l'"
  using logical_in_unique unfolding logical_of_def by blast

lemma logical_of_known: "logical_of attempts a l \<Longrightarrow> \<exists>node. bt_get attempts a = Some node"
  using logical_in_known unfolding logical_of_def by blast

lemma attempts_keys: "a \<in> set (map fst attempts) \<longleftrightarrow> (\<exists>node. bt_get attempts a = Some node)"
  using bt_get_None_iff [of attempts a] by (cases "bt_get attempts a") auto

text \<open>What the three phases compute, given the attempts of the log.\<close>

lemma resolve_all_iff:
  "(\<exists>m. resolve_all (map fst attempts) attempts ([], []) = Inr m) \<longleftrightarrow> all_resolve attempts"
proof
  assume "\<exists>m. resolve_all (map fst attempts) attempts ([], []) = Inr m"
  then show "all_resolve attempts"
    using resolve_all_Inr [of attempts "([], [])" "map fst attempts"] attempts_keys
    by (fastforce simp: all_resolve_def ids_sound_def)
next
  assume "all_resolve attempts"
  then have "\<forall>a \<in> set (map fst attempts). \<exists>l. logical_of attempts a l"
    using attempts_keys by (force simp: all_resolve_def)
  then show "\<exists>m. resolve_all (map fst attempts) attempts ([], []) = Inr m"
    by (intro resolve_all_defined) (simp_all add: ids_sound_def unvisited_def)
qed

lemma resolved_ids:
  assumes "resolve_all (map fst attempts) attempts ([], []) = Inr (ids, visit)"
  shows "bt_get ids a = Some l \<longleftrightarrow> logical_of attempts a l" "ids_sound attempts ids"
proof -
  have r: "walked attempts ([], []) (ids, visit)"
    "\<forall>a \<in> set (map fst attempts). \<exists>l. logical_of attempts a l \<and> bt_get ids a = Some l"
    using resolve_all_Inr [OF _ assms] by (auto simp: ids_sound_def)
  then show snd: "ids_sound attempts ids" by (simp add: walked_def)
  show "bt_get ids a = Some l \<longleftrightarrow> logical_of attempts a l"
  proof
    assume l: "logical_of attempts a l"
    then have "a \<in> set (map fst attempts)" using logical_of_known [OF l] attempts_keys [of a attempts] by blast
    with r(2) obtain k where "logical_of attempts a k" "bt_get ids a = Some k" by blast
    with logical_of_unique [OF l] show "bt_get ids a = Some l" by simp
  qed (rule ids_soundD [OF snd])
qed

lemma check_scopes_resolved:
  assumes "resolve_all (map fst attempts) attempts ([], []) = Inr (ids, visit)"
  shows "check_scopes ids attempts [] = Inr () \<longleftrightarrow> one_scope_per_run attempts"
proof -
  have mem: "(a, l) \<in> set ids \<longleftrightarrow> logical_of attempts a l" for a l
  proof
    show "(a, l) \<in> set ids \<Longrightarrow> logical_of attempts a l"
      using resolved_ids(2) [OF assms] by (auto simp: ids_sound_def)
    show "logical_of attempts a l \<Longrightarrow> (a, l) \<in> set ids"
      using resolved_ids(1) [OF assms] by (simp add: bt_get_def map_of_SomeD)
  qed
  show ?thesis
    by (simp add: check_scopes_iff one_scope_per_run_def split_beta Ball_def split_paired_All mem) blast
qed

lemma lineage_Inr_iff:
  assumes "collect_attempts events [] = Inr attempts"
  shows "(\<exists>ln. lineage_from_events events = Inr ln) \<longleftrightarrow> all_resolve attempts \<and> one_scope_per_run attempts"
proof (cases "resolve_all (map fst attempts) attempts ([], [])")
  case (Inl e)
  then show ?thesis using assms resolve_all_iff [of attempts] by (auto simp: lineage_from_events_def)
next
  case (Inr m)
  then show ?thesis
    using assms resolve_all_iff [of attempts] check_scopes_resolved [of attempts "fst m" "snd m"]
    by (auto simp: lineage_from_events_def try_then_Inr split: prod.splits)
qed

lemma lineage_Inr:
  assumes "lineage_from_events events = Inr ln"
  shows "collect_attempts events [] = Inr (ln_attempts ln)"
    "all_resolve (ln_attempts ln)" "one_scope_per_run (ln_attempts ln)"
    "logical_run_id_for_attempt ln a = Some l \<longleftrightarrow> logical_of (ln_attempts ln) a l"
proof -
  from assms obtain ids visit where c: "collect_attempts events [] = Inr (ln_attempts ln)"
      "resolve_all (map fst (ln_attempts ln)) (ln_attempts ln) ([], []) = Inr (ids, visit)"
      "ln_logical_run_ids ln = ids"
    by (auto simp: lineage_from_events_def try_then_Inr)
  then show "collect_attempts events [] = Inr (ln_attempts ln)" by simp
  with lineage_Inr_iff [OF this] assms show "all_resolve (ln_attempts ln)" "one_scope_per_run (ln_attempts ln)"
    by auto
  show "logical_run_id_for_attempt ln a = Some l \<longleftrightarrow> logical_of (ln_attempts ln) a l"
    using resolved_ids(1) [OF c(2)] c(3) by (simp add: logical_run_id_for_attempt_def)
qed

section \<open>What the attempts record of the log\<close>

text \<open>The edge an event gives its attempt, and the run it names.\<close>

definition event_names :: "Event \<Rightarrow> ustring \<Rightarrow> ustring \<Rightarrow> bool" where
  "event_names e a l \<longleftrightarrow> agent_run_id (ev_metadata e) = Some a \<and>
     (\<exists>i. run_identity_from_metadata (ev_metadata e) = Inr (Some i) \<and> ri_logical_run_id i = l)"

definition event_continues :: "Event \<Rightarrow> ustring \<Rightarrow> ustring \<Rightarrow> bool" where
  "event_continues e a b \<longleftrightarrow> agent_run_id (ev_metadata e) = Some a \<and>
     source_agent_run_id (ev_metadata e) = Some b \<and> b \<noteq> a"

text \<open>An attempt has a node exactly when an event carries it; the node has the scope of all its events,
  the run one of them names, or else the source one of them gives.\<close>

definition node_records :: "Event list \<Rightarrow> ustring \<Rightarrow> AttemptNode \<Rightarrow> bool" where
  "node_records es a node \<longleftrightarrow>
     (\<forall>e \<in> set es. agent_run_id (ev_metadata e) = Some a \<longrightarrow> scope_from_event e = an_scope node) \<and>
     (\<forall>l. an_explicit_logical_run_id node = Some l \<longleftrightarrow> (\<exists>e \<in> set es. event_names e a l)) \<and>
     (an_explicit_logical_run_id node = None \<longrightarrow>
       (\<forall>b. an_source_attempt_run_id node = Some b \<longleftrightarrow> (\<exists>e \<in> set es. event_continues e a b)))"

definition attempts_record :: "Event list \<Rightarrow> attempts \<Rightarrow> bool" where
  "attempts_record es attempts \<longleftrightarrow>
     (\<forall>a. (bt_get attempts a = None \<longleftrightarrow> (\<forall>e \<in> set es. agent_run_id (ev_metadata e) \<noteq> Some a)) \<and>
       (\<forall>node. bt_get attempts a = Some node \<longrightarrow> node_records es a node))"

lemma merge_optional_Inr:
  "merge_optional_value t c e = Inr r \<longleftrightarrow>
     (case c of None \<Rightarrow> r = t | Some x \<Rightarrow> r = Some x \<and> (t = None \<or> t = Some x))"
  by (cases t; cases c) (auto simp: merge_optional_value_def)

lemma node_records_other:
  "agent_run_id (ev_metadata e) \<noteq> Some a \<Longrightarrow> node_records (es @ [e]) a node \<longleftrightarrow> node_records es a node"
  by (auto simp: node_records_def event_names_def event_continues_def)

definition event_source :: "Event \<Rightarrow> ustring \<Rightarrow> ustring option" where
  "event_source e a = (case source_agent_run_id (ev_metadata e) of None \<Rightarrow> None
     | Some v \<Rightarrow> if v \<noteq> a then Some v else None)"

lemma event_continues_source:
  "agent_run_id (ev_metadata e) = Some a \<Longrightarrow> event_continues e a b \<longleftrightarrow> event_source e a = Some b"
  by (auto simp: event_continues_def event_source_def split: option.splits)

lemma event_names_identity:
  "agent_run_id (ev_metadata e) = Some a \<Longrightarrow> run_identity_from_metadata (ev_metadata e) = Inr i \<Longrightarrow>
    event_names e a l \<longleftrightarrow> map_option ri_logical_run_id i = Some l"
  by (auto simp: event_names_def)

lemma node_records_first:
  assumes "\<forall>e \<in> set es. agent_run_id (ev_metadata e) \<noteq> Some a" "agent_run_id (ev_metadata e) = Some a"
    and "run_identity_from_metadata (ev_metadata e) = Inr i"
  shows "node_records (es @ [e]) a \<lparr>an_scope = scope_from_event e,
    an_explicit_logical_run_id = map_option ri_logical_run_id i,
    an_source_attempt_run_id = (if map_option ri_logical_run_id i \<noteq> None then None else event_source e a)\<rparr>"
proof -
  have "\<not> event_names e' a l" "\<not> event_continues e' a l" if "e' \<in> set es" for e' l
    using assms(1) that by (auto simp: event_names_def event_continues_def)
  with assms show ?thesis
    by (simp add: node_records_def event_names_identity event_continues_source)
qed

lemma merge_attempt_Inr:
  assumes "merge_attempt a scope logical source existing = Inr node"
  shows "an_scope existing = scope" "an_scope node = scope"
    "merge_optional_value (an_explicit_logical_run_id existing) logical (ConflictingLogicalRunId a) =
      Inr (an_explicit_logical_run_id node)"
    "an_explicit_logical_run_id node = None \<Longrightarrow>
      merge_optional_value (an_source_attempt_run_id existing) source (ConflictingSourceAttempt a) =
      Inr (an_source_attempt_run_id node)"
proof -
  let ?explicit = "merge_optional_value (an_explicit_logical_run_id existing) logical (ConflictingLogicalRunId a)"
  show s: "an_scope existing = scope" using assms by (auto simp: merge_attempt_def split: if_splits)
  from assms obtain x where x: "?explicit = Inr x" by (cases ?explicit) (auto simp: merge_attempt_def split: if_splits)
  with assms s have n:
    "(if x \<noteq> None then Inr (existing\<lparr>an_explicit_logical_run_id := x, an_source_attempt_run_id := None\<rparr>)
      else try_then (merge_optional_value (an_source_attempt_run_id existing) source (ConflictingSourceAttempt a))
        (\<lambda>s. Inr (existing\<lparr>an_explicit_logical_run_id := x, an_source_attempt_run_id := s\<rparr>))) = Inr node"
    by (simp add: merge_attempt_def Let_def)
  from n s show "an_scope node = scope" by (auto simp: try_then_Inr split: if_splits)
  have e: "an_explicit_logical_run_id node = x" using n by (auto simp: try_then_Inr split: if_splits)
  with x show "?explicit = Inr (an_explicit_logical_run_id node)" by simp
  show "an_explicit_logical_run_id node = None \<Longrightarrow>
      merge_optional_value (an_source_attempt_run_id existing) source (ConflictingSourceAttempt a) =
      Inr (an_source_attempt_run_id node)"
    using n e by (auto simp: try_then_Inr)
qed

lemma node_records_merge:
  assumes r: "node_records es a existing" and a: "agent_run_id (ev_metadata e) = Some a"
    and i: "run_identity_from_metadata (ev_metadata e) = Inr i"
    and m: "merge_attempt a (scope_from_event e) (map_option ri_logical_run_id i) (event_source e a) existing = Inr node"
  shows "node_records (es @ [e]) a node"
proof -
  note m = merge_attempt_Inr [OF m]
  have "an_explicit_logical_run_id node = Some l \<longleftrightarrow> (\<exists>e \<in> set (es @ [e]). event_names e a l)" for l
  proof -
    have "(\<exists>e \<in> set (es @ [e]). event_names e a l) \<longleftrightarrow>
        an_explicit_logical_run_id existing = Some l \<or> map_option ri_logical_run_id i = Some l"
      using r event_names_identity [OF a i, of l] by (auto simp: node_records_def)
    with m(3) show ?thesis by (auto simp: merge_optional_Inr split: option.splits)
  qed
  moreover have "an_source_attempt_run_id node = Some b \<longleftrightarrow> (\<exists>e \<in> set (es @ [e]). event_continues e a b)"
    if n: "an_explicit_logical_run_id node = None" for b
  proof -
    have "an_explicit_logical_run_id existing = None"
      using m(3) n by (auto simp: merge_optional_Inr split: option.splits)
    then have "(\<exists>e \<in> set (es @ [e]). event_continues e a b) \<longleftrightarrow>
        an_source_attempt_run_id existing = Some b \<or> event_source e a = Some b"
      using r event_continues_source [OF a, of b] by (auto simp: node_records_def)
    with m(4) [OF n] show ?thesis by (auto simp: merge_optional_Inr split: option.splits)
  qed
  ultimately show ?thesis using r m(1,2) by (auto simp: node_records_def)
qed

lemma add_attempt_None:
  "agent_run_id (ev_metadata e) = None \<Longrightarrow> add_attempt e attempts = Inr attempts' \<Longrightarrow> attempts' = attempts"
  by (auto simp: add_attempt_def Let_def try_then_Inr split: if_splits)

lemma add_attempt_Some:
  assumes "agent_run_id (ev_metadata e) = Some a" "add_attempt e attempts = Inr attempts'"
  obtains i where "run_identity_from_metadata (ev_metadata e) = Inr i"
    and "case bt_get attempts a of
        None \<Rightarrow> attempts' = bt_insert a \<lparr>an_scope = scope_from_event e,
          an_explicit_logical_run_id = map_option ri_logical_run_id i,
          an_source_attempt_run_id =
            (if map_option ri_logical_run_id i \<noteq> None then None else event_source e a)\<rparr> attempts
      | Some existing \<Rightarrow> \<exists>node. merge_attempt a (scope_from_event e) (map_option ri_logical_run_id i)
          (event_source e a) existing = Inr node \<and> attempts' = bt_insert a node attempts"
proof -
  from assms obtain i s where "run_identity_from_metadata (ev_metadata e) = Inr i" and s:
      "(case source_agent_run_id (ev_metadata e) of None \<Rightarrow> Inr None
        | Some v \<Rightarrow> try_then (require_non_empty SOURCE_AGENT_RUN_ID_METADATA_KEY v)
            (\<lambda>_. Inr (if v \<noteq> a then Some v else None))) = Inr s"
      "(case bt_get attempts a of
          Some existing \<Rightarrow> try_then (merge_attempt a (scope_from_event e) (map_option ri_logical_run_id i) s existing)
            (\<lambda>node. Inr (bt_insert a node attempts))
        | None \<Rightarrow> Inr (bt_insert a \<lparr>an_scope = scope_from_event e,
            an_explicit_logical_run_id = map_option ri_logical_run_id i,
            an_source_attempt_run_id = (if map_option ri_logical_run_id i \<noteq> None then None else s)\<rparr> attempts))
        = Inr attempts'"
    unfolding add_attempt_def Let_def by (auto simp: try_then_Inr)
  moreover from s(1) have "s = event_source e a"
    by (auto simp: event_source_def try_then_Inr split: option.splits)
  ultimately show thesis using that by (cases "bt_get attempts a") (auto simp: try_then_Inr)
qed

lemma add_attempt_records:
  assumes "attempts_record es attempts" "add_attempt e attempts = Inr attempts'"
  shows "attempts_record (es @ [e]) attempts'"
proof (cases "agent_run_id (ev_metadata e)")
  case None
  with assms show ?thesis
    by (auto simp: attempts_record_def node_records_other dest: add_attempt_None)
next
  case (Some a)
  have "\<exists>node. attempts' = bt_insert a node attempts \<and> node_records (es @ [e]) a node"
  proof (rule add_attempt_Some [OF Some assms(2)])
    fix i assume i: "run_identity_from_metadata (ev_metadata e) = Inr i" and c: "case bt_get attempts a of
        None \<Rightarrow> attempts' = bt_insert a \<lparr>an_scope = scope_from_event e,
          an_explicit_logical_run_id = map_option ri_logical_run_id i,
          an_source_attempt_run_id =
            (if map_option ri_logical_run_id i \<noteq> None then None else event_source e a)\<rparr> attempts
      | Some existing \<Rightarrow> \<exists>node. merge_attempt a (scope_from_event e) (map_option ri_logical_run_id i)
          (event_source e a) existing = Inr node \<and> attempts' = bt_insert a node attempts"
    show ?thesis
    proof (cases "bt_get attempts a")
      case None
      then have "\<forall>e \<in> set es. agent_run_id (ev_metadata e) \<noteq> Some a"
        using assms(1) by (simp add: attempts_record_def)
      from node_records_first [OF this Some i] None c show ?thesis by auto
    next
      case node: (Some node)
      then have "node_records es a node" using assms(1) by (simp add: attempts_record_def)
      from node_records_merge [OF this Some i] node c show ?thesis by auto
    qed
  qed
  then obtain node where n: "attempts' = bt_insert a node attempts" "node_records (es @ [e]) a node" by blast
  show ?thesis
    unfolding attempts_record_def
  proof (intro allI)
    fix x
    show "(bt_get attempts' x = None \<longleftrightarrow> (\<forall>e \<in> set (es @ [e]). agent_run_id (ev_metadata e) \<noteq> Some x)) \<and>
      (\<forall>node. bt_get attempts' x = Some node \<longrightarrow> node_records (es @ [e]) x node)"
    proof (cases "x = a")
      case True
      with n Some show ?thesis by (simp add: bt_get_insert_any)
    next
      case False
      with n(1) Some assms(1) show ?thesis by (simp add: bt_get_insert_any node_records_other attempts_record_def)
    qed
  qed
qed

lemma collect_attempts_records:
  "attempts_record es attempts \<Longrightarrow> collect_attempts es' attempts = Inr attempts' \<Longrightarrow>
    attempts_record (es @ es') attempts'"
proof (induction es' attempts arbitrary: es rule: collect_attempts.induct)
  case (2 e es' attempts)
  then obtain n where n: "add_attempt e attempts = Inr n" "collect_attempts es' n = Inr attempts'"
    by (auto simp: try_then_Inr)
  from 2(1) [OF add_attempt_records [OF 2(2) n(1)] n(2)] show ?case by simp
qed simp

lemma lineage_records: "lineage_from_events es = Inr ln \<Longrightarrow> attempts_record es (ln_attempts ln)"
  using collect_attempts_records [of "[]" "[]" es "ln_attempts ln"] lineage_Inr(1)
  by (simp add: attempts_record_def)

section \<open>The run an attempt belongs to, by the log alone\<close>

definition named_in :: "Event list \<Rightarrow> ustring \<Rightarrow> bool" where
  "named_in es a \<longleftrightarrow> (\<exists>e \<in> set es. \<exists>l. event_names e a l)"

inductive run_of :: "Event list \<Rightarrow> ustring \<Rightarrow> ustring \<Rightarrow> bool" for es where
  names: "e \<in> set es \<Longrightarrow> event_names e a l \<Longrightarrow> run_of es a l"
| own: "e \<in> set es \<Longrightarrow> agent_run_id (ev_metadata e) = Some a \<Longrightarrow> \<not> named_in es a \<Longrightarrow>
    (\<forall>e \<in> set es. \<forall>b. \<not> event_continues e a b) \<Longrightarrow> run_of es a a"
| follows: "\<not> named_in es a \<Longrightarrow> e \<in> set es \<Longrightarrow> event_continues e a b \<Longrightarrow> run_of es b l \<Longrightarrow> run_of es a l"

lemma record_node:
  assumes "attempts_record es attempts" "bt_get attempts a = Some node"
  shows "an_explicit_logical_run_id node = Some l \<longleftrightarrow> (\<exists>e \<in> set es. event_names e a l)"
    "an_explicit_logical_run_id node = None \<longleftrightarrow> \<not> named_in es a"
    "\<not> named_in es a \<Longrightarrow> an_source_attempt_run_id node = Some b \<longleftrightarrow> (\<exists>e \<in> set es. event_continues e a b)"
    "\<exists>e \<in> set es. agent_run_id (ev_metadata e) = Some a"
    "e \<in> set es \<Longrightarrow> agent_run_id (ev_metadata e) = Some a \<Longrightarrow> scope_from_event e = an_scope node"
proof -
  have r: "node_records es a node" "\<not> (\<forall>e \<in> set es. agent_run_id (ev_metadata e) \<noteq> Some a)"
    using assms unfolding attempts_record_def by (blast, metis option.distinct(1))
  then show "an_explicit_logical_run_id node = Some l \<longleftrightarrow> (\<exists>e \<in> set es. event_names e a l)"
    "\<exists>e \<in> set es. agent_run_id (ev_metadata e) = Some a"
    "e \<in> set es \<Longrightarrow> agent_run_id (ev_metadata e) = Some a \<Longrightarrow> scope_from_event e = an_scope node"
    by (simp_all add: node_records_def)
  show n: "an_explicit_logical_run_id node = None \<longleftrightarrow> \<not> named_in es a"
    using r(1) unfolding node_records_def named_in_def by (metis not_None_eq)
  show "\<not> named_in es a \<Longrightarrow> an_source_attempt_run_id node = Some b \<longleftrightarrow> (\<exists>e \<in> set es. event_continues e a b)"
    using r(1) n by (simp add: node_records_def)
qed

lemma record_known:
  "attempts_record es attempts \<Longrightarrow> e \<in> set es \<Longrightarrow> agent_run_id (ev_metadata e) = Some a \<Longrightarrow>
    \<exists>node. bt_get attempts a = Some node"
  unfolding attempts_record_def by (metis not_None_eq)

lemma logical_in_run_of:
  assumes "attempts_record es attempts" "logical_in attempts d a l"
  shows "run_of es a l"
  using assms(2)
proof (induction rule: logical_in.induct)
  case (explicit a node l)
  then show ?case using record_node(1) [OF assms(1) explicit(1)] run_of.names by blast
next
  case (root a node)
  note n = record_node [OF assms(1) root(1)]
  from n(2) root(2) have "\<not> named_in es a" by simp
  with n(3,4) root(3) run_of.own show ?case by (metis option.distinct(1))
next
  case (source a node b src d l)
  note n = record_node [OF assms(1) source(1)]
  from n(2) source(2) have "\<not> named_in es a" by simp
  with n(3) source(3,7) run_of.follows show ?case by metis
qed

lemma run_of_logical_in:
  assumes "attempts_record es attempts" "all_resolve attempts" "run_of es a l"
  shows "logical_of attempts a l"
  using assms(3)
proof (induction rule: run_of.induct)
  case (names e a l)
  then obtain node where n: "bt_get attempts a = Some node"
    using record_known [OF assms(1)] by (auto simp: event_names_def)
  with names record_node(1) [OF assms(1) n] logical_in.explicit [OF n] show ?case
    by (auto simp: logical_of_def)
next
  case (own e a)
  then obtain node where n: "bt_get attempts a = Some node" using record_known [OF assms(1) own(1,2)] by blast
  note r = record_node [OF assms(1) n]
  have "an_explicit_logical_run_id node = None" using r(2) own(3) by simp
  moreover have "an_source_attempt_run_id node = None"
    using r(3) [OF own(3)] own(4) by (cases "an_source_attempt_run_id node") auto
  ultimately show ?case using logical_in.root [OF n] by (auto simp: logical_of_def)
next
  case (follows a e b l)
  then obtain node where n: "bt_get attempts a = Some node"
    using record_known [OF assms(1)] by (auto simp: event_continues_def)
  note r = record_node [OF assms(1) n]
  have x: "an_explicit_logical_run_id node = None" "an_source_attempt_run_id node = Some b"
    using r(2,3) follows(1-3) by auto
  obtain d l' where l': "logical_in attempts d a l'"
    using assms(2) n by (auto simp: all_resolve_def logical_of_def)
  from l' n x have "logical_of attempts b l'" by cases (auto simp: logical_of_def)
  with follows(5) have "l' = l" using logical_of_unique by blast
  with l' show ?case by (auto simp: logical_of_def)
qed

text \<open>C14. The lineage of a log is what the log says: the run of an attempt is the one an event names
  for it, else that of the attempt it continues, else its own. Every event of the log that belongs to
  an attempt resolves to this run, and the events of one run share task, project and session.\<close>

theorem lineage_follows_the_log:
  assumes "lineage_from_events es = Inr ln"
  shows "(logical_run_id_for_attempt ln a = Some l \<longleftrightarrow> run_of es a l) \<and>
    (e \<in> set es \<longrightarrow> agent_run_id (ev_metadata e) = Some a \<longrightarrow>
      (\<exists>k. run_of es a k \<and> logical_run_id_for_event ln e = Inr (Some k))) \<and>
    (e \<in> set es \<longrightarrow> e' \<in> set es \<longrightarrow> logical_run_id_for_event ln e = Inr (Some l) \<longrightarrow>
      logical_run_id_for_event ln e' = Inr (Some l) \<longrightarrow> scope_from_event e = scope_from_event e')"
proof (intro conjI impI)
  note ln = lineage_Inr [OF assms] and rec = lineage_records [OF assms]
  show iff: "logical_run_id_for_attempt ln a = Some l \<longleftrightarrow> run_of es a l" for a l
    using ln(4) logical_in_run_of [OF rec] run_of_logical_in [OF rec ln(2)]
    by (auto simp: logical_of_def)
  show "\<exists>k. run_of es a k \<and> logical_run_id_for_event ln e = Inr (Some k)"
    if "e \<in> set es" "agent_run_id (ev_metadata e) = Some a"
  proof -
    from record_known [OF rec that] obtain node where n: "bt_get (ln_attempts ln) a = Some node" by blast
    with ln(2) obtain k where "logical_of (ln_attempts ln) a k" by (auto simp: all_resolve_def)
    with ln(4) have "logical_run_id_for_attempt ln a = Some k" by blast
    with iff n that record_node(5) [OF rec n that] show ?thesis by (auto simp: logical_run_id_for_event_def)
  qed
  assume es: "e \<in> set es" "e' \<in> set es" and r: "logical_run_id_for_event ln e = Inr (Some l)"
    "logical_run_id_for_event ln e' = Inr (Some l)"
  from r obtain b b' where b: "agent_run_id (ev_metadata e) = Some b" "agent_run_id (ev_metadata e') = Some b'"
      "logical_of (ln_attempts ln) b l" "logical_of (ln_attempts ln) b' l"
    using ln(4) by (auto simp: logical_run_id_for_event_def split: option.splits if_splits)
  then have "an_scope (the (bt_get (ln_attempts ln) b)) = an_scope (the (bt_get (ln_attempts ln) b'))"
    using ln(3) unfolding one_scope_per_run_def by blast
  moreover have "scope_from_event x = an_scope (the (bt_get (ln_attempts ln) c))"
    if "x \<in> set es" "agent_run_id (ev_metadata x) = Some c" for x c
  proof -
    from record_known [OF rec that] obtain node where "bt_get (ln_attempts ln) c = Some node" by blast
    with record_node(5) [OF rec this that] show ?thesis by simp
  qed
  ultimately show "scope_from_event e = scope_from_event e'" using es b(1,2) by simp
qed

text \<open>C15. A lineage is refused exactly when some attempt of the log has no run, because its chain of
  sources ends outside the log, leaves its scope or runs in a circle, or when two attempts of one
  run lie in different scopes. In particular the continuations of an accepted log never form a
  circle.\<close>

theorem lineage_refused_exactly:
  "((\<exists>ln. lineage_from_events es = Inr ln) \<longleftrightarrow>
     (\<exists>attempts. collect_attempts es [] = Inr attempts \<and> all_resolve attempts \<and> one_scope_per_run attempts)) \<and>
   (lineage_from_events es = Inr ln \<longrightarrow>
     acyclic {(b, a). \<not> named_in es a \<and> (\<exists>e \<in> set es. event_continues e a b)})"
proof (intro conjI impI)
  show "(\<exists>ln. lineage_from_events es = Inr ln) \<longleftrightarrow>
     (\<exists>attempts. collect_attempts es [] = Inr attempts \<and> all_resolve attempts \<and> one_scope_per_run attempts)"
    using lineage_Inr_iff [of es] by (cases "collect_attempts es []") (auto simp: lineage_from_events_def)
  assume ok: "lineage_from_events es = Inr ln"
  note ln = lineage_Inr [OF ok] and rec = lineage_records [OF ok]
  define depth where "depth = (\<lambda>a. SOME d. \<exists>l. logical_in (ln_attempts ln) d a l)"
  have depth: "depth a = d" if "logical_in (ln_attempts ln) d a l" for a d l
    unfolding depth_def
  proof (rule some_equality)
    show "d' = d" if "\<exists>l. logical_in (ln_attempts ln) d' a l" for d'
      using that logical_in_unique \<open>logical_in (ln_attempts ln) d a l\<close> by blast
  qed (use that in blast)
  have "depth b < depth a" if c: "\<not> named_in es a" "e \<in> set es" "event_continues e a b" for a b e
  proof -
    from c record_known [OF rec] obtain node where n: "bt_get (ln_attempts ln) a = Some node"
      by (auto simp: event_continues_def)
    note r = record_node [OF rec n]
    have x: "an_explicit_logical_run_id node = None" "an_source_attempt_run_id node = Some b"
      using r(2,3) c by auto
    obtain d l where d: "logical_in (ln_attempts ln) d a l"
      using ln(2) n by (auto simp: all_resolve_def logical_of_def)
    then obtain d' where "d = Suc d'" "logical_in (ln_attempts ln) d' b l" using n x by cases auto
    with depth d show ?thesis by simp
  qed
  then show "acyclic {(b, a). \<not> named_in es a \<and> (\<exists>e \<in> set es. event_continues e a b)}"
    by (intro wf_acyclic wf_subset [OF wf_measure [of depth]]) auto
qed

section \<open>Identities survive their metadata\<close>

lemma identity_keys_distinct:
  "distinct [AGENT_RUN_ID_METADATA_KEY, LOGICAL_AGENT_RUN_ID_METADATA_KEY,
     SOURCE_AGENT_RUN_ID_METADATA_KEY, AGENT_RUN_IDENTITY_SCHEMA_METADATA_KEY]"
  by (simp add: identity_keys lit_def)

lemma require_non_empty_Inr [simp]: "require_non_empty key v = Inr u \<longleftrightarrow> trim v \<noteq> []"
  by (simp add: require_non_empty_def)

text \<open>An identity that could be built and was written into the metadata of an event is read back
  unchanged, whatever the metadata held before; no other key is touched, and writing it again changes
  nothing more.\<close>

theorem identity_survives_metadata:
  assumes "run_identity_new l a = Inr i \<or> run_identity_continuation l a s = Inr i"
    and "run_identity_insert_into i m = Inr m'"
  shows "run_identity_from_metadata m' = Inr (Some i) \<and> agent_run_id m' = Some a \<and>
    ri_logical_run_id i = l \<and> source_agent_run_id m' = ri_source_attempt_run_id i \<and>
    (\<forall>k. k \<notin> {AGENT_RUN_ID_METADATA_KEY, LOGICAL_AGENT_RUN_ID_METADATA_KEY,
        SOURCE_AGENT_RUN_ID_METADATA_KEY, AGENT_RUN_IDENTITY_SCHEMA_METADATA_KEY} \<longrightarrow>
      bt_get m' k = bt_get m k) \<and>
    (\<exists>m''. run_identity_insert_into i m' = Inr m'' \<and> bt_get m'' = bt_get m')"
proof -
  have i: "ri_logical_run_id i = l" "ri_attempt_run_id i = a" "trim l \<noteq> []" "trim a \<noteq> []"
      "\<forall>s. ri_source_attempt_run_id i = Some s \<longrightarrow> trim s \<noteq> []"
    using assms(1) by (auto simp: run_identity_new_def run_identity_continuation_def
        with_source_attempt_run_id_def try_then_Inr)
  note keys = identity_keys_distinct [unfolded distinct.simps list.set insert_iff, simplified]
  have get: "bt_get m' = (bt_get m)(AGENT_RUN_IDENTITY_SCHEMA_METADATA_KEY \<mapsto> AGENT_RUN_IDENTITY_V1_SCHEMA,
      LOGICAL_AGENT_RUN_ID_METADATA_KEY \<mapsto> l, AGENT_RUN_ID_METADATA_KEY \<mapsto> a,
      SOURCE_AGENT_RUN_ID_METADATA_KEY := ri_source_attempt_run_id i)"
    using assms(2) i(1,2) keys
    by (cases "ri_source_attempt_run_id i")
      (auto simp: run_identity_insert_into_def try_then_Inr Let_def bt_get_insert_any bt_contains_key_def
        fun_eq_iff split: if_splits)
  have "run_identity_from_metadata m' = Inr (Some i)"
    using i keys by (cases i; cases "ri_source_attempt_run_id i")
      (auto simp: run_identity_from_metadata_def get required_metadata_value_def require_non_empty_def)
  moreover have "\<exists>m''. run_identity_insert_into i m' = Inr m'' \<and> bt_get m'' = bt_get m'"
    using i keys by (cases "ri_source_attempt_run_id i")
      (auto simp: run_identity_insert_into_def validate_reserved_def get bt_contains_key_def Let_def
        bt_get_insert_any fun_eq_iff)
  ultimately show ?thesis using i keys by (simp add: get agent_run_id_def source_agent_run_id_def)
qed

section \<open>Concrete instances\<close>

definition sample_event :: "Metadata \<Rightarrow> Event" where
  "sample_event m = \<lparr>ev_id = lit ''e'', ev_task_id = lit ''t'', ev_sequence = 1, ev_timestamp_ms = 1,
     ev_kind = TaskStatusChanged, ev_summary = [], ev_metadata = m\<rparr>"

text \<open>A run, its legacy continuation, and an attempt that names the run itself.\<close>

definition sample_log :: "Event list" where
  "sample_log =
     [sample_event (bt_insert (lit ''agent_run_id'') (lit ''r1'') []),
      sample_event (bt_insert (lit ''source_agent_run_id'') (lit ''r1'')
        (bt_insert (lit ''agent_run_id'') (lit ''r2'') [])),
      sample_event (bt_insert (lit ''agent_run_identity_schema'') (lit ''cindx.agent-run-identity.v1'')
        (bt_insert (lit ''logical_agent_run_id'') (lit ''r1'') (bt_insert (lit ''agent_run_id'') (lit ''r3'') [])))]"

definition sample_lineage :: AgentRunLineage where
  "sample_lineage =
     (let scope = \<lparr>sc_task_id = lit ''t'', sc_project_id = None, sc_session_id = None\<rparr> in
      \<lparr>ln_attempts =
         [(lit ''r1'', \<lparr>an_scope = scope, an_explicit_logical_run_id = None, an_source_attempt_run_id = None\<rparr>),
          (lit ''r2'', \<lparr>an_scope = scope, an_explicit_logical_run_id = None,
             an_source_attempt_run_id = Some (lit ''r1'')\<rparr>),
          (lit ''r3'', \<lparr>an_scope = scope, an_explicit_logical_run_id = Some (lit ''r1''),
             an_source_attempt_run_id = None\<rparr>)],
       ln_logical_run_ids = [(lit ''r1'', lit ''r1''), (lit ''r2'', lit ''r1''), (lit ''r3'', lit ''r1'')]\<rparr>)"

lemmas identity_eval = sample_log_def sample_event_def sample_lineage_def lit_def identity_keys
  AGENT_RUN_IDENTITY_V1_SCHEMA_def Let_def trim_Nil_iff require_non_empty_def required_metadata_value_def
  bt_get_Cons is_whitespace_def

lemma sample_attempts: "collect_attempts sample_log [] = Inr (ln_attempts sample_lineage)"
  by (simp add: identity_eval add_attempt_def run_identity_from_metadata_def agent_run_id_def
      source_agent_run_id_def scope_from_event_def)

lemma sample_lineage_of_log: "lineage_from_events sample_log = Inr sample_lineage"
  unfolding lineage_from_events_def sample_attempts
  by (simp add: identity_eval resolve_source)

theorem lineage_follows_the_log_witness:
  "run_of sample_log (lit ''r2'') (lit ''r1'') \<and>
   logical_run_id_for_event sample_lineage (sample_log ! 2) = Inr (Some (lit ''r1''))"
proof -
  have "logical_run_id_for_attempt sample_lineage (lit ''r2'') = Some (lit ''r1'')"
    "logical_run_id_for_event sample_lineage (sample_log ! 2) = Inr (Some (lit ''r1''))"
    by (simp_all add: identity_eval logical_run_id_for_attempt_def logical_run_id_for_event_def
        agent_run_id_def scope_from_event_def)
  with lineage_follows_the_log [OF sample_lineage_of_log, of "lit ''r2''" "lit ''r1''"] show ?thesis by blast
qed

theorem lineage_refused_exactly_witness:
  "acyclic {(b, a). \<not> named_in sample_log a \<and> (\<exists>e \<in> set sample_log. event_continues e a b)}"
  using lineage_refused_exactly [of sample_log sample_lineage] sample_lineage_of_log by blast

theorem identity_survives_metadata_witness:
  "run_identity_from_metadata
     (bt_insert SOURCE_AGENT_RUN_ID_METADATA_KEY (lit ''r1'') (bt_insert AGENT_RUN_ID_METADATA_KEY (lit ''r2'')
       (bt_insert LOGICAL_AGENT_RUN_ID_METADATA_KEY (lit ''r1'')
         (bt_insert AGENT_RUN_IDENTITY_SCHEMA_METADATA_KEY AGENT_RUN_IDENTITY_V1_SCHEMA [])))) =
   Inr (Some \<lparr>ri_logical_run_id = lit ''r1'', ri_attempt_run_id = lit ''r2'',
     ri_source_attempt_run_id = Some (lit ''r1'')\<rparr>)"
proof -
  let ?i = "\<lparr>ri_logical_run_id = lit ''r1'', ri_attempt_run_id = lit ''r2'',
    ri_source_attempt_run_id = Some (lit ''r1'')\<rparr>"
  have c: "run_identity_continuation (lit ''r1'') (lit ''r2'') (lit ''r1'') = Inr ?i"
    by (simp add: identity_eval run_identity_continuation_def run_identity_new_def with_source_attempt_run_id_def)
  have "run_identity_insert_into ?i [] = Inr (bt_insert SOURCE_AGENT_RUN_ID_METADATA_KEY (lit ''r1'')
      (bt_insert AGENT_RUN_ID_METADATA_KEY (lit ''r2'') (bt_insert LOGICAL_AGENT_RUN_ID_METADATA_KEY (lit ''r1'')
        (bt_insert AGENT_RUN_IDENTITY_SCHEMA_METADATA_KEY AGENT_RUN_IDENTITY_V1_SCHEMA []))))"
    by (simp add: run_identity_insert_into_def validate_reserved_def Let_def)
  from identity_survives_metadata [OF disjI2 [OF c] this] show ?thesis by blast
qed

end
