(* ===== verification/Strategy_Receipt.thy ===== *)
theory Strategy_Receipt
  imports Run_Identity Number_Text
begin

text \<open>
  Model of \<open>crates/agent-application/src/strategy_decision.rs\<close> and
  \<open>crates/agent-application/src/run_persistence.rs\<close>: the receipt of the strategy chosen for one epoch of
  a run, as it is derived from the run context, written into event metadata and read back, and the
  part of a run context that is persisted with an event.

  The two foreign functions behind a receipt are parameters, the fields of \<open>digests\<close>:
  \<open>serde_json::to_vec\<close> of a tuple of strings and integers, which may fail with a message, and
  \<open>Sha256::digest\<close>.
\<close>

section \<open>Digests\<close>

datatype JsonScalar = JsonString ustring | JsonNumber u64

record digests =
  json_to_vec :: "JsonScalar list \<Rightarrow> ustring + nat list"
  sha256_digest :: "nat list \<Rightarrow> nat list"

definition hex_sha256 :: "digests \<Rightarrow> nat list \<Rightarrow> ustring" where
  "hex_sha256 dg bytes = hex_bytes (sha256_digest dg bytes)"

text \<open>What is relied on of the digest: 32 bytes.\<close>

definition sha256_bytes :: "digests \<Rightarrow> bool" where
  "sha256_bytes dg \<longleftrightarrow> (\<forall>bs. length (sha256_digest dg bs) = 32 \<and> (\<forall>b \<in> set (sha256_digest dg bs). b < 256))"

section \<open>The receipt\<close>

definition AGENT_STRATEGY_RECEIPT_SCHEMA :: ustring where
  "AGENT_STRATEGY_RECEIPT_SCHEMA = lit ''cindx.agent.strategy-receipt.v1''"

definition AGENT_STRATEGY_RECEIPT_SCHEMA_METADATA_KEY :: ustring where
  "AGENT_STRATEGY_RECEIPT_SCHEMA_METADATA_KEY = lit ''agent_strategy_receipt_schema''"

definition AGENT_STRATEGY_RECEIPT_KEY_METADATA_KEY :: ustring where
  "AGENT_STRATEGY_RECEIPT_KEY_METADATA_KEY = lit ''agent_strategy_receipt_key''"

definition AGENT_STRATEGY_RECEIPT_EPOCH_METADATA_KEY :: ustring where
  "AGENT_STRATEGY_RECEIPT_EPOCH_METADATA_KEY = lit ''agent_strategy_receipt_steer_epoch''"

definition AGENT_STRATEGY_RECEIPT_PLAN_METADATA_KEY :: ustring where
  "AGENT_STRATEGY_RECEIPT_PLAN_METADATA_KEY = lit ''agent_strategy_receipt_plan_sha256''"

definition AGENT_STRATEGY_RECEIPT_STATUS_METADATA_KEY :: ustring where
  "AGENT_STRATEGY_RECEIPT_STATUS_METADATA_KEY = lit ''agent_strategy_receipt_status''"

definition AGENT_STRATEGY_RECEIPT_SELECTED :: ustring where
  "AGENT_STRATEGY_RECEIPT_SELECTED = lit ''selected''"

definition AGENT_STRATEGY_RECEIPT_NOT_SELECTED :: ustring where
  "AGENT_STRATEGY_RECEIPT_NOT_SELECTED = lit ''not_selected''"

definition AGENT_STRATEGY_RECEIPT_HASH_DOMAIN :: ustring where
  "AGENT_STRATEGY_RECEIPT_HASH_DOMAIN = lit ''cindx.agent.strategy-receipt.v1'' @ [0]"

lemmas receipt_keys = AGENT_STRATEGY_RECEIPT_SCHEMA_METADATA_KEY_def AGENT_STRATEGY_RECEIPT_KEY_METADATA_KEY_def
  AGENT_STRATEGY_RECEIPT_EPOCH_METADATA_KEY_def AGENT_STRATEGY_RECEIPT_PLAN_METADATA_KEY_def
  AGENT_STRATEGY_RECEIPT_STATUS_METADATA_KEY_def

record AgentStrategyDecisionReceipt =
  sr_key :: ustring
  sr_agent_run_id :: ustring
  sr_steer_epoch :: u64
  sr_plan_sha256 :: ustring

datatype AgentStrategyReceiptState =
  ReceiptSelected AgentStrategyDecisionReceipt | ReceiptNotSelected | ReceiptAbsent

datatype AgentStrategyReceiptError =
  ReceiptMissingRunId
| ReceiptMissingSteerEpoch
| ReceiptInvalidPlanDigest
| ReceiptIdentityEncoding ustring
| ReceiptMalformed
| ReceiptIdentityMismatch
| ReceiptReservedMetadataConflict ustring

definition required_non_empty :: "ustring option \<Rightarrow> AgentStrategyReceiptError + ustring" where
  "required_non_empty v =
     (case v of Some s \<Rightarrow> if trim s \<noteq> [] then Inr s else Inl ReceiptMalformed | None \<Rightarrow> Inl ReceiptMalformed)"

definition validate_sha256 :: "ustring \<Rightarrow> AgentStrategyReceiptError + unit" where
  "validate_sha256 v =
     (if str_len v = 64 \<and> list_all is_ascii_hexdigit (as_bytes v) then Inr () else Inl ReceiptInvalidPlanDigest)"

definition parse_u64 :: "ustring option \<Rightarrow> u64 option" where
  "parse_u64 v = (case v of None \<Rightarrow> None | Some s \<Rightarrow> parse_unsigned u64_max s)"

text \<open>The physical run of a context, when it is not blank.\<close>

definition physical_run_id :: "Metadata \<Rightarrow> ustring option" where
  "physical_run_id metadata =
     (case agent_run_id metadata of Some v \<Rightarrow> if trim v \<noteq> [] then Some v else None | None \<Rightarrow> None)"

definition receipt_state_from_metadata ::
  "Metadata \<Rightarrow> AgentStrategyReceiptError + AgentStrategyReceiptState"
where
  "receipt_state_from_metadata metadata =
     (let schema = bt_get metadata AGENT_STRATEGY_RECEIPT_SCHEMA_METADATA_KEY;
          status = bt_get metadata AGENT_STRATEGY_RECEIPT_STATUS_METADATA_KEY;
          key = bt_get metadata AGENT_STRATEGY_RECEIPT_KEY_METADATA_KEY;
          epoch = bt_get metadata AGENT_STRATEGY_RECEIPT_EPOCH_METADATA_KEY;
          plan = bt_get metadata AGENT_STRATEGY_RECEIPT_PLAN_METADATA_KEY in
      if schema = None \<and> status = None \<and> key = None \<and> epoch = None \<and> plan = None then Inr ReceiptAbsent
      else if schema \<noteq> Some AGENT_STRATEGY_RECEIPT_SCHEMA then Inl ReceiptMalformed
      else if status = Some AGENT_STRATEGY_RECEIPT_NOT_SELECTED then
        (if key \<noteq> None \<or> plan \<noteq> None \<or> parse_u64 epoch = None then Inl ReceiptMalformed
         else Inr ReceiptNotSelected)
      else if status \<noteq> Some AGENT_STRATEGY_RECEIPT_SELECTED then Inl ReceiptMalformed
      else
        try_then (required_non_empty key) (\<lambda>k.
        try_then (validate_sha256 k) (\<lambda>_.
        case physical_run_id metadata of
          None \<Rightarrow> Inl ReceiptMissingRunId
        | Some run \<Rightarrow>
            (case parse_u64 epoch of
               None \<Rightarrow> Inl ReceiptMissingSteerEpoch
             | Some e \<Rightarrow>
                 try_then (required_non_empty plan) (\<lambda>p.
                 try_then (validate_sha256 p) (\<lambda>_.
                   Inr (ReceiptSelected \<lparr>sr_key = k, sr_agent_run_id = run, sr_steer_epoch = e,
                     sr_plan_sha256 = p\<rparr>)))))))"

definition receipt_new ::
  "digests \<Rightarrow> ustring \<Rightarrow> Metadata \<Rightarrow> ustring \<Rightarrow> AgentStrategyReceiptError + AgentStrategyDecisionReceipt"
where
  "receipt_new dg task_id run_context plan =
     (case physical_run_id run_context of
        None \<Rightarrow> Inl ReceiptMissingRunId
      | Some run \<Rightarrow>
          (case parse_u64 (bt_get run_context (lit ''steer_epoch'')) of
             None \<Rightarrow> Inl ReceiptMissingSteerEpoch
           | Some e \<Rightarrow>
               try_then (validate_sha256 plan) (\<lambda>_.
                 let session = (case bt_get run_context (lit ''session_id'') of Some s \<Rightarrow> s | None \<Rightarrow> []) in
                 (case json_to_vec dg [JsonString AGENT_STRATEGY_RECEIPT_HASH_DOMAIN, JsonString task_id,
                     JsonString session, JsonString run, JsonNumber e, JsonString plan] of
                    Inl message \<Rightarrow> Inl (ReceiptIdentityEncoding message)
                  | Inr canonical \<Rightarrow>
                      Inr \<lparr>sr_key = hex_sha256 dg canonical, sr_agent_run_id = run, sr_steer_epoch = e,
                        sr_plan_sha256 = plan\<rparr>))))"

definition receipt_from_metadata ::
  "Metadata \<Rightarrow> AgentStrategyReceiptError + AgentStrategyDecisionReceipt option"
where
  "receipt_from_metadata metadata =
     try_then (receipt_state_from_metadata metadata) (\<lambda>s.
       case s of
         ReceiptSelected receipt \<Rightarrow> Inr (Some receipt)
       | ReceiptAbsent \<Rightarrow> Inr None
       | ReceiptNotSelected \<Rightarrow> Inl ReceiptMalformed)"

definition is_decision_event :: "Event \<Rightarrow> bool" where
  "is_decision_event event =
     (case decode_event_type event of
        TypedV1 typed \<Rightarrow> te_event_type typed = AgentRunDecisionSelected | _ \<Rightarrow> False)"

definition receipt_from_decision_event ::
  "digests \<Rightarrow> Event \<Rightarrow> AgentStrategyReceiptError + AgentStrategyDecisionReceipt"
where
  "receipt_from_decision_event dg event =
     (if \<not> is_decision_event event then Inl ReceiptMalformed
      else
        try_then (receipt_from_metadata (ev_metadata event)) (\<lambda>r.
          case r of
            None \<Rightarrow> Inl ReceiptMalformed
          | Some receipt \<Rightarrow>
              try_then (receipt_new dg (ev_task_id event) (ev_metadata event) (sr_plan_sha256 receipt)) (\<lambda>expected.
                if receipt \<noteq> expected then Inl ReceiptIdentityMismatch else Inr receipt)))"

text \<open>The two loops over the fields: the first conflict is reported, then every field is written.\<close>

fun first_conflict :: "(ustring \<times> ustring) list \<Rightarrow> Metadata \<Rightarrow> ustring option" where
  "first_conflict [] metadata = None"
| "first_conflict ((k, v) # fs) metadata =
     (case bt_get metadata k of
        Some existing \<Rightarrow> if existing \<noteq> v then Some k else first_conflict fs metadata
      | None \<Rightarrow> first_conflict fs metadata)"

fun insert_fields :: "(ustring \<times> ustring) list \<Rightarrow> Metadata \<Rightarrow> Metadata" where
  "insert_fields [] metadata = metadata"
| "insert_fields ((k, v) # fs) metadata = insert_fields fs (bt_insert k v metadata)"

definition receipt_fields :: "AgentStrategyDecisionReceipt \<Rightarrow> (ustring \<times> ustring) list" where
  "receipt_fields receipt =
     [(AGENT_STRATEGY_RECEIPT_SCHEMA_METADATA_KEY, AGENT_STRATEGY_RECEIPT_SCHEMA),
      (AGENT_STRATEGY_RECEIPT_STATUS_METADATA_KEY, AGENT_STRATEGY_RECEIPT_SELECTED),
      (AGENT_STRATEGY_RECEIPT_KEY_METADATA_KEY, sr_key receipt),
      (AGENT_STRATEGY_RECEIPT_EPOCH_METADATA_KEY, decimal (sr_steer_epoch receipt)),
      (AGENT_STRATEGY_RECEIPT_PLAN_METADATA_KEY, sr_plan_sha256 receipt)]"

definition receipt_insert_into ::
  "AgentStrategyDecisionReceipt \<Rightarrow> Metadata \<Rightarrow> AgentStrategyReceiptError + Metadata"
where
  "receipt_insert_into receipt metadata =
     (case first_conflict (receipt_fields receipt) metadata of
        Some k \<Rightarrow> Inl (ReceiptReservedMetadataConflict k)
      | None \<Rightarrow> Inr (insert_fields (receipt_fields receipt) metadata))"

definition receipt_metadata :: "AgentStrategyDecisionReceipt \<Rightarrow> AgentStrategyReceiptError + Metadata" where
  "receipt_metadata receipt = receipt_insert_into receipt []"

definition matches_decision_event :: "digests \<Rightarrow> AgentStrategyDecisionReceipt \<Rightarrow> Event \<Rightarrow> bool" where
  "matches_decision_event dg receipt event \<longleftrightarrow> receipt_from_decision_event dg event = Inr receipt"

definition not_selected_fields :: "u64 \<Rightarrow> (ustring \<times> ustring) list" where
  "not_selected_fields epoch =
     [(AGENT_STRATEGY_RECEIPT_SCHEMA_METADATA_KEY, AGENT_STRATEGY_RECEIPT_SCHEMA),
      (AGENT_STRATEGY_RECEIPT_STATUS_METADATA_KEY, AGENT_STRATEGY_RECEIPT_NOT_SELECTED),
      (AGENT_STRATEGY_RECEIPT_EPOCH_METADATA_KEY, decimal epoch)]"

definition insert_strategy_not_selected :: "Metadata \<Rightarrow> u64 \<Rightarrow> AgentStrategyReceiptError + Metadata" where
  "insert_strategy_not_selected metadata epoch =
     (case first_conflict (not_selected_fields epoch) metadata of
        Some k \<Rightarrow> Inl (ReceiptReservedMetadataConflict k)
      | None \<Rightarrow>
          if bt_contains_key metadata AGENT_STRATEGY_RECEIPT_KEY_METADATA_KEY
            \<or> bt_contains_key metadata AGENT_STRATEGY_RECEIPT_PLAN_METADATA_KEY
          then Inl ReceiptMalformed
          else Inr (insert_fields (not_selected_fields epoch) metadata))"

definition strategy_receipt_is_explicitly_not_selected :: "Metadata \<Rightarrow> bool" where
  "strategy_receipt_is_explicitly_not_selected metadata \<longleftrightarrow>
     bt_get metadata AGENT_STRATEGY_RECEIPT_SCHEMA_METADATA_KEY = Some AGENT_STRATEGY_RECEIPT_SCHEMA \<and>
     bt_get metadata AGENT_STRATEGY_RECEIPT_STATUS_METADATA_KEY = Some AGENT_STRATEGY_RECEIPT_NOT_SELECTED \<and>
     \<not> bt_contains_key metadata AGENT_STRATEGY_RECEIPT_KEY_METADATA_KEY \<and>
     \<not> bt_contains_key metadata AGENT_STRATEGY_RECEIPT_PLAN_METADATA_KEY"

section \<open>Persisted run context\<close>

definition OBJECTIVE_RUN_CONTEXT_KEYS :: "ustring list" where
  "OBJECTIVE_RUN_CONTEXT_KEYS =
     [lit ''initial_prompt_objective'', lit ''effective_prompt_objective'', lit ''prompt_objective'',
      lit ''matched_route_plan_anchor'']"

definition MODEL_ATTRIBUTION_RUN_CONTEXT_KEYS :: "ustring list" where
  "MODEL_ATTRIBUTION_RUN_CONTEXT_KEYS =
     [lit ''agent_model_attribution_schema'', lit ''agent_actor'', lit ''agent_service'', lit ''agent_stage'',
      lit ''agent_model_profile'', lit ''agent_output_trust'', lit ''agent_effect_authority'',
      lit ''agent_attribution_component'', lit ''agent_attribution_model'', lit ''agent_attribution_legacy_role'']"

definition run_context_key_is_local :: "ustring \<Rightarrow> bool" where
  "run_context_key_is_local key \<longleftrightarrow>
     key = EVENT_TYPE_METADATA_KEY \<or> key \<in> set OBJECTIVE_RUN_CONTEXT_KEYS \<or> key \<in> set MODEL_ATTRIBUTION_RUN_CONTEXT_KEYS"

fun merge_persistable_run_context :: "Metadata \<Rightarrow> (ustring \<times> ustring) list \<Rightarrow> Metadata" where
  "merge_persistable_run_context metadata [] = metadata"
| "merge_persistable_run_context metadata ((key, v) # context) =
     (if run_context_key_is_local key then merge_persistable_run_context metadata context
      else if bt_contains_key metadata key then merge_persistable_run_context metadata context
      else merge_persistable_run_context (bt_insert key v metadata) context)"

definition insert_distinct :: "Metadata \<Rightarrow> ustring \<Rightarrow> ustring \<Rightarrow> ustring \<Rightarrow> Metadata" where
  "insert_distinct metadata key v fallback =
     (if v = fallback then bt_remove key metadata else bt_insert key v metadata)"

definition insert_run_start_prompts :: "Metadata \<Rightarrow> ustring \<Rightarrow> ustring \<Rightarrow> ustring \<Rightarrow> Metadata" where
  "insert_run_start_prompts metadata display_prompt model_prompt recovery_prompt =
     (let m = bt_insert (lit ''prompt'') display_prompt metadata;
          m = insert_distinct m (lit ''model_prompt'') model_prompt display_prompt;
          recovery_fallback = (if model_prompt = display_prompt then display_prompt else model_prompt)
      in insert_distinct m (lit ''recovery_prompt'') recovery_prompt recovery_fallback)"

definition insert_user_message_model_prompt :: "Metadata \<Rightarrow> ustring \<Rightarrow> ustring \<Rightarrow> Metadata" where
  "insert_user_message_model_prompt metadata display_prompt model_prompt =
     insert_distinct metadata (lit ''model_content'') model_prompt display_prompt"

definition insert_runtime_message_display_prompt :: "Metadata \<Rightarrow> ustring \<Rightarrow> ustring \<Rightarrow> Metadata" where
  "insert_runtime_message_display_prompt metadata display_prompt model_prompt =
     bt_remove (lit ''model_content'')
       (insert_distinct metadata (lit ''display_content'') display_prompt model_prompt)"

fun insert_objectives_of :: "ustring list \<Rightarrow> Metadata \<Rightarrow> Metadata \<Rightarrow> Metadata" where
  "insert_objectives_of [] metadata context = metadata"
| "insert_objectives_of (key # keys) metadata context =
     insert_objectives_of keys
       (case bt_get context key of Some v \<Rightarrow> bt_insert key v metadata | None \<Rightarrow> metadata) context"

definition insert_run_objectives :: "Metadata \<Rightarrow> Metadata \<Rightarrow> Metadata" where
  "insert_run_objectives metadata context = insert_objectives_of OBJECTIVE_RUN_CONTEXT_KEYS metadata context"

end
