(* ===== verification/Terminal_Commit.thy ===== *)
theory Terminal_Commit
  imports Strategy_Receipt
begin

text \<open>
  Model of \<open>crates/agent-application/src/terminal_commit.rs\<close> and
  \<open>apps/desktop/src-tauri/src/agent_terminal_commit_runtime.rs\<close>: the identity under which the terminal
  event of a run is committed, the inspection of a log for it, and the transaction that writes
  the terminal event at most once. A failing transaction leaves
  the log as it was.
\<close>

section \<open>The identity of a commit\<close>

definition AGENT_TERMINAL_COMMIT_SCHEMA :: ustring where
  "AGENT_TERMINAL_COMMIT_SCHEMA = lit ''cindx.agent.terminal-commit.v1''"

definition AGENT_TERMINAL_COMMIT_SCHEMA_METADATA_KEY :: ustring where
  "AGENT_TERMINAL_COMMIT_SCHEMA_METADATA_KEY = lit ''agent_terminal_commit_schema''"

definition AGENT_TERMINAL_COMMIT_KEY_METADATA_KEY :: ustring where
  "AGENT_TERMINAL_COMMIT_KEY_METADATA_KEY = lit ''agent_terminal_commit_key''"

definition AGENT_TERMINAL_COMMIT_EPOCH_METADATA_KEY :: ustring where
  "AGENT_TERMINAL_COMMIT_EPOCH_METADATA_KEY = lit ''agent_terminal_commit_steer_epoch''"

definition AGENT_TERMINAL_COMMIT_HASH_DOMAIN :: ustring where
  "AGENT_TERMINAL_COMMIT_HASH_DOMAIN = lit ''cindx.agent.terminal-commit.v1'' @ [0]"

lemmas commit_keys = AGENT_TERMINAL_COMMIT_SCHEMA_METADATA_KEY_def AGENT_TERMINAL_COMMIT_KEY_METADATA_KEY_def
  AGENT_TERMINAL_COMMIT_EPOCH_METADATA_KEY_def

datatype AgentTerminalCommitState = CommitPending | CommitCommitted

datatype AgentTerminalCommitError =
  CommitMissingRunId
| CommitIdentityEncoding ustring
| CommitMalformedIdentity
| CommitNonterminalEvent
| CommitDuplicateTerminalEvents
| CommitMissingStrategyDecision
| CommitDuplicateStrategyDecisions
| CommitStrategyDecisionMismatch
| CommitTerminalPrecedesStrategyDecision
| CommitInvalidLifecycleEvent ustring

record AgentTerminalCommitIdentity =
  tc_key :: ustring
  tc_agent_run_id :: ustring
  tc_steer_epoch :: u64
  tc_strategy_receipt :: "AgentStrategyDecisionReceipt option"
  tc_strategy_not_selected :: bool

definition commit_strategy_receipt ::
  "Metadata \<Rightarrow> u64 \<Rightarrow> AgentTerminalCommitError + AgentStrategyDecisionReceipt option"
where
  "commit_strategy_receipt run_context epoch =
     (if strategy_receipt_is_explicitly_not_selected run_context then
        (if parse_u64 (bt_get run_context AGENT_STRATEGY_RECEIPT_EPOCH_METADATA_KEY) \<noteq> Some epoch
         then Inl CommitMalformedIdentity else Inr None)
      else case receipt_from_metadata run_context of
        Inl _ \<Rightarrow> Inl CommitMalformedIdentity
      | Inr r \<Rightarrow> Inr r)"

definition commit_identity_new ::
  "digests \<Rightarrow> ustring \<Rightarrow> Metadata \<Rightarrow> u64 \<Rightarrow> AgentTerminalCommitError + AgentTerminalCommitIdentity"
where
  "commit_identity_new dg task_id run_context epoch =
     (case physical_run_id run_context of
        None \<Rightarrow> Inl CommitMissingRunId
      | Some run \<Rightarrow>
          try_then (commit_strategy_receipt run_context epoch) (\<lambda>receipt.
            let session = (case bt_get run_context (lit ''session_id'') of Some s \<Rightarrow> s | None \<Rightarrow> []) in
            if (case receipt of None \<Rightarrow> False
                | Some r \<Rightarrow> sr_agent_run_id r \<noteq> run \<or> sr_steer_epoch r \<noteq> epoch)
            then Inl CommitMalformedIdentity
            else case json_to_vec dg [JsonString AGENT_TERMINAL_COMMIT_HASH_DOMAIN, JsonString task_id,
                JsonString session, JsonString run, JsonNumber epoch] of
              Inl message \<Rightarrow> Inl (CommitIdentityEncoding message)
            | Inr canonical \<Rightarrow>
                Inr \<lparr>tc_key = hex_sha256 dg canonical, tc_agent_run_id = run, tc_steer_epoch = epoch,
                  tc_strategy_receipt = receipt,
                  tc_strategy_not_selected = strategy_receipt_is_explicitly_not_selected run_context\<rparr>))"

text \<open>The metadata of an identity; \<open>None\<close> is the panic of an \<open>expect\<close>.\<close>

definition commit_fields :: "AgentTerminalCommitIdentity \<Rightarrow> (ustring \<times> ustring) list" where
  "commit_fields identity =
     [(AGENT_TERMINAL_COMMIT_SCHEMA_METADATA_KEY, AGENT_TERMINAL_COMMIT_SCHEMA),
      (AGENT_TERMINAL_COMMIT_KEY_METADATA_KEY, tc_key identity),
      (AGENT_TERMINAL_COMMIT_EPOCH_METADATA_KEY, decimal (tc_steer_epoch identity))]"

definition commit_metadata :: "AgentTerminalCommitIdentity \<Rightarrow> Metadata option" where
  "commit_metadata identity =
     (let m = insert_fields (commit_fields identity) [] in
      case tc_strategy_receipt identity of
        Some receipt \<Rightarrow> (case receipt_insert_into receipt m of Inr m' \<Rightarrow> Some m' | Inl _ \<Rightarrow> None)
      | None \<Rightarrow>
          if tc_strategy_not_selected identity then
            (case insert_strategy_not_selected m (tc_steer_epoch identity) of Inr m' \<Rightarrow> Some m' | Inl _ \<Rightarrow> None)
          else Some m)"

section \<open>Inspecting a log\<close>

definition of_run :: "AgentTerminalCommitIdentity \<Rightarrow> Event \<Rightarrow> bool" where
  "of_run identity event \<longleftrightarrow> bt_get (ev_metadata event) (lit ''agent_run_id'') = Some (tc_agent_run_id identity)"

fun find_terminal ::
  "AgentTerminalCommitIdentity \<Rightarrow> Event list \<Rightarrow> Event option \<Rightarrow> AgentTerminalCommitError + Event option"
where
  "find_terminal identity [] found = Inr found"
| "find_terminal identity (event # events) found =
     (if \<not> of_run identity event then find_terminal identity events found
      else case try_from_event event of
        Inl raw \<Rightarrow> Inl (CommitInvalidLifecycleEvent raw)
      | Inr e \<Rightarrow>
          if (case e of Some r \<Rightarrow> status_is_terminal (event_status r) | None \<Rightarrow> False) then
            (if found \<noteq> None then Inl CommitDuplicateTerminalEvents
             else find_terminal identity events (Some event))
          else find_terminal identity events found)"

definition is_epoch_decision :: "AgentTerminalCommitIdentity \<Rightarrow> Event \<Rightarrow> bool" where
  "is_epoch_decision identity event \<longleftrightarrow>
     of_run identity event \<and>
     parse_u64 (bt_get (ev_metadata event) (lit ''steer_epoch'')) = Some (tc_steer_epoch identity) \<and>
     is_decision_event event"

definition validate_strategy_decision ::
  "digests \<Rightarrow> AgentTerminalCommitIdentity \<Rightarrow> Event list \<Rightarrow> AgentTerminalCommitError + Event option"
where
  "validate_strategy_decision dg identity events =
     (let decisions = filter (is_epoch_decision identity) events in
      case tc_strategy_receipt identity of
        Some receipt \<Rightarrow>
          (case decisions of
             [] \<Rightarrow> Inl CommitMissingStrategyDecision
           | [decision] \<Rightarrow>
               if \<not> matches_decision_event dg receipt decision then Inl CommitStrategyDecisionMismatch
               else Inr (Some decision)
           | _ \<Rightarrow> Inl CommitDuplicateStrategyDecisions)
      | None \<Rightarrow> if decisions \<noteq> [] then Inl CommitStrategyDecisionMismatch else Inr None)"

definition terminal_strategy_matches :: "AgentTerminalCommitIdentity \<Rightarrow> Event \<Rightarrow> bool" where
  "terminal_strategy_matches identity event =
     (case tc_strategy_receipt identity of
        Some receipt \<Rightarrow> receipt_from_metadata (ev_metadata event) = Inr (Some receipt)
      | None \<Rightarrow>
          if tc_strategy_not_selected identity
          then strategy_receipt_is_explicitly_not_selected (ev_metadata event)
          else \<not> bt_contains_key (ev_metadata event) AGENT_STRATEGY_RECEIPT_SCHEMA_METADATA_KEY)"

definition terminal_identity_matches :: "AgentTerminalCommitIdentity \<Rightarrow> Event \<Rightarrow> bool" where
  "terminal_identity_matches identity event \<longleftrightarrow>
     bt_get (ev_metadata event) AGENT_TERMINAL_COMMIT_SCHEMA_METADATA_KEY = Some AGENT_TERMINAL_COMMIT_SCHEMA \<and>
     bt_get (ev_metadata event) AGENT_TERMINAL_COMMIT_KEY_METADATA_KEY = Some (tc_key identity) \<and>
     parse_u64 (bt_get (ev_metadata event) AGENT_TERMINAL_COMMIT_EPOCH_METADATA_KEY) = Some (tc_steer_epoch identity)"

definition inspect_events ::
  "digests \<Rightarrow> AgentTerminalCommitIdentity \<Rightarrow> Event list \<Rightarrow> AgentTerminalCommitError + AgentTerminalCommitState"
where
  "inspect_events dg identity events =
     try_then (find_terminal identity events None) (\<lambda>terminal.
       case terminal of
         None \<Rightarrow>
           if list_ex (\<lambda>event. of_run identity event \<and>
                bt_get (ev_metadata event) AGENT_TERMINAL_COMMIT_KEY_METADATA_KEY = Some (tc_key identity)) events
           then Inl CommitNonterminalEvent
           else try_then (validate_strategy_decision dg identity events) (\<lambda>_. Inr CommitPending)
       | Some event \<Rightarrow>
           if \<not> terminal_identity_matches identity event then Inl CommitMalformedIdentity
           else if \<not> terminal_strategy_matches identity event then Inl CommitStrategyDecisionMismatch
           else
             try_then (validate_strategy_decision dg identity events) (\<lambda>decision.
               if (case decision of None \<Rightarrow> False | Some d \<Rightarrow> ev_sequence event \<le> ev_sequence d)
               then Inl CommitTerminalPrecedesStrategyDecision else Inr CommitCommitted))"

section \<open>Committing once\<close>

datatype TerminalStorageError =
  StorageIdentity AgentTerminalCommitError
| StorageInspection AgentTerminalCommitError
| StorageNotCommitted
| StorageBackend ustring

text \<open>
  SQLite is foreign: opening and committing a transaction, the query for the events of a run
  and the read model of a session are parameters, each of which may fail. The log is the list of the
  rows of the events table in the order of insertion.
\<close>

record 'state store_ops =
  so_begin :: "Event list \<Rightarrow> ustring + unit"
  so_commit :: "Event list \<Rightarrow> ustring + unit"
  so_list :: "Event list \<Rightarrow> ustring \<Rightarrow> ustring \<Rightarrow> ustring + Event list"
  so_session_state :: "Event list \<Rightarrow> ustring option \<Rightarrow> ustring + 'state"

text \<open>What the query of \<open>list_by_task_and_metadata\<close> selects, in ascending sequence.\<close>

definition events_of_run :: "ustring \<Rightarrow> ustring \<Rightarrow> Event list \<Rightarrow> Event list" where
  "events_of_run task_id run_id log =
     sort_key ev_sequence
       (filter (\<lambda>e. ev_task_id e = task_id \<and> bt_get (ev_metadata e) (lit ''agent_run_id'') = Some run_id) log)"

definition lists_rows :: "'state store_ops \<Rightarrow> bool" where
  "lists_rows ops \<longleftrightarrow> (\<forall>log task run es. so_list ops log task run = Inr es \<longrightarrow> es = events_of_run task run log)"

definition with_immediate_transaction ::
  "'state store_ops \<Rightarrow> (Event list \<Rightarrow> (TerminalStorageError + 'a) \<times> Event list) \<Rightarrow> Event list \<Rightarrow>
   (TerminalStorageError + 'a) \<times> Event list"
where
  "with_immediate_transaction ops operation log =
     (case so_begin ops log of
        Inl e \<Rightarrow> (Inl (StorageBackend e), log)
      | Inr _ \<Rightarrow>
          (case operation log of
             (Inl e, _) \<Rightarrow> (Inl e, log)
           | (Inr v, log') \<Rightarrow>
               (case so_commit ops log' of
                  Inl e \<Rightarrow> (Inl (StorageBackend e), log)
                | Inr _ \<Rightarrow> (Inr v, log'))))"

definition terminal_commit_state ::
  "'state store_ops \<Rightarrow> digests \<Rightarrow> Event list \<Rightarrow> ustring \<Rightarrow> AgentTerminalCommitIdentity \<Rightarrow>
   TerminalStorageError + AgentTerminalCommitState"
where
  "terminal_commit_state ops dg log task_id identity =
     (case so_list ops log task_id (tc_agent_run_id identity) of
        Inl e \<Rightarrow> Inl (StorageBackend e)
      | Inr events \<Rightarrow>
          (case inspect_events dg identity events of
             Inl e \<Rightarrow> Inl (StorageInspection e)
           | Inr s \<Rightarrow> Inr s))"

record 'state PersistedAgentTerminal =
  pt_state :: 'state
  pt_inserted :: bool

text \<open>The body of the transaction; the writer returns a state or fails, with the log it left.\<close>

definition persist_terminal_body ::
  "'state store_ops \<Rightarrow> digests \<Rightarrow> ustring \<Rightarrow> ustring option \<Rightarrow> AgentTerminalCommitIdentity \<Rightarrow>
   (Event list \<Rightarrow> AgentTerminalCommitIdentity \<Rightarrow> (TerminalStorageError + 'state) \<times> Event list) \<Rightarrow>
   Event list \<Rightarrow> (TerminalStorageError + 'state PersistedAgentTerminal) \<times> Event list"
where
  "persist_terminal_body ops dg task_id session_id identity writer log =
     (case terminal_commit_state ops dg log task_id identity of
        Inl e \<Rightarrow> (Inl e, log)
      | Inr CommitCommitted \<Rightarrow>
          (case so_session_state ops log session_id of
             Inl e \<Rightarrow> (Inl (StorageBackend e), log)
           | Inr state \<Rightarrow> (Inr \<lparr>pt_state = state, pt_inserted = False\<rparr>, log))
      | Inr CommitPending \<Rightarrow>
          (case writer log identity of
             (Inl e, log') \<Rightarrow> (Inl e, log')
           | (Inr state, log') \<Rightarrow>
               (case terminal_commit_state ops dg log' task_id identity of
                  Inl e \<Rightarrow> (Inl e, log')
                | Inr s \<Rightarrow>
                    if s \<noteq> CommitCommitted then (Inl StorageNotCommitted, log')
                    else (Inr \<lparr>pt_state = state, pt_inserted = True\<rparr>, log'))))"

definition persist_agent_terminal_once ::
  "'state store_ops \<Rightarrow> digests \<Rightarrow> ustring \<Rightarrow> Metadata \<Rightarrow> u64 \<Rightarrow>
   (Event list \<Rightarrow> AgentTerminalCommitIdentity \<Rightarrow> (TerminalStorageError + 'state) \<times> Event list) \<Rightarrow>
   Event list \<Rightarrow> (TerminalStorageError + 'state PersistedAgentTerminal) \<times> Event list"
where
  "persist_agent_terminal_once ops dg task_id run_context epoch writer log =
     (case commit_identity_new dg task_id run_context epoch of
        Inl e \<Rightarrow> (Inl (StorageIdentity e), log)
      | Inr identity \<Rightarrow>
          with_immediate_transaction ops
            (persist_terminal_body ops dg task_id (bt_get run_context (lit ''session_id'')) identity writer) log)"

end
