(* ===== verification/Commit_Properties.thy ===== *)
theory Commit_Properties
  imports Terminal_Commit
begin

text \<open>
  Strategy receipts and terminal commits: a receipt that was written is read back and accepted by the
  decision event that carries it, an accepted receipt is the digest of its own event, the
  inspection of a log says pending and committed exactly when the log is, and a terminal event is
  committed once however often the commit is tried.
\<close>

section \<open>Metadata fields\<close>

definition reserved_keys :: "ustring list" where
  "reserved_keys =
     [AGENT_STRATEGY_RECEIPT_SCHEMA_METADATA_KEY, AGENT_STRATEGY_RECEIPT_STATUS_METADATA_KEY,
      AGENT_STRATEGY_RECEIPT_KEY_METADATA_KEY, AGENT_STRATEGY_RECEIPT_EPOCH_METADATA_KEY,
      AGENT_STRATEGY_RECEIPT_PLAN_METADATA_KEY, AGENT_TERMINAL_COMMIT_SCHEMA_METADATA_KEY,
      AGENT_TERMINAL_COMMIT_KEY_METADATA_KEY, AGENT_TERMINAL_COMMIT_EPOCH_METADATA_KEY,
      AGENT_RUN_ID_METADATA_KEY, EVENT_TYPE_METADATA_KEY, lit ''session_id'', lit ''steer_epoch'']"

lemma reserved_keys_distinct: "distinct reserved_keys"
  by (simp add: reserved_keys_def receipt_keys commit_keys AGENT_RUN_ID_METADATA_KEY_def
      EVENT_TYPE_METADATA_KEY_def lit_def)

lemma reserved_keys_rev_distinct: "distinct (rev reserved_keys)"
  by (simp add: reserved_keys_distinct)

lemmas metadata_keys_differ [simp] =
  reserved_keys_distinct [unfolded reserved_keys_def distinct.simps list.set insert_iff, simplified]
  reserved_keys_rev_distinct [unfolded reserved_keys_def rev.simps append.simps distinct.simps list.set insert_iff, simplified]

lemma statuses_differ [simp]:
  "AGENT_STRATEGY_RECEIPT_SELECTED \<noteq> AGENT_STRATEGY_RECEIPT_NOT_SELECTED"
  "AGENT_STRATEGY_RECEIPT_NOT_SELECTED \<noteq> AGENT_STRATEGY_RECEIPT_SELECTED"
  by (simp_all add: AGENT_STRATEGY_RECEIPT_SELECTED_def AGENT_STRATEGY_RECEIPT_NOT_SELECTED_def lit_def)

lemma first_conflict_None:
  "first_conflict fs m = None \<longleftrightarrow> (\<forall>(k, v) \<in> set fs. bt_get m k = None \<or> bt_get m k = Some v)"
  by (induction fs m rule: first_conflict.induct) (auto split: option.splits)

lemma insert_fields_other: "k \<notin> fst ` set fs \<Longrightarrow> bt_get (insert_fields fs m) k = bt_get m k"
  by (induction fs m rule: insert_fields.induct) (auto simp: bt_get_insert_any)

lemma insert_fields_field:
  "distinct (map fst fs) \<Longrightarrow> (k, v) \<in> set fs \<Longrightarrow> bt_get (insert_fields fs m) k = Some v"
  by (induction fs m rule: insert_fields.induct)
    (force simp: bt_get_insert_any insert_fields_other)+

lemma run_id_key: "lit ''agent_run_id'' = AGENT_RUN_ID_METADATA_KEY"
  by (simp add: AGENT_RUN_ID_METADATA_KEY_def)

text \<open>A digest in hexadecimal is never blank.\<close>

lemma validate_sha256_Inr: "validate_sha256 v = Inr u \<longleftrightarrow> str_len v = 64 \<and> list_all is_ascii_hexdigit (as_bytes v)"
  by (simp add: validate_sha256_def)

lemma ascii_bytes: "\<forall>c \<in> set s. c < 128 \<Longrightarrow> as_bytes s = s"
  by (induction s) (simp_all add: as_bytes_def utf8_char_def)

lemma hexdigit_ascii: "is_ascii_hexdigit c \<Longrightarrow> c < 128"
  by (auto simp: is_ascii_hexdigit_def)

lemma hexdigit_not_blank: "is_ascii_hexdigit c \<Longrightarrow> \<not> is_whitespace c"
  by (auto simp: is_ascii_hexdigit_def is_whitespace_def)

lemma utf8_head: "\<exists>b bs. utf8_char c = b # bs \<and> (b < 128 \<longrightarrow> c = b)"
  by (auto simp: utf8_char_def)

lemma sha256_not_blank:
  assumes "validate_sha256 v = Inr u"
  shows "trim v \<noteq> []"
proof (cases v)
  case Nil
  with assms show ?thesis by (simp add: validate_sha256_Inr str_len_def as_bytes_def)
next
  case (Cons c cs)
  obtain b bs where b: "utf8_char c = b # bs" "b < 128 \<longrightarrow> c = b" using utf8_head by blast
  with assms Cons have "is_ascii_hexdigit b" by (simp add: validate_sha256_Inr as_bytes_def)
  with b hexdigit_ascii have "is_ascii_hexdigit c" by blast
  with Cons hexdigit_not_blank show ?thesis by (auto simp: trim_Nil_iff)
qed

lemma hex_sha256_valid:
  assumes "sha256_bytes dg"
  shows "validate_sha256 (hex_sha256 dg bytes) = Inr ()"
proof -
  have h: "length (hex_sha256 dg bytes) = 64" "\<forall>c \<in> set (hex_sha256 dg bytes). is_ascii_hexdigit c"
    using hex_bytes_digits [of "sha256_digest dg bytes"] assms by (auto simp: hex_sha256_def sha256_bytes_def)
  then have "as_bytes (hex_sha256 dg bytes) = hex_sha256 dg bytes" using ascii_bytes hexdigit_ascii by blast
  with h show ?thesis by (simp add: validate_sha256_Inr str_len_def list_all_iff)
qed

section \<open>Receipts\<close>

definition receipt_wf :: "AgentStrategyDecisionReceipt \<Rightarrow> bool" where
  "receipt_wf r \<longleftrightarrow> validate_sha256 (sr_key r) = Inr () \<and> validate_sha256 (sr_plan_sha256 r) = Inr () \<and>
     trim (sr_agent_run_id r) \<noteq> [] \<and> sr_steer_epoch r \<le> u64_max"

definition has_fields :: "(ustring \<times> ustring) list \<Rightarrow> Metadata \<Rightarrow> bool" where
  "has_fields fs m \<longleftrightarrow> (\<forall>(k, v) \<in> set fs. bt_get m k = Some v)"

lemma has_fields_simps [simp]:
  "has_fields [] m" "has_fields ((k, v) # fs) m \<longleftrightarrow> bt_get m k = Some v \<and> has_fields fs m"
  by (auto simp: has_fields_def)

lemma parse_u64_bound: "parse_u64 v = Some n \<Longrightarrow> n \<le> u64_max"
  by (auto simp: parse_u64_def split: option.splits dest: parse_unsigned_bound)

lemma parse_u64_decimal [simp]: "n \<le> u64_max \<Longrightarrow> parse_u64 (Some (decimal n)) = Some n"
  by (simp add: parse_u64_def)

lemma physical_run_idD: "physical_run_id m = Some run \<Longrightarrow> agent_run_id m = Some run \<and> trim run \<noteq> []"
  by (auto simp: physical_run_id_def split: option.splits if_splits)

lemma receipt_new_Inr:
  assumes "receipt_new dg task ctx plan = Inr r"
  shows "physical_run_id ctx = Some (sr_agent_run_id r)"
    "parse_u64 (bt_get ctx (lit ''steer_epoch'')) = Some (sr_steer_epoch r)"
    "sr_plan_sha256 r = plan" "validate_sha256 plan = Inr ()"
    "\<exists>canonical. json_to_vec dg [JsonString AGENT_STRATEGY_RECEIPT_HASH_DOMAIN, JsonString task,
        JsonString (case bt_get ctx (lit ''session_id'') of Some s \<Rightarrow> s | None \<Rightarrow> []),
        JsonString (sr_agent_run_id r), JsonNumber (sr_steer_epoch r), JsonString plan] = Inr canonical \<and>
      sr_key r = hex_sha256 dg canonical"
  using assms by (auto simp: receipt_new_def try_then_Inr Let_def split: option.splits sum.splits)

lemma receipt_new_wf: "sha256_bytes dg \<Longrightarrow> receipt_new dg task ctx plan = Inr r \<Longrightarrow> receipt_wf r"
  using receipt_new_Inr [of dg task ctx plan r] hex_sha256_valid [of dg] parse_u64_bound physical_run_idD
  by (auto simp: receipt_wf_def)

lemma receipt_new_cong:
  assumes "\<And>k. k \<in> {AGENT_RUN_ID_METADATA_KEY, lit ''session_id'', lit ''steer_epoch''} \<Longrightarrow> bt_get m' k = bt_get m k"
  shows "receipt_new dg task m' plan = receipt_new dg task m plan"
proof -
  have e: "bt_get m' AGENT_RUN_ID_METADATA_KEY = bt_get m AGENT_RUN_ID_METADATA_KEY"
    "bt_get m' (lit ''session_id'') = bt_get m (lit ''session_id'')"
    "bt_get m' (lit ''steer_epoch'') = bt_get m (lit ''steer_epoch'')"
    using assms by simp_all
  show ?thesis unfolding receipt_new_def physical_run_id_def agent_run_id_def e ..
qed

lemma state_Selected:
  "receipt_state_from_metadata m = Inr (ReceiptSelected r) \<longleftrightarrow>
     bt_get m AGENT_STRATEGY_RECEIPT_SCHEMA_METADATA_KEY = Some AGENT_STRATEGY_RECEIPT_SCHEMA \<and>
     bt_get m AGENT_STRATEGY_RECEIPT_STATUS_METADATA_KEY = Some AGENT_STRATEGY_RECEIPT_SELECTED \<and>
     bt_get m AGENT_STRATEGY_RECEIPT_KEY_METADATA_KEY = Some (sr_key r) \<and>
     parse_u64 (bt_get m AGENT_STRATEGY_RECEIPT_EPOCH_METADATA_KEY) = Some (sr_steer_epoch r) \<and>
     bt_get m AGENT_STRATEGY_RECEIPT_PLAN_METADATA_KEY = Some (sr_plan_sha256 r) \<and>
     physical_run_id m = Some (sr_agent_run_id r) \<and>
     validate_sha256 (sr_key r) = Inr () \<and> validate_sha256 (sr_plan_sha256 r) = Inr ()" (is "?L = ?R")
proof
  assume ?L
  then show ?R
    by (auto simp: receipt_state_from_metadata_def Let_def try_then_Inr required_non_empty_def
        split: if_splits option.splits)
next
  assume ?R
  then show ?L
    by (cases r) (simp add: receipt_state_from_metadata_def Let_def required_non_empty_def sha256_not_blank)
qed

lemma receipt_from_metadata_Some:
  "receipt_from_metadata m = Inr (Some r) \<longleftrightarrow> receipt_state_from_metadata m = Inr (ReceiptSelected r)"
  by (cases "receipt_state_from_metadata m")
    (auto simp: receipt_from_metadata_def split: AgentStrategyReceiptState.splits)

lemma state_Selected_wf:
  "receipt_state_from_metadata m = Inr (ReceiptSelected r) \<Longrightarrow> receipt_wf r"
  by (auto simp: state_Selected receipt_wf_def dest: parse_u64_bound physical_run_idD)

lemma receipt_read:
  assumes "receipt_wf r" "has_fields (receipt_fields r) m" "physical_run_id m = Some (sr_agent_run_id r)"
  shows "receipt_state_from_metadata m = Inr (ReceiptSelected r)"
  using assms by (simp add: state_Selected receipt_wf_def receipt_fields_def)

lemma receipt_fields_distinct: "distinct (map fst (receipt_fields r))"
  by (simp add: receipt_fields_def)

lemma receipt_insert_Inr:
  assumes "receipt_insert_into r m = Inr m'"
  shows "has_fields (receipt_fields r) m'"
    "k \<notin> fst ` set (receipt_fields r) \<Longrightarrow> bt_get m' k = bt_get m k"
  using assms insert_fields_field [OF receipt_fields_distinct] insert_fields_other
  by (auto simp: receipt_insert_into_def has_fields_def split: option.splits)

text \<open>C13. A receipt made for a run context and written into it is read back unchanged, and the decision
  event that carries the context with it is accepted as the proof of exactly this receipt.\<close>

theorem receipt_proves_its_decision:
  assumes "sha256_bytes dg" "receipt_new dg task m plan = Inr r" "receipt_insert_into r m = Inr m'"
    and "is_decision_event e" "ev_task_id e = task" "ev_metadata e = m'"
  shows "receipt_state_from_metadata m' = Inr (ReceiptSelected r) \<and> matches_decision_event dg r e"
proof -
  note i = receipt_insert_Inr [OF assms(3)] and n = receipt_new_Inr [OF assms(2)]
  have other: "bt_get m' k = bt_get m k"
    if "k \<in> {AGENT_RUN_ID_METADATA_KEY, lit ''session_id'', lit ''steer_epoch''}" for k
    using i(2) [of k] that by (auto simp: receipt_fields_def)
  have "physical_run_id m' = Some (sr_agent_run_id r)"
    using n(1) other by (simp add: physical_run_id_def agent_run_id_def)
  with i(1) receipt_new_wf [OF assms(1,2)] have s: "receipt_state_from_metadata m' = Inr (ReceiptSelected r)"
    by (simp add: receipt_read)
  moreover have "receipt_new dg task m' (sr_plan_sha256 r) = Inr r"
    using receipt_new_cong [OF other] assms(2) n(3) by simp
  ultimately show ?thesis
    using assms(4-6) by (simp add: matches_decision_event_def receipt_from_decision_event_def receipt_from_metadata_def)
qed

text \<open>A receipt is accepted only from a decision event whose own task, session, run, epoch and plan
  hash to its key; the run and the epoch in it are those of the event.\<close>

theorem accepted_receipt_binds_its_event:
  assumes "matches_decision_event dg r e"
  shows "is_decision_event e \<and> agent_run_id (ev_metadata e) = Some (sr_agent_run_id r) \<and>
    parse_u64 (bt_get (ev_metadata e) (lit ''steer_epoch'')) = Some (sr_steer_epoch r) \<and>
    (\<exists>canonical. json_to_vec dg [JsonString AGENT_STRATEGY_RECEIPT_HASH_DOMAIN, JsonString (ev_task_id e),
        JsonString (case bt_get (ev_metadata e) (lit ''session_id'') of Some s \<Rightarrow> s | None \<Rightarrow> []),
        JsonString (sr_agent_run_id r), JsonNumber (sr_steer_epoch r), JsonString (sr_plan_sha256 r)] = Inr canonical \<and>
      sr_key r = hex_sha256 dg canonical)"
proof -
  from assms have d: "is_decision_event e"
    and n: "receipt_new dg (ev_task_id e) (ev_metadata e) (sr_plan_sha256 r) = Inr r"
    by (auto simp: matches_decision_event_def receipt_from_decision_event_def try_then_Inr
        split: if_splits option.splits)
  from receipt_new_Inr [OF n] d physical_run_idD show ?thesis by blast
qed

section \<open>What the inspection of a log says\<close>

definition is_terminal_event :: "Event \<Rightarrow> bool" where
  "is_terminal_event e = (case try_from_event e of Inr (Some r) \<Rightarrow> status_is_terminal (event_status r) | _ \<Rightarrow> False)"

definition run_terminals :: "AgentTerminalCommitIdentity \<Rightarrow> Event list \<Rightarrow> Event list" where
  "run_terminals i es = filter (\<lambda>e. of_run i e \<and> is_terminal_event e) es"

definition run_readable :: "AgentTerminalCommitIdentity \<Rightarrow> Event list \<Rightarrow> bool" where
  "run_readable i es \<longleftrightarrow> (\<forall>e \<in> set es. of_run i e \<longrightarrow> (\<exists>r. try_from_event e = Inr r))"

text \<open>The decisions of the epoch agree with the receipt: one that matches it, or none.\<close>

definition strategy_decided :: "digests \<Rightarrow> AgentTerminalCommitIdentity \<Rightarrow> Event list \<Rightarrow> Event option \<Rightarrow> bool" where
  "strategy_decided dg i es d \<longleftrightarrow>
     (case tc_strategy_receipt i of
        None \<Rightarrow> filter (is_epoch_decision i) es = [] \<and> d = None
      | Some r \<Rightarrow> \<exists>x. filter (is_epoch_decision i) es = [x] \<and> matches_decision_event dg r x \<and> d = Some x)"

definition log_pending :: "digests \<Rightarrow> AgentTerminalCommitIdentity \<Rightarrow> Event list \<Rightarrow> bool" where
  "log_pending dg i es \<longleftrightarrow> run_readable i es \<and> run_terminals i es = [] \<and>
     (\<forall>e \<in> set es. of_run i e \<longrightarrow> bt_get (ev_metadata e) AGENT_TERMINAL_COMMIT_KEY_METADATA_KEY \<noteq> Some (tc_key i)) \<and>
     (\<exists>d. strategy_decided dg i es d)"

definition log_committed :: "digests \<Rightarrow> AgentTerminalCommitIdentity \<Rightarrow> Event list \<Rightarrow> bool" where
  "log_committed dg i es \<longleftrightarrow> run_readable i es \<and>
     (\<exists>t d. run_terminals i es = [t] \<and> terminal_identity_matches i t \<and> terminal_strategy_matches i t \<and>
        strategy_decided dg i es d \<and> (\<forall>x. d = Some x \<longrightarrow> ev_sequence x < ev_sequence t))"

lemma run_terminals_simps [simp]:
  "run_terminals i [] = []"
  "run_terminals i (e # es) = (if of_run i e \<and> is_terminal_event e then e # run_terminals i es else run_terminals i es)"
  "run_terminals i (es @ es') = run_terminals i es @ run_terminals i es'"
  by (simp_all add: run_terminals_def)

lemma run_readable_simps [simp]:
  "run_readable i []"
  "run_readable i (e # es) \<longleftrightarrow> (of_run i e \<longrightarrow> (\<exists>r. try_from_event e = Inr r)) \<and> run_readable i es"
  "run_readable i (es @ es') \<longleftrightarrow> run_readable i es \<and> run_readable i es'"
  by (auto simp: run_readable_def)

lemma find_terminal_Inr:
  "find_terminal i es found = Inr res \<longleftrightarrow> run_readable i es \<and>
     (case found of
        Some f \<Rightarrow> run_terminals i es = [] \<and> res = Some f
      | None \<Rightarrow> (case run_terminals i es of [] \<Rightarrow> res = None | [t] \<Rightarrow> res = Some t | _ \<Rightarrow> False))"
proof (induction i es found rule: find_terminal.induct)
  case (1 i found)
  then show ?case by (auto split: option.splits)
next
  case (2 i e es found)
  show ?case
  proof (cases "of_run i e")
    case False
    with 2 show ?thesis by (cases found) simp_all
  next
    case run: True
    show ?thesis
    proof (cases "try_from_event e")
      case (Inl raw)
      with run show ?thesis by simp
    next
      case (Inr x)
      have "is_terminal_event e \<longleftrightarrow> (case x of Some r \<Rightarrow> status_is_terminal (event_status r) | None \<Rightarrow> False)"
        using Inr by (simp add: is_terminal_event_def split: option.split)
      with 2 run Inr show ?thesis
        by (auto split: option.splits list.splits if_splits)
    qed
  qed
qed

lemma validate_strategy_Inr: "validate_strategy_decision dg i es = Inr d \<longleftrightarrow> strategy_decided dg i es d"
  by (auto simp: validate_strategy_decision_def strategy_decided_def Let_def split: option.splits list.splits)

lemma inspect_exact:
  "(inspect_events dg i es = Inr CommitPending \<longleftrightarrow> log_pending dg i es) \<and>
   (inspect_events dg i es = Inr CommitCommitted \<longleftrightarrow> log_committed dg i es)"
proof (cases "run_readable i es \<and> length (run_terminals i es) \<le> 1")
  case False
  then have "\<nexists>res. find_terminal i es None = Inr res"
    by (auto simp: find_terminal_Inr split: list.splits)
  then obtain err where "find_terminal i es None = Inl err" by (cases "find_terminal i es None") auto
  with False show ?thesis by (auto simp: inspect_events_def log_pending_def log_committed_def)
next
  case True
  show ?thesis
  proof (cases "run_terminals i es")
    case Nil
    with True have "find_terminal i es None = Inr None" by (simp add: find_terminal_Inr)
    with True Nil show ?thesis
      by (auto simp: inspect_events_def log_pending_def log_committed_def try_then_Inr validate_strategy_Inr
          list_ex_iff)
  next
    case (Cons t ts)
    with True have "ts = []" by simp
    with True Cons have "find_terminal i es None = Inr (Some t)" by (simp add: find_terminal_Inr)
    then have "inspect_events dg i es =
        (if \<not> terminal_identity_matches i t then Inl CommitMalformedIdentity
         else if \<not> terminal_strategy_matches i t then Inl CommitStrategyDecisionMismatch
         else try_then (validate_strategy_decision dg i es) (\<lambda>d.
           if (case d of None \<Rightarrow> False | Some x \<Rightarrow> ev_sequence t \<le> ev_sequence x)
           then Inl CommitTerminalPrecedesStrategyDecision else Inr CommitCommitted))"
      by (simp add: inspect_events_def)
    moreover have "log_committed dg i es \<longleftrightarrow> terminal_identity_matches i t \<and> terminal_strategy_matches i t \<and>
        (\<exists>d. validate_strategy_decision dg i es = Inr d \<and> (\<forall>x. d = Some x \<longrightarrow> ev_sequence x < ev_sequence t))"
      using True Cons \<open>ts = []\<close> by (simp add: log_committed_def validate_strategy_Inr)
    moreover have "\<not> log_pending dg i es" using Cons by (simp add: log_pending_def)
    ultimately show ?thesis
      by (cases "validate_strategy_decision dg i es") (auto simp: not_le split: option.splits)
  qed
qed


section \<open>Committing once\<close>

lemma terminal_commit_state_Inr:
  assumes "lists_rows ops" "terminal_commit_state ops dg log task i = Inr s"
  shows "inspect_events dg i (events_of_run task (tc_agent_run_id i) log) = Inr s"
  using assms by (auto simp: terminal_commit_state_def lists_rows_def split: sum.splits)

lemma transaction_cases:
  assumes "with_immediate_transaction ops body log = (res, log')"
  obtains e where "res = Inl e" "log' = log" | v where "res = Inr v" "body log = (Inr v, log')"
  using assms by (auto simp: with_immediate_transaction_def split: sum.splits prod.splits)

lemma persist_body_Inr:
  assumes "lists_rows ops" "persist_terminal_body ops dg task session i writer log = (Inr p, log')"
  shows "inspect_events dg i (events_of_run task (tc_agent_run_id i) log') = Inr CommitCommitted \<and>
    (\<not> pt_inserted p \<longrightarrow> log' = log) \<and>
    (pt_inserted p \<longrightarrow> inspect_events dg i (events_of_run task (tc_agent_run_id i) log) = Inr CommitPending)"
  using assms terminal_commit_state_Inr [OF assms(1)]
  by (auto simp: persist_terminal_body_def split: sum.splits prod.splits AgentTerminalCommitState.splits if_splits)

lemma persist_body_committed:
  assumes "lists_rows ops"
    and "inspect_events dg i (events_of_run task (tc_agent_run_id i) log) = Inr CommitCommitted"
    and "persist_terminal_body ops dg task session i writer log = (res, log')"
  shows "log' = log \<and> (\<forall>p. res = Inr p \<longrightarrow> \<not> pt_inserted p)"
  using assms terminal_commit_state_Inr [OF assms(1)]
  by (auto simp: persist_terminal_body_def split: sum.splits prod.splits AgentTerminalCommitState.splits if_splits)

text \<open>C10. A terminal event is committed once. A call that fails, in the store or in the writer, leaves
  the log as it was. After a call that succeeds the log is committed under the identity of the run; it
  has changed only if it was pending before, and every later call for the same run, with any
  writer, leaves the log alone and inserts nothing.\<close>

theorem terminal_event_is_committed_once:
  assumes "lists_rows ops" and "commit_identity_new dg task ctx epoch = Inr i"
    and "persist_agent_terminal_once ops dg task ctx epoch writer log = (res, log')"
  shows "case res of
      Inl e \<Rightarrow> log' = log
    | Inr p \<Rightarrow>
        log_committed dg i (events_of_run task (tc_agent_run_id i) log') \<and>
        (pt_inserted p \<longrightarrow> log_pending dg i (events_of_run task (tc_agent_run_id i) log)) \<and>
        (\<not> pt_inserted p \<longrightarrow> log' = log) \<and>
        (\<forall>writer' res' log''. persist_agent_terminal_once ops dg task ctx epoch writer' log' = (res', log'') \<longrightarrow>
          log'' = log' \<and> (\<forall>p'. res' = Inr p' \<longrightarrow> \<not> pt_inserted p'))"
proof -
  let ?body = "\<lambda>w. persist_terminal_body ops dg task (bt_get ctx (lit ''session_id'')) i w"
  have once: "persist_agent_terminal_once ops dg task ctx epoch w l = with_immediate_transaction ops (?body w) l"
    for w l using assms(2) by (simp add: persist_agent_terminal_once_def)
  from assms(3) once have "with_immediate_transaction ops (?body writer) log = (res, log')" by simp
  then show ?thesis
  proof (cases rule: transaction_cases)
    case (1 e)
    then show ?thesis by simp
  next
    case (2 p)
    note p = persist_body_Inr [OF assms(1) 2(2)]
    have "l = log' \<and> (\<forall>p'. r = Inr p' \<longrightarrow> \<not> pt_inserted p')"
      if "with_immediate_transaction ops (?body w) log' = (r, l)" for w r l
      using that
    proof (cases rule: transaction_cases)
      case (2 v)
      with persist_body_committed [OF assms(1) _ 2(2)] p show ?thesis by blast
    qed simp
    with p 2(1) inspect_exact [of dg i] show ?thesis by (auto simp: once)
  qed
qed

section \<open>A pending run can be committed\<close>

lemma merge_persistable_get:
  "bt_get (merge_persistable_run_context m ctx) k =
     (case bt_get m k of Some v \<Rightarrow> Some v | None \<Rightarrow> if run_context_key_is_local k then None else bt_get ctx k)"
  by (induction m ctx rule: merge_persistable_run_context.induct)
    (auto simp: bt_get_insert_any bt_get_Cons bt_contains_key_def split: option.splits)

lemma reserved_keys_disjoint:
  "set reserved_keys \<inter> set (OBJECTIVE_RUN_CONTEXT_KEYS @ MODEL_ATTRIBUTION_RUN_CONTEXT_KEYS) = {}"
  by (simp add: reserved_keys_def OBJECTIVE_RUN_CONTEXT_KEYS_def
      MODEL_ATTRIBUTION_RUN_CONTEXT_KEYS_def receipt_keys commit_keys AGENT_RUN_ID_METADATA_KEY_def
      EVENT_TYPE_METADATA_KEY_def lit_def)

lemma reserved_keys_persist:
  "k \<in> set reserved_keys \<Longrightarrow> run_context_key_is_local k \<longleftrightarrow> k = EVENT_TYPE_METADATA_KEY"
  using reserved_keys_disjoint unfolding run_context_key_is_local_def by auto

text \<open>The metadata of an identity: the commit fields, the strategy fields, nothing else. The two
  \<open>expect\<close>s never fail.\<close>

definition strategy_fields :: "AgentTerminalCommitIdentity \<Rightarrow> (ustring \<times> ustring) list" where
  "strategy_fields i =
     (case tc_strategy_receipt i of
        Some r \<Rightarrow> receipt_fields r
      | None \<Rightarrow> if tc_strategy_not_selected i then not_selected_fields (tc_steer_epoch i) else [])"

lemma commit_metadata_eq:
  "commit_metadata i = Some (insert_fields (strategy_fields i) (insert_fields (commit_fields i) []))"
proof -
  let ?m = "insert_fields (commit_fields i) []"
  have m: "bt_get ?m k = None" if "k \<in> set (take 5 reserved_keys)" for k
  proof -
    have "k \<notin> fst ` set (commit_fields i)" using that by (auto simp: reserved_keys_def commit_fields_def)
    then show ?thesis by (simp add: insert_fields_other)
  qed
  have "first_conflict (receipt_fields r) ?m = None" "first_conflict (not_selected_fields n) ?m = None" for r n
    using m by (simp_all add: first_conflict_None receipt_fields_def not_selected_fields_def reserved_keys_def)
  moreover have "bt_get ?m AGENT_STRATEGY_RECEIPT_KEY_METADATA_KEY = None"
    "bt_get ?m AGENT_STRATEGY_RECEIPT_PLAN_METADATA_KEY = None"
    using m by (simp_all add: reserved_keys_def)
  ultimately show ?thesis
    by (cases "tc_strategy_receipt i")
      (simp_all add: commit_metadata_def strategy_fields_def Let_def receipt_insert_into_def
        insert_strategy_not_selected_def bt_contains_key_def)
qed

lemma commit_metadata_fields:
  assumes "commit_metadata i = Some m"
  shows "has_fields (commit_fields i) m" "has_fields (strategy_fields i) m"
    "k \<notin> fst ` set (commit_fields i) \<Longrightarrow> k \<notin> fst ` set (strategy_fields i) \<Longrightarrow> bt_get m k = None"
proof -
  have m: "m = insert_fields (strategy_fields i) (insert_fields (commit_fields i) [])"
    using assms commit_metadata_eq by simp
  have d: "distinct (map fst (strategy_fields i))" "distinct (map fst (commit_fields i))"
    "fst ` set (strategy_fields i) \<inter> fst ` set (commit_fields i) = {}"
    by (auto simp: strategy_fields_def receipt_fields_def not_selected_fields_def commit_fields_def
        split: option.splits)
  show "has_fields (strategy_fields i) m" using insert_fields_field [OF d(1)] by (auto simp: has_fields_def m)
  show "k \<notin> fst ` set (commit_fields i) \<Longrightarrow> k \<notin> fst ` set (strategy_fields i) \<Longrightarrow> bt_get m k = None"
    by (simp add: m insert_fields_other)
  show "has_fields (commit_fields i) m"
    unfolding has_fields_def m
  proof (intro ballI, clarify)
    fix x v assume x: "(x, v) \<in> set (commit_fields i)"
    then have "x \<notin> fst ` set (strategy_fields i)" using d(3) by force
    with insert_fields_field [OF d(2) x] show "bt_get (insert_fields (strategy_fields i)
      (insert_fields (commit_fields i) [])) x = Some v" by (simp add: insert_fields_other)
  qed
qed

lemma commit_identity_Inr:
  assumes "commit_identity_new dg task ctx epoch = Inr i"
  shows "agent_run_id ctx = Some (tc_agent_run_id i)" "trim (tc_agent_run_id i) \<noteq> []" "tc_steer_epoch i = epoch"
    "commit_strategy_receipt ctx epoch = Inr (tc_strategy_receipt i)"
    "tc_strategy_not_selected i = strategy_receipt_is_explicitly_not_selected ctx"
    "tc_strategy_receipt i = Some r \<Longrightarrow> sr_agent_run_id r = tc_agent_run_id i"
proof -
  from assms obtain run where run: "physical_run_id ctx = Some run"
    by (auto simp: commit_identity_new_def split: option.splits)
  with assms obtain receipt where receipt: "commit_strategy_receipt ctx epoch = Inr receipt"
    by (cases "commit_strategy_receipt ctx epoch") (auto simp: commit_identity_new_def)
  obtain key where i: "i = \<lparr>tc_key = key, tc_agent_run_id = run, tc_steer_epoch = epoch,
      tc_strategy_receipt = receipt, tc_strategy_not_selected = strategy_receipt_is_explicitly_not_selected ctx\<rparr>"
    and r: "receipt = Some r \<longrightarrow> sr_agent_run_id r = run" for r
    using assms by (auto simp: commit_identity_new_def run receipt Let_def split: option.splits sum.splits if_splits)
  with physical_run_idD [OF run] receipt show "agent_run_id ctx = Some (tc_agent_run_id i)"
    "trim (tc_agent_run_id i) \<noteq> []" "tc_steer_epoch i = epoch"
    "commit_strategy_receipt ctx epoch = Inr (tc_strategy_receipt i)"
    "tc_strategy_not_selected i = strategy_receipt_is_explicitly_not_selected ctx"
    "tc_strategy_receipt i = Some r \<Longrightarrow> sr_agent_run_id r = tc_agent_run_id i" by simp_all
qed

lemma terminal_not_decision: "is_terminal_event e \<Longrightarrow> \<not> is_decision_event e"
  by (auto simp: is_terminal_event_def is_decision_event_def try_from_event_def run_event_from_type_def
      split: sum.splits option.splits DecodedEventType.splits if_splits)

text \<open>A terminal event that carries the metadata of the identity and the context of the run.\<close>

definition carries_commit :: "AgentTerminalCommitIdentity \<Rightarrow> Metadata \<Rightarrow> Event \<Rightarrow> bool" where
  "carries_commit i ctx e \<longleftrightarrow> is_terminal_event e \<and>
     (\<exists>m. commit_metadata i = Some m \<and>
        (\<forall>k. k \<noteq> EVENT_TYPE_METADATA_KEY \<longrightarrow>
          bt_get (ev_metadata e) k = bt_get (merge_persistable_run_context m ctx) k))"

lemma carries_commit_get:
  assumes "carries_commit i ctx e"
  shows "(k, v) \<in> set (commit_fields i @ strategy_fields i) \<Longrightarrow> bt_get (ev_metadata e) k = Some v"
    "k \<in> set reserved_keys \<Longrightarrow> k \<noteq> EVENT_TYPE_METADATA_KEY \<Longrightarrow> k \<notin> fst ` set (commit_fields i @ strategy_fields i) \<Longrightarrow>
      bt_get (ev_metadata e) k = bt_get ctx k"
proof -
  from assms obtain m where m: "commit_metadata i = Some m"
    and e: "\<And>k. k \<noteq> EVENT_TYPE_METADATA_KEY \<Longrightarrow>
      bt_get (ev_metadata e) k = bt_get (merge_persistable_run_context m ctx) k"
    by (auto simp: carries_commit_def)
  note f = commit_metadata_fields [OF m]
  show "bt_get (ev_metadata e) k = Some v" if kv: "(k, v) \<in> set (commit_fields i @ strategy_fields i)"
  proof -
    have "bt_get m k = Some v" using f(1,2) kv by (auto simp: has_fields_def)
    moreover have "k \<noteq> EVENT_TYPE_METADATA_KEY"
      using kv by (auto simp: commit_fields_def strategy_fields_def receipt_fields_def not_selected_fields_def
          split: option.splits if_splits)
    ultimately show ?thesis by (simp add: e merge_persistable_get)
  qed
  show "bt_get (ev_metadata e) k = bt_get ctx k"
    if "k \<in> set reserved_keys" "k \<noteq> EVENT_TYPE_METADATA_KEY" "k \<notin> fst ` set (commit_fields i @ strategy_fields i)"
  proof -
    have "bt_get m k = None" using that(3) f(3) [of k] by (simp add: image_Un)
    with that(1,2) show ?thesis by (simp add: e merge_persistable_get reserved_keys_persist)
  qed
qed

lemma carries_commit_run:
  assumes "commit_identity_new dg task ctx epoch = Inr i" "carries_commit i ctx e"
  shows "agent_run_id (ev_metadata e) = Some (tc_agent_run_id i)" "of_run i e"
proof -
  have "AGENT_RUN_ID_METADATA_KEY \<in> set reserved_keys"
    "AGENT_RUN_ID_METADATA_KEY \<notin> fst ` set (commit_fields i @ strategy_fields i)"
    by (auto simp: reserved_keys_def commit_fields_def strategy_fields_def receipt_fields_def
        not_selected_fields_def split: option.splits)
  with carries_commit_get(2) [OF assms(2)] commit_identity_Inr(1) [OF assms(1)]
  show "agent_run_id (ev_metadata e) = Some (tc_agent_run_id i)" by (simp add: agent_run_id_def)
  then show "of_run i e" by (simp add: of_run_def agent_run_id_def run_id_key)
qed

lemma commit_strategy_None:
  assumes "commit_strategy_receipt ctx epoch = Inr None" "\<not> strategy_receipt_is_explicitly_not_selected ctx"
  shows "bt_get ctx AGENT_STRATEGY_RECEIPT_SCHEMA_METADATA_KEY = None"
proof -
  from assms have "receipt_from_metadata ctx = Inr None"
    by (simp add: commit_strategy_receipt_def split: sum.splits)
  then have "receipt_state_from_metadata ctx = Inr ReceiptAbsent"
    by (cases "receipt_state_from_metadata ctx")
      (auto simp: receipt_from_metadata_def split: AgentStrategyReceiptState.splits)
  then show ?thesis
    by (auto simp: receipt_state_from_metadata_def Let_def try_then_Inr split: if_splits option.splits)
qed

lemma commit_strategy_Some:
  "commit_strategy_receipt ctx epoch = Inr (Some r) \<Longrightarrow> receipt_wf r"
  by (auto simp: commit_strategy_receipt_def receipt_from_metadata_Some split: if_splits sum.splits
      intro: state_Selected_wf)

lemma carries_commit_strategy:
  assumes i: "commit_identity_new dg task ctx epoch = Inr i" and e: "carries_commit i ctx e"
  shows "terminal_strategy_matches i e"
proof (cases "tc_strategy_receipt i")
  case (Some r)
  have "receipt_wf r" using commit_identity_Inr(4) [OF i] Some commit_strategy_Some by simp
  moreover have "has_fields (receipt_fields r) (ev_metadata e)"
    using carries_commit_get(1) [OF e] Some by (auto simp: has_fields_def strategy_fields_def)
  moreover have "physical_run_id (ev_metadata e) = Some (sr_agent_run_id r)"
    using carries_commit_run(1) [OF i e] commit_identity_Inr(2) [OF i] commit_identity_Inr(6) [OF i Some]
    by (simp add: physical_run_id_def)
  ultimately show ?thesis
    using Some receipt_read by (simp add: terminal_strategy_matches_def receipt_from_metadata_Some)
next
  case None
  note n = commit_identity_Inr(5) [OF i]
  show ?thesis
  proof (cases "tc_strategy_not_selected i")
    case True
    then have s: "strategy_fields i = not_selected_fields (tc_steer_epoch i)"
      using None by (simp add: strategy_fields_def)
    have "bt_get (ev_metadata e) AGENT_STRATEGY_RECEIPT_SCHEMA_METADATA_KEY = Some AGENT_STRATEGY_RECEIPT_SCHEMA"
      "bt_get (ev_metadata e) AGENT_STRATEGY_RECEIPT_STATUS_METADATA_KEY = Some AGENT_STRATEGY_RECEIPT_NOT_SELECTED"
      using carries_commit_get(1) [OF e] by (simp_all add: s not_selected_fields_def)
    moreover have "bt_get (ev_metadata e) k = bt_get ctx k"
      if "k = AGENT_STRATEGY_RECEIPT_KEY_METADATA_KEY \<or> k = AGENT_STRATEGY_RECEIPT_PLAN_METADATA_KEY" for k
      using that carries_commit_get(2) [OF e, of k]
      by (auto simp: s not_selected_fields_def commit_fields_def reserved_keys_def)
    ultimately show ?thesis
      using None True n
      by (simp add: terminal_strategy_matches_def strategy_receipt_is_explicitly_not_selected_def bt_contains_key_def)
  next
    case False
    then have s: "strategy_fields i = []" using None by (simp add: strategy_fields_def)
    have "bt_get (ev_metadata e) AGENT_STRATEGY_RECEIPT_SCHEMA_METADATA_KEY =
        bt_get ctx AGENT_STRATEGY_RECEIPT_SCHEMA_METADATA_KEY"
      using carries_commit_get(2) [OF e, of AGENT_STRATEGY_RECEIPT_SCHEMA_METADATA_KEY]
      by (simp add: s commit_fields_def reserved_keys_def)
    with False None n commit_identity_Inr(4) [OF i] commit_strategy_None show ?thesis
      by (simp add: terminal_strategy_matches_def bt_contains_key_def)
  qed
qed

lemma carries_commit_identity:
  assumes "carries_commit i ctx e" "tc_steer_epoch i \<le> u64_max"
  shows "terminal_identity_matches i e"
proof -
  have "bt_get (ev_metadata e) AGENT_TERMINAL_COMMIT_EPOCH_METADATA_KEY = Some (decimal (tc_steer_epoch i))"
    "bt_get (ev_metadata e) AGENT_TERMINAL_COMMIT_SCHEMA_METADATA_KEY = Some AGENT_TERMINAL_COMMIT_SCHEMA"
    "bt_get (ev_metadata e) AGENT_TERMINAL_COMMIT_KEY_METADATA_KEY = Some (tc_key i)"
    using carries_commit_get(1) [OF assms(1)] by (simp_all add: commit_fields_def)
  with assms(2) show ?thesis by (simp add: terminal_identity_matches_def)
qed

lemma insort_last: "f x \<le> f e \<Longrightarrow> insort_key f x (ys @ [e]) = insort_key f x ys @ [e]"
  by (induction ys) auto

lemma sort_last: "\<forall>x \<in> set xs. f x \<le> f e \<Longrightarrow> sort_key f (xs @ [e]) = sort_key f xs @ [e]"
  by (induction xs) (simp_all add: insort_last)

lemma pending_then_committed:
  assumes i: "commit_identity_new dg task ctx epoch = Inr i" "epoch \<le> u64_max"
    and p: "log_pending dg i es" and e: "carries_commit i ctx e" and seq: "\<forall>x \<in> set es. ev_sequence x < ev_sequence e"
  shows "log_committed dg i (es @ [e])"
proof -
  note run = carries_commit_run(2) [OF i(1) e]
  have t: "is_terminal_event e" using e by (simp add: carries_commit_def)
  then have r: "\<exists>r. try_from_event e = Inr r" by (auto simp: is_terminal_event_def split: sum.splits)
  have f: "filter (is_epoch_decision i) (es @ [e]) = filter (is_epoch_decision i) es"
    using terminal_not_decision [OF t] by (simp add: is_epoch_decision_def)
  from p obtain d where d: "strategy_decided dg i es d" by (auto simp: log_pending_def)
  then have "strategy_decided dg i (es @ [e]) d" unfolding strategy_decided_def f .
  moreover have "ev_sequence x < ev_sequence e" if "d = Some x" for x
  proof -
    have "filter (is_epoch_decision i) es = [x]"
      using d that by (auto simp: strategy_decided_def split: option.splits)
    then have "x \<in> set (filter (is_epoch_decision i) es)" by (simp only: list.set(2) insertI1)
    with seq show ?thesis by simp
  qed
  moreover have "terminal_identity_matches i e" "terminal_strategy_matches i e"
    using carries_commit_identity [OF e] carries_commit_strategy [OF i(1) e] commit_identity_Inr(3) [OF i(1)] i(2)
    by auto
  ultimately show ?thesis using p t r run by (auto simp: log_committed_def log_pending_def)
qed

text \<open>C12. A pending run can always be committed: a writer that appends one terminal event with the
  metadata of the identity and the context of the run, after all events of the log, is accepted, and
  its event is in the log after the call, provided the database itself does not fail.\<close>

theorem pending_terminal_is_committed:
  assumes "commit_identity_new dg task ctx epoch = Inr i" "epoch \<le> u64_max"
    and "log_pending dg i (events_of_run task (tc_agent_run_id i) log)"
    and "carries_commit i ctx e" "ev_task_id e = task" "\<forall>x \<in> set log. ev_sequence x < ev_sequence e"
    and "so_begin ops log = Inr ()" "so_commit ops (log @ [e]) = Inr ()"
    and "\<forall>l. so_list ops l task (tc_agent_run_id i) = Inr (events_of_run task (tc_agent_run_id i) l)"
  shows "persist_agent_terminal_once ops dg task ctx epoch (\<lambda>l identity. (Inr state, l @ [e])) log =
    (Inr \<lparr>pt_state = state, pt_inserted = True\<rparr>, log @ [e])"
proof -
  let ?run = "tc_agent_run_id i"
  have of_run: "bt_get (ev_metadata e) (lit ''agent_run_id'') = Some ?run"
    using carries_commit_run(1) [OF assms(1,4)] by (simp add: agent_run_id_def run_id_key)
  have "events_of_run task ?run (log @ [e]) = events_of_run task ?run log @ [e]"
    using assms(5,6) of_run sort_last [of "filter (\<lambda>x. ev_task_id x = task \<and>
        bt_get (ev_metadata x) (lit ''agent_run_id'') = Some ?run) log" ev_sequence e]
    by (simp add: events_of_run_def less_imp_le)
  moreover have "log_committed dg i (events_of_run task ?run log @ [e])"
    using pending_then_committed [OF assms(1,2,3,4)] assms(6) by (simp add: events_of_run_def)
  ultimately have "terminal_commit_state ops dg log task i = Inr CommitPending"
    "terminal_commit_state ops dg (log @ [e]) task i = Inr CommitCommitted"
    using assms(3,9) inspect_exact [of dg i, THEN conjunct1, THEN iffD2] inspect_exact [of dg i, THEN conjunct2, THEN iffD2]
    by (simp_all add: terminal_commit_state_def)
  with assms(1,7,8) show ?thesis
    by (simp add: persist_agent_terminal_once_def with_immediate_transaction_def persist_terminal_body_def)
qed

section \<open>Concrete instances\<close>

definition sample_digests :: digests where
  "sample_digests = \<lparr>json_to_vec = (\<lambda>_. Inr []), sha256_digest = (\<lambda>_. replicate 32 0)\<rparr>"

definition sample_plan :: ustring where
  "sample_plan = replicate 64 97"

definition sample_context :: Metadata where
  "sample_context = [(lit ''agent_run_id'', lit ''r''), (lit ''steer_epoch'', lit ''0'')]"

definition sample_receipt :: AgentStrategyDecisionReceipt where
  "sample_receipt = \<lparr>sr_key = replicate 64 48, sr_agent_run_id = lit ''r'', sr_steer_epoch = 0, sr_plan_sha256 = sample_plan\<rparr>"

definition sample_decision :: Event where
  "sample_decision = \<lparr>ev_id = lit ''d'', ev_task_id = lit ''t'', ev_sequence = 1, ev_timestamp_ms = 1,
     ev_kind = TaskStatusChanged, ev_summary = [],
     ev_metadata = insert_fields (receipt_fields sample_receipt)
       (bt_insert EVENT_TYPE_METADATA_KEY (event_type_id AgentRunDecisionSelected) sample_context)\<rparr>"

lemma hex_zero_bytes: "hex_bytes (replicate n 0) = replicate (2 * n) 48"
  by (induction n) (simp_all add: hex_bytes_def hex_char_def)

lemma sample_digest_key: "hex_bytes (replicate 32 0) = replicate 64 48"
  using hex_zero_bytes [of 32] by simp

lemma sample_sha256_bytes: "sha256_bytes sample_digests"
  by (simp add: sha256_bytes_def sample_digests_def)

lemma sample_context_get:
  "bt_get sample_context AGENT_RUN_ID_METADATA_KEY = Some (lit ''r'')"
  "bt_get sample_context (lit ''steer_epoch'') = Some (lit ''0'')"
  "k \<noteq> AGENT_RUN_ID_METADATA_KEY \<Longrightarrow> k \<noteq> lit ''steer_epoch'' \<Longrightarrow> bt_get sample_context k = None"
  by (auto simp: sample_context_def bt_get_Cons run_id_key)

lemma sample_run_not_blank: "trim (lit ''r'') \<noteq> []"
  by (simp add: trim_Nil_iff lit_def is_whitespace_def)

lemma sample_plan_valid: "validate_sha256 sample_plan = Inr ()"
  using ascii_bytes [of sample_plan]
  by (simp add: validate_sha256_Inr sample_plan_def str_len_def list_all_iff is_ascii_hexdigit_def)

lemma sample_receipt_new:
  assumes "\<And>k. k \<in> {AGENT_RUN_ID_METADATA_KEY, lit ''session_id'', lit ''steer_epoch''} \<Longrightarrow>
    bt_get m k = bt_get sample_context k"
  shows "receipt_new sample_digests task m sample_plan = Inr sample_receipt"
proof -
  have "parse_unsigned u64_max (lit ''0'') = Some 0"
    by (simp add: parse_unsigned_def lit_def to_digit_def)
  moreover have "receipt_new sample_digests task m sample_plan = receipt_new sample_digests task sample_context sample_plan"
    by (rule receipt_new_cong) (rule assms)
  ultimately show ?thesis
    by (simp add: receipt_new_def physical_run_id_def agent_run_id_def sample_context_get sample_run_not_blank
        parse_u64_def sample_plan_valid sample_digests_def sample_receipt_def hex_sha256_def sample_digest_key)
qed

lemma sample_is_decision: "is_decision_event sample_decision"
proof -
  have "bt_get (ev_metadata sample_decision) EVENT_TYPE_METADATA_KEY = Some (event_type_id AgentRunDecisionSelected)"
    by (simp add: sample_decision_def insert_fields_other receipt_fields_def bt_get_insert_any)
  then show ?thesis
    by (simp add: is_decision_event_def decode_event_type_def event_type_from_id_def matches_kind_def
        sample_decision_def lit_def)
qed

theorem receipt_proves_its_decision_witness:
  "matches_decision_event sample_digests sample_receipt sample_decision"
proof -
  let ?m = "bt_insert EVENT_TYPE_METADATA_KEY (event_type_id AgentRunDecisionSelected) sample_context"
  have n: "receipt_new sample_digests (lit ''t'') ?m sample_plan = Inr sample_receipt"
    by (rule sample_receipt_new) (auto simp: bt_get_insert_any)
  have "receipt_insert_into sample_receipt ?m = Inr (insert_fields (receipt_fields sample_receipt) ?m)"
    by (simp add: receipt_insert_into_def first_conflict_None receipt_fields_def bt_get_insert_any sample_context_get)
  from receipt_proves_its_decision [OF sample_sha256_bytes n this sample_is_decision] show ?thesis
    by (simp add: sample_decision_def)
qed

lemma sample_matches: "matches_decision_event sample_digests sample_receipt sample_decision"
proof -
  have m: "ev_metadata sample_decision = insert_fields (receipt_fields sample_receipt)
      (bt_insert EVENT_TYPE_METADATA_KEY (event_type_id AgentRunDecisionSelected) sample_context)"
    by (simp add: sample_decision_def)
  have get: "bt_get (ev_metadata sample_decision) k = bt_get sample_context k"
    if "k \<in> {AGENT_RUN_ID_METADATA_KEY, lit ''session_id'', lit ''steer_epoch''}" for k
    using that by (auto simp: m insert_fields_other receipt_fields_def bt_get_insert_any)
  have "has_fields (receipt_fields sample_receipt) (ev_metadata sample_decision)"
    using insert_fields_field [OF receipt_fields_distinct] by (auto simp: has_fields_def m)
  moreover have "receipt_wf sample_receipt"
    using receipt_new_wf [OF sample_sha256_bytes sample_receipt_new [of sample_context]] by simp
  moreover have "physical_run_id (ev_metadata sample_decision) = Some (sr_agent_run_id sample_receipt)"
    using get [of AGENT_RUN_ID_METADATA_KEY] sample_run_not_blank
    by (simp add: physical_run_id_def agent_run_id_def sample_context_get sample_receipt_def)
  ultimately have "receipt_state_from_metadata (ev_metadata sample_decision) = Inr (ReceiptSelected sample_receipt)"
    by (simp add: receipt_read)
  with sample_is_decision sample_receipt_new [OF get] show ?thesis
    by (simp add: matches_decision_event_def receipt_from_decision_event_def receipt_from_metadata_def
        sample_receipt_def)
qed

theorem accepted_receipt_binds_its_event_witness:
  "parse_u64 (bt_get (ev_metadata sample_decision) (lit ''steer_epoch'')) = Some (sr_steer_epoch sample_receipt)"
  using accepted_receipt_binds_its_event [OF sample_matches] by blast

definition sample_identity :: AgentTerminalCommitIdentity where
  "sample_identity = \<lparr>tc_key = replicate 64 48, tc_agent_run_id = lit ''r'', tc_steer_epoch = 0,
     tc_strategy_receipt = None, tc_strategy_not_selected = False\<rparr>"

definition sample_terminal :: Event where
  "sample_terminal = \<lparr>ev_id = lit ''e'', ev_task_id = lit ''t'', ev_sequence = 1, ev_timestamp_ms = 1,
     ev_kind = TaskStatusChanged, ev_summary = lit ''Agent task completed'',
     ev_metadata = merge_persistable_run_context (insert_fields (commit_fields sample_identity) []) sample_context\<rparr>"

definition sample_ops :: "unit store_ops" where
  "sample_ops = \<lparr>so_begin = (\<lambda>_. Inr ()), so_commit = (\<lambda>_. Inr ()),
     so_list = (\<lambda>log task run. Inr (events_of_run task run log)), so_session_state = (\<lambda>_ _. Inr ())\<rparr>"

lemma sample_identity_new: "commit_identity_new sample_digests (lit ''t'') sample_context 0 = Inr sample_identity"
proof -
  have "\<not> strategy_receipt_is_explicitly_not_selected sample_context"
    by (simp add: strategy_receipt_is_explicitly_not_selected_def sample_context_get)
  moreover have "receipt_from_metadata sample_context = Inr None"
    by (simp add: receipt_from_metadata_def receipt_state_from_metadata_def sample_context_get)
  ultimately show ?thesis
    by (simp add: commit_identity_new_def physical_run_id_def agent_run_id_def sample_context_get sample_run_not_blank
        commit_strategy_receipt_def sample_digests_def hex_sha256_def sample_digest_key sample_identity_def)
qed

lemma sample_carries: "carries_commit sample_identity sample_context sample_terminal"
proof -
  let ?m = "insert_fields (commit_fields sample_identity) []"
  have "bt_get (ev_metadata sample_terminal) k = None"
    if "k \<notin> fst ` set (commit_fields sample_identity)" "k \<noteq> AGENT_RUN_ID_METADATA_KEY" "k \<noteq> lit ''steer_epoch''" for k
    using that by (simp add: sample_terminal_def merge_persistable_get insert_fields_other sample_context_get)
  moreover have "lit ''queue_action'' \<notin> fst ` set (commit_fields sample_identity)"
      "lit ''queue_action'' \<noteq> AGENT_RUN_ID_METADATA_KEY" "lit ''queue_action'' \<noteq> lit ''steer_epoch''"
    by (simp_all add: commit_fields_def commit_keys AGENT_RUN_ID_METADATA_KEY_def lit_def)
  moreover have "EVENT_TYPE_METADATA_KEY \<notin> fst ` set (commit_fields sample_identity)"
    by (simp add: commit_fields_def)
  ultimately have none: "bt_get (ev_metadata sample_terminal) EVENT_TYPE_METADATA_KEY = None"
      "bt_get (ev_metadata sample_terminal) (lit ''queue_action'') = None"
    by simp_all
  have k: "ev_kind sample_terminal = TaskStatusChanged" "ev_summary sample_terminal = lit ''Agent task completed''"
    by (simp_all add: sample_terminal_def)
  have "run_event_from_summary (lit ''Agent task completed'') = Some RunCompleted"
    by (simp add: run_event_from_summary_def lit_def)
  with none k have "is_terminal_event sample_terminal"
    by (simp add: is_terminal_event_def try_from_event_def decode_event_type_def run_event_from_legacy_def
        bt_contains_key_def status_is_terminal_def)
  moreover have "commit_metadata sample_identity = Some ?m"
    by (simp add: commit_metadata_eq strategy_fields_def sample_identity_def)
  ultimately show ?thesis by (simp add: carries_commit_def sample_terminal_def)
qed

lemma sample_pending: "log_pending dg sample_identity []"
  by (simp add: log_pending_def strategy_decided_def sample_identity_def)

theorem pending_terminal_is_committed_witness:
  "persist_agent_terminal_once sample_ops sample_digests (lit ''t'') sample_context 0
     (\<lambda>l identity. (Inr (), l @ [sample_terminal])) [] =
   (Inr \<lparr>pt_state = (), pt_inserted = True\<rparr>, [sample_terminal])"
  using pending_terminal_is_committed [OF sample_identity_new, of "[]" sample_terminal sample_ops "()"]
    sample_pending sample_carries
  by (simp add: events_of_run_def sample_terminal_def sample_ops_def)

theorem terminal_event_is_committed_once_witness:
  "snd (persist_agent_terminal_once sample_ops sample_digests (lit ''t'') sample_context 0
     (\<lambda>l identity. (Inl StorageNotCommitted, l @ [sample_terminal])) []) = []"
proof -
  let ?w = "\<lambda>l identity. (Inl StorageNotCommitted, l @ [sample_terminal])"
  let ?p = "persist_agent_terminal_once sample_ops sample_digests (lit ''t'') sample_context 0 ?w []"
  have "lists_rows sample_ops" by (simp add: lists_rows_def sample_ops_def)
  moreover have "?p = (fst ?p, snd ?p)" by simp
  moreover have "fst ?p = Inl StorageNotCommitted"
    using sample_pending inspect_exact [of sample_digests sample_identity "[]"]
    by (simp add: persist_agent_terminal_once_def sample_identity_new with_immediate_transaction_def
        persist_terminal_body_def terminal_commit_state_def sample_ops_def events_of_run_def)
  ultimately show ?thesis
    using terminal_event_is_committed_once [OF _ sample_identity_new, of sample_ops ?w "[]" "fst ?p" "snd ?p"] by simp
qed

end
