(* ===== verification/Utf8_Text.thy ===== *)
theory Utf8_Text
  imports Prelude
begin

text \<open>
  UTF-8 as the encoding of strings: the boundaries between characters in the encoded bytes, the
  encoding as an injective homomorphism, and the correspondence of byte ranges that start and
  end at boundaries with substrings.
\<close>

section \<open>Boundaries\<close>

definition is_continuation :: "nat \<Rightarrow> bool" where
  "is_continuation b \<longleftrightarrow> 128 \<le> b \<and> b < 192"

text \<open>\<open>str::is_char_boundary\<close>.\<close>

definition is_char_boundary :: "ustring \<Rightarrow> nat \<Rightarrow> bool" where
  "is_char_boundary s i \<longleftrightarrow>
     i = 0 \<or> i = str_len s \<or> (i < str_len s \<and> \<not> is_continuation (as_bytes s ! i))"

lemma as_bytes_simps [simp]:
  "as_bytes [] = []" "as_bytes (c # s) = utf8_char c @ as_bytes s" "as_bytes (s @ t) = as_bytes s @ as_bytes t"
  by (simp_all add: as_bytes_def)

lemma utf8_char_shape:
  "\<exists>b bs. utf8_char c = b # bs \<and> \<not> is_continuation b \<and> (\<forall>x \<in> set bs. is_continuation x)"
proof -
  have m: "n mod 64 < 64" for n :: nat by simp
  have "c div 64 < 32" if "c < 2048" using that by (simp add: div_less_iff_less_mult)
  then show ?thesis
    using m by (auto simp: utf8_char_def is_continuation_def)
qed

lemma utf8_char_nonempty [simp]: "utf8_char c \<noteq> []"
  using utf8_char_shape [of c] by auto

lemma as_bytes_Nil_iff [simp]: "as_bytes s = [] \<longleftrightarrow> s = []"
  by (cases s) auto

lemma boundary_inside_char:
  assumes "0 < i" "i < length (utf8_char c)"
  shows "is_continuation ((utf8_char c @ ys) ! i)"
proof -
  obtain b bs where b: "utf8_char c = b # bs" "\<forall>x \<in> set bs. is_continuation x" using utf8_char_shape by blast
  with assms have "(utf8_char c @ ys) ! i = bs ! (i - 1)" "i - 1 < length bs"
    by (auto simp: nth_append nth_Cons')
  with b(2) show ?thesis by simp
qed

lemma boundary_at_char:
  "\<not> is_continuation (as_bytes (c # s) ! 0)"
  using utf8_char_shape [of c] by (auto simp: nth_append)

lemma boundary_split:
  assumes "is_char_boundary s i"
  shows "\<exists>p q. s = p @ q \<and> length (as_bytes p) = i"
  using assms
proof (induction s arbitrary: i)
  case Nil
  then show ?case by (simp add: is_char_boundary_def str_len_def)
next
  case (Cons c s)
  let ?k = "length (utf8_char c)"
  consider "i = 0" | "0 < i" "i < ?k" | "?k \<le> i" by linarith
  then show ?case
  proof cases
    case 1
    then have "c # s = [] @ c # s \<and> length (as_bytes []) = i" by simp
    then show ?thesis by blast
  next
    case 2
    with boundary_inside_char [OF 2, of "as_bytes s"] Cons.prems show ?thesis
      by (auto simp: is_char_boundary_def str_len_def)
  next
    case 3
    with Cons.prems have "is_char_boundary s (i - ?k)"
      by (auto simp: is_char_boundary_def str_len_def nth_append)
    with Cons.IH obtain p q where "s = p @ q" "length (as_bytes p) = i - ?k" by blast
    with 3 have "c # s = (c # p) @ q \<and> length (as_bytes (c # p)) = i" by simp
    then show ?thesis by blast
  qed
qed

lemma split_boundary: "is_char_boundary (p @ q) (length (as_bytes p))"
proof (cases q)
  case Nil
  then show ?thesis by (simp add: is_char_boundary_def str_len_def)
next
  case (Cons c s)
  then show ?thesis
    using boundary_at_char [of c s] by (simp add: is_char_boundary_def str_len_def nth_append)
qed

section \<open>Decoding is unique\<close>

lemma div_mod_digits:
  "c = (c div 64) * 64 + c mod 64"
  "c = (c div 4096) * 4096 + ((c div 64) mod 64) * 64 + c mod 64"
  "c = (c div 262144) * 262144 + ((c div 4096) mod 64) * 4096 + ((c div 64) mod 64) * 64 + c mod 64" for c :: nat
proof -
  show 1: "c = (c div 64) * 64 + c mod 64" by simp
  have q: "c div 64 = (c div 4096) * 64 + (c div 64) mod 64"
    using div_mult_mod_eq [of "c div 64" 64] by (simp add: div_mult2_eq [symmetric])
  then show 2: "c = (c div 4096) * 4096 + ((c div 64) mod 64) * 64 + c mod 64" using 1 by linarith
  have "c div 4096 = (c div 262144) * 64 + (c div 4096) mod 64"
    using div_mult_mod_eq [of "c div 4096" 64] by (simp add: div_mult2_eq [symmetric])
  then show "c = (c div 262144) * 262144 + ((c div 4096) mod 64) * 4096 + ((c div 64) mod 64) * 64 + c mod 64"
    using 2 by linarith
qed

lemma utf8_char_cases:
  obtains (one) "c < 128" "utf8_char c = [c]"
  | (two) "128 \<le> c" "c div 64 < 32" "utf8_char c = [192 + c div 64, 128 + c mod 64]"
  | (three) "c div 4096 < 16" "utf8_char c = [224 + c div 4096, 128 + (c div 64) mod 64, 128 + c mod 64]"
  | (four) "utf8_char c = [240 + c div 262144, 128 + (c div 4096) mod 64, 128 + (c div 64) mod 64, 128 + c mod 64]"
proof -
  consider "c < 128" | "128 \<le> c" "c < 2048" | "2048 \<le> c" "c < 65536" | "65536 \<le> c" by linarith
  then show thesis
  proof cases
    case 1
    then show thesis by (intro one) (simp_all add: utf8_char_def)
  next
    case 2
    then show thesis by (intro two) (simp_all add: utf8_char_def div_less_iff_less_mult)
  next
    case 3
    then show thesis by (intro three) (simp_all add: utf8_char_def div_less_iff_less_mult)
  next
    case 4
    then show thesis by (intro four) (simp_all add: utf8_char_def)
  qed
qed

lemma utf8_char_inj:
  assumes e: "utf8_char c @ xs = utf8_char d @ ys"
  shows "c = d \<and> xs = ys"
proof (cases rule: utf8_char_cases [of c])
  case one
  with e show ?thesis by (cases rule: utf8_char_cases [of d]) auto
next
  case two
  show ?thesis
  proof (cases rule: utf8_char_cases [of d])
    case d: two
    with two e have "c div 64 = d div 64" "c mod 64 = d mod 64" "xs = ys" by simp_all
    then show ?thesis using div_mod_digits(1) [of c] div_mod_digits(1) [of d] by simp
  qed (use two e in simp_all)
next
  case three
  show ?thesis
  proof (cases rule: utf8_char_cases [of d])
    case d: three
    with three e have "c div 4096 = d div 4096" "(c div 64) mod 64 = (d div 64) mod 64" "c mod 64 = d mod 64" "xs = ys"
      by simp_all
    then show ?thesis using div_mod_digits(2) [of c] div_mod_digits(2) [of d] by simp
  qed (use three e in simp_all)
next
  case four
  show ?thesis
  proof (cases rule: utf8_char_cases [of d])
    case d: four
    with four e have "c div 262144 = d div 262144" "(c div 4096) mod 64 = (d div 4096) mod 64"
        "(c div 64) mod 64 = (d div 64) mod 64" "c mod 64 = d mod 64" "xs = ys"
      by simp_all
    then show ?thesis using div_mod_digits(3) [of c] div_mod_digits(3) [of d] by simp
  qed (use four e in simp_all)
qed

lemma as_bytes_inj: "as_bytes s = as_bytes t \<Longrightarrow> s = t"
proof (induction s arbitrary: t)
  case Nil
  then show ?case by (metis as_bytes_Nil_iff)
next
  case (Cons c s)
  then obtain d t' where t: "t = d # t'" by (cases t) auto
  with Cons.prems utf8_char_inj [of c "as_bytes s" d "as_bytes t'"] Cons.IH [of t'] show ?case by simp
qed

section \<open>Byte ranges\<close>

definition byte_slice :: "nat list \<Rightarrow> nat \<Rightarrow> nat \<Rightarrow> nat list" where
  "byte_slice bs i j = take (j - i) (drop i bs)"

lemma slice_of_boundaries:
  assumes "is_char_boundary s i" "is_char_boundary s j" "i \<le> j"
  shows "\<exists>p m q. s = p @ m @ q \<and> length (as_bytes p) = i \<and> length (as_bytes (p @ m)) = j \<and>
    byte_slice (as_bytes s) i j = as_bytes m"
proof -
  obtain p r where p: "s = p @ r" "length (as_bytes p) = i" using boundary_split [OF assms(1)] by blast
  obtain u q where u: "s = u @ q" "length (as_bytes u) = j" using boundary_split [OF assms(2)] by blast
  have "length p \<le> length u"
  proof (rule ccontr)
    assume "\<not> length p \<le> length u"
    with p(1) u(1) obtain v where v: "p = u @ v" "v \<noteq> []"
      by (metis append_eq_append_conv2 append.right_neutral append_eq_conv_conj le_cases length_append le_add1)
    have "j + length (as_bytes v) = i" using v(1) p(2) u(2) by simp
    then have "length (as_bytes v) = 0" using assms(3) by linarith
    then show False using v(2) by simp
  qed
  with p(1) u(1) obtain m where m: "u = p @ m" "r = m @ q"
    by (metis append_eq_append_conv_if append_take_drop_id)
  have "byte_slice (as_bytes s) i j = as_bytes m"
    using p u m by (simp add: byte_slice_def)
  with p u m show ?thesis by blast
qed

end
