(* ===== verification/Patch_Contract.thy ===== *)
theory Patch_Contract
  imports BTree_Map Text_Search Number_Text Utf8_Text Run_Identity
begin

text \<open>
  Model of \<open>crates/tools/src/file_patch/contract.rs\<close>: the request of a file patch as it is parsed from
  JSON, the search for its anchor, and the plan that replaces one range of bytes of the base file.

  \<open>serde_json\<close> is foreign: its values are the type \<open>JsonValue\<close> and its parser a parameter. The digest
  is the parameter \<open>sha256\<close> on bytes.
\<close>

section \<open>JSON values\<close>

datatype JsonValue =
  JsonNull | JsonBool bool | JsonUnsigned nat | JsonOtherNumber | JsonText ustring
| JsonArray "JsonValue list" | JsonObject "(ustring, JsonValue) btree"

definition json_as_str :: "JsonValue \<Rightarrow> ustring option" where
  "json_as_str v = (case v of JsonText s \<Rightarrow> Some s | _ \<Rightarrow> None)"

definition json_as_u64 :: "JsonValue \<Rightarrow> nat option" where
  "json_as_u64 v = (case v of JsonUnsigned n \<Rightarrow> if n \<le> u64_max then Some n else None | _ \<Rightarrow> None)"

definition json_get :: "JsonValue \<Rightarrow> ustring \<Rightarrow> JsonValue option" where
  "json_get v key = (case v of JsonObject m \<Rightarrow> bt_get m key | _ \<Rightarrow> None)"

section \<open>Issues\<close>

record PatchIssue =
  pi_code :: string
  pi_message :: string
  pi_retryable :: bool
  pi_observed_sha256 :: "ustring option"

definition issue_new :: "string \<Rightarrow> string \<Rightarrow> PatchIssue" where
  "issue_new code message =
     \<lparr>pi_code = code, pi_message = message, pi_retryable = False, pi_observed_sha256 = None\<rparr>"

definition issue_retryable :: "string \<Rightarrow> string \<Rightarrow> PatchIssue" where
  "issue_retryable code message =
     \<lparr>pi_code = code, pi_message = message, pi_retryable = True, pi_observed_sha256 = None\<rparr>"

definition with_observed_sha256 :: "ustring \<Rightarrow> PatchIssue \<Rightarrow> PatchIssue" where
  "with_observed_sha256 observed issue = issue\<lparr>pi_observed_sha256 := Some observed\<rparr>"

section \<open>Requests\<close>

definition MAX_PATCH_FILE_BYTES :: nat where
  "MAX_PATCH_FILE_BYTES = 8 * 1024 * 1024"

datatype PatchSelector = Range nat nat ustring | Anchor ustring

record PatchRequest =
  pr_path :: ustring
  pr_expected_base_sha256 :: ustring
  pr_replacement :: ustring
  pr_selector :: PatchSelector

definition required_string ::
  "(ustring, JsonValue) btree \<Rightarrow> ustring \<Rightarrow> bool \<Rightarrow> PatchIssue + ustring"
where
  "required_string object key allow_empty =
     (case Option.bind (bt_get object key) json_as_str of
        None \<Rightarrow> Inl (issue_new ''file_patch_invalid_input'' ''file.patch is missing a required string field.'')
      | Some v \<Rightarrow>
          if \<not> allow_empty \<and> trim v = []
          then Inl (issue_new ''file_patch_invalid_input'' ''file.patch contains an empty required field.'')
          else Inr v)"

definition required_usize :: "(ustring, JsonValue) btree \<Rightarrow> ustring \<Rightarrow> PatchIssue + nat" where
  "required_usize object key =
     (case Option.bind (bt_get object key) json_as_u64 of
        None \<Rightarrow> Inl (issue_new ''file_patch_invalid_input'' ''file.patch byte offsets must be non-negative integers.'')
      | Some n \<Rightarrow> Inr n)"

definition is_sha256 :: "ustring \<Rightarrow> bool" where
  "is_sha256 v \<longleftrightarrow> str_len v = 64 \<and> list_all is_ascii_hexdigit (as_bytes v)"

definition allowed_fields :: "ustring list" where
  "allowed_fields =
     [lit ''path'', lit ''expected_base_sha256'', lit ''replacement'', lit ''start_byte'', lit ''end_byte'',
      lit ''expected_text'', lit ''anchor'']"

definition patch_selector :: "(ustring, JsonValue) btree \<Rightarrow> PatchIssue + PatchSelector" where
  "patch_selector object =
     (let has_anchor = bt_contains_key object (lit ''anchor'');
          range_count = length (filter (bt_contains_key object)
            [lit ''start_byte'', lit ''end_byte'', lit ''expected_text'']) in
      if has_anchor then
        (if range_count = 0
         then try_then (required_string object (lit ''anchor'') False) (\<lambda>a. Inr (Anchor a))
         else Inl (issue_new ''file_patch_mixed_selectors''
           ''Provide either anchor or the complete byte-range selector, never both.''))
      else if range_count = 3 then
        try_then (required_usize object (lit ''start_byte'')) (\<lambda>start_byte.
        try_then (required_usize object (lit ''end_byte'')) (\<lambda>end_byte.
          if start_byte > end_byte \<or> end_byte > MAX_PATCH_FILE_BYTES
          then Inl (issue_new ''file_patch_invalid_range''
            ''The patch byte range must satisfy start_byte <= end_byte <= 8 MiB.'')
          else try_then (required_string object (lit ''expected_text'') True)
            (\<lambda>expected. Inr (Range start_byte end_byte expected))))
      else Inl (issue_new ''file_patch_incomplete_selector''
        ''Provide one unique anchor or start_byte, end_byte, and expected_text.''))"

definition parse_request :: "(ustring \<Rightarrow> JsonValue option) \<Rightarrow> ustring \<Rightarrow> PatchIssue + PatchRequest" where
  "parse_request from_str input_json =
     (case from_str input_json of
        Some (JsonObject object) \<Rightarrow>
          if list_ex (\<lambda>k. k \<notin> set allowed_fields) (map fst object)
          then Inl (issue_new ''file_patch_invalid_input'' ''file.patch input contains an unsupported field.'')
          else
            try_then (required_string object (lit ''path'') False) (\<lambda>path.
            try_then (required_string object (lit ''expected_base_sha256'') False) (\<lambda>expected.
              let base_sha256 = to_ascii_lowercase expected in
              if \<not> is_sha256 base_sha256
              then Inl (issue_new ''file_patch_invalid_base_sha256''
                ''expected_base_sha256 must contain exactly 64 hexadecimal characters.'')
              else
                try_then (required_string object (lit ''replacement'') True) (\<lambda>replacement.
                  if str_len replacement > MAX_PATCH_FILE_BYTES
                  then Inl (issue_new ''file_patch_replacement_too_large''
                    ''replacement exceeds the 8 MiB file.patch limit.'')
                  else
                    try_then (patch_selector object) (\<lambda>selector.
                      Inr \<lparr>pr_path = path, pr_expected_base_sha256 = base_sha256,
                        pr_replacement = replacement, pr_selector = selector\<rparr>))))
      | _ \<Rightarrow> Inl (issue_new ''file_patch_invalid_input'' ''file.patch input must be one JSON object.''))"

definition input_path :: "(ustring \<Rightarrow> JsonValue option) \<Rightarrow> ustring \<Rightarrow> ustring option" where
  "input_path from_str input_json =
     Option.bind (from_str input_json) (\<lambda>v. Option.bind (json_get v (lit ''path'')) json_as_str)"

section \<open>Plans\<close>

record PatchPlan =
  pp_after :: "nat list"
  pp_before_sha256 :: ustring
  pp_after_sha256 :: ustring
  pp_diff_sha256 :: ustring
  pp_start_byte :: nat
  pp_end_byte :: nat
  pp_before_bytes :: nat
  pp_replaced_bytes :: nat
  pp_replacement_bytes :: nat

definition sha256_hex :: "(nat list \<Rightarrow> nat list) \<Rightarrow> nat list \<Rightarrow> ustring" where
  "sha256_hex sha256 bytes = hex_bytes (sha256 bytes)"

text \<open>The windows of the base that equal the anchor and lie between character boundaries, at most two.\<close>

definition anchor_matches :: "ustring \<Rightarrow> ustring \<Rightarrow> nat list" where
  "anchor_matches base anchor =
     (if as_bytes anchor = [] \<or> str_len anchor > str_len base then []
      else take 2 (filter (\<lambda>i.
        byte_slice (as_bytes base) i (i + str_len anchor) = as_bytes anchor \<and>
        is_char_boundary base i \<and> is_char_boundary base (i + str_len anchor))
        [0..<Suc (str_len base - str_len anchor)]))"

definition patch_diff_sha256 :: "(nat list \<Rightarrow> nat list) \<Rightarrow> nat \<Rightarrow> nat \<Rightarrow> nat list \<Rightarrow> nat list \<Rightarrow> ustring" where
  "patch_diff_sha256 sha256 i j expected replacement =
     sha256_hex sha256
       (lit ''cindx.file-patch-diff.v1'' @ [10] @ decimal i @ [10] @ decimal j @ [10] @ expected @ [0] @ replacement)"

definition selected_range :: "ustring \<Rightarrow> PatchSelector \<Rightarrow> PatchIssue + nat \<times> nat \<times> ustring" where
  "selected_range base selector =
     (case selector of
        Range i j expected \<Rightarrow> Inr (i, j, expected)
      | Anchor anchor \<Rightarrow>
          (case anchor_matches base anchor of
             [] \<Rightarrow> Inl (issue_new ''file_patch_anchor_missing''
               ''The requested anchor is not present in the current base file.'')
           | [i] \<Rightarrow> Inr (i, sat_add i (str_len anchor), anchor)
           | _ \<Rightarrow> Inl (issue_new ''file_patch_anchor_ambiguous''
               ''The requested anchor occurs more than once in the current base file.'')))"

text \<open>\<open>PatchPlan::build\<close>. The slice of the base panics for a range that ends before it starts; parsing
  excludes such a range.\<close>

definition build_plan :: "(nat list \<Rightarrow> nat list) \<Rightarrow> ustring \<Rightarrow> PatchRequest \<Rightarrow> PatchIssue + PatchPlan" where
  "build_plan sha256 base request =
     try_then (selected_range base (pr_selector request)) (\<lambda>(i, j, expected).
       let bytes = as_bytes base;
           replacement = as_bytes (pr_replacement request);
           after = take i bytes @ replacement @ drop j bytes in
       if j > str_len base \<or> \<not> is_char_boundary base i \<or> \<not> is_char_boundary base j
       then Inl (issue_new ''file_patch_invalid_range''
         ''The patch byte range is outside the file or splits a UTF-8 character.'')
       else if byte_slice bytes i j \<noteq> as_bytes expected
       then Inl (issue_new ''file_patch_selector_mismatch''
         ''expected_text does not match the selected byte range in the current base file.'')
       else if sat_add (str_len base - (j - i)) (length replacement) > MAX_PATCH_FILE_BYTES
       then Inl (issue_new ''file_patch_result_too_large''
         ''The patched file would exceed the 8 MiB file.patch limit.'')
       else if after = bytes
       then Inl (issue_new ''file_patch_no_change'' ''The requested patch would not change the file.'')
       else Inr \<lparr>pp_after = after, pp_before_sha256 = sha256_hex sha256 bytes,
         pp_after_sha256 = sha256_hex sha256 after,
         pp_diff_sha256 = patch_diff_sha256 sha256 i j (as_bytes expected) replacement,
         pp_start_byte = i, pp_end_byte = j, pp_before_bytes = str_len base,
         pp_replaced_bytes = j - i, pp_replacement_bytes = length replacement\<rparr>)"

end
