(* ===== verification/File_Patch.thy ===== *)
theory File_Patch
  imports Patch_Contract
begin

text \<open>
  Model of \<open>crates/tools/src/file_patch.rs\<close> with \<open>undo.rs\<close>, \<open>crates/tools/src/workspace_file.rs\<close> and the
  path resolution of \<open>crates/tools/src/tool_support.rs\<close>: a patch of one file, from the resolution of its
  path inside the workspace to the guarded atomic replacement.

  A file system maps canonical paths, as lists of components, to nodes. The operating system is
  foreign: how a path resolves, what a call sees and whether it fails are the fields of \<open>os_calls\<close>
  and, for one replacement, of \<open>replace_calls\<close>. The check of the digest under the lock and the
  rename that follows are one step; a writer that ignores the advisory lock between the two is
  not modelled.
\<close>

section \<open>Decoding\<close>

text \<open>\<open>String::from_utf8\<close>: no overlong forms, no surrogates, nothing above \<open>U+10FFFF\<close>.\<close>

fun utf8_decode :: "nat list \<Rightarrow> ustring option" where
  "utf8_decode [] = Some []"
| "utf8_decode (a # rest) =
     (if a < 128 then map_option ((#) a) (utf8_decode rest)
      else if 194 \<le> a \<and> a < 224 then
        (case rest of
           b # rest' \<Rightarrow>
             if is_continuation b
             then map_option ((#) ((a - 192) * 64 + (b - 128))) (utf8_decode rest') else None
         | _ \<Rightarrow> None)
      else if 224 \<le> a \<and> a < 240 then
        (case rest of
           b # c # rest' \<Rightarrow>
             (let v = (a - 224) * 4096 + (b - 128) * 64 + (c - 128) in
              if is_continuation b \<and> is_continuation c \<and> 2048 \<le> v \<and> \<not> (55296 \<le> v \<and> v < 57344)
              then map_option ((#) v) (utf8_decode rest') else None)
         | _ \<Rightarrow> None)
      else if 240 \<le> a \<and> a < 245 then
        (case rest of
           b # c # d # rest' \<Rightarrow>
             (let v = (a - 240) * 262144 + (b - 128) * 4096 + (c - 128) * 64 + (d - 128) in
              if is_continuation b \<and> is_continuation c \<and> is_continuation d \<and> 65536 \<le> v \<and> v \<le> 1114111
              then map_option ((#) v) (utf8_decode rest') else None)
         | _ \<Rightarrow> None)
      else None)"

section \<open>The file system\<close>

type_synonym path = "ustring list"

datatype file_node = RegularFile "nat list" | OtherNode

type_synonym fs = "path \<Rightarrow> file_node option"

datatype call_answer = CallOk | CallNotFound | CallError

datatype stat_answer = StatFile nat | StatOther nat | StatNotFound | StatError

datatype publish_answer = PublishedNew fs | PublishExists fs | PublishFailed fs

record os_calls =
  os_canonicalize :: "fs \<Rightarrow> path \<Rightarrow> path option"
  os_lstat :: "fs \<Rightarrow> path \<Rightarrow> call_answer"
  os_stat :: "fs \<Rightarrow> path \<Rightarrow> stat_answer"
  os_open :: "fs \<Rightarrow> path \<Rightarrow> bool"
  os_read :: "fs \<Rightarrow> path \<Rightarrow> nat list option"
  os_publish_new :: "fs \<Rightarrow> path \<Rightarrow> nat list \<Rightarrow> publish_answer"

text \<open>What is relied on: reading a canonical path returns the content of the file there, and
  publishing without clobbering leaves every existing file alone.\<close>

definition reads_files :: "os_calls \<Rightarrow> bool" where
  "reads_files os \<longleftrightarrow> (\<forall>fs p q bs. os_canonicalize os fs p = Some q \<longrightarrow> os_read os fs q = Some bs \<longrightarrow>
     fs q = Some (RegularFile bs))"

definition kept :: "fs \<Rightarrow> fs \<Rightarrow> bool" where
  "kept fs fs' \<longleftrightarrow> (\<forall>q n. fs q = Some n \<longrightarrow> fs' q = Some n)"

fun answer_fs :: "publish_answer \<Rightarrow> fs" where
  "answer_fs (PublishedNew fs) = fs"
| "answer_fs (PublishExists fs) = fs"
| "answer_fs (PublishFailed fs) = fs"

definition keeps_existing :: "os_calls \<Rightarrow> bool" where
  "keeps_existing os \<longleftrightarrow> (\<forall>fs p bs. kept fs (answer_fs (os_publish_new os fs p bs)))"

section \<open>Paths in the workspace\<close>

text \<open>\<open>Path::components\<close> of a relative path.\<close>

definition path_components :: "ustring \<Rightarrow> path" where
  "path_components s = filter (\<lambda>c. c \<noteq> [] \<and> c \<noteq> lit ''.'') (split_pred ((=) 47) s)"

definition is_absolute :: "ustring \<Rightarrow> bool" where
  "is_absolute s \<longleftrightarrow> (case s of c # _ \<Rightarrow> c = 47 | [] \<Rightarrow> False)"

definition path_starts_with :: "path \<Rightarrow> path \<Rightarrow> bool" where
  "path_starts_with p root \<longleftrightarrow> take (length root) p = root"

text \<open>The loop to the closest existing ancestor.\<close>

function canonical_ancestor :: "os_calls \<Rightarrow> fs \<Rightarrow> path \<Rightarrow> string + path" where
  "canonical_ancestor os fs p =
     (case os_lstat os fs p of
        CallOk \<Rightarrow>
          (case os_canonicalize os fs p of
             None \<Rightarrow> Inl ''failed to resolve workspace path'' | Some q \<Rightarrow> Inr q)
      | CallNotFound \<Rightarrow>
          if p = [] then Inl ''path escapes the workspace'' else canonical_ancestor os fs (butlast p)
      | CallError \<Rightarrow> Inl ''failed to inspect workspace path'')"
  by pat_completeness auto

termination
  by (relation "measure (\<lambda>(os, fs, p). length p)") auto

declare canonical_ancestor.simps [simp del]

definition resolve_workspace_path :: "os_calls \<Rightarrow> fs \<Rightarrow> path \<Rightarrow> ustring \<Rightarrow> string + path" where
  "resolve_workspace_path os fs root p =
     (if is_absolute p then Inl ''absolute paths are not allowed''
      else if lit ''..'' \<in> set (path_components p) then Inl ''path escapes the workspace''
      else case os_canonicalize os fs root of
        None \<Rightarrow> Inl ''failed to resolve workspace''
      | Some canonical_root \<Rightarrow>
          let resolved = root @ path_components p in
          try_then (canonical_ancestor os fs resolved) (\<lambda>ancestor.
            if \<not> path_starts_with ancestor canonical_root
            then Inl ''path escapes the workspace through a symbolic link'' else Inr resolved))"

definition resolve_workspace_read_path :: "os_calls \<Rightarrow> fs \<Rightarrow> path \<Rightarrow> path \<Rightarrow> string + path" where
  "resolve_workspace_read_path os fs root p =
     (case os_canonicalize os fs root of
        None \<Rightarrow> Inl ''failed to resolve workspace''
      | Some canonical_root \<Rightarrow>
          (case os_canonicalize os fs p of
             None \<Rightarrow> Inl ''failed to resolve read path''
           | Some q \<Rightarrow>
               if \<not> path_starts_with q canonical_root
               then Inl ''path escapes the workspace through a symbolic link'' else Inr q))"

section \<open>Guarded replacement\<close>

datatype AtomicReplaceError = ReplaceConflict "ustring option" | ReplaceIo

text \<open>The answers of the calls of one replacement: the staging file, opening, locking and inspecting the
  target, reading it, inspecting it again, setting up the staging file, and the rename.\<close>

record replace_calls =
  rc_staged :: bool
  rc_opened :: bool
  rc_locked :: bool
  rc_locked_metadata :: bool
  rc_path_metadata :: call_answer
  rc_same_file :: bool
  rc_read :: bool
  rc_final_metadata :: call_answer
  rc_final_same_file :: bool
  rc_finished :: bool
  rc_renamed :: bool

text \<open>\<open>sha256_reader_bounded\<close>: no digest for a file above the bound.\<close>

definition bounded_sha256 :: "(nat list \<Rightarrow> nat list) \<Rightarrow> nat \<Rightarrow> nat list \<Rightarrow> ustring option" where
  "bounded_sha256 sha256 max_bytes bytes =
     (if length bytes > max_bytes then None else Some (sha256_hex sha256 bytes))"

definition atomic_replace ::
  "(nat list \<Rightarrow> nat list) \<Rightarrow> replace_calls \<Rightarrow> path \<Rightarrow> nat list \<Rightarrow> ustring \<Rightarrow> nat \<Rightarrow> fs \<Rightarrow>
   (AtomicReplaceError + unit) \<times> fs"
where
  "atomic_replace sha256 rc target bytes expected max_bytes fs =
     (if \<not> rc_staged rc then (Inl ReplaceIo, fs)
      else case fs target of
        None \<Rightarrow> (Inl (ReplaceConflict None), fs)
      | Some node \<Rightarrow>
          if \<not> rc_opened rc then (Inl ReplaceIo, fs)
          else if \<not> rc_locked rc then (Inl (ReplaceConflict None), fs)
          else if \<not> rc_locked_metadata rc then (Inl ReplaceIo, fs)
          else case rc_path_metadata rc of
            CallNotFound \<Rightarrow> (Inl (ReplaceConflict None), fs)
          | CallError \<Rightarrow> (Inl ReplaceIo, fs)
          | CallOk \<Rightarrow>
              (case node of
                 OtherNode \<Rightarrow> (Inl (ReplaceConflict None), fs)
               | RegularFile content \<Rightarrow>
                   if \<not> rc_same_file rc then (Inl (ReplaceConflict None), fs)
                   else if \<not> rc_read rc then (Inl ReplaceIo, fs)
                   else if bounded_sha256 sha256 max_bytes content \<noteq> Some expected
                   then (Inl (ReplaceConflict (bounded_sha256 sha256 max_bytes content)), fs)
                   else case rc_final_metadata rc of
                     CallNotFound \<Rightarrow> (Inl (ReplaceConflict None), fs)
                   | CallError \<Rightarrow> (Inl ReplaceIo, fs)
                   | CallOk \<Rightarrow>
                       if \<not> rc_final_same_file rc then (Inl (ReplaceConflict None), fs)
                       else if \<not> rc_finished rc then (Inl ReplaceIo, fs)
                       else if \<not> rc_renamed rc then (Inl ReplaceIo, fs)
                       else (Inr (), fs(target \<mapsto> RegularFile bytes))))"

section \<open>History\<close>

record ToolInvocation =
  ti_id :: ustring
  ti_input_json :: ustring
  ti_metadata :: Metadata

definition exact_existing_file :: "os_calls \<Rightarrow> fs \<Rightarrow> path \<Rightarrow> nat list \<Rightarrow> bool" where
  "exact_existing_file os fs p bytes \<longleftrightarrow> os_read os fs p = Some bytes"

definition write_immutable_file_atomically :: "os_calls \<Rightarrow> path \<Rightarrow> nat list \<Rightarrow> fs \<Rightarrow> bool \<times> fs" where
  "write_immutable_file_atomically os p bytes fs =
     (if os_stat os fs p = StatNotFound \<or> os_stat os fs p = StatError then
        (case os_publish_new os fs p bytes of
           PublishedNew fs' \<Rightarrow> (True, fs')
         | PublishExists fs' \<Rightarrow> (exact_existing_file os fs' p bytes, fs')
         | PublishFailed fs' \<Rightarrow> (False, fs'))
      else (exact_existing_file os fs p bytes, fs))"

definition stable_hash :: "ustring \<Rightarrow> u64" where
  "stable_hash v = fold (\<lambda>b h. wrap_mul (xor h b) 1099511628211) (as_bytes v) 14695981039346656037"

definition path_join :: "ustring \<Rightarrow> ustring \<Rightarrow> ustring" where
  "path_join p q = (if is_absolute q then q else p @ [47] @ q)"

definition history_relative_path :: "ToolInvocation \<Rightarrow> string \<Rightarrow> ustring \<Rightarrow> ustring" where
  "history_relative_path invocation history_dir p =
     (let session_key = (case bt_get (ti_metadata invocation) (lit ''session_id'') of
            Some s \<Rightarrow> decimal (stable_hash s) | None \<Rightarrow> lit ''unscoped'');
          version_key = decimal (stable_hash (ti_id invocation))
      in path_join (path_join (path_join (path_join (lit ''.cindx'') (lit history_dir)) session_key) version_key) p)"

definition preserve_history_version ::
  "os_calls \<Rightarrow> path \<Rightarrow> ToolInvocation \<Rightarrow> string \<Rightarrow> ustring \<Rightarrow> nat list \<Rightarrow> fs \<Rightarrow> ustring option \<times> fs"
where
  "preserve_history_version os root invocation history_dir p bytes fs =
     (let relative = history_relative_path invocation history_dir p in
      case resolve_workspace_path os fs root relative of
        Inl _ \<Rightarrow> (None, fs)
      | Inr target \<Rightarrow>
          (case write_immutable_file_atomically os target bytes fs of
             (ok, fs') \<Rightarrow> (if ok then Some relative else None, fs')))"

section \<open>The patch of one file\<close>

record patch_env =
  pe_os :: os_calls
  pe_from_str :: "ustring \<Rightarrow> JsonValue option"
  pe_sha256 :: "nat list \<Rightarrow> nat list"
  pe_root :: path

definition resolve_existing_target :: "patch_env \<Rightarrow> fs \<Rightarrow> ustring \<Rightarrow> PatchIssue + path" where
  "resolve_existing_target env fs p =
     (case resolve_workspace_path (pe_os env) fs (pe_root env) p of
        Inl _ \<Rightarrow> Inl (issue_new ''file_patch_invalid_path'' ''The requested path is outside the selected workspace.'')
      | Inr unresolved \<Rightarrow>
          (case os_stat (pe_os env) fs unresolved of
             StatOther _ \<Rightarrow> Inl (issue_new ''file_patch_target_not_file'' ''file.patch requires an existing regular file.'')
           | StatNotFound \<Rightarrow> Inl (issue_new ''file_patch_target_missing''
               ''file.patch requires an existing file; the requested path does not exist.'')
           | StatError \<Rightarrow> Inl (issue_retryable ''file_patch_target_unreadable''
               ''The requested workspace file could not be inspected.'')
           | StatFile _ \<Rightarrow>
               (case resolve_workspace_read_path (pe_os env) fs (pe_root env) unresolved of
                  Inl _ \<Rightarrow> Inl (issue_new ''file_patch_invalid_path''
                    ''The requested path cannot be patched through a workspace-escaping symbolic link.'')
                | Inr target \<Rightarrow> Inr target)))"

definition read_utf8_base :: "os_calls \<Rightarrow> fs \<Rightarrow> path \<Rightarrow> PatchIssue + ustring" where
  "read_utf8_base os fs p =
     (let too_large = issue_new ''file_patch_target_too_large'' ''file.patch accepts files no larger than 8 MiB.'' in
      case (case os_stat os fs p of StatFile n \<Rightarrow> Some n | StatOther n \<Rightarrow> Some n | _ \<Rightarrow> None) of
        None \<Rightarrow> Inl (issue_retryable ''file_patch_target_unreadable''
          ''The requested workspace file could not be inspected.'')
      | Some len \<Rightarrow>
          if len > MAX_PATCH_FILE_BYTES then Inl too_large
          else if \<not> os_open os fs p
          then Inl (issue_retryable ''file_patch_target_unreadable'' ''The requested workspace file could not be opened.'')
          else case os_read os fs p of
            None \<Rightarrow> Inl (issue_retryable ''file_patch_target_unreadable''
              ''The requested workspace file could not be read.'')
          | Some bytes \<Rightarrow>
              if length (take (MAX_PATCH_FILE_BYTES + 1) bytes) > MAX_PATCH_FILE_BYTES then Inl too_large
              else case utf8_decode (take (MAX_PATCH_FILE_BYTES + 1) bytes) of
                None \<Rightarrow> Inl (issue_new ''file_patch_target_not_utf8'' ''file.patch accepts only valid UTF-8 files.'')
              | Some base \<Rightarrow> Inr base)"

record PreparedPatch =
  pd_request :: PatchRequest
  pd_target :: path
  pd_plan :: PatchPlan
  pd_before :: "nat list"

definition prepare_patch :: "patch_env \<Rightarrow> ustring \<Rightarrow> fs \<Rightarrow> PatchIssue + PreparedPatch" where
  "prepare_patch env input_json fs =
     try_then (parse_request (pe_from_str env) input_json) (\<lambda>request.
     try_then (resolve_existing_target env fs (pr_path request)) (\<lambda>target.
     try_then (read_utf8_base (pe_os env) fs target) (\<lambda>base.
       let observed = sha256_hex (pe_sha256 env) (as_bytes base) in
       if observed \<noteq> pr_expected_base_sha256 request
       then Inl (with_observed_sha256 observed (issue_retryable ''file_patch_stale_base''
         ''The workspace file no longer matches expected_base_sha256.''))
       else
         try_then (build_plan (pe_sha256 env) base request) (\<lambda>plan.
           Inr \<lparr>pd_request = request, pd_target = target, pd_plan = plan, pd_before = as_bytes base\<rparr>))))"

definition publish_prepared ::
  "patch_env \<Rightarrow> replace_calls \<Rightarrow> PreparedPatch \<Rightarrow> fs \<Rightarrow> (AtomicReplaceError + unit) \<times> fs"
where
  "publish_prepared env rc prepared fs =
     atomic_replace (pe_sha256 env) rc (pd_target prepared) (pp_after (pd_plan prepared))
       (pp_before_sha256 (pd_plan prepared)) MAX_PATCH_FILE_BYTES fs"

definition publish_issue :: "AtomicReplaceError \<Rightarrow> PatchIssue" where
  "publish_issue e =
     (case e of
        ReplaceConflict observed \<Rightarrow>
          (let issue = issue_retryable ''file_patch_race_conflict''
             ''The workspace file changed immediately before the atomic patch was published.'' in
           case observed of Some o' \<Rightarrow> with_observed_sha256 o' issue | None \<Rightarrow> issue)
      | ReplaceIo \<Rightarrow> issue_retryable ''file_patch_publish_failed''
          ''The atomic workspace patch could not be published; the prior file was preserved when publication did not occur.'')"

datatype patch_outcome =
  PatchFailed "ustring option" PatchIssue
| PatchApplied PreparedPatch "ustring option" "ustring option"

text \<open>The result of an applied patch carries the path of the output version and, when it exists, of the
  version to undo to.\<close>

definition finish_publish ::
  "patch_env \<Rightarrow> ToolInvocation \<Rightarrow> PreparedPatch \<Rightarrow> AtomicReplaceError + unit \<Rightarrow> fs \<Rightarrow> patch_outcome \<times> fs"
where
  "finish_publish env invocation prepared res fs =
     (case res of
        Inl e \<Rightarrow> (PatchFailed (Some (pr_path (pd_request prepared))) (publish_issue e), fs)
      | Inr _ \<Rightarrow>
          (case preserve_history_version (pe_os env) (pe_root env) invocation ''output-history''
              (pr_path (pd_request prepared)) (pp_after (pd_plan prepared)) fs of
             (snapshot, fs') \<Rightarrow>
               let undo = history_relative_path invocation ''undo-history'' (pr_path (pd_request prepared));
                   undo_exists = (case os_stat (pe_os env) fs'
                       (if is_absolute undo then path_components undo else pe_root env @ path_components undo) of
                       StatFile _ \<Rightarrow> True | StatOther _ \<Rightarrow> True | _ \<Rightarrow> False)
               in (PatchApplied prepared snapshot (if undo_exists then Some undo else None), fs')))"

definition patch_execute ::
  "patch_env \<Rightarrow> replace_calls \<Rightarrow> ToolInvocation \<Rightarrow> fs \<Rightarrow> patch_outcome \<times> fs"
where
  "patch_execute env rc invocation fs =
     (case prepare_patch env (ti_input_json invocation) fs of
        Inl issue \<Rightarrow> (PatchFailed (input_path (pe_from_str env) (ti_input_json invocation)) issue, fs)
      | Inr prepared \<Rightarrow>
          (case preserve_history_version (pe_os env) (pe_root env) invocation ''undo-history''
              (pr_path (pd_request prepared)) (pd_before prepared) fs of
             (_, fs1) \<Rightarrow>
               (case publish_prepared env rc prepared fs1 of
                  (res, fs2) \<Rightarrow> finish_publish env invocation prepared res fs2)))"

end
