(* ===== verification/Patch_Batch.thy ===== *)
theory Patch_Batch
  imports File_Patch
begin

text \<open>
  Model of \<open>crates/tools/src/file_patch/batch.rs\<close>: a batch of patches is validated as a whole, published
  in input order, and rolled back from the images read before when a publication fails.
  The receipts are the statuses, paths and issues they are rendered from.
\<close>

definition MAX_BATCH_PATCHES :: nat where "MAX_BATCH_PATCHES = 16"
definition MAX_BATCH_TOTAL_BYTES :: nat where "MAX_BATCH_TOTAL_BYTES = 32 * 1024 * 1024"

record BatchItem =
  bi_path :: ustring
  bi_prepared :: PreparedPatch

datatype ItemVerdict = ItemReady BatchItem | ItemRefused "ustring option" PatchIssue

datatype ItemStatus = StValidated | StApplied | StRolledBack | StRollbackFailed | StFailed | StSkipped

fun item_status_label :: "ItemStatus \<Rightarrow> string" where
  "item_status_label StValidated = ''validated''"
| "item_status_label StApplied = ''applied''"
| "item_status_label StRolledBack = ''rolled_back''"
| "item_status_label StRollbackFailed = ''rollback_failed''"
| "item_status_label StFailed = ''failed''"
| "item_status_label StSkipped = ''skipped''"

section \<open>Validation\<close>

definition parse_envelope :: "(ustring \<Rightarrow> JsonValue option) \<Rightarrow> ustring \<Rightarrow> PatchIssue + JsonValue list" where
  "parse_envelope from_str input_json =
     (if str_len input_json > MAX_BATCH_TOTAL_BYTES
      then Inl (issue_new ''file_patch_batch_input_too_large'' ''file.patch_batch input exceeds the 32 MiB batch limit.'')
      else case from_str input_json of
        Some (JsonObject object) \<Rightarrow>
          if list_ex (\<lambda>k. k \<noteq> lit ''patches'') (map fst object)
          then Inl (issue_new ''file_patch_batch_invalid_input'' ''file.patch_batch input contains an unsupported field.'')
          else
            (case bt_get object (lit ''patches'') of
               Some (JsonArray patches) \<Rightarrow>
                 if patches = []
                 then Inl (issue_new ''file_patch_batch_empty'' ''file.patch_batch requires at least one patch.'')
                 else if length patches > MAX_BATCH_PATCHES
                 then Inl (issue_new ''file_patch_batch_too_many'' ''file.patch_batch accepts at most 16 files per batch.'')
                 else Inr patches
             | _ \<Rightarrow> Inl (issue_new ''file_patch_batch_invalid_input'' ''file.patch_batch requires a patches array.''))
      | _ \<Rightarrow> Inl (issue_new ''file_patch_batch_invalid_input''
          ''file.patch_batch input must be one JSON object with a patches array.''))"

text \<open>One item: the paths seen and the bytes counted so far are threaded through. \<open>to_str\<close> is
  \<open>serde_json::to_string\<close>.\<close>

definition validate_item ::
  "patch_env \<Rightarrow> (JsonValue \<Rightarrow> ustring option) \<Rightarrow> fs \<Rightarrow> JsonValue \<Rightarrow> ustring set \<times> nat \<Rightarrow>
   ItemVerdict \<times> ustring set \<times> nat"
where
  "validate_item env to_str fs item st =
     (case st of (seen, counted) \<Rightarrow>
      let p = Option.bind (json_get item (lit ''path'')) json_as_str in
      if (case p of Some x \<Rightarrow> x \<in> seen | None \<Rightarrow> False)
      then (ItemRefused p (issue_new ''file_patch_batch_duplicate_path''
        ''Each file.patch_batch item must target a distinct file.''), seen, counted)
      else
        let seen' = (case p of Some x \<Rightarrow> insert x seen | None \<Rightarrow> seen);
            item_json = (case to_str item of Some s \<Rightarrow> s | None \<Rightarrow> lit ''null'') in
        case prepare_patch env item_json fs of
          Inl issue \<Rightarrow> (ItemRefused p issue, seen', counted)
        | Inr prepared \<Rightarrow>
            let counted' = sat_add (sat_add counted (pp_before_bytes (pd_plan prepared)))
                  (length (pp_after (pd_plan prepared))) in
            (if counted' > MAX_BATCH_TOTAL_BYTES
             then ItemRefused p (issue_new ''file_patch_batch_total_too_large''
               ''The batch exceeds the 32 MiB total content limit.'')
             else ItemReady \<lparr>bi_path = pr_path (pd_request prepared), bi_prepared = prepared\<rparr>, seen', counted'))"

fun validate_items ::
  "patch_env \<Rightarrow> (JsonValue \<Rightarrow> ustring option) \<Rightarrow> fs \<Rightarrow> JsonValue list \<Rightarrow> ustring set \<times> nat \<Rightarrow> ItemVerdict list"
where
  "validate_items env to_str fs [] st = []"
| "validate_items env to_str fs (item # items) st =
     (case validate_item env to_str fs item st of
        (verdict, st') \<Rightarrow> verdict # validate_items env to_str fs items st')"

definition is_refused :: "ItemVerdict \<Rightarrow> bool" where
  "is_refused v = (case v of ItemRefused _ _ \<Rightarrow> True | ItemReady _ \<Rightarrow> False)"

fun ready_items :: "ItemVerdict list \<Rightarrow> BatchItem list" where
  "ready_items [] = []"
| "ready_items (ItemReady i # vs) = i # ready_items vs"
| "ready_items (ItemRefused _ _ # vs) = ready_items vs"

section \<open>Publishing and rolling back\<close>

text \<open>The history versions of a group, in input order.\<close>

fun preserve_all ::
  "patch_env \<Rightarrow> ToolInvocation \<Rightarrow> string \<Rightarrow> (PreparedPatch \<Rightarrow> nat list) \<Rightarrow> BatchItem list \<Rightarrow> fs \<Rightarrow>
   ustring option list \<times> fs"
where
  "preserve_all env invocation dir content [] fs = ([], fs)"
| "preserve_all env invocation dir content (i # items) fs =
     (case preserve_history_version (pe_os env) (pe_root env) invocation dir (bi_path i) (content (bi_prepared i)) fs of
        (p, fs1) \<Rightarrow>
          (case preserve_all env invocation dir content items fs1 of (ps, fs2) \<Rightarrow> (p # ps, fs2)))"

text \<open>The publishing loop stops at the first failure, with its index. The calls of publication \<open>k\<close> answer
  as \<open>rcs k\<close> says.\<close>

fun publish_all ::
  "patch_env \<Rightarrow> (nat \<Rightarrow> replace_calls) \<Rightarrow> nat \<Rightarrow> BatchItem list \<Rightarrow> fs \<Rightarrow> (nat \<times> PatchIssue) option \<times> fs"
where
  "publish_all env rcs k [] fs = (None, fs)"
| "publish_all env rcs k (i # items) fs =
     (case publish_prepared env (rcs k) (bi_prepared i) fs of
        (Inl e, fs') \<Rightarrow> (Some (k, publish_issue e), fs')
      | (Inr _, fs') \<Rightarrow> publish_all env rcs (Suc k) items fs')"

definition restore_prepared ::
  "patch_env \<Rightarrow> replace_calls \<Rightarrow> PreparedPatch \<Rightarrow> fs \<Rightarrow> (AtomicReplaceError + unit) \<times> fs"
where
  "restore_prepared env rc prepared fs =
     atomic_replace (pe_sha256 env) rc (pd_target prepared) (pd_before prepared)
       (pp_after_sha256 (pd_plan prepared)) MAX_PATCH_FILE_BYTES fs"

text \<open>The applied prefix is rolled back in reverse order; the statuses come out in input order.\<close>

fun rollback ::
  "patch_env \<Rightarrow> (nat \<Rightarrow> replace_calls) \<Rightarrow> (nat \<times> BatchItem) list \<Rightarrow> fs \<Rightarrow> (nat \<times> ItemStatus) list \<times> fs"
where
  "rollback env rcs [] fs = ([], fs)"
| "rollback env rcs ((k, i) # items) fs =
     (case restore_prepared env (rcs k) (bi_prepared i) fs of
        (r, fs1) \<Rightarrow>
          (case rollback env rcs items fs1 of
             (ss, fs2) \<Rightarrow> ((k, case r of Inr _ \<Rightarrow> StRolledBack | Inl _ \<Rightarrow> StRollbackFailed) # ss, fs2)))"

datatype batch_outcome =
  BatchEnvelopeFailed PatchIssue
| BatchInvalid "ItemVerdict list"
| BatchPublishFailed "(BatchItem \<times> ItemStatus) list" PatchIssue
| BatchApplied "BatchItem list" "ustring option list" "ustring option list"

definition failed_statuses :: "nat \<Rightarrow> nat \<Rightarrow> (nat \<times> ItemStatus) list \<Rightarrow> ItemStatus list" where
  "failed_statuses n failed rolled =
     map (\<lambda>k. if k = failed then StFailed else if failed < k then StSkipped
       else case map_of rolled k of Some s \<Rightarrow> s | None \<Rightarrow> StApplied) [0..<n]"

definition run_batch ::
  "patch_env \<Rightarrow> (JsonValue \<Rightarrow> ustring option) \<Rightarrow> (nat \<Rightarrow> replace_calls) \<Rightarrow> (nat \<Rightarrow> replace_calls) \<Rightarrow>
   ToolInvocation \<Rightarrow> fs \<Rightarrow> batch_outcome \<times> fs"
where
  "run_batch env to_str publishes restores invocation fs =
     (case parse_envelope (pe_from_str env) (ti_input_json invocation) of
        Inl issue \<Rightarrow> (BatchEnvelopeFailed issue, fs)
      | Inr values \<Rightarrow>
          let verdicts = validate_items env to_str fs values ({}, 0) in
          if list_ex is_refused verdicts then (BatchInvalid verdicts, fs)
          else
            let items = ready_items verdicts in
            case preserve_all env invocation ''undo-history'' pd_before items fs of
              (undo_paths, fs1) \<Rightarrow>
                (case publish_all env publishes 0 items fs1 of
                   (Some (failed, issue), fs2) \<Rightarrow>
                     (case rollback env restores (rev (zip [0..<failed] items)) fs2 of
                        (rolled, fs3) \<Rightarrow>
                          (BatchPublishFailed (zip items (failed_statuses (length items) failed rolled)) issue, fs3))
                 | (None, fs2) \<Rightarrow>
                     (case preserve_all env invocation ''output-history'' (\<lambda>p. pp_after (pd_plan p)) items fs2 of
                        (artifact_paths, fs3) \<Rightarrow> (BatchApplied items undo_paths artifact_paths, fs3))))"

end
