(* ===== verification/Patch_Properties.thy ===== *)
theory Patch_Properties
  imports Patch_Contract
begin

text \<open>
  What a patch plan does to the text of a file: the bytes it computes are the encoding of the text with
  one selected piece replaced, and an anchor selects a piece only if it occurs exactly once.
\<close>

section \<open>Anchors\<close>

definition occurrences :: "ustring \<Rightarrow> ustring \<Rightarrow> nat set" where
  "occurrences base anchor = {length (as_bytes p) | p q. base = p @ anchor @ q}"

definition is_match :: "ustring \<Rightarrow> ustring \<Rightarrow> nat \<Rightarrow> bool" where
  "is_match base anchor i \<longleftrightarrow>
     byte_slice (as_bytes base) i (i + str_len anchor) = as_bytes anchor \<and>
     is_char_boundary base i \<and> is_char_boundary base (i + str_len anchor)"

lemma is_match_occurrence: "is_match base anchor i \<longleftrightarrow> i \<in> occurrences base anchor"
proof
  assume "is_match base anchor i"
  then obtain p m q where s: "base = p @ m @ q" "length (as_bytes p) = i"
      "byte_slice (as_bytes base) i (i + str_len anchor) = as_bytes m"
    using slice_of_boundaries [of base i "i + str_len anchor"] by (auto simp: is_match_def)
  with \<open>is_match base anchor i\<close> have "m = anchor" using as_bytes_inj by (simp add: is_match_def)
  with s show "i \<in> occurrences base anchor" by (auto simp: occurrences_def)
next
  assume "i \<in> occurrences base anchor"
  then obtain p q where s: "base = p @ anchor @ q" "length (as_bytes p) = i" by (auto simp: occurrences_def)
  with split_boundary [of p "anchor @ q"] split_boundary [of "p @ anchor" q] show "is_match base anchor i"
    by (auto simp: is_match_def byte_slice_def str_len_def)
qed

lemma occurrence_bound: "i \<in> occurrences base anchor \<Longrightarrow> i + str_len anchor \<le> str_len base"
  by (auto simp: occurrences_def str_len_def)

lemma anchor_matches_take:
  assumes "anchor \<noteq> []"
  shows "anchor_matches base anchor = take 2 (filter (is_match base anchor) [0..<Suc (str_len base)])"
proof (cases "str_len anchor > str_len base")
  case True
  then have "filter (is_match base anchor) [0..<Suc (str_len base)] = []"
    using occurrence_bound [of _ base anchor] by (auto simp: filter_empty_conv is_match_occurrence)
  with True show ?thesis by (simp add: anchor_matches_def)
next
  case False
  let ?n = "Suc (str_len base - str_len anchor)"
  have "[0..<Suc (str_len base)] = [0..<?n] @ [?n..<Suc (str_len base)]"
    using upt_add_eq_append [of 0 ?n "Suc (str_len base) - ?n"] by simp
  moreover have "filter (is_match base anchor) [?n..<Suc (str_len base)] = []"
    using occurrence_bound [of _ base anchor] False by (fastforce simp: filter_empty_conv is_match_occurrence)
  ultimately have "filter (is_match base anchor) [0..<Suc (str_len base)] = filter (is_match base anchor) [0..<?n]"
    by simp
  with False assms show ?thesis by (simp add: anchor_matches_def is_match_def [abs_def])
qed

lemma set_matches: "set (filter (is_match base anchor) [0..<Suc (str_len base)]) = occurrences base anchor"
proof -
  have "set (filter (is_match base anchor) [0..<Suc (str_len base)]) = {i. i \<le> str_len base \<and> i \<in> occurrences base anchor}"
    by (auto simp: is_match_occurrence simp del: upt_Suc)
  then show ?thesis using occurrence_bound [of _ base anchor] by fastforce
qed

lemma take_two_cases:
  "take 2 xs = [] \<longleftrightarrow> xs = []" "take 2 xs = [x] \<longleftrightarrow> xs = [x]"
  by (cases xs; cases "tl xs"; auto)+

lemma distinct_singleton:
  assumes "distinct xs"
  shows "xs = [i] \<longleftrightarrow> set xs = {i}"
proof
  assume s: "set xs = {i}"
  then have "length xs = 1" using distinct_card [OF assms] by simp
  then obtain x where "xs = [x]" by (cases xs) auto
  with s show "xs = [i]" by simp
qed simp

lemma anchor_matches_iff:
  assumes "anchor \<noteq> []"
  shows "anchor_matches base anchor = [] \<longleftrightarrow> occurrences base anchor = {}"
    "anchor_matches base anchor = [i] \<longleftrightarrow> occurrences base anchor = {i}"
proof -
  let ?xs = "filter (is_match base anchor) [0..<Suc (str_len base)]"
  have d: "distinct ?xs" by simp
  show "anchor_matches base anchor = [] \<longleftrightarrow> occurrences base anchor = {}"
    unfolding anchor_matches_take [OF assms] take_two_cases set_matches [symmetric] by (rule set_empty [symmetric])
  have "?xs = [i] \<longleftrightarrow> set ?xs = {i}" by (rule distinct_singleton [OF d])
  then show "anchor_matches base anchor = [i] \<longleftrightarrow> occurrences base anchor = {i}"
    unfolding anchor_matches_take [OF assms] take_two_cases set_matches .
qed

section \<open>Plans\<close>

lemma parse_range_ordered:
  assumes "parse_request from_str input = Inr r" "pr_selector r = Range i j expected"
  shows "i \<le> j \<and> j \<le> MAX_PATCH_FILE_BYTES"
proof -
  from assms(1) obtain object where "patch_selector object = Inr (pr_selector r)"
    by (auto simp: parse_request_def try_then_Inr Let_def split: option.splits JsonValue.splits if_splits)
  with assms(2) show ?thesis
    by (auto simp: patch_selector_def try_then_Inr Let_def split: if_splits)
qed

lemma parse_anchor_nonempty:
  assumes "parse_request from_str input = Inr r" "pr_selector r = Anchor a"
  shows "a \<noteq> []"
proof -
  from assms(1) obtain object where "patch_selector object = Inr (pr_selector r)"
    by (auto simp: parse_request_def try_then_Inr Let_def split: option.splits JsonValue.splits if_splits)
  with assms(2) have "required_string object (lit ''anchor'') False = Inr a"
    by (auto simp: patch_selector_def try_then_Inr Let_def split: if_splits)
  then show ?thesis by (auto simp: required_string_def trim_Nil_iff split: option.splits if_splits)
qed

definition selector_text :: "PatchSelector \<Rightarrow> ustring" where
  "selector_text selector = (case selector of Range i j expected \<Rightarrow> expected | Anchor a \<Rightarrow> a)"

lemma build_plan_Inr:
  assumes "build_plan sha256 base r = Inr plan"
  shows "selected_range base (pr_selector r) = Inr (pp_start_byte plan, pp_end_byte plan, selector_text (pr_selector r))"
    "pp_after plan = take (pp_start_byte plan) (as_bytes base) @ as_bytes (pr_replacement r) @
      drop (pp_end_byte plan) (as_bytes base)"
    "is_char_boundary base (pp_start_byte plan)" "is_char_boundary base (pp_end_byte plan)"
    "pp_end_byte plan \<le> str_len base"
    "byte_slice (as_bytes base) (pp_start_byte plan) (pp_end_byte plan) = as_bytes (selector_text (pr_selector r))"
    "sat_add (str_len base - (pp_end_byte plan - pp_start_byte plan)) (str_len (pr_replacement r)) \<le> MAX_PATCH_FILE_BYTES"
    "pp_after plan \<noteq> as_bytes base"
    "pp_before_sha256 plan = sha256_hex sha256 (as_bytes base)" "pp_after_sha256 plan = sha256_hex sha256 (pp_after plan)"
    "pp_before_bytes plan = str_len base"
proof -
  from assms obtain i j expected where s: "selected_range base (pr_selector r) = Inr (i, j, expected)"
    by (cases "selected_range base (pr_selector r)") (auto simp: build_plan_def)
  moreover have "expected = selector_text (pr_selector r)"
    using s by (auto simp: selected_range_def selector_text_def split: PatchSelector.splits list.splits)
  ultimately show "selected_range base (pr_selector r) = Inr (pp_start_byte plan, pp_end_byte plan, selector_text (pr_selector r))"
    "pp_after plan = take (pp_start_byte plan) (as_bytes base) @ as_bytes (pr_replacement r) @
      drop (pp_end_byte plan) (as_bytes base)"
    "is_char_boundary base (pp_start_byte plan)" "is_char_boundary base (pp_end_byte plan)"
    "pp_end_byte plan \<le> str_len base"
    "byte_slice (as_bytes base) (pp_start_byte plan) (pp_end_byte plan) = as_bytes (selector_text (pr_selector r))"
    "sat_add (str_len base - (pp_end_byte plan - pp_start_byte plan)) (str_len (pr_replacement r)) \<le> MAX_PATCH_FILE_BYTES"
    "pp_after plan \<noteq> as_bytes base"
    "pp_before_sha256 plan = sha256_hex sha256 (as_bytes base)" "pp_after_sha256 plan = sha256_hex sha256 (pp_after plan)"
    "pp_before_bytes plan = str_len base"
    using assms by (auto simp: build_plan_def Let_def str_len_def split: if_splits)
qed

lemma selected_ordered:
  assumes "parse_request from_str input = Inr r" "selected_range base (pr_selector r) = Inr (i, j, e)"
    and "str_len base \<le> u64_max"
  shows "i \<le> j"
proof (cases "pr_selector r")
  case (Range i' j' e')
  with parse_range_ordered [OF assms(1) this] assms(2) show ?thesis by (simp add: selected_range_def)
next
  case (Anchor a)
  with assms(2) have "anchor_matches base a = [i]" "j = sat_add i (str_len a)"
    by (auto simp: selected_range_def split: list.splits)
  moreover then have "i \<in> occurrences base a"
    using anchor_matches_iff(2) [OF parse_anchor_nonempty [OF assms(1) Anchor]] by auto
  ultimately show ?thesis using occurrence_bound [of i base a] assms(3) by (simp add: sat_add_def)
qed

lemma sat_add_le_small: "sat_add a b \<le> MAX_PATCH_FILE_BYTES \<Longrightarrow> a + b \<le> MAX_PATCH_FILE_BYTES"
  by (auto simp: sat_add_def MAX_PATCH_FILE_BYTES_def u64_max_def)

text \<open>A plan replaces text by text: the base splits into a prefix, the selected text and a suffix, and
  the new bytes are the encoding of the prefix, the replacement and the suffix; so a patched file is
  valid UTF-8 again, differs from the base and stays within the limit. An anchor is accepted only if
  it occurs exactly once in the base, overlapping occurrences included.\<close>

lemma plan_splices:
  assumes "parse_request from_str input = Inr r" "build_plan sha256 base r = Inr plan" "str_len base \<le> u64_max"
  shows "(\<exists>p q. base = p @ selector_text (pr_selector r) @ q \<and> length (as_bytes p) = pp_start_byte plan \<and>
      pp_after plan = as_bytes (p @ pr_replacement r @ q)) \<and>
    pp_after plan \<noteq> as_bytes base \<and> length (pp_after plan) \<le> MAX_PATCH_FILE_BYTES \<and>
    (\<forall>a. pr_selector r = Anchor a \<longrightarrow> occurrences base a = {pp_start_byte plan})"
proof (intro conjI allI impI)
  note b = build_plan_Inr [OF assms(2)]
  have "pp_start_byte plan \<le> pp_end_byte plan" using selected_ordered [OF assms(1) b(1) assms(3)] .
  with slice_of_boundaries [OF b(3,4)] obtain p m q where s: "base = p @ m @ q"
      "length (as_bytes p) = pp_start_byte plan" "length (as_bytes (p @ m)) = pp_end_byte plan"
      "byte_slice (as_bytes base) (pp_start_byte plan) (pp_end_byte plan) = as_bytes m"
    by blast
  have "m = selector_text (pr_selector r)" using s(4) b(6) as_bytes_inj by simp
  moreover have after: "pp_after plan = as_bytes (p @ pr_replacement r @ q)"
    unfolding b(2) s(2) [symmetric] s(3) [symmetric] using s(1) by simp
  ultimately show "\<exists>p q. base = p @ selector_text (pr_selector r) @ q \<and> length (as_bytes p) = pp_start_byte plan \<and>
      pp_after plan = as_bytes (p @ pr_replacement r @ q)"
    using s(1,2) by blast
  show "pp_after plan \<noteq> as_bytes base" by (rule b(8))
  have "length (pp_after plan) = str_len base - (pp_end_byte plan - pp_start_byte plan) + str_len (pr_replacement r)"
    using s(1-3) after by (simp add: str_len_def)
  with sat_add_le_small [OF b(7)] show "length (pp_after plan) \<le> MAX_PATCH_FILE_BYTES" by simp
  show "occurrences base a = {pp_start_byte plan}" if "pr_selector r = Anchor a" for a
    using b(1) that anchor_matches_iff(2) [OF parse_anchor_nonempty [OF assms(1) that]]
    by (auto simp: selected_range_def split: list.splits)
qed

end
