(* ===== verification/File_Patch_Properties.thy ===== *)
theory File_Patch_Properties
  imports Patch_Batch Patch_Properties
begin

text \<open>
  Patches on the file system: a single patch replaces exactly the file it read or leaves every file
  alone, and a batch is applied as a whole or rolled back, with truthful statuses.
\<close>

section \<open>Decoding\<close>

lemma split_base: "y < (k::nat) \<Longrightarrow> (x * k + y) div k = x" "y < (k::nat) \<Longrightarrow> (x * k + y) mod k = y"
  by simp_all

lemma utf8_two:
  assumes "194 \<le> a" "a < 224" "is_continuation b"
  shows "utf8_char ((a - 192) * 64 + (b - 128)) = [a, b]"
proof -
  have r: "b - 128 < 64" "2 \<le> a - 192" "a - 192 < 32" "192 + (a - 192) = a" "128 + (b - 128) = b"
    using assms by (auto simp: is_continuation_def)
  then have "\<not> (a - 192) * 64 + (b - 128) < 128" "(a - 192) * 64 + (b - 128) < 2048" by linarith+
  with r show ?thesis unfolding utf8_char_def by (simp only: split_base if_True if_False)
qed

lemma utf8_three:
  assumes "224 \<le> a" "a < 240" "is_continuation b" "is_continuation c"
    and "2048 \<le> (a - 224) * 4096 + (b - 128) * 64 + (c - 128)"
  shows "utf8_char ((a - 224) * 4096 + (b - 128) * 64 + (c - 128)) = [a, b, c]"
proof -
  define x y z where d: "x = a - 224" "y = b - 128" "z = c - 128"
  have r: "x < 16" "y < 64" "z < 64" "224 + x = a" "128 + y = b" "128 + z = c"
    using assms(1-4) by (auto simp: d is_continuation_def)
  let ?v = "x * 4096 + y * 64 + z"
  have v: "?v = (x * 64 + y) * 64 + z" by simp
  have "?v div 64 = x * 64 + y" "?v mod 64 = z" unfolding v using r by (simp_all only: split_base)
  moreover have "?v div 4096 = x" using r by (intro div_nat_eqI) auto
  moreover have "(x * 64 + y) mod 64 = y" using r by (simp only: split_base)
  moreover have "?v < 65536" using r by linarith
  ultimately show ?thesis using r assms(5) unfolding d [symmetric] by (simp add: utf8_char_def)
qed

lemma utf8_four:
  assumes "240 \<le> a" "is_continuation b" "is_continuation c" "is_continuation d"
    and "65536 \<le> (a - 240) * 262144 + (b - 128) * 4096 + (c - 128) * 64 + (d - 128)"
  shows "utf8_char ((a - 240) * 262144 + (b - 128) * 4096 + (c - 128) * 64 + (d - 128)) = [a, b, c, d]"
proof -
  define x y z w where e: "x = a - 240" "y = b - 128" "z = c - 128" "w = d - 128"
  have r: "y < 64" "z < 64" "w < 64" "240 + x = a" "128 + y = b" "128 + z = c" "128 + w = d"
    using assms(1-4) by (auto simp: e is_continuation_def)
  let ?v = "x * 262144 + y * 4096 + z * 64 + w"
  have v: "?v = (x * 4096 + y * 64 + z) * 64 + w" "x * 4096 + y * 64 + z = (x * 64 + y) * 64 + z" by simp_all
  have "?v div 64 = x * 4096 + y * 64 + z" "?v mod 64 = w" unfolding v(1) using r by (simp_all only: split_base)
  moreover have "(x * 4096 + y * 64 + z) mod 64 = z" unfolding v(2) using r by (simp only: split_base)
  moreover have "?v div 4096 = x * 64 + y" using r by (intro div_nat_eqI) auto
  moreover have "(x * 64 + y) mod 64 = y" using r by (simp only: split_base)
  moreover have "?v div 262144 = x" using r by (intro div_nat_eqI) auto
  ultimately show ?thesis using r assms(5) unfolding e [symmetric] by (simp add: utf8_char_def)
qed

lemma utf8_decode_sound: "utf8_decode bs = Some s \<Longrightarrow> as_bytes s = bs"
proof (induction bs arbitrary: s rule: utf8_decode.induct)
  case 1
  then show ?case by simp
next
  case (2 a rest)
  consider "a < 128" | "194 \<le> a" "a < 224" | "224 \<le> a" "a < 240" | "240 \<le> a" "a < 245"
    | "utf8_decode (a # rest) = None" by force
  then show ?case
  proof cases
    case 1
    with 2 show ?thesis by (auto simp: utf8_char_def)
  next
    case a: 2
    with 2(5) obtain b rest' t where "rest = b # rest'" "is_continuation b" "utf8_decode rest' = Some t"
        "s = ((a - 192) * 64 + (b - 128)) # t"
      by (auto split: list.splits if_splits)
    with a 2(2) utf8_two [OF a, of b] show ?thesis by simp
  next
    case a: 3
    with 2(5) obtain b c rest' t where r: "rest = b # c # rest'" "is_continuation b" "is_continuation c"
        "2048 \<le> (a - 224) * 4096 + (b - 128) * 64 + (c - 128)"
        "\<not> (55296 \<le> (a - 224) * 4096 + (b - 128) * 64 + (c - 128) \<and> (a - 224) * 4096 + (b - 128) * 64 + (c - 128) < 57344)"
        "utf8_decode rest' = Some t" "s = ((a - 224) * 4096 + (b - 128) * 64 + (c - 128)) # t"
      by (auto simp: Let_def split: list.splits if_splits)
    with a 2(3) [of b "c # rest'" c rest'] utf8_three [OF a r(2-4)] show ?thesis by simp
  next
    case a: 4
    with 2(5) obtain b c d rest' t where r: "rest = b # c # d # rest'" "is_continuation b" "is_continuation c"
        "is_continuation d" "65536 \<le> (a - 240) * 262144 + (b - 128) * 4096 + (c - 128) * 64 + (d - 128)"
        "(a - 240) * 262144 + (b - 128) * 4096 + (c - 128) * 64 + (d - 128) \<le> 1114111"
        "utf8_decode rest' = Some t" "s = ((a - 240) * 262144 + (b - 128) * 4096 + (c - 128) * 64 + (d - 128)) # t"
      by (auto simp: Let_def split: list.splits if_splits)
    with a 2(4) [of b "c # d # rest'" c "d # rest'" d rest'] utf8_four [OF a(1) r(2-5)] show ?thesis by simp
  next
    case 5
    with 2(5) show ?thesis by simp
  qed
qed

section \<open>Preparing\<close>

lemma read_utf8_base_Inr:
  assumes "read_utf8_base os fs p = Inr base"
  shows "os_read os fs p = Some (as_bytes base)" "str_len base \<le> MAX_PATCH_FILE_BYTES"
proof -
  obtain bytes where r: "os_read os fs p = Some bytes" "length bytes \<le> MAX_PATCH_FILE_BYTES"
      "utf8_decode bytes = Some base"
    using assms by (auto simp: read_utf8_base_def Let_def split: option.splits if_splits)
  with utf8_decode_sound [OF r(3)] show "os_read os fs p = Some (as_bytes base)" "str_len base \<le> MAX_PATCH_FILE_BYTES"
    by (simp_all add: str_len_def)
qed

lemma resolve_existing_target_Inr:
  assumes "resolve_existing_target env fs p = Inr target"
  shows "\<exists>unresolved. os_canonicalize (pe_os env) fs unresolved = Some target"
    "\<exists>root. os_canonicalize (pe_os env) fs (pe_root env) = Some root \<and> path_starts_with target root"
proof -
  obtain unresolved where "resolve_workspace_read_path (pe_os env) fs (pe_root env) unresolved = Inr target"
    using assms by (auto simp: resolve_existing_target_def split: sum.splits stat_answer.splits)
  then show "\<exists>unresolved. os_canonicalize (pe_os env) fs unresolved = Some target"
    "\<exists>root. os_canonicalize (pe_os env) fs (pe_root env) = Some root \<and> path_starts_with target root"
    by (auto simp: resolve_workspace_read_path_def split: option.splits if_splits)
qed

lemma max_patch_u64: "n \<le> MAX_PATCH_FILE_BYTES \<Longrightarrow> n \<le> u64_max"
  by (simp add: MAX_PATCH_FILE_BYTES_def u64_max_def)

text \<open>What a prepared patch knows of the file it was prepared from.\<close>

definition faithful :: "patch_env \<Rightarrow> fs \<Rightarrow> PreparedPatch \<Rightarrow> bool" where
  "faithful env fs p \<longleftrightarrow>
     fs (pd_target p) = Some (RegularFile (pd_before p)) \<and>
     pp_before_sha256 (pd_plan p) = sha256_hex (pe_sha256 env) (pd_before p) \<and>
     pp_after_sha256 (pd_plan p) = sha256_hex (pe_sha256 env) (pp_after (pd_plan p))"

definition splices :: "PreparedPatch \<Rightarrow> bool" where
  "splices p \<longleftrightarrow>
     (\<exists>u v. pd_before p = as_bytes (u @ selector_text (pr_selector (pd_request p)) @ v) \<and>
       pp_after (pd_plan p) = as_bytes (u @ pr_replacement (pd_request p) @ v) \<and>
       (\<forall>a. pr_selector (pd_request p) = Anchor a \<longrightarrow> occurrences (u @ a @ v) a = {length (as_bytes u)}))"

lemma prepare_patch_Inr:
  assumes "prepare_patch env input fs = Inr p"
  obtains base where "parse_request (pe_from_str env) input = Inr (pd_request p)"
    "resolve_existing_target env fs (pr_path (pd_request p)) = Inr (pd_target p)"
    "read_utf8_base (pe_os env) fs (pd_target p) = Inr base"
    "sha256_hex (pe_sha256 env) (as_bytes base) = pr_expected_base_sha256 (pd_request p)"
    "build_plan (pe_sha256 env) base (pd_request p) = Inr (pd_plan p)" "pd_before p = as_bytes base"
  using assms by (auto simp: prepare_patch_def try_then_Inr Let_def split: if_splits)

lemma prepared_faithful:
  assumes "reads_files (pe_os env)" "prepare_patch env input fs = Inr p"
  shows "faithful env fs p"
proof -
  from prepare_patch_Inr [OF assms(2)] obtain base where b:
      "resolve_existing_target env fs (pr_path (pd_request p)) = Inr (pd_target p)"
      "read_utf8_base (pe_os env) fs (pd_target p) = Inr base"
      "build_plan (pe_sha256 env) base (pd_request p) = Inr (pd_plan p)" "pd_before p = as_bytes base" by metis
  have "fs (pd_target p) = Some (RegularFile (pd_before p))"
    using assms(1) resolve_existing_target_Inr(1) [OF b(1)] read_utf8_base_Inr(1) [OF b(2)] b(4)
    unfolding reads_files_def by metis
  with build_plan_Inr(9,10) [OF b(3)] b(4) show ?thesis by (simp add: faithful_def)
qed

lemma prepared_splices:
  assumes "prepare_patch env input fs = Inr p"
  shows "splices p" "pp_after (pd_plan p) \<noteq> pd_before p"
    "\<exists>root. os_canonicalize (pe_os env) fs (pe_root env) = Some root \<and> path_starts_with (pd_target p) root"
proof -
  from prepare_patch_Inr [OF assms] obtain base where b:
      "parse_request (pe_from_str env) input = Inr (pd_request p)"
      "resolve_existing_target env fs (pr_path (pd_request p)) = Inr (pd_target p)"
      "read_utf8_base (pe_os env) fs (pd_target p) = Inr base"
      "build_plan (pe_sha256 env) base (pd_request p) = Inr (pd_plan p)" "pd_before p = as_bytes base" by metis
  note plan = plan_splices [OF b(1,4) max_patch_u64 [OF read_utf8_base_Inr(2) [OF b(3)]]]
  then obtain u v where uv: "base = u @ selector_text (pr_selector (pd_request p)) @ v"
      "length (as_bytes u) = pp_start_byte (pd_plan p)"
      "pp_after (pd_plan p) = as_bytes (u @ pr_replacement (pd_request p) @ v)" by blast
  then show "splices p" using plan b(5) unfolding splices_def
    by (intro exI [of _ u] exI [of _ v]) (auto simp: selector_text_def)
  show "pp_after (pd_plan p) \<noteq> pd_before p" using plan b(5) by simp
  show "\<exists>root. os_canonicalize (pe_os env) fs (pe_root env) = Some root \<and> path_starts_with (pd_target p) root"
    by (rule resolve_existing_target_Inr(2) [OF b(2)])
qed

section \<open>Replacing and keeping\<close>

lemma kept_refl: "kept fs fs" by (simp add: kept_def)
lemma kept_trans: "kept f g \<Longrightarrow> kept g h \<Longrightarrow> kept f h" by (simp add: kept_def)

lemma atomic_replace_Inr:
  assumes "atomic_replace sha256 rc target bytes expected n fs = (Inr u, fs')"
  shows "fs' = fs(target \<mapsto> RegularFile bytes)"
    "\<exists>content. fs target = Some (RegularFile content) \<and> sha256_hex sha256 content = expected"
  using assms by (auto simp: atomic_replace_def bounded_sha256_def
    split: if_splits option.splits file_node.splits call_answer.splits)

lemma atomic_replace_Inl: "atomic_replace sha256 rc target bytes expected n fs = (Inl e, fs') \<Longrightarrow> fs' = fs"
  by (auto simp: atomic_replace_def split: if_splits option.splits file_node.splits call_answer.splits)

lemma write_immutable_kept:
  assumes "keeps_existing os" "write_immutable_file_atomically os p bytes fs = (ok, fs')"
  shows "kept fs fs'"
proof -
  have "kept fs (answer_fs (os_publish_new os fs p bytes))" using assms(1) by (simp add: keeps_existing_def)
  with assms(2) kept_refl show ?thesis
    by (auto simp: write_immutable_file_atomically_def split: if_splits publish_answer.splits)
qed

lemma preserve_history_kept:
  assumes "keeps_existing os" "preserve_history_version os root invocation dir p bytes fs = (r, fs')"
  shows "kept fs fs'"
  using assms(2) write_immutable_kept [OF assms(1)] kept_refl
  by (auto simp: preserve_history_version_def Let_def split: sum.splits prod.splits)

lemma faithful_kept: "faithful env fs p \<Longrightarrow> kept fs fs' \<Longrightarrow> faithful env fs' p"
  by (simp add: faithful_def kept_def)

section \<open>One patch\<close>

lemma finish_publish_kept:
  assumes "keeps_existing (pe_os env)" "finish_publish env invocation p res fs = (out, fs')"
  shows "kept fs fs'" "out = PatchFailed w e \<Longrightarrow> \<exists>x. res = Inl x"
    "out = PatchApplied p' x y \<Longrightarrow> res = Inr () \<and> p' = p"
  using assms(2) preserve_history_kept [OF assms(1)] kept_refl
  by (auto simp: finish_publish_def Let_def split: sum.splits prod.splits)

lemma patch_execute_cases:
  assumes "keeps_existing (pe_os env)" "patch_execute env rc invocation fs = (out, fs')"
  obtains (refused) w e where "out = PatchFailed w e" "fs' = fs"
  | (failed) p w e where "out = PatchFailed w e" "prepare_patch env (ti_input_json invocation) fs = Inr p" "kept fs fs'"
  | (applied) p x y fs1 where "out = PatchApplied p x y" "prepare_patch env (ti_input_json invocation) fs = Inr p"
      "kept fs fs1" "kept (fs1(pd_target p \<mapsto> RegularFile (pp_after (pd_plan p)))) fs'"
proof (cases "prepare_patch env (ti_input_json invocation) fs")
  case (Inl issue)
  with assms(2) show ?thesis by (intro refused) (auto simp: patch_execute_def)
next
  case (Inr p)
  obtain u fs1 where u: "preserve_history_version (pe_os env) (pe_root env) invocation ''undo-history''
      (pr_path (pd_request p)) (pd_before p) fs = (u, fs1)" by force
  obtain res fs2 where res: "publish_prepared env rc p fs1 = (res, fs2)" by force
  have f: "finish_publish env invocation p res fs2 = (out, fs')"
    using assms(2) Inr u res by (simp add: patch_execute_def)
  have k: "kept fs fs1" "kept fs2 fs'"
    using preserve_history_kept [OF assms(1) u] finish_publish_kept(1) [OF assms(1) f] by auto
  show ?thesis
  proof (cases out)
    case (PatchFailed w e)
    with finish_publish_kept(2) [OF assms(1) f] res have "fs2 = fs1"
      unfolding publish_prepared_def by (metis atomic_replace_Inl)
    with k kept_trans show ?thesis by (intro failed [OF PatchFailed Inr]) blast
  next
    case (PatchApplied p' x y)
    with finish_publish_kept(3) [OF assms(1) f] res have "p' = p"
        "fs2 = fs1(pd_target p \<mapsto> RegularFile (pp_after (pd_plan p)))"
      unfolding publish_prepared_def by (metis atomic_replace_Inr(1))+
    with k PatchApplied Inr show ?thesis by (intro applied [of p]) auto
  qed
qed


section \<open>Batches\<close>

abbreviation target_of :: "BatchItem \<Rightarrow> path" where
  "target_of i \<equiv> pd_target (bi_prepared i)"

abbreviation after_of :: "BatchItem \<Rightarrow> nat list" where
  "after_of i \<equiv> pp_after (pd_plan (bi_prepared i))"

lemma validate_item_ready:
  "validate_item env to_str fs item st = (ItemReady i, st') \<Longrightarrow> \<exists>input. prepare_patch env input fs = Inr (bi_prepared i)"
  by (auto simp: validate_item_def Let_def split: prod.splits if_splits sum.splits)

lemma ready_items_prepared:
  "i \<in> set (ready_items (validate_items env to_str fs items st)) \<Longrightarrow> \<exists>input. prepare_patch env input fs = Inr (bi_prepared i)"
proof (induction items arbitrary: st)
  case (Cons item items)
  obtain v st' where "validate_item env to_str fs item st = (v, st')" by (cases "validate_item env to_str fs item st")
  with Cons.prems Cons.IH [of st'] validate_item_ready [of env to_str fs item st i st'] show ?case by (cases v) auto
qed simp

lemma preserve_all_kept: "keeps_existing (pe_os env) \<Longrightarrow> preserve_all env invocation dir content items fs = (ps, fs') \<Longrightarrow> kept fs fs'"
proof (induction items arbitrary: fs ps)
  case (Cons i items)
  from Cons.prems(2) obtain p fs1 qs where
      "preserve_history_version (pe_os env) (pe_root env) invocation dir (bi_path i) (content (bi_prepared i)) fs = (p, fs1)"
      "preserve_all env invocation dir content items fs1 = (qs, fs')"
    by (auto split: prod.splits)
  with Cons preserve_history_kept [OF Cons.prems(1)] kept_trans show ?case by blast
qed (simp add: kept_refl)

text \<open>A failed publication leaves the prefix before it published and nothing else changed.\<close>

fun published :: "BatchItem list \<Rightarrow> fs \<Rightarrow> fs" where
  "published [] fs = fs"
| "published (i # items) fs = published items (fs(target_of i \<mapsto> RegularFile (after_of i)))"

lemma publish_all_published:
  assumes "publish_all env rcs k items fs = (r, fs')"
  shows "case r of None \<Rightarrow> fs' = published items fs
    | Some (failed, e) \<Rightarrow> k \<le> failed \<and> failed < k + length items \<and> fs' = published (take (failed - k) items) fs"
  using assms
proof (induction items arbitrary: k fs)
  case (Cons i items)
  obtain res fs1 where p: "publish_prepared env (rcs k) (bi_prepared i) fs = (res, fs1)" by force
  show ?case
  proof (cases res)
    case (Inl e)
    with p atomic_replace_Inl have "fs1 = fs" unfolding publish_prepared_def by blast
    with Cons.prems p Inl show ?thesis by auto
  next
    case (Inr u)
    with p atomic_replace_Inr(1) have "fs1 = fs(target_of i \<mapsto> RegularFile (after_of i))"
      unfolding publish_prepared_def by blast
    then have eq: "published (i # xs) fs = published xs fs1" for xs by simp
    have "publish_all env rcs (Suc k) items fs1 = (r, fs')" using Cons.prems p Inr by simp
    note IH = Cons.IH [OF this]
    show ?thesis
    proof (cases r)
      case None
      with IH eq show ?thesis by simp
    next
      case (Some fe)
      obtain failed e where "fe = (failed, e)" by (cases fe)
      moreover with Some IH have "take (failed - k) (i # items) = i # take (failed - Suc k) items"
        by (simp add: take_Cons')
      ultimately show ?thesis using Some IH eq by (simp add: eq del: published.simps)
    qed
  qed
qed simp

lemma published_other: "q \<notin> target_of ` set items \<Longrightarrow> published items fs q = fs q"
  by (induction items arbitrary: fs) auto

lemma published_target: "distinct (map target_of items) \<Longrightarrow> i \<in> set items \<Longrightarrow>
  published items fs (target_of i) = Some (RegularFile (after_of i))"
  by (induction items arbitrary: fs) (auto simp: published_other)

text \<open>Published without a failure: as each publication checks the digest read before, a second item for
  the same file would have failed.\<close>

lemma publish_all_distinct:
  assumes "publish_all env rcs k items fs = (None, fs')"
    and "\<forall>i\<in>set items. pp_before_sha256 (pd_plan (bi_prepared i)) = b (target_of i) \<and>
      sha256_hex (pe_sha256 env) (after_of i) \<noteq> b (target_of i)"
    and "\<forall>q\<in>D. \<exists>c. fs q = Some (RegularFile c) \<and> sha256_hex (pe_sha256 env) c \<noteq> b q"
  shows "distinct (map target_of items) \<and> D \<inter> target_of ` set items = {}"
  using assms
proof (induction items arbitrary: k fs D)
  case (Cons i items)
  from Cons.prems(1) obtain u fs1 where p: "publish_prepared env (rcs k) (bi_prepared i) fs = (Inr u, fs1)"
      and rest: "publish_all env rcs (Suc k) items fs1 = (None, fs')"
    by (auto split: prod.splits sum.splits)
  note r = atomic_replace_Inr [OF p [unfolded publish_prepared_def]]
  then have "target_of i \<notin> D" using Cons.prems(2,3) by fastforce
  moreover from this have D: "\<forall>q\<in>insert (target_of i) D. \<exists>c. fs1 q = Some (RegularFile c) \<and> sha256_hex (pe_sha256 env) c \<noteq> b q"
    using r(1) Cons.prems(2,3) by auto
  have "distinct (map target_of items) \<and> insert (target_of i) D \<inter> target_of ` set items = {}"
    by (rule Cons.IH [OF rest _ D]) (use Cons.prems(2) in simp)
  ultimately show ?case by auto
qed simp

definition rolled_back_in :: "fs \<Rightarrow> fs \<Rightarrow> nat \<times> BatchItem \<Rightarrow> nat \<times> ItemStatus \<Rightarrow> bool" where
  "rolled_back_in fs0 fs ki ks \<longleftrightarrow> fst ks = fst ki \<and>
     (snd ks = StRollbackFailed \<or> snd ks = StRolledBack \<and> fs (target_of (snd ki)) = fs0 (target_of (snd ki)))"

lemma rollback_restores:
  assumes "rollback env rcs kis fs = (ss, fs')"
    and "\<forall>ki\<in>set kis. fs0 (target_of (snd ki)) = Some (RegularFile (pd_before (bi_prepared (snd ki))))"
  shows "list_all2 (rolled_back_in fs0 fs') kis ss \<and> (\<forall>q. fs q = fs0 q \<longrightarrow> fs' q = fs0 q) \<and>
    (\<forall>q. q \<notin> (target_of \<circ> snd) ` set kis \<longrightarrow> fs' q = fs q)"
  using assms
proof (induction kis arbitrary: fs ss)
  case (Cons ki kis)
  obtain k i where ki: "ki = (k, i)" by (cases ki)
  obtain r fs1 where r: "restore_prepared env (rcs k) (bi_prepared i) fs = (r, fs1)" by force
  obtain ss2 where ss2: "rollback env rcs kis fs1 = (ss2, fs')"
      and ss: "ss = (k, case r of Inr _ \<Rightarrow> StRolledBack | Inl _ \<Rightarrow> StRollbackFailed) # ss2"
    using Cons.prems(1) r ki by (auto split: prod.splits)
  note IH = Cons.IH [OF ss2]
  show ?case
  proof (cases r)
    case (Inl e)
    with r have "fs1 = fs" unfolding restore_prepared_def by (metis atomic_replace_Inl)
    with IH Cons.prems(2) Inl ss ki show ?thesis by (auto simp: rolled_back_in_def)
  next
    case (Inr u)
    with r have fs1: "fs1 = fs(target_of i \<mapsto> RegularFile (pd_before (bi_prepared i)))"
      unfolding restore_prepared_def by (metis atomic_replace_Inr(1))
    then have "fs1 (target_of i) = fs0 (target_of i)" using Cons.prems(2) ki by simp
    moreover from this fs1 have "fs q = fs0 q \<Longrightarrow> fs1 q = fs0 q" for q by auto
    ultimately show ?thesis using IH Cons.prems(2) Inr ss ki fs1 by (auto simp: rolled_back_in_def)
  qed
qed simp

lemma list_all2_member: "list_all2 P xs ys \<Longrightarrow> y \<in> set ys \<Longrightarrow> \<exists>x\<in>set xs. P x y"
  by (induction rule: list_all2_induct) auto

lemma failed_statuses_nth:
  assumes "k < n" "failed \<le> n" "map fst rolled = rev [0..<failed]"
  shows "k < failed \<Longrightarrow> (k, failed_statuses n failed rolled ! k) \<in> set rolled"
    "failed \<le> k \<Longrightarrow> failed_statuses n failed rolled ! k \<in> {StFailed, StSkipped}"
proof -
  assume "k < failed"
  then have "k \<in> fst ` set rolled" unfolding set_map [symmetric] assms(3) by simp
  then obtain s where "map_of rolled k = Some s" by (metis map_of_eq_None_iff not_None_eq)
  with \<open>k < failed\<close> assms(1) show "(k, failed_statuses n failed rolled ! k) \<in> set rolled"
    by (simp add: failed_statuses_def map_of_SomeD)
qed (use assms(1) in \<open>simp add: failed_statuses_def\<close>)

lemma rolled_keys: "list_all2 (rolled_back_in fs0 fs) kis ss \<Longrightarrow> map fst ss = map fst kis"
  by (induction rule: list_all2_induct) (auto simp: rolled_back_in_def)

text \<open>The statuses of a failed batch: the applied prefix was rolled back, or is reported as not rolled back.\<close>

lemma failed_status_cases:
  assumes "list_all2 (rolled_back_in fs0 fs) (rev (zip [0..<failed] items)) rolled" "failed \<le> length items" "k < length items"
    and "s = failed_statuses (length items) failed rolled ! k"
  shows "k < failed \<Longrightarrow> s = StRollbackFailed \<or> s = StRolledBack \<and> fs (target_of (items ! k)) = fs0 (target_of (items ! k))"
    "failed \<le> k \<Longrightarrow> s \<in> {StFailed, StSkipped}"
proof -
  have keys: "map fst rolled = rev [0..<failed]" using rolled_keys [OF assms(1)] assms(2) by (simp add: rev_map [symmetric] map_fst_zip_take)
  note nth = failed_statuses_nth [OF assms(3,2) keys, folded assms(4)]
  show "failed \<le> k \<Longrightarrow> s \<in> {StFailed, StSkipped}" by (rule nth(2))
  assume "k < failed"
  from list_all2_member [OF assms(1) nth(1) [OF this]] obtain ki where ki: "ki \<in> set (zip [0..<failed] items)"
      "rolled_back_in fs0 fs ki (k, s)" by auto
  then have "fst ki = k" by (simp add: rolled_back_in_def)
  with ki(1) have "snd ki = items ! k" by (auto simp: set_zip)
  with ki(2) show "s = StRollbackFailed \<or> s = StRolledBack \<and> fs (target_of (items ! k)) = fs0 (target_of (items ! k))"
    by (auto simp: rolled_back_in_def)
qed

lemma failed_statuses_length [simp]: "length (failed_statuses n failed rolled) = n"
  by (simp add: failed_statuses_def)

text \<open>The outcome of a batch whose publication failed at \<open>failed\<close>.\<close>

lemma failed_batch:
  assumes "\<forall>i\<in>set items. faithful env fs1 (bi_prepared i)" "failed < length items"
    and "rollback env rcs (rev (zip [0..<failed] items)) (published (take failed items) fs1) = (rolled, fs')"
    and "statuses = zip items (failed_statuses (length items) failed rolled)"
  shows "(i, s) \<in> set statuses \<Longrightarrow> s \<in> {StRolledBack, StRollbackFailed, StFailed, StSkipped}"
    "(i, StRolledBack) \<in> set statuses \<Longrightarrow> fs' (target_of i) = fs1 (target_of i)"
    "\<forall>i. (i, StRollbackFailed) \<in> set statuses \<longrightarrow> target_of i \<noteq> q \<Longrightarrow> fs' q = fs1 q"
proof -
  have sub: "set (zip [0..<failed] items) \<subseteq> {(k, items ! k) | k. k < failed \<and> k < length items}"
    by (auto simp: set_zip)
  have "\<forall>ki\<in>set (rev (zip [0..<failed] items)). fs1 (target_of (snd ki)) = Some (RegularFile (pd_before (bi_prepared (snd ki))))"
    using assms(1) sub by (force simp: faithful_def)
  note r = rollback_restores [OF assms(3) this]
  have cases: "s = StRollbackFailed \<or> s = StRolledBack \<and> fs' (target_of i) = fs1 (target_of i) \<or> s \<in> {StFailed, StSkipped}"
    if "(i, s) \<in> set statuses" for i s
    using that failed_status_cases [OF conjunct1 [OF r] less_imp_le [OF assms(2)]]
    unfolding assms(4) by (fastforce simp: set_zip not_less [symmetric])
  show "(i, s) \<in> set statuses \<Longrightarrow> s \<in> {StRolledBack, StRollbackFailed, StFailed, StSkipped}" using cases by blast
  show "(i, StRolledBack) \<in> set statuses \<Longrightarrow> fs' (target_of i) = fs1 (target_of i)" using cases by blast
  assume q: "\<forall>i. (i, StRollbackFailed) \<in> set statuses \<longrightarrow> target_of i \<noteq> q"
  show "fs' q = fs1 q"
  proof (cases "q \<in> target_of ` set (take failed items)")
    case True
    then obtain k where k: "k < failed" "q = target_of (items ! k)" using assms(2) by (auto simp: in_set_conv_nth)
    let ?s = "failed_statuses (length items) failed rolled ! k"
    have "(items ! k, ?s) \<in> set statuses" unfolding assms(4) using k(1) assms(2) by (auto simp: set_zip)
    with q k failed_status_cases(1) [OF conjunct1 [OF r] less_imp_le [OF assms(2)] less_trans [OF k(1) assms(2)] refl k(1)]
    show ?thesis by auto
  next
    case False
    then have "published (take failed items) fs1 q = fs1 q" by (rule published_other)
    with r show ?thesis by auto
  qed
qed

text \<open>The outcome of a batch whose publications all succeeded.\<close>

lemma applied_batch:
  assumes "\<forall>i\<in>set items. faithful env fs (bi_prepared i)" "publish_all env rcs 0 items fs = (None, fs2)" "kept fs2 fs'"
  shows "q \<notin> target_of ` set items \<Longrightarrow> fs q = Some n \<Longrightarrow> fs' q = Some n"
    "\<forall>i\<in>set items. pp_before_sha256 (pd_plan (bi_prepared i)) \<noteq> pp_after_sha256 (pd_plan (bi_prepared i)) \<Longrightarrow>
      distinct (map target_of items) \<and> (\<forall>i\<in>set items. fs' (target_of i) = Some (RegularFile (after_of i)))"
proof -
  have fs2: "fs2 = published items fs" using publish_all_published [OF assms(2)] by simp
  then show "q \<notin> target_of ` set items \<Longrightarrow> fs q = Some n \<Longrightarrow> fs' q = Some n"
    using assms(3) by (simp add: kept_def published_other)
  define b where "b q = (case fs q of Some (RegularFile c) \<Rightarrow> sha256_hex (pe_sha256 env) c | _ \<Rightarrow> [])" for q
  have b: "fs q = Some (RegularFile c) \<Longrightarrow> b q = sha256_hex (pe_sha256 env) c" for q c by (simp add: b_def)
  assume ne: "\<forall>i\<in>set items. pp_before_sha256 (pd_plan (bi_prepared i)) \<noteq> pp_after_sha256 (pd_plan (bi_prepared i))"
  have "\<forall>i\<in>set items. pp_before_sha256 (pd_plan (bi_prepared i)) = b (target_of i) \<and>
      sha256_hex (pe_sha256 env) (after_of i) \<noteq> b (target_of i)"
  proof
    fix i
    assume "i \<in> set items"
    with assms(1) ne show "pp_before_sha256 (pd_plan (bi_prepared i)) = b (target_of i) \<and>
        sha256_hex (pe_sha256 env) (after_of i) \<noteq> b (target_of i)"
      unfolding faithful_def by (metis b)
  qed
  from publish_all_distinct [OF assms(2) this, of "{}"] have d: "distinct (map target_of items)" by simp
  with published_target [OF d] assms(3) fs2 show "distinct (map target_of items) \<and> (\<forall>i\<in>set items. fs' (target_of i) = Some (RegularFile (after_of i)))"
    by (simp add: kept_def)
qed

lemma run_batch_cases:
  assumes "keeps_existing (pe_os env)" "run_batch env to_str publishes restores invocation fs = (out, fs')"
  obtains (envelope) issue where "out = BatchEnvelopeFailed issue" "fs' = fs"
  | (invalid) verdicts where "out = BatchInvalid verdicts" "fs' = fs"
  | (failed) items failed rolled issue fs1 where
      "\<forall>i\<in>set items. \<exists>input. prepare_patch env input fs = Inr (bi_prepared i)" "kept fs fs1" "failed < length items"
      "out = BatchPublishFailed (zip items (failed_statuses (length items) failed rolled)) issue"
      "rollback env restores (rev (zip [0..<failed] items)) (published (take failed items) fs1) = (rolled, fs')"
  | (applied) items us as fs1 fs2 where
      "\<forall>i\<in>set items. \<exists>input. prepare_patch env input fs = Inr (bi_prepared i)" "kept fs fs1"
      "out = BatchApplied items us as" "publish_all env publishes 0 items fs1 = (None, fs2)" "kept fs2 fs'"
proof (cases "parse_envelope (pe_from_str env) (ti_input_json invocation)")
  case (Inl issue)
  with assms(2) show ?thesis by (intro envelope) (auto simp: run_batch_def)
next
  case (Inr vs)
  define verdicts where v: "verdicts = validate_items env to_str fs vs ({}, 0)"
  define items where it: "items = ready_items verdicts"
  have prep: "\<forall>i\<in>set items. \<exists>input. prepare_patch env input fs = Inr (bi_prepared i)"
    using ready_items_prepared it v by blast
  obtain us fs1 where us: "preserve_all env invocation ''undo-history'' pd_before items fs = (us, fs1)" by force
  obtain r fs2 where r: "publish_all env publishes 0 items fs1 = (r, fs2)" by force
  note kept1 = preserve_all_kept [OF assms(1) us]
  show ?thesis
  proof (cases "list_ex is_refused verdicts")
    case True
    with assms(2) Inr v show ?thesis by (intro invalid) (auto simp: run_batch_def)
  next
    case valid: False
    show ?thesis
    proof (cases r)
      case None
      obtain as fs3 where as: "preserve_all env invocation ''output-history'' (\<lambda>p. pp_after (pd_plan p)) items fs2 = (as, fs3)"
        by force
      have "out = BatchApplied items us as" "fs' = fs3"
        using assms(2) Inr valid None us r as by (simp_all add: run_batch_def Let_def v it)
      with applied [OF prep kept1] r None preserve_all_kept [OF assms(1) as] show ?thesis by blast
    next
      case (Some fe)
      obtain k e where fe: "fe = (k, e)" by (cases fe)
      obtain rolled fs3 where rolled: "rollback env restores (rev (zip [0..<k] items)) fs2 = (rolled, fs3)" by force
      have "k < length items" "fs2 = published (take k items) fs1"
        using publish_all_published [OF r] Some fe by simp_all
      moreover have "out = BatchPublishFailed (zip items (failed_statuses (length items) k rolled)) e" "fs' = fs3"
        using assms(2) Inr valid Some fe us r rolled by (simp_all add: run_batch_def Let_def v it)
      ultimately show ?thesis using failed [OF prep kept1] rolled by blast
    qed
  qed
qed

text \<open>C17. A batch is all or nothing: a batch refused as a whole or for one of its items leaves the file
  system as it was. When a publication fails, every existing file is as before, except the targets
  of items the result reports as not rolled back, and an item reported as rolled back is. When the
  batch is applied, all other existing files are unchanged and, unless a digest collides, the
  targets are distinct files that all hold their new contents - also when two different paths
  name the same file.\<close>

theorem batch_is_all_or_nothing:
  assumes "reads_files (pe_os env)" "keeps_existing (pe_os env)"
    and "run_batch env to_str publishes restores invocation fs = (out, fs')"
  shows "case out of
      BatchEnvelopeFailed _ \<Rightarrow> fs' = fs
    | BatchInvalid _ \<Rightarrow> fs' = fs
    | BatchPublishFailed statuses _ \<Rightarrow>
        (\<forall>q n. fs q = Some n \<longrightarrow> (\<forall>i. (i, StRollbackFailed) \<in> set statuses \<longrightarrow> target_of i \<noteq> q) \<longrightarrow> fs' q = Some n) \<and>
        (\<forall>(i, s)\<in>set statuses. s \<in> {StRolledBack, StRollbackFailed, StFailed, StSkipped} \<and>
          (s = StRolledBack \<longrightarrow> fs' (target_of i) = fs (target_of i)))
    | BatchApplied items _ _ \<Rightarrow>
        (\<forall>q n. q \<notin> target_of ` set items \<longrightarrow> fs q = Some n \<longrightarrow> fs' q = Some n) \<and>
        (\<forall>i\<in>set items. fs (target_of i) = Some (RegularFile (pd_before (bi_prepared i))) \<and> splices (bi_prepared i)) \<and>
        ((\<forall>i\<in>set items. pp_before_sha256 (pd_plan (bi_prepared i)) \<noteq> pp_after_sha256 (pd_plan (bi_prepared i))) \<longrightarrow>
          distinct (map target_of items) \<and> (\<forall>i\<in>set items. fs' (target_of i) = Some (RegularFile (after_of i))))"
  using assms(2,3)
proof (cases rule: run_batch_cases)
  case (failed items k rolled issue fs1)
  have faithful: "faithful env fs1 (bi_prepared i)" "fs1 (target_of i) = fs (target_of i)" if "i \<in> set items" for i
  proof -
    have "faithful env fs (bi_prepared i)" using that failed(1) prepared_faithful [OF assms(1)] by blast
    with faithful_kept [OF this failed(2)] show "faithful env fs1 (bi_prepared i)" "fs1 (target_of i) = fs (target_of i)"
      by (simp_all add: faithful_def)
  qed
  let ?ss = "zip items (failed_statuses (length items) k rolled)"
  note b = failed_batch [OF _ failed(3,5) refl]
  have "fs' q = Some n" if "fs q = Some n" "\<forall>i. (i, StRollbackFailed) \<in> set ?ss \<longrightarrow> target_of i \<noteq> q" for q n
    using b(3) [OF _ that(2)] faithful(1) that(1) failed(2) by (simp add: kept_def)
  moreover have "s \<in> {StRolledBack, StRollbackFailed, StFailed, StSkipped} \<and> (s = StRolledBack \<longrightarrow> fs' (target_of i) = fs (target_of i))"
    if "(i, s) \<in> set ?ss" for i s
    using b(1) [OF _ that] b(2) [of i] that faithful set_zip_leftD [OF that] by auto
  ultimately show ?thesis using failed(4) by auto
next
  case (applied items us as fs1 fs2)
  have prep: "faithful env fs (bi_prepared i)" "splices (bi_prepared i)" if "i \<in> set items" for i
    using that applied(1) prepared_faithful [OF assms(1)] prepared_splices(1) by blast+
  then have f1: "\<forall>i\<in>set items. faithful env fs1 (bi_prepared i)" using faithful_kept applied(2) by blast
  note b = applied_batch [OF this applied(4,5)]
  have "fs' q = Some n" if "q \<notin> target_of ` set items" "fs q = Some n" for q n
    using b(1) [OF that(1)] that(2) applied(2) by (simp add: kept_def)
  with b(2) prep applied(3) show ?thesis by (auto simp: faithful_def)
qed simp_all

section \<open>A workspace with one file\<close>

definition demo_os :: os_calls where
  "demo_os = \<lparr>os_canonicalize = (\<lambda>fs p. Some p),
     os_lstat = (\<lambda>fs p. if fs p = None then CallNotFound else CallOk),
     os_stat = (\<lambda>fs p. case fs p of None \<Rightarrow> StatNotFound | Some OtherNode \<Rightarrow> StatOther 0
       | Some (RegularFile bs) \<Rightarrow> StatFile (length bs)),
     os_open = (\<lambda>fs p. True),
     os_read = (\<lambda>fs p. case fs p of Some (RegularFile bs) \<Rightarrow> Some bs | _ \<Rightarrow> None),
     os_publish_new = (\<lambda>fs p bs. if fs p = None then PublishedNew (fs(p \<mapsto> RegularFile bs)) else PublishExists fs)\<rparr>"

definition demo_sha256 :: "nat list \<Rightarrow> nat list" where
  "demo_sha256 bs = take 32 (bs @ replicate 32 0)"

definition demo_item :: "ustring \<Rightarrow> JsonValue" where
  "demo_item p = JsonObject [(lit ''anchor'', JsonText [98]),
     (lit ''expected_base_sha256'', JsonText (sha256_hex demo_sha256 [97, 98])),
     (lit ''path'', JsonText p), (lit ''replacement'', JsonText [99])]"

definition demo_from_str :: "ustring \<Rightarrow> JsonValue option" where
  "demo_from_str s = Some (if s = [] then JsonObject [(lit ''patches'', JsonArray [demo_item [102], demo_item [46, 47, 102]])]
     else demo_item s)"

definition demo_env :: patch_env where
  "demo_env = \<lparr>pe_os = demo_os, pe_from_str = demo_from_str, pe_sha256 = demo_sha256, pe_root = [[119]]\<rparr>"

definition demo_calls :: replace_calls where
  "demo_calls = \<lparr>rc_staged = True, rc_opened = True, rc_locked = True, rc_locked_metadata = True, rc_path_metadata = CallOk,
     rc_same_file = True, rc_read = True, rc_final_metadata = CallOk, rc_final_same_file = True, rc_finished = True, rc_renamed = True\<rparr>"

definition demo_fs :: fs where
  "demo_fs = [[[119]] \<mapsto> OtherNode, [[119], [102]] \<mapsto> RegularFile [97, 98]]"

lemma demo_laws: "reads_files demo_os" "keeps_existing demo_os"
  by (auto simp: reads_files_def keeps_existing_def kept_def demo_os_def split: option.splits file_node.splits)

definition demo_request :: "ustring \<Rightarrow> PatchRequest" where
  "demo_request p = \<lparr>pr_path = p, pr_expected_base_sha256 = sha256_hex demo_sha256 [97, 98], pr_replacement = [99],
     pr_selector = Anchor [98]\<rparr>"

definition demo_plan :: PatchPlan where
  "demo_plan = \<lparr>pp_after = [97, 99], pp_before_sha256 = sha256_hex demo_sha256 [97, 98],
     pp_after_sha256 = sha256_hex demo_sha256 [97, 99], pp_diff_sha256 = patch_diff_sha256 demo_sha256 1 2 [98] [99],
     pp_start_byte = 1, pp_end_byte = 2, pp_before_bytes = 2, pp_replaced_bytes = 1, pp_replacement_bytes = 1\<rparr>"

definition demo_prepared :: "ustring \<Rightarrow> PreparedPatch" where
  "demo_prepared p = \<lparr>pd_request = demo_request p, pd_target = [[119], [102]], pd_plan = demo_plan, pd_before = [97, 98]\<rparr>"

lemma concat_replicate_pair: "concat (replicate n [x, x]) = replicate (2 * n) x"
  by (induction n) simp_all

lemma demo_digest:
  "sha256_hex demo_sha256 [97, 98] = [54, 49, 54, 50] @ replicate 60 48"
  "sha256_hex demo_sha256 [97, 99] = [54, 49, 54, 51] @ replicate 60 48"
  by (simp_all add: sha256_hex_def demo_sha256_def hex_bytes_def hex_char_def concat_replicate_pair)

lemma as_bytes_zeros: "as_bytes (replicate n 48) = replicate n 48"
  by (induction n) (simp_all add: as_bytes_def utf8_char_def)

lemma demo_digest_sha256: "is_sha256 (sha256_hex demo_sha256 [97, 98])"
    "to_ascii_lowercase (sha256_hex demo_sha256 [97, 98]) = sha256_hex demo_sha256 [97, 98]"
  unfolding demo_digest
  by (simp_all add: is_sha256_def str_len_def as_bytes_zeros utf8_char_def list_all_iff is_ascii_hexdigit_def to_ascii_lowercase_def)

lemma demo_digest_trim: "trim (sha256_hex demo_sha256 [97, 98]) \<noteq> []"
  unfolding demo_digest by (subst trim_id) (simp_all add: is_whitespace_def)

lemma demo_fields:
  "bt_get [(lit ''anchor'', a), (lit ''expected_base_sha256'', b), (lit ''path'', c), (lit ''replacement'', d)] k =
     (if k = lit ''anchor'' then Some a else if k = lit ''expected_base_sha256'' then Some b
      else if k = lit ''path'' then Some c else if k = lit ''replacement'' then Some d else None)"
  by (auto simp: bt_get_def)

lemma demo_small: "\<not> MAX_PATCH_FILE_BYTES < 1" "\<not> MAX_PATCH_FILE_BYTES < 2" "\<not> MAX_PATCH_FILE_BYTES < Suc 0" "\<not> MAX_PATCH_FILE_BYTES < Suc (Suc 0)"
    "take (Suc MAX_PATCH_FILE_BYTES) [a, b] = [a, b]"
  by (simp_all add: MAX_PATCH_FILE_BYTES_def)

lemma demo_text: "as_bytes [97, 98] = [97, 98]" "as_bytes [98] = [98]" "as_bytes [99] = [99]"
    "str_len [97, 98] = 2" "str_len [98] = 1" "str_len [99] = 1"
  by (simp_all add: str_len_def as_bytes_def utf8_char_def)

lemma demo_chars: "utf8_char 97 = [97]" "utf8_char 98 = [98]" "utf8_char 99 = [99]"
    "len_utf8 97 = 1" "len_utf8 98 = 1" "len_utf8 99 = 1"
  by (simp_all add: utf8_char_def len_utf8_def)

lemma demo_keys: "lit ''path'' \<noteq> lit ''anchor''" "lit ''path'' \<noteq> lit ''expected_base_sha256''"
    "lit ''replacement'' \<noteq> lit ''anchor''" "lit ''replacement'' \<noteq> lit ''expected_base_sha256''"
    "lit ''replacement'' \<noteq> lit ''path''" "lit ''expected_base_sha256'' \<noteq> lit ''anchor''"
  by (simp_all add: lit_def)

lemma demo_no_range: "filter (bt_contains_key [(lit ''anchor'', a), (lit ''expected_base_sha256'', b), (lit ''path'', c), (lit ''replacement'', d)])
    [lit ''start_byte'', lit ''end_byte'', lit ''expected_text''] = []"
  by (simp add: bt_contains_key_def bt_get_def lit_def)

lemma demo_selector:
  "patch_selector [(lit ''anchor'', JsonText [98]), (lit ''expected_base_sha256'', b), (lit ''path'', c), (lit ''replacement'', d)] =
   Inr (Anchor [98])"
  unfolding patch_selector_def Let_def demo_no_range
  by (simp add: required_string_def demo_fields json_as_str_def trim_Nil_iff is_whitespace_def bt_contains_key_def)

lemma demo_strings:
  fixes m :: "(ustring, JsonValue) btree"
  assumes "m = [(lit ''anchor'', JsonText [98]), (lit ''expected_base_sha256'', JsonText b), (lit ''path'', JsonText c), (lit ''replacement'', JsonText d)]"
  shows "trim c \<noteq> [] \<Longrightarrow> required_string m (lit ''path'') False = Inr c"
    "trim b \<noteq> [] \<Longrightarrow> required_string m (lit ''expected_base_sha256'') False = Inr b"
    "required_string m (lit ''replacement'') True = Inr d"
    "list_ex (\<lambda>k. k \<notin> set allowed_fields) (map fst m) = False" "patch_selector m = Inr (Anchor [98])"
  unfolding assms by (simp_all add: required_string_def demo_fields demo_keys json_as_str_def allowed_fields_def demo_selector)

lemma demo_parse:
  assumes "p \<in> {[102], [46, 47, 102]}"
  shows "parse_request demo_from_str p = Inr (demo_request p)"
proof -
  have "trim p \<noteq> []" "demo_from_str p = Some (demo_item p)"
    using assms by (auto simp: trim_Nil_iff is_whitespace_def demo_from_str_def)
  then show ?thesis unfolding parse_request_def demo_item_def
    by (simp only: option.case JsonValue.case demo_strings [OF refl] demo_digest_trim not_False_eq_True try_then_simps
      Let_def demo_digest_sha256 not_True_eq_False if_False demo_text demo_small demo_request_def)
qed

lemma demo_anchor: "anchor_matches [97, 98] [98] = [1]"
  by (simp add: anchor_matches_def demo_chars byte_slice_def is_char_boundary_def is_continuation_def)

lemma demo_build: "build_plan demo_sha256 [97, 98] (demo_request p) = Inr demo_plan"
  by (simp add: build_plan_def demo_request_def selected_range_def demo_anchor demo_chars sat_add_def u64_max_def
    is_char_boundary_def is_continuation_def byte_slice_def MAX_PATCH_FILE_BYTES_def demo_plan_def Let_def numeral_2_eq_2)

definition one_file :: "fs \<Rightarrow> bool" where
  "one_file fs \<longleftrightarrow> fs [[119]] = Some OtherNode \<and> fs [[119], [102]] = Some (RegularFile [97, 98])"

lemma demo_resolve:
  assumes "one_file fs" "p \<in> {[102], [46, 47, 102]}"
  shows "resolve_existing_target demo_env fs p = Inr [[119], [102]]"
proof -
  have "path_components p = [[102]]" "\<not> is_absolute p" using assms(2)
    by (auto simp: path_components_def lit_def is_absolute_def)
  with assms(1) show ?thesis
    by (simp add: resolve_existing_target_def resolve_workspace_path_def resolve_workspace_read_path_def demo_env_def
      demo_os_def one_file_def canonical_ancestor.simps path_starts_with_def lit_def)
qed

lemma demo_prepare:
  assumes "one_file fs" "p \<in> {[102], [46, 47, 102]}"
  shows "prepare_patch demo_env p fs = Inr (demo_prepared p)"
proof -
  have "read_utf8_base (pe_os demo_env) fs [[119], [102]] = Inr [97, 98]"
    using assms(1) by (simp add: read_utf8_base_def demo_env_def demo_os_def one_file_def MAX_PATCH_FILE_BYTES_def Let_def)
  moreover have "pr_path (demo_request p) = p" "pr_expected_base_sha256 (demo_request p) = sha256_hex demo_sha256 [97, 98]"
    by (simp_all add: demo_request_def)
  moreover have "pe_from_str demo_env = demo_from_str" "pe_sha256 demo_env = demo_sha256" by (simp_all add: demo_env_def)
  ultimately show ?thesis using demo_parse [OF assms(2)] demo_resolve [OF assms] demo_build [of p]
    by (simp add: prepare_patch_def demo_chars Let_def demo_prepared_def)
qed

definition demo_invocation :: "ustring \<Rightarrow> ToolInvocation" where
  "demo_invocation s = \<lparr>ti_id = lit ''call'', ti_input_json = s, ti_metadata = []\<rparr>"

lemma one_file_sample: "one_file demo_fs" by (simp add: one_file_def demo_fs_def)

lemma one_file_kept: "one_file fs \<Longrightarrow> kept fs fs' \<Longrightarrow> one_file fs'" by (simp add: one_file_def kept_def)

lemma demo_publish:
  assumes "one_file fs"
  shows "publish_prepared demo_env demo_calls (demo_prepared p) fs = (Inr (), fs([[119], [102]] \<mapsto> RegularFile [97, 99]))"
  using assms
  by (simp add: publish_prepared_def atomic_replace_def demo_calls_def demo_prepared_def demo_plan_def one_file_def
    bounded_sha256_def demo_env_def MAX_PATCH_FILE_BYTES_def)

lemma demo_applied: "\<exists>x y fs'. patch_execute demo_env demo_calls (demo_invocation [102]) demo_fs =
    (PatchApplied (demo_prepared [102]) x y, fs')"
proof -
  obtain u fs1 where u: "preserve_history_version (pe_os demo_env) (pe_root demo_env) (demo_invocation [102]) ''undo-history''
      (pr_path (pd_request (demo_prepared [102]))) (pd_before (demo_prepared [102])) demo_fs = (u, fs1)" by force
  have "keeps_existing (pe_os demo_env)" using demo_laws by (simp add: demo_env_def)
  then have "one_file fs1" using preserve_history_kept u one_file_sample one_file_kept by blast
  with u demo_prepare [OF one_file_sample, of "[102]"] demo_publish show ?thesis
    by (simp add: patch_execute_def demo_invocation_def finish_publish_def Let_def split: prod.splits)
qed


text \<open>Two paths that name one file: the second publication finds the first one's content, fails, and the first is rolled back.\<close>

definition demo_to_str :: "JsonValue \<Rightarrow> ustring option" where
  "demo_to_str v = Option.bind (json_get v (lit ''path'')) json_as_str"

lemma demo_envelope: "parse_envelope (pe_from_str demo_env) [] = Inr [demo_item [102], demo_item [46, 47, 102]]"
  by (simp add: parse_envelope_def demo_env_def demo_from_str_def bt_get_def MAX_BATCH_PATCHES_def MAX_BATCH_TOTAL_BYTES_def)

lemma demo_item_path: "Option.bind (json_get (demo_item p) (lit ''path'')) json_as_str = Some p"
  by (simp add: demo_item_def json_get_def demo_fields demo_keys json_as_str_def)

definition demo_items :: "BatchItem list" where
  "demo_items = map (\<lambda>p. \<lparr>bi_path = p, bi_prepared = demo_prepared p\<rparr>) [[102], [46, 47, 102]]"

lemma demo_validate: "validate_items demo_env demo_to_str demo_fs [demo_item [102], demo_item [46, 47, 102]] ({}, 0) =
    map ItemReady demo_items"
  using demo_prepare [OF one_file_sample, of "[102]"] demo_prepare [OF one_file_sample, of "[46, 47, 102]"]
  by (simp add: validate_item_def demo_to_str_def demo_item_path demo_items_def demo_prepared_def demo_request_def
    demo_plan_def sat_add_def u64_max_def MAX_BATCH_TOTAL_BYTES_def)

theorem batch_is_all_or_nothing_witness:
  "let (out, fs') = run_batch demo_env demo_to_str (\<lambda>_. demo_calls) (\<lambda>_. demo_calls) (demo_invocation []) demo_fs in
   (\<exists>issue. out = BatchPublishFailed (zip demo_items [StRolledBack, StFailed]) issue) \<and> fs' [[119], [102]] = demo_fs [[119], [102]]"
proof -
  obtain us fs1 where us: "preserve_all demo_env (demo_invocation []) ''undo-history'' pd_before demo_items demo_fs = (us, fs1)" by force
  have laws: "reads_files (pe_os demo_env)" "keeps_existing (pe_os demo_env)" using demo_laws by (simp_all add: demo_env_def)
  then have one: "one_file fs1" using preserve_all_kept us one_file_sample one_file_kept by blast
  let ?fs2 = "fs1([[119], [102]] \<mapsto> RegularFile [97, 99])"
  have second: "publish_prepared demo_env demo_calls (demo_prepared p) ?fs2 =
      (Inl (ReplaceConflict (Some (sha256_hex demo_sha256 [97, 99]))), ?fs2)" for p
    by (simp add: publish_prepared_def atomic_replace_def demo_calls_def demo_prepared_def demo_plan_def
      bounded_sha256_def demo_env_def MAX_PATCH_FILE_BYTES_def demo_digest)
  have restore: "restore_prepared demo_env demo_calls (demo_prepared p) ?fs2 = (Inr (), ?fs2([[119], [102]] \<mapsto> RegularFile [97, 98]))" for p
    by (simp add: restore_prepared_def atomic_replace_def demo_calls_def demo_prepared_def demo_plan_def
      bounded_sha256_def demo_env_def MAX_PATCH_FILE_BYTES_def)
  obtain issue fs' where run: "run_batch demo_env demo_to_str (\<lambda>_. demo_calls) (\<lambda>_. demo_calls) (demo_invocation []) demo_fs =
      (BatchPublishFailed (zip demo_items [StRolledBack, StFailed]) issue, fs')"
    using us demo_publish [OF one] second restore demo_validate
    by (simp add: run_batch_def demo_invocation_def demo_envelope is_refused_def demo_items_def failed_statuses_def Let_def)
  from batch_is_all_or_nothing [OF laws run] have "fs' [[119], [102]] = demo_fs [[119], [102]]"
    by (simp add: demo_items_def demo_prepared_def)
  with run show ?thesis by simp
qed

end
