(* ===== verification/Spec2Isabelle.thy ===== *)
theory Spec2Isabelle
  imports Snapshot_Properties Ledger_Properties Harness_Properties Work_Queue Shell_Properties Web_Properties
    Stream_Deltas Parallel_Properties Parallel_Ordered Identity_Properties Commit_Properties File_Patch_Properties
begin

text \<open>
  \<^bold>\<open>Cindx agent runtime: a verification development\<close>

  Cindx runs language-model agents on a user's machine. This library models the part of it that
  decides what a run may do and what is left behind when it stops. The source paths below are
  relative to \<open>crates/\<close> of the repository.

  \<^bold>\<open>The program's parts and how they interact.\<close> A run owns one \<open>AgentRunControl\<close>
  (\<open>agent-runtime/src/control*.rs\<close>), a mutex-protected state with a few atomic counters. The agent
  loop, the tool runtime, the user interface and background workers all call it: they ask for
  model calls, tool calls and turns, report progress, request steers, take execution leases and
  commit results. The budget it enforces comes from \<open>run_budget.rs\<close>, token reservations and their
  settlement go through \<open>resource_ledger.rs\<close>, and results through \<open>result_frontier.rs\<close>. Controls
  are suspended to snapshots and restored from them, and a run can be split into isolated
  treatments which are absorbed again. Jobs run in parallel through the gate and the supervisor of
  \<open>agent-runtime/src/parallel.rs\<close>, which the desktop uses for tool calls. \<open>agent-harness\<close> keeps the registries through which other
  threads find and cancel runs. \<open>agent-application/src/loss_aware_work_queue.rs\<close> queues background
  work. Before a shell command runs, \<open>tools/src/shell.rs\<close> and \<open>tools/src/shell_classification.rs\<close>
  decide which permission it needs, and \<open>agent-core/src/exec_policy.rs\<close> decides whether an earlier
  grant covers it. Outbound requests follow \<open>agent-core/src/http_policy.rs\<close>; \<open>tools/src/web_fetch.rs\<close>
  audits every hop with it and reads responses through \<open>tools/src/http_wire.rs\<close>. Model responses
  stream through the protocol filter and the delta aggregator of \<open>model-provider\<close>. The event log,
  the status projected from it and the recovery labels are in \<open>agent-core/src/event_contract.rs\<close>,
  \<open>agent-application/src/run_lifecycle.rs\<close> and \<open>agent-application/src/recovery.rs\<close>; a stopped run
  control writes its stop code there and is recovered from it. \<open>agent-core/src/run_identity.rs\<close> maps the
  physical attempts in the log to logical runs, \<open>agent-application/src/strategy_decision.rs\<close> binds a
  chosen strategy to its decision event, and \<open>agent-application/src/terminal_commit.rs\<close> with the
  desktop's \<open>agent_terminal_commit_runtime.rs\<close> commits the terminal event of a run once.

  \<^bold>\<open>Theories and sources.\<close>
  \<^item> \<open>Prelude\<close>, \<open>Number_Text\<close>, \<open>BTree_Map\<close>, \<open>Step_System\<close>: machine integers, clocks, Unicode strings, shared
    flags; numbers as text;
    ordered maps as canonical association lists; the locale of step systems with an invariant and
    a guarantee, which the run control, the ledger, both registries, the work queue and the parallel
    executions interpret.
  \<^item> \<open>Run_Budget\<close> (\<open>run_budget.rs\<close>), \<open>Result_Frontier\<close> (\<open>result_frontier.rs\<close>),
    \<open>Resource_Ledger\<close> and \<open>Ledger_Laws\<close> (\<open>resource_ledger.rs\<close>), \<open>Ledger_Properties\<close>.
  \<^item> \<open>Run_Control_State\<close>, \<open>Run_Control\<close> (\<open>control.rs\<close>, \<open>control_resources.rs\<close>,
    \<open>control_progress.rs\<close>), \<open>Control_Tools\<close> (\<open>control_tool_batch.rs\<close>,
    \<open>control_tool_continuation.rs\<close>), \<open>Control_Steer\<close> (\<open>control_steer.rs\<close>,
    \<open>control_steer_commit.rs\<close>), \<open>Control_Snapshot\<close> (\<open>control_construction.rs\<close>,
    \<open>control_goal_delta.rs\<close> and the snapshots of \<open>control.rs\<close>): every operation of the control.
  \<^item> \<open>Control_Invariants\<close>, \<open>Control_Operations\<close>, \<open>Control_Steps\<close>: the invariant, the proof that each
    operation keeps it and obeys the guarantee, and the step relation with one rule per operation.
    \<open>Control_Properties\<close>, \<open>Tool_Properties\<close>, \<open>Snapshot_Properties\<close> hold its properties,
    \<open>Instances\<close> the concrete run of the witnesses.
  \<^item> \<open>Harness\<close>, \<open>Harness_Properties\<close> (\<open>agent-harness/src/lib.rs\<close>); \<open>Work_Queue\<close>
    (\<open>loss_aware_work_queue.rs\<close>).
  \<^item> \<open>Parallel_Supervisor\<close> (gate, workers and supervisor of \<open>parallel.rs\<close>), \<open>Parallel_Quorum\<close> (the
    quorum executions of \<open>parallel.rs\<close> and \<open>anytime_parallel.rs\<close>), \<open>Parallel_Properties\<close>,
    \<open>Parallel_Ordered\<close> (\<open>run_ordered\<close> and the desktop's \<open>parallel_execution.rs\<close>).
  \<^item> \<open>Text_Search\<close> (splitting and searching text); \<open>Exec_Policy\<close>, \<open>Exec_Policy_Properties\<close>
    (\<open>exec_policy.rs\<close>); \<open>Shell_Commands\<close>, \<open>Shell_Properties\<close> (\<open>shell.rs\<close>,
    \<open>shell_classification.rs\<close>).
  \<^item> \<open>Http_Policy\<close> (\<open>http_policy.rs\<close>), \<open>Web_Fetch\<close> (\<open>web_fetch.rs\<close>, \<open>http_wire.rs\<close>),
    \<open>Web_Properties\<close>.
  \<^item> \<open>Stream_Deltas\<close> (\<open>stream_delta_aggregator.rs\<close> and the filter of \<open>model-provider/src/lib.rs\<close>);
    \<open>Run_Events\<close> (\<open>event_contract.rs\<close>, \<open>run_lifecycle.rs\<close>, \<open>recovery.rs\<close>).
  \<^item> \<open>Run_Identity\<close>, \<open>Identity_Properties\<close> (\<open>run_identity.rs\<close>); \<open>Strategy_Receipt\<close>
    (\<open>strategy_decision.rs\<close>, \<open>run_persistence.rs\<close>), \<open>Terminal_Commit\<close> (\<open>terminal_commit.rs\<close>,
    \<open>agent_terminal_commit_runtime.rs\<close> and the transaction of \<open>agent-storage\<close>), \<open>Commit_Properties\<close>.
  \<^item> \<open>Utf8_Text\<close> (boundaries and slices of text), \<open>Patch_Contract\<close> (\<open>file_patch/contract.rs\<close>),
    \<open>Patch_Properties\<close>, \<open>File_Patch\<close> (\<open>file_patch.rs\<close>, \<open>undo.rs\<close>, \<open>workspace_file.rs\<close>, the paths of
    \<open>tool_support.rs\<close>), \<open>Patch_Batch\<close> (\<open>file_patch/batch.rs\<close>), \<open>File_Patch_Properties\<close>.

  \<^bold>\<open>How state and operations correspond.\<close> A struct is a record with a prefix per type, an enum a
  datatype with the source's constructors, an operation a function from its arguments and the
  state to its result and the new state. The mutex makes each operation of the control one atomic
  step; the atomic counters are fields that operations change with wrap-around written out, and a
  step of another thread may set shared cancellation flags between any two steps. The parallel
  executions have no such lock: there each atomic access, lock section and channel operation is a
  step, a blocked call is one that has no step, and all threads interleave. \<open>Instant::now()\<close>
  is an argument, a sequence of clock readings. A closure that persists something is a function on
  an abstract store that returns an error or a value; \<open>Result\<close> is a sum with the error on the left.
  A \<open>u64\<close> or \<open>usize\<close> is a natural number below \<open>2^64\<close> with saturating, checked and wrapping
  operations as the source chooses them. Loops with an early return are recursions, other loops
  folds; every recursion terminates by its structure, by the length of the text left, or, for the
  lineage, by the attempts not yet visited, so no fuel is used. Parameters stand for code outside the sources: SHA-256 (assumed: digests of 32 bytes),
  \<open>serde_json::to_vec\<close>, SQLite (assumed: a query returns the rows it selects), the hasher behind \<open>fingerprint\<close>, the encoded length of a snapshot, Unicode lower-casing, the name
  resolver, the curl process with the network, and for file patches the JSON parser and the calls of the
  operating system (assumed: reading a canonical path gives the content of the file there, and publishing
  without clobbering keeps existing files).

  \<^bold>\<open>What is shown.\<close>
  \<^item> Run control: terminal commits are final, stop reasons and cancellations stick, steers fence old
    leases, failing closures leave no trace, counters stay within limits and limits within budgets,
    the steer queue keeps order and bound, applied steers make the run leasable.
  \<^item> Tool calls: the cycle guard fires exactly on cycles, a batch refines the serial calls, identical
    calls are bounded, stage calls keep the terminal reserve.
  \<^item> Snapshots, continuations, treatments, goal deltas.
  \<^item> Ledger: balanced books, protected reserves, single settlement, recovery, round trip.
  \<^item> Registries and work queue: no leaks, exclusion, no lost work, bounded retries.
  \<^item> Parallel jobs: the gate bounds the workers, a job ends once, results are exact in every
    interleaving, cancelling callers return without waiting for running jobs, nothing deadlocks.
  \<^item> Shell: the classification fails closed, chaining hides nothing, the two tokenizers agree on what
    a prefix rule accepts, a grant of plain tokens covers its command; and the places where they
    do not: quoted blanks, wrappers, later pipes.
  \<^item> Network: which addresses are public, that an audited target is, that redirects of a fetch stay
    audited and bounded, that the body of a response does not decide its outcome.
  \<^item> Streaming: no split of a response and no timing changes the visible text, and batches are
    bounded. Events: types and labels round-trip, the status is that of the last event.
  \<^item> Identity and commits: the lineage of a log is what the log says and is refused exactly when the
    log is contradictory; receipts and identities survive their metadata, an accepted receipt is the
    digest of its own event; the inspection of a log is exact, a terminal event is committed once,
    and a pending run can be committed.
  \<^item> File patches: a patch replaces one selected text of one file under the workspace root or changes no
    existing file; a batch is applied as a whole or rolled back, with truthful statuses.

  \<^bold>\<open>Not modelled.\<close> Model providers, storage, retrieval, MCP and the desktop application are I/O
  around services, SQLite and the operating system. The agent loop and the workers drive models and
  tools through trait objects and change state only through the run control. The task contract, the
  context compiler, grounding and delivery checks are heuristics and templates over natural language,
  for which the sources state no contract to prove. Of a file patch the rendered receipts are left
  out, as is a writer that ignores the advisory lock between the check of the digest and the rename.
\<close>

section \<open>Granting and bounding\<close>

text \<open>
  Model calls are granted while the budget lasts: in a reachable control that is not
  stopped, a model call below the limit is granted; at the limit, one unspent goal delta extends
  the limit (up to the maximum) and the call is granted too; with the maximum used up or no
  unspent goal delta it is refused, the counter is given back and the run stops with
  \<open>ModelCallBudgetExceeded\<close>.
\<close>

theorem model_calls_granted_while_budget_lasts:
  assumes "sys_init sha256 s" "(control_step fp sha256)\<^sup>*\<^sup>* s (p, c, w)"
    and "new_stop p (clk 0) c = None"
    and "begin_model_call p clk stg c = (r, c')"
  shows "if model_calls c < model_call_limit (ctl_state c) \<or>
        (model_calls c < max_model_calls (budget c) \<and>
         model_extension_goal_delta (ctl_state c) < goal_delta_count (ctl_state c))
    then r = Inr (model_calls c + 1) \<and> model_calls c' = model_calls c + 1 \<and>
      stop_reason (ctl_state c') = None \<and>
      active_model_calls (ctl_state c') = sat_add (active_model_calls (ctl_state c)) 1
    else r = Inl ModelCallBudgetExceeded \<and> model_calls c' = model_calls c \<and>
      stop_reason (ctl_state c') = Some ModelCallBudgetExceeded"
proof -
  note inv = reach_sys_inv [OF assms(1,2)]
  note I = ctl_invD [OF inv]
  have none: "stop_reason (ctl_state c) = None" by (rule new_stop_None [OF assms(3)])
  have op: "begin_model_call_locked (clock_from 1 clk) stg c = (r, c')"
    using assms(3,4) by (simp add: begin_model_call_def stop_first_eqs)
  have lim: "model_call_limit (ctl_state c) \<le> max_model_calls (budget c)" "max_model_calls (budget c) < u64_max"
    using I(4) budget_wf_bounds(1) [OF I(2)] by (simp_all add: limit_ok_def)
  have ok: "fst (checked_model c) \<longleftrightarrow> model_calls c < model_call_limit (ctl_state c) \<or>
      (model_calls c < max_model_calls (budget c) \<and>
       model_extension_goal_delta (ctl_state c) < goal_delta_count (ctl_state c))"
    using lim I(7)
    by (auto simp: checked_model_def extend_model_budget_if_progressed_def Let_def sat_add_def)
  have sel: "active_model_calls (ctl_state (snd (checked_model c))) = active_model_calls (ctl_state c)"
    by (simp add: checked_model_def extend_model_budget_if_progressed_def Let_def)
  note F = checked_model_facts(2,3) [of c]
  show ?thesis
    using op none F sel unfolding begin_model_call_locked_eq [OF inv] ok [symmetric]
    by (auto simp: case_prod_unfold split: if_splits)
qed

text \<open>
  A continuation lease lifts the repeated-action guard and nothing else: it is recorded only
  for an incomplete read-only or idempotent call, and a call under its lease that is admitted
  is counted against the budget like any other but leaves the scope's history and recent actions
  as they were.
\<close>

theorem continuation_lease_scope:
  assumes "record_tool_continuation_at fp e scope tool input eff complete c = (ok, c1)"
    and "continuation_actions (ctl_state c1) scope = Some (fp (HashStrs tool input))"
    and "begin_tool_call_locked fp clk scope tool input c1 = (Inr n, c2)"
    and "objective_epoch_matches e c"
  shows "ok \<and> (eff = ReadOnly \<or> eff = Idempotent) \<and> complete = Some False \<and>
    n = wrap_add (tool_calls c) 1 \<and> tool_calls c2 = n \<and> n \<le> tool_call_limit (ctl_state c2) \<and>
    action_history (ctl_state c2) = action_history (ctl_state c) \<and>
    recent_actions (ctl_state c2) = recent_actions (ctl_state c)"
proof -
  have 1: "ok" "eff = ReadOnly \<or> eff = Idempotent" "complete = Some False"
    "tool_calls c1 = tool_calls c" "action_history (ctl_state c1) = action_history (ctl_state c)"
    "recent_actions (ctl_state c1) = recent_actions (ctl_state c)"
    using assms(1,2,4)
    by (auto simp: record_tool_continuation_at_def continuation_safe_def Let_def split: if_splits)
  define c0 where "c0 = counted_tool_call fp scope tool input c1"
  obtain fine c3 where c3: "checked_tool (wrap_add (tool_calls c1) 1) c0 = (fine, c3)" by fastforce
  note F = checked_tool_facts(6,7) [where c = c0 and n = "wrap_add (tool_calls c1) 1", unfolded c3, simplified]
  have "action_history (ctl_state c2) = action_history (ctl_state c1)"
    "recent_actions (ctl_state c2) = recent_actions (ctl_state c1)"
    using assms(2,3) F unfolding begin_tool_call_locked_eq c0_def [symmetric] c3
    by (auto simp: start_tool_call_def c0_def counted_tool_call_def Let_def split: if_splits)
  with 1 tool_call_admitted [OF assms(3)] show ?thesis by simp
qed

text \<open>
  The best known result of a reachable control never regresses: recording a result keeps or
  raises the rank of the best one, reports a replacement exactly when the rank rises, and the
  frontier stays bounded with no candidate above the best.
\<close>

theorem best_result_never_regresses:
  assumes "sys_init sha256 s" "(control_step fp sha256)\<^sup>*\<^sup>* s (p, c, w)"
    and "record_best_known_result_at clk e stg content q n ver del c = (rep, c')"
    and "best_known_result c = Some b"
  shows "\<exists>b'. best_known_result c' = Some b' \<and> result_rank b \<le> result_rank b' \<and>
    (rep \<longleftrightarrow> result_rank b < result_rank b') \<and>
    length (result_frontier c') \<le> RESULT_FRONTIER_MAX \<and>
    (\<forall>r \<in> set (result_frontier c'). result_rank r \<le> result_rank b')"
proof -
  note inv = reach_sys_inv [OF assms(1,2)]
  have "advances sha256 c c'"
    using advances_record_best_known_result_at [of sha256 c clk e stg content q n ver del] assms(3) by simp
  then have wf: "frontier_wf (results (ctl_state c'))"
    using inv ctl_invD(13) by (auto simp: advances_def)
  have "\<exists>b'. best_known_result c' = Some b' \<and> result_rank b \<le> result_rank b' \<and>
      (rep \<longleftrightarrow> result_rank b < result_rank b')"
    using assms(3,4)
    by (auto simp: record_best_known_result_at_def best_known_result_def frontier_record_def beats_best_def
        Let_def split: if_splits)
  with wf show ?thesis by (auto simp: best_known_result_def result_frontier_def frontier_wf_def)
qed

text \<open>
  Timeouts stay inside the run: a stage's model-call timeout is at most the call timeout and
  at most what the run has left beyond the reserve protected from that stage; setting windows
  aside for recovery only shortens it and leaves at least a second when there is one.
\<close>

theorem stage_timeout_bounds:
  "stage_model_call_timeout clk cls c \<le> model_call_timeout (budget c) \<and>
   stage_model_call_timeout clk cls c \<le>
     max_duration (budget c) - (clk 0 - started_at (ctl_state c)) - protected_time_reserve (budget c) cls \<and>
   stage_model_call_timeout_with_recovery clk cls k window c \<le> stage_model_call_timeout clk cls c \<and>
   min (stage_model_call_timeout clk cls c) (from_secs 1) \<le>
     stage_model_call_timeout_with_recovery clk cls k window c \<and>
   1 \<le> stage_model_call_timeout_seconds clk cls c"
proof -
  define a where "a = stage_model_call_timeout clk cls c"
  have "a \<le> model_call_timeout (budget c)"
    "a \<le> max_duration (budget c) - (clk 0 - started_at (ctl_state c)) - protected_time_reserve (budget c) cls"
    by (simp_all add: a_def stage_model_call_timeout_def Let_def)
  moreover have "stage_model_call_timeout_with_recovery clk cls k window c \<le> a \<and>
      min a (from_secs 1) \<le> stage_model_call_timeout_with_recovery clk cls k window c"
    unfolding stage_model_call_timeout_with_recovery_def Let_def a_def [symmetric]
    by (auto simp: min_def)
  ultimately show ?thesis by (simp add: a_def stage_model_call_timeout_seconds_def)
qed

text \<open>
  A recorded partial output is the end of what was produced: non-empty, at most 24000
  characters, a suffix of the trimmed output, and it is recorded only for the epoch that is
  current and applied.
\<close>

theorem partial_output_is_a_bounded_suffix:
  assumes "record_partial_output_at clk e out c = (True, c')"
  shows "partial_output (ctl_state c') \<noteq> [] \<and>
    length (partial_output (ctl_state c')) \<le> PARTIAL_OUTPUT_MAX_CHARS \<and>
    (\<exists>pre. trim out = pre @ partial_output (ctl_state c')) \<and> objective_epoch_matches e c"
proof -
  have c': "trim out \<noteq> []" "partial_output (ctl_state c') = last_chars PARTIAL_OUTPUT_MAX_CHARS (trim out)"
    "objective_epoch_matches e c"
    using assms
    by (auto simp: record_partial_output_at_def Let_def result_epoch_matches_def objective_epoch_matches_def
        split: if_splits)
  have "\<exists>pre. trim out = pre @ last_chars PARTIAL_OUTPUT_MAX_CHARS (trim out)"
    unfolding last_chars_def by (metis append_Nil append_take_drop_id)
  moreover have "last_chars PARTIAL_OUTPUT_MAX_CHARS (trim out) \<noteq> []"
    using c'(1) by (auto simp: last_chars_def)
  moreover have "length (last_chars PARTIAL_OUTPUT_MAX_CHARS (trim out)) \<le> PARTIAL_OUTPUT_MAX_CHARS"
    by (rule length_last_chars) (simp add: PARTIAL_OUTPUT_MAX_CHARS_def)
  ultimately show ?thesis by (simp add: c')
qed

text \<open>
  Every effort label gives a usable budget: whatever label the caller passes, the budget is
  well formed, the terminal time reserve leaves time to work, each stage class may make at least
  one and at most \<open>max_model_calls\<close> model calls and no class but the finalizer has more time
  than the run; \<open>auto\<close> is \<open>default\<close> and \<open>pro\<close> is \<open>high\<close>.
\<close>

theorem effort_tier_budgets:
  "budget_wf (for_effort e) \<and> terminal_time_reserve (for_effort e) < max_duration (for_effort e) \<and>
   1 \<le> sb_max_model_calls (stage_budget (for_effort e) cls) \<and>
   sb_max_model_calls (stage_budget (for_effort e) cls) \<le> max_model_calls (for_effort e) \<and>
   (cls = Finalizer \<or> sb_max_duration (stage_budget (for_effort e) cls) \<le> max_duration (for_effort e)) \<and>
   for_effort (lit ''auto'') = for_effort (lit ''default'') \<and>
   for_effort (lit ''pro'') = for_effort (lit ''high'')"
proof -
  have wf: "budget_wf (for_effort e)" by (rule for_effort_wf)
  have "terminal_time_reserve (for_effort e) < max_duration (for_effort e)"
    by (simp add: for_effort_def Let_def from_secs_def)
  moreover have "for_effort (lit ''auto'') = for_effort (lit ''default'')"
    "for_effort (lit ''pro'') = for_effort (lit ''high'')"
    by (simp_all add: for_effort_def lit_def)
  ultimately show ?thesis
    using wf stage_budget_calls(1) stage_budget_calls(2) [OF budget_wf_bounds(7) [OF wf]]
      stage_budget_duration [of cls "for_effort e"] by blast
qed

section \<open>The properties on the example run\<close>

theorem model_calls_granted_while_budget_lasts_witness:
  "\<exists>c'. begin_model_call ex_proc ex_clock (lit ''s'') ex_control = (Inr 1, c') \<and> model_calls c' = 1"
proof -
  obtain r c' where r: "begin_model_call ex_proc ex_clock (lit ''s'') ex_control = (r, c')" by fastforce
  have "new_stop ex_proc (ex_clock 0) ex_control = None" by (simp add: ex_clock_def ex_not_stopped)
  from model_calls_granted_while_budget_lasts [OF ex_init rtranclp.rtrancl_refl this r] r
  show ?thesis by (simp add: ex_control_eval)
qed

lemma ex_continuation:
  "\<exists>c1 c2. record_tool_continuation_at ex_hash 0 (lit ''s'') (lit ''read'') (lit ''a'') ReadOnly (Some False) ex_control = (True, c1) \<and>
     continuation_actions (ctl_state c1) (lit ''s'') = Some (ex_hash (HashStrs (lit ''read'') (lit ''a''))) \<and>
     begin_tool_call_locked ex_hash ex_clock (lit ''s'') (lit ''read'') (lit ''a'') c1 = (Inr 1, c2)"
  by (simp add: record_tool_continuation_at_def objective_epoch_matches_def ex_control_eval continuation_safe_def Let_def
      begin_tool_call_locked_def wrap_add_def u64_max_def for_effort_def lit_def ex_hash_def)

theorem continuation_lease_scope_witness:
  "\<exists>c1 c2. record_tool_continuation_at ex_hash 0 (lit ''s'') (lit ''read'') (lit ''a'') ReadOnly (Some False) ex_control = (True, c1) \<and>
     begin_tool_call_locked ex_hash ex_clock (lit ''s'') (lit ''read'') (lit ''a'') c1 = (Inr 1, c2) \<and>
     tool_calls c2 = 1 \<and> action_history (ctl_state c2) = action_history (ctl_state ex_control)"
proof -
  obtain c1 c2 where r: "record_tool_continuation_at ex_hash 0 (lit ''s'') (lit ''read'') (lit ''a'') ReadOnly (Some False) ex_control = (True, c1)"
     "continuation_actions (ctl_state c1) (lit ''s'') = Some (ex_hash (HashStrs (lit ''read'') (lit ''a'')))"
     "begin_tool_call_locked ex_hash ex_clock (lit ''s'') (lit ''read'') (lit ''a'') c1 = (Inr 1, c2)"
    using ex_continuation by blast
  have "objective_epoch_matches 0 ex_control" by (simp add: objective_epoch_matches_def ex_control_eval)
  from continuation_lease_scope [OF r this] r show ?thesis by blast
qed

lemma ex_draft_content: "bounded_result_content (lit ''d'') = lit ''d''"
  by (simp add: bounded_result_content_def last_chars_def trim_def lit_def is_whitespace_def RESULT_CONTENT_MAX_CHARS_def)

lemma ex_drafted_best: "best_known_result ex_drafted = Some ex_draft"
proof -
  have "result_epoch_matches 0 ex_control" by (simp add: result_epoch_matches_def ex_control_eval)
  moreover have "lit ''d'' \<noteq> []" by (simp add: lit_def)
  moreover have "rf_best_known (results (ctl_state ex_control)) = None"
    by (simp add: ex_start_def control_new_def control_new_at_steer_epoch_def with_budget_at_steer_epoch_def
        case_prod_unfold Let_def frontier_default_def)
  ultimately show ?thesis
    by (simp add: best_known_result_def ex_drafted_def record_best_known_result_at_def frontier_record_def
        ex_draft_content Let_def beats_best_def ex_draft_def)
qed

theorem best_result_never_regresses_witness:
  "\<exists>b' rep c'. record_best_known_result_at ex_clock 0 (lit ''s'') (lit ''d'') Verified 2 True True ex_drafted = (rep, c') \<and>
     best_known_result ex_drafted = Some ex_draft \<and> best_known_result c' = Some b' \<and>
     result_rank ex_draft \<le> result_rank b' \<and> (rep \<longleftrightarrow> result_rank ex_draft < result_rank b')"
proof -
  obtain rep c' where r: "record_best_known_result_at ex_clock 0 (lit ''s'') (lit ''d'') Verified 2 True True ex_drafted = (rep, c')"
    by fastforce
  have "(control_step ex_hash ex_sha256)\<^sup>*\<^sup>* (ex_proc, ex_control, 0::nat) (ex_proc, ex_drafted, 0)"
    unfolding ex_drafted_def by (intro r_into_rtranclp control_step.best_result)
  from best_result_never_regresses [OF ex_init this r ex_drafted_best] r ex_drafted_best show ?thesis by blast
qed

theorem partial_output_is_a_bounded_suffix_witness:
  "\<exists>c'. record_partial_output_at ex_clock 0 (lit '' ok'') ex_control = (True, c') \<and> partial_output (ctl_state c') \<noteq> [] \<and>
     (\<exists>pre. trim (lit '' ok'') = pre @ partial_output (ctl_state c'))"
proof -
  have "\<exists>c'. record_partial_output_at ex_clock 0 (lit '' ok'') ex_control = (True, c')"
    by (simp add: record_partial_output_at_def trim_def lit_def is_whitespace_def result_epoch_matches_def ex_control_eval)
  then obtain c' where r: "record_partial_output_at ex_clock 0 (lit '' ok'') ex_control = (True, c')" ..
  from partial_output_is_a_bounded_suffix [OF r] r show ?thesis by blast
qed

end
